(* ===== verification/Prelude.thy ===== *)
theory Prelude
  imports Main "HOL-Library.Word"
begin

text \<open>
  Shared vocabulary of the development: C strings, faults, machine integers, decimal
  printing and parsing as \<open>printf\<close> and \<open>strtol\<close> do it, and the generic lemmas on lists
  and option values the component theories use.
\<close>

section \<open>Vocabulary\<close>

text \<open>
  A \<open>char *\<close> that may be \<open>NULL\<close> is a \<open>cstr\<close>. Strings are NUL-terminated in C; the
  model's strings are the characters before the terminator. A run-time fault of the code
  (dereferencing \<open>NULL\<close>, a call of \<open>abort\<close>, a write past a block, a recursion
  that never returns, an access through a pointer to freed memory) is a value.
\<close>

type_synonym cstr = "string option"
type_synonym u8 = "8 word"
type_synonym u32 = "32 word"
type_synonym u64 = "64 word"

datatype fault = Null_deref | Abort | Diverges | Out_of_bounds | Dangling

type_synonym 'a res = "fault + 'a"

named_theorems frame_simps \<open>what an operation leaves unchanged\<close>
named_theorems path_simps \<open>facts about path strings\<close>

section \<open>Association lists and removal\<close>

text \<open>Removing the entries of one key, and the effect on lookups.\<close>

definition drop_key :: "'k \<Rightarrow> ('k \<times> 'v) list \<Rightarrow> ('k \<times> 'v) list" where
  "drop_key k xs = filter (\<lambda>p. fst p \<noteq> k) xs"

lemma map_of_drop_key [simp]: "map_of (drop_key k xs) j = (if j = k then None else map_of xs j)"
  by (induction xs) (auto simp: drop_key_def)

lemma set_drop_key: "set (drop_key k xs) = {p \<in> set xs. fst p \<noteq> k}"
  by (auto simp: drop_key_def)

lemma distinct_drop_key: "distinct (map fst xs) \<Longrightarrow> distinct (map fst (drop_key k xs))"
  by (induction xs) (auto simp: drop_key_def)

lemma map_of_filter_fst:
  "map_of (filter (\<lambda>p. P (fst p)) xs) k = (if P k then map_of xs k else None)"
  by (induction xs) auto

lemma find_append:
  "find P (xs @ ys) = (case find P xs of None \<Rightarrow> find P ys | Some x \<Rightarrow> Some x)"
  by (induction xs) auto

lemma find_Some_set: "find P xs = Some x \<Longrightarrow> x \<in> set xs \<and> P x"
  by (induction xs) (auto split: if_splits)

lemma find_None_set: "find P xs = None \<longleftrightarrow> (\<forall>x\<in>set xs. \<not> P x)"
  by (induction xs) auto

lemma fold_remove1_filter:
  "\<forall>y \<in> set ys. \<not> P y \<Longrightarrow> fold remove1 (filter P xs) (ys @ xs) = ys @ filter (\<lambda>x. \<not> P x) xs"
proof (induction xs arbitrary: ys)
  case (Cons x xs)
  show ?case
  proof (cases "P x")
    case True
    then have "x \<notin> set ys" using Cons.prems by auto
    then show ?thesis using True Cons by (simp add: remove1_append)
  next
    case False
    then show ?thesis using Cons.IH [of "ys @ [x]"] Cons.prems by auto
  qed
qed simp

lemma remove1_subset: "set (remove1 x xs) \<subseteq> set xs"
  by (rule set_remove1_subset)

text \<open>The index of the first element a search loop stops at.\<close>

fun first_index :: "('a \<Rightarrow> bool) \<Rightarrow> 'a list \<Rightarrow> nat option" where
  "first_index P [] = None"
| "first_index P (x # xs) = (if P x then Some 0 else map_option Suc (first_index P xs))"

lemma first_index_None: "first_index P xs = None \<longleftrightarrow> (\<forall>x \<in> set xs. \<not> P x)"
  by (induction xs) auto

lemma first_index_Some:
  "first_index P xs = Some i \<Longrightarrow> i < length xs \<and> P (xs ! i) \<and> (\<forall>j < i. \<not> P (xs ! j))"
proof (induction xs arbitrary: i)
  case (Cons x xs)
  then show ?case
    by (cases "P x") (auto simp: nth_Cons split: nat.split)
qed simp

section \<open>Characters and decimal numbers\<close>

definition is_digit :: "char \<Rightarrow> bool" where
  "is_digit c \<longleftrightarrow> (48::nat) \<le> of_char c \<and> of_char c \<le> (57::nat)"

definition digit_of :: "nat \<Rightarrow> char" where
  "digit_of d = char_of (48 + d)"

definition digit_val :: "char \<Rightarrow> nat" where
  "digit_val c = of_char c - 48"

lemma of_char_digit_of [simp]: "d < 10 \<Longrightarrow> of_char (digit_of d) = (48 + d :: nat)"
  by (simp add: digit_of_def)

lemma is_digit_digit_of [simp]: "d < 10 \<Longrightarrow> is_digit (digit_of d)"
  by (simp add: is_digit_def)

lemma digit_val_digit_of [simp]: "d < 10 \<Longrightarrow> digit_val (digit_of d) = d"
  by (simp add: digit_val_def)

text \<open>\<open>printf ("%u")\<close>: the decimal digits, most significant first.\<close>

fun show_nat :: "nat \<Rightarrow> string" where
  "show_nat n = (if n < 10 then [digit_of n] else show_nat (n div 10) @ [digit_of (n mod 10)])"

declare show_nat.simps [simp del]

text \<open>The digit loop of \<open>strtol\<close> and \<open>strtoul\<close>: the value and the unread rest.\<close>

fun read_digits :: "nat \<Rightarrow> string \<Rightarrow> nat \<times> string" where
  "read_digits acc [] = (acc, [])"
| "read_digits acc (c # cs) =
     (if is_digit c then read_digits (10 * acc + digit_val c) cs else (acc, c # cs))"

lemma show_nat_digits: "\<forall>c\<in>set (show_nat n). is_digit c"
proof (induction n rule: show_nat.induct)
  case (1 n)
  show ?case
  proof (cases "n < 10")
    case True
    then show ?thesis by (simp add: show_nat.simps)
  next
    case False
    with 1 have "\<forall>c\<in>set (show_nat (n div 10)). is_digit c" by simp
    with False show ?thesis by (subst show_nat.simps) auto
  qed
qed

lemma show_nat_nonempty [simp]: "show_nat n \<noteq> []"
  by (subst show_nat.simps) simp

lemma read_digits_append:
  "\<forall>c\<in>set ds. is_digit c \<Longrightarrow>
   read_digits acc (ds @ rest) = read_digits (fst (read_digits acc ds)) rest"
  by (induction ds arbitrary: acc) auto

lemma read_digits_stop: "rest = [] \<or> \<not> is_digit (hd rest) \<Longrightarrow> read_digits acc rest = (acc, rest)"
  by (cases rest) auto

lemma fst_read_show: "fst (read_digits 0 (show_nat n)) = n"
proof (induction n rule: show_nat.induct)
  case (1 n)
  show ?case
  proof (cases "n < 10")
    case True
    then show ?thesis by (subst show_nat.simps) simp
  next
    case False
    with 1 have ih: "fst (read_digits 0 (show_nat (n div 10))) = n div 10" by simp
    have "read_digits 0 (show_nat n) =
        read_digits (n div 10) [digit_of (n mod 10)]"
      using False ih show_nat_digits [of "n div 10"]
      by (subst show_nat.simps) (simp add: read_digits_append del: read_digits.simps)
    then show ?thesis by simp
  qed
qed

lemma read_show_nat:
  assumes "rest = [] \<or> \<not> is_digit (hd rest)"
  shows "read_digits 0 (show_nat n @ rest) = (n, rest)"
  using assms show_nat_digits [of n]
  by (simp add: read_digits_append fst_read_show read_digits_stop)

text \<open>\<open>printf ("%02u")\<close>.\<close>

definition show_02u :: "nat \<Rightarrow> string" where
  "show_02u n = (if n < 10 then CHR ''0'' # show_nat n else show_nat n)"

lemma length_show_nat_1: "n < 10 \<Longrightarrow> length (show_nat n) = 1"
  by (subst show_nat.simps) simp

lemma length_show_nat_2: "10 \<le> n \<Longrightarrow> n < 100 \<Longrightarrow> length (show_nat n) = 2"
  by (subst show_nat.simps) (simp add: length_show_nat_1)

lemma length_show_02u: "n < 100 \<Longrightarrow> length (show_02u n) = 2"
  by (simp add: show_02u_def length_show_nat_1 length_show_nat_2)

lemma show_nat_inj: "show_nat m = show_nat n \<longleftrightarrow> m = n"
  by (metis fst_read_show)

lemma hd_show_nat_0: "0 < n \<Longrightarrow> hd (show_nat n) \<noteq> CHR ''0''"
proof (induction n rule: show_nat.induct)
  case (1 n)
  show ?case
  proof (cases "n < 10")
    case True
    then have "show_nat n = [digit_of n]" by (simp add: show_nat.simps)
    moreover have "digit_of n \<noteq> CHR ''0''"
    proof
      assume "digit_of n = CHR ''0''"
      then have "of_char (digit_of n) = (48::nat)" by simp
      with True 1 show False by simp
    qed
    ultimately show ?thesis by simp
  next
    case False
    with 1 have "hd (show_nat (n div 10)) \<noteq> CHR ''0''" by simp
    with False show ?thesis by (subst show_nat.simps) simp
  qed
qed

lemma show_02u_small_big: "m < 10 \<Longrightarrow> \<not> n < 10 \<Longrightarrow> show_02u m \<noteq> show_02u n"
proof
  assume m: "m < 10" and n: "\<not> n < 10" and eq: "show_02u m = show_02u n"
  from m n eq have "show_nat n = CHR ''0'' # show_nat m" by (simp add: show_02u_def)
  moreover from n have "hd (show_nat n) \<noteq> CHR ''0''" by (simp add: hd_show_nat_0)
  ultimately show False by simp
qed

lemma show_02u_inj: "show_02u m = show_02u n \<Longrightarrow> m = n"
  using show_02u_small_big [of m n] show_02u_small_big [of n m]
  by (cases "m < 10"; cases "n < 10") (auto simp: show_02u_def show_nat_inj)

section \<open>Reading and printing C integers\<close>

definition newline :: char where
  "newline = CHR 0x0A"

definition is_space :: "char \<Rightarrow> bool" where
  "is_space c \<longleftrightarrow> c \<in> {CHR '' '', CHR 0x09, CHR 0x0A, CHR 0x0B, CHR 0x0C, CHR 0x0D}"

text \<open>
  \<open>strtol (s, &end, 10)\<close> for a 64-bit \<open>long\<close>: the value, the unread rest (all of \<open>s\<close>
  when there are no digits) and whether \<open>errno\<close> was set.
\<close>

definition strtol10 :: "string \<Rightarrow> int \<times> string \<times> bool" where
  "strtol10 s =
     (let t = dropWhile is_space s;
          neg = (t \<noteq> [] \<and> hd t = CHR ''-'');
          u = (if t \<noteq> [] \<and> (hd t = CHR ''-'' \<or> hd t = CHR ''+'') then tl t else t)
      in if u = [] \<or> \<not> is_digit (hd u) then (0, s, False)
         else (let (n, rest) = read_digits 0 u; v = (if neg then - int n else int n)
               in if v > 2 ^ 63 - 1 then (2 ^ 63 - 1, rest, True)
                  else if v < - (2 ^ 63) then (- (2 ^ 63), rest, True)
                  else (v, rest, False)))"

text \<open>\<open>printf ("%ld")\<close> of a 64-bit word.\<close>

definition show_ld :: "u64 \<Rightarrow> string" where
  "show_ld w = (if sint w < 0 then CHR ''-'' # show_nat (nat (- sint w)) else show_nat (nat (sint w)))"

text \<open>
  \<open>strtoul (s, NULL, 10)\<close> for a 64-bit \<open>unsigned long\<close>: out of range it is the
  largest value, and a minus sign negates modulo \<open>2 ^ 64\<close>.
\<close>

definition strtoul10 :: "string \<Rightarrow> u64" where
  "strtoul10 s =
     (let t = dropWhile is_space s;
          neg = (t \<noteq> [] \<and> hd t = CHR ''-'');
          u = (if t \<noteq> [] \<and> (hd t = CHR ''-'' \<or> hd t = CHR ''+'') then tl t else t)
      in if u = [] \<or> \<not> is_digit (hd u) then 0
         else (let n = fst (read_digits 0 u) in
               if n > 2 ^ 64 - 1 then - 1
               else if neg then - word_of_nat n else word_of_nat n))"

lemma sint_small: "n < 2 ^ 63 \<Longrightarrow> sint (word_of_nat n :: u64) = int n"
  by (simp add: signed_of_nat signed_take_bit_int_eq_self)

lemma show_ld_small: "n < 2 ^ 63 \<Longrightarrow> show_ld (word_of_nat n) = show_nat n"
  by (simp add: show_ld_def sint_small)

lemma digit_facts:
  assumes "is_digit c"
  shows "\<not> is_space c" and "c \<noteq> CHR ''-''" and "c \<noteq> CHR ''+''" and "c \<noteq> newline"
  using assms by (auto simp: is_digit_def is_space_def newline_def)

lemma strtol_show:
  assumes "n < 2 ^ 63"
  shows "strtol10 (show_nat n @ [newline]) = (int n, [newline], False)"
proof -
  obtain c cs where c: "show_nat n = c # cs" by (cases "show_nat n") auto
  then have "is_digit c" using show_nat_digits [of n] by simp
  note f = digit_facts [OF this]
  have "\<not> is_digit newline" by (simp add: is_digit_def newline_def)
  then have "read_digits 0 (show_nat n @ [newline]) = (n, [newline])"
    by (intro read_show_nat) simp
  then show ?thesis using assms f \<open>is_digit c\<close> c by (simp add: strtol10_def Let_def)
qed

lemma strtoul_show:
  assumes "n < 2 ^ 64"
  shows "strtoul10 (show_nat n) = word_of_nat n"
proof -
  obtain c cs where c: "show_nat n = c # cs" by (cases "show_nat n") auto
  then have dig: "is_digit c" using show_nat_digits [of n] by simp
  have "fst (read_digits 0 (c # cs)) = n" using fst_read_show [of n] c by simp
  then show ?thesis using assms digit_facts [OF dig] dig c
    by (simp add: strtoul10_def Let_def del: read_digits.simps)
qed

text \<open>\<open>printf ("%d")\<close> of a 32-bit \<open>int\<close>.\<close>

definition show_d :: "u32 \<Rightarrow> string" where
  "show_d w = (if sint w < 0 then CHR ''-'' # show_nat (nat (- sint w)) else show_nat (nat (sint w)))"

lemma sint_small_32: "n < 2 ^ 31 \<Longrightarrow> sint (word_of_nat n :: u32) = int n"
  by (simp add: signed_of_nat signed_take_bit_int_eq_self)

lemma show_d_small: "n < 2 ^ 31 \<Longrightarrow> show_d (word_of_nat n) = show_nat n"
  by (simp add: show_d_def sint_small_32)

lemma length_show_nat_le: "n < 10 ^ k \<Longrightarrow> 0 < k \<Longrightarrow> length (show_nat n) \<le> k"
proof (induction n arbitrary: k rule: show_nat.induct)
  case (1 n)
  show ?case
  proof (cases "n < 10")
    case True
    then show ?thesis using 1 by (simp add: length_show_nat_1)
  next
    case False
    then obtain j where k: "k = Suc j" "0 < j"
      using 1(2,3) False by (cases k; cases "k = 1") auto
    then have "length (show_nat (n div 10)) \<le> j"
      using 1 False by (simp add: less_mult_imp_div_less mult.commute)
    then show ?thesis using False k by (subst show_nat.simps) simp
  qed
qed

lemma length_show_d: "length (show_d w) \<le> 11"
proof -
  have "- (2 ^ 31) \<le> sint w" "sint w < 2 ^ 31"
    using sint_ge [of w] sint_less [of w] by simp_all
  then have "nat (- sint w) < 10 ^ 10" "nat (sint w) < 10 ^ 10" by auto
  then have "length (show_nat (nat (- sint w))) \<le> 10" "length (show_nat (nat (sint w))) \<le> 10"
    by (simp_all add: length_show_nat_le)
  then show ?thesis by (simp add: show_d_def)
qed

text \<open>\<open>sprintf\<close> into a block of the given size; one byte is needed for the terminator.\<close>

definition sprintf_into :: "nat \<Rightarrow> string \<Rightarrow> string res" where
  "sprintf_into block s = (if length s < block then Inr s else Inl Out_of_bounds)"

lemma sprintf_into_fits [simp]: "length s < block \<Longrightarrow> sprintf_into block s = Inr s"
  by (simp add: sprintf_into_def)

text \<open>Sequencing computations that may fault.\<close>

fun bindr :: "'a res \<Rightarrow> ('a \<Rightarrow> 'b res) \<Rightarrow> 'b res" where
  "bindr (Inl f) k = Inl f"
| "bindr (Inr x) k = k x"

lemma bindr_Inr_iff: "bindr m k = Inr y \<longleftrightarrow> (\<exists>x. m = Inr x \<and> k x = Inr y)"
  by (cases m) auto

lemma bindr_Inl_iff: "bindr m k = Inl f \<longleftrightarrow> m = Inl f \<or> (\<exists>x. m = Inr x \<and> k x = Inl f)"
  by (cases m) auto

lemma bindr_cong [fundef_cong]:
  "m = m' \<Longrightarrow> (\<And>x. m' = Inr x \<Longrightarrow> k x = k' x) \<Longrightarrow> bindr m k = bindr m' k'"
  by (cases m') auto

end
