(* ===== verification/Safety.thy ===== *)
theory Safety
  imports Prelude
begin

text \<open>
  \<^verbatim>\<open>common/safety.c\<close>: the checked allocators and the string helpers. A
  \<open>size_t\<close> is 64 bits wide. Whether the allocator of the C library can serve a request of
  a number of bytes is the argument \<open>avail\<close>; the result of an allocator is the number of
  bytes of the block it returns, or the fault \<open>Abort\<close>. A \<open>char **\<close> argument is an
  \<open>option\<close>: \<open>None\<close> when the pointer to the property is itself \<open>NULL\<close>.
\<close>

definition size_max :: u64 where
  "size_max = - 1"

definition lash_malloc :: "(u64 \<Rightarrow> bool) \<Rightarrow> u64 \<Rightarrow> u64 \<Rightarrow> u64 res" where
  "lash_malloc avail nmemb sz =
     (if nmemb \<noteq> 0 \<and> sz \<noteq> 0 then
        (if sz \<le> size_max div nmemb then
           (if avail (nmemb * sz) then Inr (nmemb * sz) else Inl Abort)
         else Inl Abort)
      else Inl Abort)"

definition lash_calloc :: "(u64 \<Rightarrow> bool) \<Rightarrow> u64 \<Rightarrow> u64 \<Rightarrow> u8 list res" where
  "lash_calloc avail nmemb sz =
     (if nmemb \<noteq> 0 \<and> sz \<noteq> 0 then
        (if sz \<le> size_max div nmemb then
           (if avail (nmemb * sz) then Inr (replicate (unat (nmemb * sz)) 0) else Inl Abort)
         else Inl Abort)
      else Inl Abort)"

definition lash_realloc :: "(u64 \<Rightarrow> bool) \<Rightarrow> u8 list \<Rightarrow> u64 \<Rightarrow> u64 \<Rightarrow> (u8 list \<times> u64) res" where
  \<comment> \<open>the bytes kept from the old block, and the size of the new one\<close>
  "lash_realloc avail old nmemb sz =
     (if nmemb \<noteq> 0 \<and> sz \<noteq> 0 then
        (if sz \<le> size_max div nmemb then
           (if avail (nmemb * sz) then Inr (take (unat (nmemb * sz)) old, nmemb * sz)
            else Inl Abort)
         else Inl Abort)
      else Inl Abort)"

definition lash_free :: "'a option option \<Rightarrow> 'a option option" where
  "lash_free ptr = (case ptr of Some (Some x) \<Rightarrow> Some None | _ \<Rightarrow> ptr)"

definition lash_strdup :: "cstr \<Rightarrow> string" where
  "lash_strdup s = (case s of Some x \<Rightarrow> x | None \<Rightarrow> '''')"

definition lash_strset :: "cstr option \<Rightarrow> cstr \<Rightarrow> cstr option" where
  "lash_strset property value =
     (case property of None \<Rightarrow> None
      | Some _ \<Rightarrow> (case value of Some v \<Rightarrow> Some (Some (lash_strdup (Some v))) | None \<Rightarrow> Some None))"

definition lash_catdup :: "cstr \<Rightarrow> cstr \<Rightarrow> string" where
  "lash_catdup s1 s2 = (case (s1, s2) of (Some a, Some b) \<Rightarrow> a @ b | _ \<Rightarrow> '''')"

section \<open>The overflow check\<close>

lemma no_overflow:
  assumes "nmemb \<noteq> 0" and "sz \<le> size_max div nmemb"
  shows "unat (nmemb * sz) = unat nmemb * unat sz"
proof -
  have max: "unat size_max = 2 ^ 64 - 1"
    by (simp add: size_max_def unsigned_minus_1_eq_mask mask_eq_exp_minus_1)
  have "unat sz \<le> unat size_max div unat nmemb"
    using assms(2) by (simp add: word_le_nat_alt unat_div_distrib)
  then have "unat nmemb * unat sz \<le> unat nmemb * (unat size_max div unat nmemb)"
    by (rule mult_le_mono2)
  also have "\<dots> \<le> unat size_max" by simp
  finally have "unat nmemb * unat sz < 2 ^ 64" using max by simp
  then show ?thesis by (simp add: unat_word_ariths)
qed

lemma overflow_rejected:
  assumes "nmemb \<noteq> 0" and "\<not> sz \<le> size_max div nmemb"
  shows "2 ^ 64 \<le> unat nmemb * unat sz"
proof -
  have max: "unat size_max = 2 ^ 64 - 1"
    by (simp add: size_max_def unsigned_minus_1_eq_mask mask_eq_exp_minus_1)
  have pos: "0 < unat nmemb" using assms(1) by (simp add: unat_gt_0)
  have "Suc (unat size_max div unat nmemb) \<le> unat sz"
    using assms(2) by (simp add: word_le_nat_alt unat_div_distrib)
  then have "unat nmemb * Suc (unat size_max div unat nmemb) \<le> unat nmemb * unat sz"
    by (rule mult_le_mono2)
  moreover have "unat size_max < unat nmemb * Suc (unat size_max div unat nmemb)"
    using pos dividend_less_times_div [of "unat nmemb" "unat size_max"] by simp
  ultimately show ?thesis using max by simp
qed

lemma lash_malloc_Inr:
  "lash_malloc avail n s = Inr b \<longleftrightarrow>
     0 < unat n * unat s \<and> unat n * unat s < 2 ^ 64 \<and> b = n * s \<and> avail b"
proof (cases "n \<noteq> 0 \<and> s \<noteq> 0")
  case True
  then have pos: "0 < unat n * unat s" by (simp add: unat_gt_0)
  show ?thesis
  proof (cases "s \<le> size_max div n")
    case le: True
    with True have "unat n * unat s < 2 ^ 64"
      using no_overflow [of n s] unsigned_less [of "n * s", where ?'a = nat] by simp
    with True le pos show ?thesis by (auto simp: lash_malloc_def)
  next
    case False
    with True have "\<not> unat n * unat s < 2 ^ 64" using overflow_rejected [of n s] by simp
    with True False show ?thesis by (simp add: lash_malloc_def)
  qed
next
  case False
  then show ?thesis by (auto simp: lash_malloc_def)
qed

text \<open>
  \<open>lash_malloc\<close> returns a block exactly when the product of its arguments is positive
  and fits in a \<open>size_t\<close> and the C library can serve it, and then the block has exactly
  \<open>nmemb * size\<close> bytes, computed without wrap-around; in every other case it aborts.
\<close>

theorem lash_malloc_exact:
  "map_sum id unat (lash_malloc avail n s) =
     (if 0 < unat n * unat s \<and> unat n * unat s < 2 ^ 64 \<and> avail (n * s)
      then Inr (unat n * unat s) else Inl Abort)"
proof (cases "lash_malloc avail n s")
  case (Inl e)
  then have "e = Abort" by (auto simp: lash_malloc_def split: if_splits)
  with Inl show ?thesis using lash_malloc_Inr [of avail n s "n * s"] by auto
next
  case (Inr b)
  then have fits: "0 < unat n * unat s" "unat n * unat s < 2 ^ 64" "b = n * s" "avail (n * s)"
    by (auto simp: lash_malloc_Inr)
  then have "unat b = unat n * unat s" by (simp add: unat_word_ariths)
  with Inr fits show ?thesis by simp
qed

end
