(* ===== verification/Files.thy ===== *)
theory Files
  imports Safety
begin

text \<open>
  \<^verbatim>\<open>lashd/file.c\<close>: path construction, and the operations on directories and files
  the daemon uses. The file system is a finite tree given as an association list from
  absolute path strings to nodes (its order is the order \<open>readdir\<close> reports), with a set of
  paths on which the operating system denies opening, creating and removing. The POSIX
  calls of the C library are the \<open>posix_\<close> functions; file modes and times are left out.
\<close>

section \<open>Paths\<close>

text \<open>
  \<open>before_last c s\<close> and \<open>after_last c s\<close> are the two sides of the character
  \<open>strrchr (s, c)\<close> finds.
\<close>

definition before_last :: "char \<Rightarrow> string \<Rightarrow> string" where
  "before_last c s = rev (drop 1 (dropWhile (\<lambda>x. x \<noteq> c) (rev s)))"

definition after_last :: "char \<Rightarrow> string \<Rightarrow> string" where
  "after_last c s = rev (takeWhile (\<lambda>x. x \<noteq> c) (rev s))"

abbreviation slash :: char where
  "slash \<equiv> CHR ''/''"

text \<open>
  \<open>lash_get_fqn\<close> formats into a static buffer, whose size it keeps between calls:
  \<open>fqn_size\<close> is the size before the call, the result is the string and the size after it.
\<close>

definition lash_get_fqn :: "nat \<Rightarrow> cstr \<Rightarrow> cstr \<Rightarrow> string \<times> nat" where
  "lash_get_fqn fqn_size param_dir param_file =
     (let dir = lash_strdup param_dir; file = lash_strdup param_file;
          str_size = length dir + 1 + length file + 1;
          fqn_size' = (if str_size > fqn_size then str_size else fqn_size)
      in (dir @ [slash] @ file, fqn_size'))"

definition lash_dup_fqn :: "string \<Rightarrow> string \<Rightarrow> string" where
  "lash_dup_fqn dir file = dir @ [slash] @ file"

abbreviation fqn :: "string \<Rightarrow> string \<Rightarrow> string" where
  "fqn d f \<equiv> fst (lash_get_fqn 48 (Some d) (Some f))"

lemma fqn_eq [simp, path_simps]: "fst (lash_get_fqn n (Some d) (Some f)) = d @ slash # f"
  by (simp add: lash_get_fqn_def Let_def lash_strdup_def)

section \<open>The file system\<close>

datatype node = Dir | File string

record fs =
  nodes :: "(string \<times> node) list"
  denied :: "string \<Rightarrow> bool"

datatype errno = ENOENT | ENOTDIR | EACCES | EEXIST | ENOTEMPTY | EISDIR

definition node_at :: "fs \<Rightarrow> string \<Rightarrow> node option" where
  "node_at s p = map_of (nodes s) p"

definition posix_stat :: "fs \<Rightarrow> string \<Rightarrow> errno + node" where
  "posix_stat s p = (case node_at s p of None \<Rightarrow> Inl ENOENT | Some n \<Rightarrow> Inr n)"

definition posix_opendir :: "fs \<Rightarrow> string \<Rightarrow> errno + unit" where
  "posix_opendir s p =
     (case node_at s p of
        None \<Rightarrow> Inl ENOENT
      | Some (File _) \<Rightarrow> Inl ENOTDIR
      | Some Dir \<Rightarrow> if denied s p then Inl EACCES else Inr ())"

definition child_name :: "string \<Rightarrow> string \<Rightarrow> string option" where
  "child_name d p =
     (if slash \<in> set p \<and> before_last slash p = d then Some (after_last slash p) else None)"

definition posix_readdir :: "fs \<Rightarrow> string \<Rightarrow> string list" where
  "posix_readdir s d = ''.'' # ''..'' # List.map_filter (\<lambda>(p, n). child_name d p) (nodes s)"

definition posix_mkdir :: "fs \<Rightarrow> string \<Rightarrow> errno + fs" where
  "posix_mkdir s p =
     (case node_at s p of
        Some _ \<Rightarrow> Inl EEXIST
      | None \<Rightarrow>
          (case node_at s (let q = before_last slash p in if q = '''' then ''/'' else q) of
             None \<Rightarrow> Inl ENOENT
           | Some (File _) \<Rightarrow> Inl ENOTDIR
           | Some Dir \<Rightarrow> if denied s p then Inl EACCES else Inr (s\<lparr>nodes := nodes s @ [(p, Dir)]\<rparr>)))"

definition posix_unlink :: "fs \<Rightarrow> string \<Rightarrow> errno + fs" where
  "posix_unlink s p =
     (case node_at s p of
        None \<Rightarrow> Inl ENOENT
      | Some Dir \<Rightarrow> Inl EISDIR
      | Some (File _) \<Rightarrow> if denied s p then Inl EACCES else Inr (s\<lparr>nodes := drop_key p (nodes s)\<rparr>))"

definition posix_rmdir :: "fs \<Rightarrow> string \<Rightarrow> errno + fs" where
  "posix_rmdir s p =
     (case node_at s p of
        None \<Rightarrow> Inl ENOENT
      | Some (File _) \<Rightarrow> Inl ENOTDIR
      | Some Dir \<Rightarrow>
          if List.map_filter (\<lambda>(q, n). child_name p q) (nodes s) \<noteq> [] then Inl ENOTEMPTY
          else if denied s p then Inl EACCES
          else Inr (s\<lparr>nodes := drop_key p (nodes s)\<rparr>))"

text \<open>Opening a file for writing truncates or creates it; a write then gives its content.\<close>

definition posix_write_file :: "fs \<Rightarrow> string \<Rightarrow> string \<Rightarrow> errno + fs" where
  "posix_write_file s p content =
     (case node_at s p of
        Some Dir \<Rightarrow> Inl EISDIR
      | Some (File _) \<Rightarrow>
          if denied s p then Inl EACCES
          else Inr (s\<lparr>nodes := map (\<lambda>(q, n). if q = p then (q, File content) else (q, n)) (nodes s)\<rparr>)
      | None \<Rightarrow>
          (case node_at s (before_last slash p) of
             Some Dir \<Rightarrow> if denied s p then Inl EACCES else Inr (s\<lparr>nodes := nodes s @ [(p, File content)]\<rparr>)
           | Some (File _) \<Rightarrow> Inl ENOTDIR
           | None \<Rightarrow> Inl ENOENT))"

definition posix_read_file :: "fs \<Rightarrow> string \<Rightarrow> errno + string" where
  "posix_read_file s p =
     (case node_at s p of
        None \<Rightarrow> Inl ENOENT
      | Some Dir \<Rightarrow> Inl EISDIR
      | Some (File c) \<Rightarrow> if denied s p then Inl EACCES else Inr c)"

text \<open>\<open>rename\<close> of a directory to a path that does not exist moves the whole subtree.\<close>

definition at_or_under :: "string \<Rightarrow> string \<Rightarrow> bool" where
  "at_or_under d p \<longleftrightarrow> p = d \<or> take (length d + 1) p = d @ [slash]"

definition posix_rename_dir :: "fs \<Rightarrow> string \<Rightarrow> string \<Rightarrow> errno + fs" where
  "posix_rename_dir s old new =
     (case node_at s old of
        None \<Rightarrow> Inl ENOENT
      | Some _ \<Rightarrow>
          (case node_at s (before_last slash new) of
             Some Dir \<Rightarrow>
               if denied s old \<or> denied s new then Inl EACCES
               else if at_or_under old new then Inl EEXIST
               else if node_at s new \<noteq> None then Inl ENOTEMPTY
               else Inr (s\<lparr>nodes := map (\<lambda>(p, n). if at_or_under old p
                                 then (new @ drop (length old) p, n) else (p, n)) (nodes s)\<rparr>)
           | Some (File _) \<Rightarrow> Inl ENOTDIR
           | None \<Rightarrow> Inl ENOENT))"

section \<open>The operations of file.c\<close>

definition lash_file_exists :: "fs \<Rightarrow> string \<Rightarrow> bool" where
  "lash_file_exists s file = (case posix_stat s file of Inr _ \<Rightarrow> True | Inl _ \<Rightarrow> False)"

definition lash_dir_exists :: "fs \<Rightarrow> cstr \<Rightarrow> bool" where
  "lash_dir_exists s dir =
     (case dir of None \<Rightarrow> False
      | Some d \<Rightarrow> (case posix_opendir s d of Inr _ \<Rightarrow> True | Inl _ \<Rightarrow> False))"

text \<open>
  The last part of \<open>lash_create_dir\<close>: stat the parent, make the directory. The errors are
  only logged.
\<close>

definition create_in_parent :: "fs \<Rightarrow> string \<Rightarrow> string \<Rightarrow> fs" where
  "create_in_parent s parent dir =
     (case posix_stat s parent of
        Inl _ \<Rightarrow> s
      | Inr _ \<Rightarrow> (case posix_mkdir s dir of Inl _ \<Rightarrow> s | Inr s' \<Rightarrow> s'))"

lemma length_before_last: "c \<in> set s \<Longrightarrow> length (before_last c s) < length s"
proof -
  assume "c \<in> set s"
  then have "dropWhile (\<lambda>x. x \<noteq> c) (rev s) \<noteq> []" by (auto simp: dropWhile_eq_Nil_conv)
  moreover have "length (dropWhile (\<lambda>x. x \<noteq> c) (rev s)) \<le> length s"
    using length_dropWhile_le [of _ "rev s"] by simp
  ultimately show ?thesis by (cases "dropWhile (\<lambda>x. x \<noteq> c) (rev s)") (auto simp: before_last_def)
qed

function lash_create_dir :: "fs \<Rightarrow> string \<Rightarrow> fs" where
  "lash_create_dir s dir =
     (case posix_opendir s dir of
        Inr _ \<Rightarrow> s
      | Inl e \<Rightarrow>
          if e = EACCES then s
          else if slash \<in> set dir then
            (let parent = before_last slash dir in
             if parent \<noteq> [] then create_in_parent (lash_create_dir s parent) parent dir
             else create_in_parent s [slash] dir)
          else create_in_parent s dir dir)"
  by pat_completeness auto
termination
  by (relation "measure (\<lambda>(s, dir). length dir)") (auto simp: length_before_last)

declare lash_create_dir.simps [simp del]

definition is_dot_entry :: "string \<Rightarrow> bool" where
  "is_dot_entry d_name \<longleftrightarrow>
     (case d_name of c # rest \<Rightarrow> c = CHR ''.'' \<and> (rest = [] \<or> hd rest = CHR ''.'' \<and> tl rest = [])
      | [] \<Rightarrow> False)"

definition lash_dir_empty :: "fs \<Rightarrow> string \<Rightarrow> bool" where
  "lash_dir_empty s dir =
     (case posix_opendir s dir of Inl _ \<Rightarrow> False
      | Inr _ \<Rightarrow> list_all is_dot_entry (posix_readdir s dir))"

text \<open>
  \<open>lash_remove_dir\<close> recurses into the subdirectories it finds on disk. The model spends
  one unit of fuel per level; \<open>None\<close> is running out of it. The entry loop returns whether
  it ran to its end: a failing \<open>unlink\<close> leaves the function without the final \<open>rmdir\<close>.
\<close>

fun remove_dir :: "nat \<Rightarrow> fs \<Rightarrow> string \<Rightarrow> fs option"
  and remove_entries :: "nat \<Rightarrow> fs \<Rightarrow> string \<Rightarrow> string list \<Rightarrow> (fs \<times> bool) option" where
  "remove_dir 0 s dir = None"
| "remove_dir (Suc k) s dir =
     (case posix_opendir s dir of
        Inl _ \<Rightarrow> Some s
      | Inr _ \<Rightarrow>
          (case remove_entries k s dir (posix_readdir s dir) of
             None \<Rightarrow> None
           | Some (s', False) \<Rightarrow> Some s'
           | Some (s', True) \<Rightarrow>
               Some (case posix_rmdir s' dir of Inl _ \<Rightarrow> s' | Inr s'' \<Rightarrow> s'')))"
| "remove_entries k s dir [] = Some (s, True)"
| "remove_entries k s dir (e # es) =
     (if is_dot_entry e then remove_entries k s dir es
      else (let f = fqn dir e in
        if posix_stat s f = Inr Dir then
          (case remove_dir k s f of None \<Rightarrow> None | Some s' \<Rightarrow> remove_entries k s' dir es)
        else (case posix_unlink s f of
                Inl _ \<Rightarrow> Some (s, False)
              | Inr s' \<Rightarrow> remove_entries k s' dir es)))"

definition max_path :: "fs \<Rightarrow> nat" where
  "max_path s = fold max (map (length \<circ> fst) (nodes s)) 0"

definition lash_remove_dir :: "fs \<Rightarrow> string \<Rightarrow> fs" where
  "lash_remove_dir s dir = the (remove_dir (Suc (max_path s)) s dir)"

text \<open>\<open>lash_read_text_file\<close>: an empty file gives a \<open>NULL\<close> text.\<close>

definition lash_read_text_file :: "fs \<Rightarrow> string \<Rightarrow> cstr option" where
  "lash_read_text_file s file_path =
     (case posix_read_file s file_path of
        Inl _ \<Rightarrow> None
      | Inr data \<Rightarrow> if length data = 0 then Some None else Some (Some data))"

section \<open>Path lemmas\<close>

lemma last_split:
  assumes "c \<in> set s"
  shows "s = before_last c s @ c # after_last c s"
proof -
  let ?d = "dropWhile (\<lambda>x. x \<noteq> c) (rev s)"
  have "?d \<noteq> []" using assms by (auto simp: dropWhile_eq_Nil_conv)
  then have "?d = c # drop 1 ?d" using hd_dropWhile [of "\<lambda>x. x \<noteq> c" "rev s"] by (cases ?d) auto
  then have "rev s = takeWhile (\<lambda>x. x \<noteq> c) (rev s) @ c # drop 1 ?d"
    by (metis takeWhile_dropWhile_id)
  then have "s = rev (takeWhile (\<lambda>x. x \<noteq> c) (rev s) @ c # drop 1 ?d)"
    by (metis rev_rev_ident)
  then show ?thesis by (simp add: before_last_def after_last_def)
qed

lemma after_last_notin [simp]: "c \<notin> set (after_last c s)"
  by (auto simp: after_last_def dest: set_takeWhileD)

lemma last_of_append [path_simps]:
  assumes "c \<notin> set b"
  shows "before_last c (a @ c # b) = a" and "after_last c (a @ c # b) = b"
proof -
  have "dropWhile (\<lambda>x. x \<noteq> c) (rev b @ c # rev a) = c # rev a"
    using assms by (subst dropWhile_append2) auto
  moreover have "takeWhile (\<lambda>x. x \<noteq> c) (rev b @ c # rev a) = rev b"
    using assms by (subst takeWhile_append2) auto
  ultimately show "before_last c (a @ c # b) = a" and "after_last c (a @ c # b) = b"
    by (simp_all add: before_last_def after_last_def)
qed

lemma child_name_iff: "child_name d p = Some n \<longleftrightarrow> p = d @ slash # n \<and> slash \<notin> set n"
proof
  assume "child_name d p = Some n"
  then have "slash \<in> set p" "before_last slash p = d" "after_last slash p = n"
    by (auto simp: child_name_def split: if_splits)
  then show "p = d @ slash # n \<and> slash \<notin> set n"
    using last_split [of slash p] after_last_notin by metis
qed (simp add: child_name_def last_of_append)

lemma at_or_under_iff: "at_or_under d p \<longleftrightarrow> p = d \<or> (\<exists>r. p = d @ slash # r)"
proof
  assume "at_or_under d p"
  then show "p = d \<or> (\<exists>r. p = d @ slash # r)"
    unfolding at_or_under_def by (metis append.assoc append_Cons append_Nil append_take_drop_id)
qed (auto simp: at_or_under_def)

lemma at_or_under_refl [simp]: "at_or_under d d"
  by (simp add: at_or_under_def)

lemma at_or_under_trans: "at_or_under d q \<Longrightarrow> at_or_under q p \<Longrightarrow> at_or_under d p"
  by (auto simp: at_or_under_iff)

lemma length_at_or_under: "at_or_under d p \<Longrightarrow> length d \<le> length p"
  by (auto simp: at_or_under_iff)

text \<open>Below a directory means at or below one of its entries, or the parent is below too.\<close>

lemma under_parent:
  assumes "p = d @ slash # r" and "p = q @ slash # n" and "slash \<notin> set n"
  shows "q = d \<or> (\<exists>r'. q = d @ slash # r')"
proof -
  have "d @ slash # r = q @ slash # n" using assms by simp
  then obtain us where us: "d = q @ us \<and> us @ slash # r = slash # n \<or>
      d @ us = q \<and> slash # r = us @ slash # n"
    by (auto simp: append_eq_append_conv2)
  then show ?thesis
  proof
    assume "d = q @ us \<and> us @ slash # r = slash # n"
    then show ?thesis using assms(3) by (cases us) auto
  next
    assume "d @ us = q \<and> slash # r = us @ slash # n"
    then show ?thesis by (cases us) auto
  qed
qed

definition parent_of :: "string \<Rightarrow> string" where
  "parent_of p = (let q = before_last slash p in if q = [] then [slash] else q)"

text \<open>
  A well-formed file system: no path twice, and every path but the root has a proper last
  component and a parent that is a directory.
\<close>

definition wf_fs :: "fs \<Rightarrow> bool" where
  "wf_fs s \<longleftrightarrow> distinct (map fst (nodes s)) \<and> node_at s [slash] = Some Dir \<and>
     (\<forall>p\<in>fst ` set (nodes s). p \<noteq> [slash] \<longrightarrow>
        slash \<in> set p \<and> after_last slash p \<noteq> [] \<and> \<not> is_dot_entry (after_last slash p) \<and>
        node_at s (parent_of p) = Some Dir)"

lemma node_at_set: "distinct (map fst (nodes s)) \<Longrightarrow> node_at s p = Some n \<longleftrightarrow> (p, n) \<in> set (nodes s)"
  by (simp add: node_at_def)

lemma node_at_fst: "node_at s p \<noteq> None \<longleftrightarrow> p \<in> fst ` set (nodes s)"
  by (simp add: node_at_def map_of_eq_None_iff)

lemma wf_fs_parent:
  assumes "wf_fs s" and "node_at s p \<noteq> None" and "p \<noteq> [slash]"
  shows "p = before_last slash p @ slash # after_last slash p" "after_last slash p \<noteq> []"
    "\<not> is_dot_entry (after_last slash p)" "node_at s (parent_of p) = Some Dir"
  using assms last_split [of slash p] unfolding wf_fs_def node_at_fst by auto

lemma entry_above:
  assumes "wf_fs s" and "d \<noteq> []"
  shows "node_at s p \<noteq> None \<Longrightarrow> p = d @ slash # r \<Longrightarrow>
    \<exists>n. slash \<notin> set n \<and> node_at s (d @ slash # n) \<noteq> None \<and> at_or_under (d @ slash # n) p"
proof (induction p arbitrary: r rule: length_induct)
  case (1 p)
  let ?q = "before_last slash p" and ?n = "after_last slash p"
  have root: "p \<noteq> [slash]" using 1(3) assms(2) by (cases d) auto
  note par = wf_fs_parent [OF assms(1) 1(2) root]
  from under_parent [OF 1(3) par(1) after_last_notin]
  consider (here) "?q = d" | (below) r' where "?q = d @ slash # r'" by blast
  then show ?case
  proof cases
    case here
    then have "p = d @ slash # ?n" using par(1) by simp
    then show ?thesis using 1(2) after_last_notin [of slash p] at_or_under_refl by metis
  next
    case below
    then have "node_at s ?q \<noteq> None" using par(4) assms(2) by (auto simp: parent_of_def)
    moreover have "length ?q < length p" by (subst (2) par(1)) simp
    ultimately obtain n where "slash \<notin> set n" "node_at s (d @ slash # n) \<noteq> None"
        "at_or_under (d @ slash # n) ?q"
      using 1(1) below by blast
    moreover have "at_or_under ?q p" using par(1) by (auto simp: at_or_under_iff)
    ultimately show ?thesis using at_or_under_trans by blast
  qed
qed

section \<open>Removing a directory tree\<close>

text \<open>\<open>prune_all cs s\<close> is \<open>s\<close> without everything at or below one of the paths \<open>cs\<close>.\<close>

definition prune_all :: "string list \<Rightarrow> fs \<Rightarrow> fs" where
  "prune_all cs s = s\<lparr>nodes := filter (\<lambda>x. \<forall>c\<in>set cs. \<not> at_or_under c (fst x)) (nodes s)\<rparr>"

lemma prune_all_Nil [simp]: "prune_all [] s = s"
  by (simp add: prune_all_def)

lemma prune_all_Cons: "prune_all cs (prune_all [c] s) = prune_all (c # cs) s"
  by (simp add: prune_all_def conj_commute)

lemma denied_prune [simp]: "denied (prune_all cs s) = denied s"
  by (simp add: prune_all_def)

lemma node_at_prune:
  "node_at (prune_all cs s) p = (if \<exists>c\<in>set cs. at_or_under c p then None else node_at s p)"
  by (simp add: node_at_def prune_all_def map_of_filter_fst [where P = "\<lambda>p. \<forall>c\<in>set cs. \<not> at_or_under c p"])

lemma wf_prune:
  assumes "wf_fs s" and "c \<noteq> []" and "c \<noteq> [slash]"
  shows "wf_fs (prune_all [c] s)"
proof -
  have root: "\<not> at_or_under c [slash]"
    using assms(2,3) by (cases c) (auto simp: at_or_under_iff)
  have "node_at (prune_all [c] s) (parent_of p) = Some Dir"
    if p: "p \<in> fst ` set (nodes (prune_all [c] s))" "p \<noteq> [slash]" for p
  proof -
    from p have kept: "\<not> at_or_under c p" and old: "node_at s p \<noteq> None"
      unfolding node_at_fst by (auto simp: prune_all_def)
    note par = wf_fs_parent [OF assms(1) old p(2)]
    have "\<not> at_or_under c (parent_of p)"
    proof (cases "before_last slash p = []")
      case True
      then show ?thesis using root by (simp add: parent_of_def)
    next
      case False
      then have "at_or_under (parent_of p) p" using par(1) by (auto simp: parent_of_def at_or_under_iff)
      then show ?thesis using kept at_or_under_trans by blast
    qed
    with par(4) show ?thesis by (simp add: node_at_prune)
  qed
  moreover have "distinct (map fst (nodes (prune_all [c] s)))"
    using assms(1) by (auto simp: wf_fs_def prune_all_def distinct_map_filter)
  moreover have "node_at (prune_all [c] s) [slash] = Some Dir"
    using assms(1) root by (simp add: wf_fs_def node_at_prune)
  ultimately show ?thesis
    using assms(1) unfolding wf_fs_def by (auto simp: prune_all_def)
qed

lemma fold_max_start: "(a::nat) \<le> fold max xs a"
proof (induction xs arbitrary: a)
  case (Cons x xs)
  from Cons [of "max x a"] show ?case by simp
qed simp

lemma fold_max_le: "(x::nat) \<in> set xs \<Longrightarrow> x \<le> fold max xs a"
proof (induction xs arbitrary: a)
  case (Cons y ys)
  show ?case
  proof (cases "x = y")
    case True
    then show ?thesis using fold_max_start [of "max y a" ys] by simp
  next
    case False
    with Cons show ?thesis by simp
  qed
qed simp

lemma fold_max_least: "\<forall>x\<in>set xs \<union> {a}. x \<le> b \<Longrightarrow> fold max xs a \<le> (b::nat)"
  by (induction xs arbitrary: a) auto

lemma max_path_le: "node_at s p \<noteq> None \<Longrightarrow> length p \<le> max_path s"
  unfolding node_at_fst max_path_def by (rule fold_max_le) auto

lemma max_path_prune: "max_path (prune_all cs s) \<le> max_path s"
proof -
  have "x \<le> max_path s" if "x \<in> set (map (length \<circ> fst) (nodes (prune_all cs s)))" for x
  proof -
    from that have "x \<in> set (map (length \<circ> fst) (nodes s))" by (auto simp: prune_all_def)
    then show ?thesis unfolding max_path_def by (rule fold_max_le)
  qed
  then show ?thesis
    unfolding max_path_def [of "prune_all cs s"] by (intro fold_max_least) auto
qed

text \<open>Nothing is below a plain file, so unlinking it prunes its path.\<close>

lemma nothing_below_file:
  assumes "wf_fs s" and "f \<noteq> []" and "node_at s f = Some (File c)"
  shows "drop_key f (nodes s) = nodes (prune_all [f] s)"
proof -
  have "p = f" if p: "p \<in> fst ` set (nodes s)" "at_or_under f p" for p
  proof (rule ccontr)
    assume "p \<noteq> f"
    then obtain r where "p = f @ slash # r" using p(2) by (auto simp: at_or_under_iff)
    then obtain n where n: "slash \<notin> set n" "node_at s (f @ slash # n) \<noteq> None"
      using entry_above [OF assms(1,2)] p(1) node_at_fst by blast
    have "f @ slash # n \<noteq> [slash]" using assms(2) by (cases f) auto
    from wf_fs_parent(4) [OF assms(1) n(2) this] n(1) assms(2,3) show False
      by (simp add: parent_of_def last_of_append)
  qed
  then show ?thesis unfolding drop_key_def prune_all_def
    by (auto intro!: filter_cong)
qed

lemma sibling_not_under:
  "slash \<notin> set e' \<Longrightarrow> e \<noteq> e' \<Longrightarrow> \<not> at_or_under (d @ slash # e) (d @ slash # e')"
  by (auto simp: at_or_under_iff)

lemma set_map_filter: "y \<in> set (List.map_filter f xs) \<longleftrightarrow> (\<exists>x\<in>set xs. f x = Some y)"
  by (induction xs) (auto simp: List.map_filter_simps split: option.splits)

lemma entries_of_dir:
  "e \<in> set (List.map_filter (\<lambda>(p, n). child_name d p) (nodes s)) \<longleftrightarrow>
     slash \<notin> set e \<and> node_at s (d @ slash # e) \<noteq> None"
  unfolding set_map_filter node_at_fst by (force simp: child_name_iff)

lemma distinct_entries:
  "distinct (map fst xs) \<Longrightarrow> distinct (List.map_filter (\<lambda>(p, n). child_name d p) xs)"
proof (induction xs)
  case (Cons x xs)
  obtain p n where x: "x = (p, n)" by (cases x)
  show ?case
  proof (cases "child_name d p")
    case None
    with Cons x show ?thesis by (simp add: List.map_filter_simps)
  next
    case (Some e)
    have "e \<notin> set (List.map_filter (\<lambda>(p, n). child_name d p) xs)"
      using Cons.prems x Some unfolding set_map_filter by (force simp: child_name_iff)
    with Cons x Some show ?thesis by (simp add: List.map_filter_simps)
  qed
qed (simp add: List.map_filter_simps)

lemma dot_entry_iff: "is_dot_entry e \<longleftrightarrow> e = ''.'' \<or> e = ''..''"
proof (cases e)
  case (Cons c rest)
  then show ?thesis by (cases rest) (auto simp: is_dot_entry_def)
qed (simp add: is_dot_entry_def)

lemma remove_correct:
  "wf_fs s \<Longrightarrow> d \<noteq> [] \<Longrightarrow> d \<noteq> [slash] \<Longrightarrow> node_at s d = Some Dir \<Longrightarrow>
   \<forall>p. at_or_under d p \<longrightarrow> \<not> denied s p \<Longrightarrow> max_path s < length d + k \<Longrightarrow>
   remove_dir k s d = Some (prune_all [d] s)"
  "wf_fs s \<Longrightarrow> d \<noteq> [] \<Longrightarrow> d \<noteq> [slash] \<Longrightarrow>
   \<forall>p. at_or_under d p \<longrightarrow> \<not> denied s p \<Longrightarrow> max_path s < length d + k + 1 \<Longrightarrow>
   \<forall>e\<in>set es. is_dot_entry e \<or> slash \<notin> set e \<and> node_at s (d @ slash # e) \<noteq> None \<Longrightarrow>
   distinct es \<Longrightarrow>
   remove_entries k s d es =
     Some (prune_all (map (\<lambda>e. d @ slash # e) (filter (\<lambda>e. \<not> is_dot_entry e) es)) s, True)"
proof (induction k s d and k s d es rule: remove_dir_remove_entries.induct)
  case (1 s d)
  then show ?case using max_path_le [of s d] by simp
next
  case (2 k s d)
  let ?names = "List.map_filter (\<lambda>(p, n). child_name d p) (nodes s)"
  let ?s' = "prune_all (map (\<lambda>e. d @ slash # e) ?names) s"
  have open_ok: "posix_opendir s d = Inr ()" using 2(5,6) by (simp add: posix_opendir_def)
  have nd: "\<not> is_dot_entry e" if "e \<in> set ?names" for e
  proof -
    from that have e: "slash \<notin> set e" "node_at s (d @ slash # e) \<noteq> None"
      unfolding entries_of_dir by blast+
    have "d @ slash # e \<noteq> [slash]" using 2(3) by (cases d) auto
    from wf_fs_parent(3) [OF 2(2) e(2) this] show ?thesis
      using last_of_append(2) [OF e(1), of d] by simp
  qed
  have flt: "filter (\<lambda>e. \<not> is_dot_entry e) (posix_readdir s d) = ?names"
    using nd by (simp add: posix_readdir_def dot_entry_iff filter_True)
  have dist: "distinct (posix_readdir s d)"
    using distinct_entries [of "nodes s" d] 2(2) nd
    by (auto simp: posix_readdir_def wf_fs_def dot_entry_iff)
  have ents: "remove_entries k s d (posix_readdir s d) = Some (?s', True)"
    using 2(1) [OF open_ok] 2(2-7) dist flt
    by (auto simp: posix_readdir_def dot_entry_iff entries_of_dir)
  have keep_d: "node_at ?s' d = Some Dir"
    using 2(5) by (auto simp: node_at_prune at_or_under_iff)
  have empty: "List.map_filter (\<lambda>(q, n). child_name d q) (nodes ?s') = []"
  proof (rule ccontr)
    assume "\<not> ?thesis"
    then obtain e where "e \<in> set (List.map_filter (\<lambda>(q, n). child_name d q) (nodes ?s'))"
      by (metis last_in_set)
    then have e: "slash \<notin> set e" "node_at ?s' (d @ slash # e) \<noteq> None"
      unfolding entries_of_dir by blast+
    then have "e \<in> set ?names" unfolding entries_of_dir by (auto simp: node_at_prune split: if_splits)
    then have "node_at ?s' (d @ slash # e) = None"
      using at_or_under_refl [of "d @ slash # e"] by (auto simp: node_at_prune)
    with e(2) show False by simp
  qed
  have rm: "posix_rmdir ?s' d = Inr (?s'\<lparr>nodes := drop_key d (nodes ?s')\<rparr>)"
    using keep_d empty 2(6) by (simp add: posix_rmdir_def)
  have eqv: "(\<forall>e\<in>set ?names. \<not> at_or_under (d @ slash # e) (fst x)) \<and> fst x \<noteq> d \<longleftrightarrow>
      \<not> at_or_under d (fst x)" if x: "x \<in> set (nodes s)" for x
  proof (cases "at_or_under d (fst x) \<and> fst x \<noteq> d")
    case True
    then obtain r where "fst x = d @ slash # r" by (auto simp: at_or_under_iff)
    moreover have "node_at s (fst x) \<noteq> None" using x unfolding node_at_fst by blast
    ultimately obtain n where "slash \<notin> set n" "node_at s (d @ slash # n) \<noteq> None"
        "at_or_under (d @ slash # n) (fst x)"
      using entry_above [OF 2(2,3)] by blast
    then show ?thesis using True entries_of_dir [of n d s] by auto
  next
    case False
    then show ?thesis using at_or_under_trans [of d] by (auto simp: at_or_under_iff)
  qed
  have "filter (\<lambda>x. (\<forall>e\<in>set ?names. \<not> at_or_under (d @ slash # e) (fst x)) \<and> fst x \<noteq> d) (nodes s) =
      filter (\<lambda>x. \<not> at_or_under d (fst x)) (nodes s)"
    by (rule filter_cong [OF refl]) (rule eqv)
  then have "?s'\<lparr>nodes := drop_key d (nodes ?s')\<rparr> = prune_all [d] s"
    by (simp add: prune_all_def drop_key_def)
  then show ?case using open_ok ents rm by simp
next
  case (3 k s d)
  then show ?case by simp
next
  case (4 k s d e es)
  show ?case
  proof (cases "is_dot_entry e")
    case True
    with 4 show ?thesis by simp
  next
    case False
    let ?f = "d @ slash # e"
    let ?s' = "prune_all [?f] s"
    from 4(10) False have e: "slash \<notin> set e" "node_at s ?f \<noteq> None" by auto
    have f: "?f \<noteq> []" "?f \<noteq> [slash]" using 4(6) by (cases d; simp)+
    have wf': "wf_fs ?s'" using wf_prune [OF 4(5) f] .
    have len: "length d + 2 \<le> length ?f"
      using wf_fs_parent(2) [OF 4(5) e(2) f(2)] e(1) by (cases e) (auto simp: last_of_append)
    have "\<not> at_or_under ?f (d @ slash # e')" if "e' \<in> set es" "\<not> is_dot_entry e'" for e'
      using 4(10,11) that sibling_not_under [of e' e d] by auto
    then have es: "\<forall>e'\<in>set es. is_dot_entry e' \<or>
        slash \<notin> set e' \<and> node_at ?s' (d @ slash # e') \<noteq> None"
      using 4(10) by (auto simp: node_at_prune)
    have mp: "max_path ?s' < length d + k + 1" using max_path_prune [of "[?f]" s] 4(9) by linarith
    have den: "\<forall>p. at_or_under d p \<longrightarrow> \<not> denied ?s' p" using 4(8) by simp
    show ?thesis
    proof (cases "node_at s ?f = Some Dir")
      case True
      have den_f: "\<forall>p. at_or_under ?f p \<longrightarrow> \<not> denied s p"
        using 4(8) at_or_under_trans [of d ?f] by (auto simp: at_or_under_iff)
      have mp_f: "max_path s < length ?f + k" using 4(9) len by linarith
      have "posix_stat s ?f = Inr Dir" using True by (simp add: posix_stat_def)
      then have "remove_dir k s ?f = Some ?s'"
        using 4(2) [OF False _ _ 4(5) f True den_f mp_f] by simp
      moreover have "remove_entries k ?s' d es = Some (prune_all (map (\<lambda>e. d @ slash # e)
          (filter (\<lambda>e. \<not> is_dot_entry e) es)) ?s', True)"
        using 4(3) [of ?f ?s'] False True f wf' den mp es 4(6,7,11) calculation
        by (simp add: posix_stat_def)
      ultimately show ?thesis using False True by (simp add: posix_stat_def prune_all_Cons)
    next
      case notdir: False
      then obtain c where c: "node_at s ?f = Some (File c)" using e(2) by (metis node.exhaust option.exhaust)
      have "\<not> denied s ?f" using 4(8) by (auto simp: at_or_under_iff)
      then have un: "posix_unlink s ?f = Inr ?s'"
        using c nothing_below_file [OF 4(5) f(1) c] by (simp add: posix_unlink_def prune_all_def)
      moreover have "remove_entries k ?s' d es = Some (prune_all (map (\<lambda>e. d @ slash # e)
          (filter (\<lambda>e. \<not> is_dot_entry e) es)) ?s', True)"
        using 4(4) [OF False _ _ un wf' 4(6,7) den mp es] 4(11) c by (simp add: posix_stat_def)
      ultimately show ?thesis using False c by (simp add: posix_stat_def prune_all_Cons)
    qed
  qed
qed


section \<open>Creating a directory and its ancestors\<close>

text \<open>The directories \<open>lash_create_dir\<close> visits: the path and its ancestors below the root.\<close>

function ancestors :: "string \<Rightarrow> string list" where
  "ancestors d = (if slash \<in> set d \<and> before_last slash d \<noteq> []
     then ancestors (before_last slash d) @ [d] else [d])"
  by pat_completeness auto
termination
  by (relation "measure length") (auto simp: length_before_last)

declare ancestors.simps [simp del]

text \<open>An absolute path whose components are proper names.\<close>

definition good_path :: "string \<Rightarrow> bool" where
  "good_path d \<longleftrightarrow> (\<forall>q\<in>set (ancestors d). hd q = slash \<and> q \<noteq> [] \<and>
     after_last slash q \<noteq> [] \<and> \<not> is_dot_entry (after_last slash q))"

lemma ancestors_self: "d \<in> set (ancestors d)"
  by (subst ancestors.simps) simp

lemma length_ancestors: "q \<in> set (ancestors d) \<Longrightarrow> length q \<le> length d"
proof (induction d rule: ancestors.induct)
  case (1 d)
  show ?case
  proof (cases "slash \<in> set d \<and> before_last slash d \<noteq> []")
    case True
    with 1 show ?thesis using length_before_last [of slash d]
      by (subst (asm) (2) ancestors.simps) fastforce
  next
    case False
    with 1(2) show ?thesis by (subst (asm) ancestors.simps) simp
  qed
qed

lemma good_path_parent:
  assumes "good_path d"
  shows "slash \<in> set d" and "before_last slash d \<noteq> [] \<Longrightarrow> good_path (before_last slash d)"
    and "after_last slash d \<noteq> []" and "\<not> is_dot_entry (after_last slash d)" and "d \<noteq> [slash]"
proof -
  have d: "hd d = slash" "d \<noteq> []" "after_last slash d \<noteq> []" "\<not> is_dot_entry (after_last slash d)"
    using assms ancestors_self [of d] by (auto simp: good_path_def)
  show sl: "slash \<in> set d" using d(1,2) hd_in_set [of d] by simp
  show "after_last slash d \<noteq> []" "\<not> is_dot_entry (after_last slash d)" using d by simp_all
  show "d \<noteq> [slash]" using d(3) by (auto simp: after_last_def)
  show "good_path (before_last slash d)" if "before_last slash d \<noteq> []"
    using assms that sl ancestors.simps [of d] by (auto simp: good_path_def)
qed

lemma wf_add_dir:
  assumes "wf_fs s" and "node_at s d = None" and "good_path d" and "node_at s (parent_of d) = Some Dir"
  shows "wf_fs (s\<lparr>nodes := nodes s @ [(d, Dir)]\<rparr>)"
    and "node_at (s\<lparr>nodes := nodes s @ [(d, Dir)]\<rparr>) p = (if p = d then Some Dir else node_at s p)"
proof -
  let ?s = "s\<lparr>nodes := nodes s @ [(d, Dir)]\<rparr>"
  have at: "node_at ?s q = (if q = d then Some Dir else node_at s q)" for q
    using assms(2) by (auto simp: node_at_def map_add_def split: option.splits)
  then show "node_at ?s p = (if p = d then Some Dir else node_at s p)" .
  have "d \<notin> fst ` set (nodes s)" using assms(2) node_at_fst [of s d] by auto
  then show "wf_fs ?s"
    using assms(1,4) good_path_parent [OF assms(3)] unfolding wf_fs_def by (auto simp: at)
qed

lemma ancestors_exist:
  "wf_fs s \<Longrightarrow> good_path d \<Longrightarrow> node_at s d = Some Dir \<Longrightarrow> q \<in> set (ancestors d) \<Longrightarrow>
   node_at s q = Some Dir"
proof (induction d rule: ancestors.induct)
  case (1 d)
  note par = wf_fs_parent(4) [OF 1(2) _ good_path_parent(5) [OF 1(3)]]
  show ?case
    using 1 par good_path_parent(1,2) [OF 1(3)] ancestors.simps [of d]
    by (auto simp: parent_of_def split: if_splits)
qed

lemma create_in_parent_ok:
  assumes "wf_fs s" and "node_at s d = None" and "good_path d" and "\<not> denied s d"
    and "node_at s (parent_of d) = Some Dir"
  shows "create_in_parent s (parent_of d) d = s\<lparr>nodes := nodes s @ [(d, Dir)]\<rparr>"
  using assms
  by (simp add: create_in_parent_def posix_stat_def posix_mkdir_def parent_of_def Let_def split: if_splits)

lemma create_dir_correct:
  "wf_fs s \<Longrightarrow> good_path d \<Longrightarrow>
   \<forall>q\<in>set (ancestors d). \<not> denied s q \<and> (node_at s q = None \<or> node_at s q = Some Dir) \<Longrightarrow>
   (\<forall>p. node_at (lash_create_dir s d) p = (if p \<in> set (ancestors d) then Some Dir else node_at s p)) \<and>
   wf_fs (lash_create_dir s d) \<and> denied (lash_create_dir s d) = denied s"
proof (induction s d rule: lash_create_dir.induct)
  case (1 s d)
  let ?q = "before_last slash d"
  note gp = good_path_parent [OF 1(3)]
  have self: "\<not> denied s d" "node_at s d = None \<or> node_at s d = Some Dir"
    using 1(4) ancestors_self [of d] by auto
  show ?case
  proof (cases "node_at s d")
    case (Some n)
    then have "lash_create_dir s d = s"
      using self by (subst lash_create_dir.simps) (simp add: posix_opendir_def)
    then show ?thesis using ancestors_exist [OF 1(2,3)] Some self 1(2) by auto
  next
    case None
    then have nop: "posix_opendir s d = Inl ENOENT" by (simp add: posix_opendir_def)
    show ?thesis
    proof (cases "?q = []")
      case True
      then have p: "parent_of d = [slash]" by (simp add: parent_of_def)
      then have root: "node_at s (parent_of d) = Some Dir" using 1(2) by (simp add: wf_fs_def)
      have "lash_create_dir s d = create_in_parent s (parent_of d) d"
        using nop gp(1) True p by (subst lash_create_dir.simps) simp
      then show ?thesis
        using create_in_parent_ok [OF 1(2) None 1(3) self(1) root] wf_add_dir [OF 1(2) None 1(3) root]
          True ancestors.simps [of d] by simp
    next
      case False
      let ?s = "lash_create_dir s ?q"
      have anc: "set (ancestors d) = insert d (set (ancestors ?q))"
        using False gp(1) ancestors.simps [of d] by auto
      have ih: "\<forall>p. node_at ?s p = (if p \<in> set (ancestors ?q) then Some Dir else node_at s p)"
        "wf_fs ?s" "denied ?s = denied s"
        using 1(1) [OF nop _ gp(1) refl False 1(2) gp(2) [OF False]] 1(4) anc by auto
      have dq: "d \<notin> set (ancestors ?q)"
        using length_ancestors [of d ?q] length_before_last [of slash d] gp(1) by auto
      have none: "node_at ?s d = None" using ih(1) dq None by simp
      have par: "parent_of d = ?q" "node_at ?s (parent_of d) = Some Dir"
        using False ih(1) ancestors_self [of ?q] by (auto simp: parent_of_def)
      have den: "\<not> denied ?s d" using ih(3) self(1) by simp
      have "lash_create_dir s d = create_in_parent ?s (parent_of d) d"
        using nop gp(1) False par(1) by (subst lash_create_dir.simps) (simp add: Let_def)
      then show ?thesis
        using create_in_parent_ok [OF ih(2) none 1(3) den par(2)] wf_add_dir [OF ih(2) none 1(3) par(2)]
          ih(1,3) anc by auto
    qed
  qed
qed

text \<open>
  On a well-formed file system, for a proper absolute path none of whose prefixes is
  denied or a plain file, \<open>lash_create_dir\<close> makes the directory together with all its
  missing ancestors and changes nothing else, and the file system stays well-formed.
\<close>

theorem lash_create_dir_exact:
  assumes "wf_fs s" and "good_path d"
    and "\<forall>q\<in>set (ancestors d). \<not> denied s q \<and> (node_at s q = None \<or> node_at s q = Some Dir)"
  shows "(\<forall>p. node_at (lash_create_dir s d) p =
      (if p \<in> set (ancestors d) then Some Dir else node_at s p)) \<and> wf_fs (lash_create_dir s d)"
  using create_dir_correct [OF assms] by blast

lemmas dir_exists_def = lash_dir_exists_def posix_opendir_def

lemma create_dir_then_exists:
  assumes "wf_fs s" and "good_path d"
    and "\<forall>q\<in>set (ancestors d). \<not> denied s q \<and> (node_at s q = None \<or> node_at s q = Some Dir)"
  shows "lash_dir_exists (lash_create_dir s d) (Some d)"
  using create_dir_correct [OF assms] assms(3) ancestors_self [of d] by (simp add: dir_exists_def)

text \<open>
  A relative path of a single component is never created: without a slash the parent
  that is looked up is the missing path itself, so \<open>lash_create_dir\<close> gives up.
\<close>

theorem lash_create_dir_relative:
  assumes "slash \<notin> set d" and "node_at s d = None"
  shows "lash_create_dir s d = s"
  using assms
  by (subst lash_create_dir.simps)
     (simp add: posix_opendir_def create_in_parent_def posix_stat_def)

section \<open>Examples\<close>

definition example_fs :: fs where
  "example_fs = \<lparr>nodes = [(''/'', Dir), (''/p'', Dir), (''/p/a'', File ''x''), (''/p/d'', Dir),
     (''/p/d/b'', File ''y''), (''/q'', Dir)], denied = (\<lambda>_. False)\<rparr>"

lemma wf_example_fs: "wf_fs example_fs"
  by code_simp

lemma denied_example_fs [simp]: "denied example_fs p = False"
  by (simp add: example_fs_def)


theorem lash_create_dir_exact_witness:
  "node_at (lash_create_dir example_fs ''/q/x/y'') ''/q/x'' = Some Dir \<and>
   node_at (lash_create_dir example_fs ''/q/x/y'') ''/p/a'' = Some (File ''x'')"
proof -
  have g: "good_path ''/q/x/y''" by code_simp
  have h: "\<forall>q\<in>set (ancestors ''/q/x/y''). \<not> denied example_fs q \<and>
      (node_at example_fs q = None \<or> node_at example_fs q = Some Dir)" by code_simp
  from lash_create_dir_exact [OF wf_example_fs g h]
  have r: "node_at (lash_create_dir example_fs ''/q/x/y'') p =
      (if p \<in> set (ancestors ''/q/x/y'') then Some Dir else node_at example_fs p)" for p by simp
  have "''/q/x'' \<in> set (ancestors ''/q/x/y'')" "''/p/a'' \<notin> set (ancestors ''/q/x/y'')"
    "node_at example_fs ''/p/a'' = Some (File ''x'')" by code_simp+
  then show ?thesis by (simp add: r)
qed

theorem lash_create_dir_relative_witness:
  "lash_create_dir example_fs ''audio-projects'' = example_fs"
proof -
  have "slash \<notin> set ''audio-projects''" "node_at example_fs ''audio-projects'' = None" by code_simp+
  then show ?thesis by (rule lash_create_dir_relative)
qed

end
