(* ===== verification/Store.thy ===== *)
theory Store
  imports Files
begin

text \<open>
  \<^verbatim>\<open>lashd/store.c\<close>: the store of configuration values of a client. A store is a
  directory with one file per key and an info file listing the keys; values set by the
  client stay in memory (\<open>unstored_configs\<close>) until \<open>store_write\<close>. A value lives in an
  allocated block, \<open>cfg_block\<close>, of which the first \<open>value_size\<close> bytes count, so that the
  \<open>memcpy\<close> of \<open>store_set_config\<close> can be checked against the block. A file holds no NUL
  bytes in its text lines; writes to an opened file are complete.
\<close>

section \<open>Data\<close>

record store_config =
  cfg_key :: string
  cfg_block :: string
  value_size :: u64
  cfg_type :: char

record store =
  st_dir :: cstr
  num_keys :: u64
  st_keys :: "string list"
  removed_keys :: "string list"
  unstored_configs :: "store_config list"

definition store_new :: store where
  "store_new = \<lparr>st_dir = None, num_keys = 0, st_keys = [], removed_keys = [], unstored_configs = []\<rparr>"

definition store_info_file :: string where
  "store_info_file = ''.store_info''"

definition store_get_info_filename :: "store \<Rightarrow> string" where
  "store_get_info_filename st = fst (lash_get_fqn 48 (st_dir st) (Some store_info_file))"

definition store_get_config_filename :: "store \<Rightarrow> string \<Rightarrow> string" where
  "store_get_config_filename st key = fst (lash_get_fqn 48 (st_dir st) (Some key))"

section \<open>Lines of the info file\<close>

text \<open>\<open>getline\<close>: the lines of a file, each with its terminator, the last perhaps without.\<close>

fun file_lines :: "string \<Rightarrow> string list" where
  "file_lines [] = []"
| "file_lines (c # cs) =
     (if c = newline then [c] # file_lines cs
      else (case file_lines cs of [] \<Rightarrow> [[c]]
            | l # ls \<Rightarrow> (c # l) # ls))"

section \<open>Opening a store\<close>

text \<open>The key loop: \<open>None\<close> when the file ends before \<open>n\<close> lines were read.\<close>

fun read_keys :: "nat \<Rightarrow> string list \<Rightarrow> string list option" where
  "read_keys 0 ls = Some []"
| "read_keys (Suc n) [] = None"
| "read_keys (Suc n) (l # ls) =
     (case read_keys n ls of None \<Rightarrow> None
      | Some ks \<Rightarrow> Some (takeWhile (\<lambda>c. c \<noteq> newline) l # ks))"

definition store_open :: "fs \<Rightarrow> store \<Rightarrow> store \<times> bool" where
  "store_open s st =
     (if \<not> lash_dir_exists s (st_dir st) then (st, False)
      else (let filename = store_get_info_filename st in
        if \<not> lash_file_exists s filename then (st, False)
        else (case posix_read_file s filename of
            Inl _ \<Rightarrow> (st, False)
          | Inr content \<Rightarrow>
              (case file_lines content of
                 [] \<Rightarrow> (st\<lparr>num_keys := 0\<rparr>, False)
               | line # rest \<Rightarrow>
                   (let (n, endptr, erange) = strtol10 line in
                    if erange then (st\<lparr>num_keys := 0\<rparr>, False)
                    else if endptr = [] \<or> hd endptr \<noteq> newline then (st\<lparr>num_keys := 0\<rparr>, False)
                    else (case read_keys (unat (word_of_int n :: u64)) rest of
                        None \<Rightarrow> (st\<lparr>st_keys := [], num_keys := 0\<rparr>, False)
                      | Some ks \<Rightarrow> (st\<lparr>st_keys := st_keys st @ ks, num_keys := word_of_int n\<rparr>, True)))))))"

section \<open>Writing a store\<close>

text \<open>The four bytes of a 32-bit number in network byte order.\<close>

definition be32 :: "u32 \<Rightarrow> string" where
  "be32 w = [char_of (unat w div 2 ^ 24), char_of (unat w div 2 ^ 16 mod 256),
             char_of (unat w div 2 ^ 8 mod 256), char_of (unat w mod 256)]"

definition of_be32 :: "string \<Rightarrow> u32" where
  "of_be32 bs = (case bs of [a, b, c, d] \<Rightarrow>
       word_of_nat (of_char a * 2 ^ 24 + of_char b * 2 ^ 16 + of_char c * 2 ^ 8 + of_char d)
     | _ \<Rightarrow> 0)"

definition cfg_value :: "store_config \<Rightarrow> string" where
  "cfg_value c = take (unat (value_size c)) (cfg_block c)"

definition store_write_config :: "fs \<Rightarrow> store \<Rightarrow> store_config \<Rightarrow> fs \<times> bool" where
  "store_write_config s st config =
     (if value_size config = 0 then (s, False)
      else (case posix_write_file s (store_get_config_filename st (cfg_key config))
              (be32 (ucast (value_size config)) @ cfg_value config @ [cfg_type config]) of
              Inl _ \<Rightarrow> (s, False)
            | Inr s' \<Rightarrow> (s', True)))"

fun write_configs_loop :: "fs \<Rightarrow> store \<Rightarrow> store_config list \<Rightarrow> fs \<times> store_config list \<times> bool" where
  \<comment> \<open>the file system, the configs that stay in the list, and the result\<close>
  "write_configs_loop s st [] = (s, [], True)"
| "write_configs_loop s st (c # cs) =
     (case store_write_config s st c of
        (s1, True) \<Rightarrow> write_configs_loop s1 st cs
      | (s1, False) \<Rightarrow> (case write_configs_loop s1 st cs of (s2, left, _) \<Rightarrow> (s2, c # left, False)))"

definition store_write_configs :: "fs \<Rightarrow> store \<Rightarrow> fs \<times> store \<times> bool" where
  "store_write_configs s st =
     (case write_configs_loop s st (unstored_configs st) of
        (s', left, ok) \<Rightarrow> (s', st\<lparr>unstored_configs := left\<rparr>, ok))"

definition info_content :: "store \<Rightarrow> string" where
  "info_content st = show_ld (num_keys st) @ [newline] @ concat (map (\<lambda>k. k @ [newline]) (st_keys st))"

definition store_write_info_file :: "fs \<Rightarrow> store \<Rightarrow> fs \<times> bool" where
  "store_write_info_file s st =
     (case posix_write_file s (store_get_info_filename st) (info_content st) of
        Inl _ \<Rightarrow> (s, False) | Inr s' \<Rightarrow> (s', True))"

fun delete_removed_loop :: "fs \<Rightarrow> store \<Rightarrow> string list \<Rightarrow> fs \<times> string list" where
  "delete_removed_loop s st [] = (s, [])"
| "delete_removed_loop s st (k # ks) =
     (let filename = store_get_config_filename st k in
      if lash_file_exists s filename then
        (case posix_unlink s filename of
           Inl _ \<Rightarrow> (case delete_removed_loop s st ks of (s', left) \<Rightarrow> (s', k # left))
         | Inr s' \<Rightarrow> delete_removed_loop s' st ks)
      else delete_removed_loop s st ks)"

definition store_delete_removed_configs :: "fs \<Rightarrow> store \<Rightarrow> fs \<times> store" where
  "store_delete_removed_configs s st =
     (case delete_removed_loop s st (removed_keys st) of (s', left) \<Rightarrow> (s', st\<lparr>removed_keys := left\<rparr>))"

definition store_write :: "fs \<Rightarrow> store \<Rightarrow> fs \<times> store \<times> bool" where
  "store_write s st =
     (if unstored_configs st = [] then (s, st, True)
      else (let s0 = (if lash_dir_exists s (st_dir st) then s
                      else lash_create_dir s (lash_strdup (st_dir st))) in
        (case store_write_configs s0 st of
           (s1, st1, False) \<Rightarrow> (s1, st1, False)
         | (s1, st1, True) \<Rightarrow>
             (case store_write_info_file s1 st1 of
                (s2, False) \<Rightarrow> (s2, st1, False)
              | (s2, True) \<Rightarrow>
                  (case store_delete_removed_configs s2 (st1\<lparr>unstored_configs := []\<rparr>) of
                     (s3, st3) \<Rightarrow> (s3, st3, True))))))"

section \<open>Setting and getting values\<close>

text \<open>
  \<open>memcpy (block, value, size)\<close> into a block of the given length: past its end it is a
  fault. A new block of \<open>malloc\<close> or \<open>realloc\<close> has exactly the requested size.
\<close>

definition memcpy :: "string \<Rightarrow> string \<Rightarrow> nat \<Rightarrow> string res" where
  "memcpy block val n =
     (if n \<le> length block \<and> n \<le> length val then Inr (take n val @ drop n block) else Inl Out_of_bounds)"

definition new_block :: "nat \<Rightarrow> string" where
  "new_block n = replicate n (char_of (0::nat))"

definition grow_block :: "string \<Rightarrow> nat \<Rightarrow> string" where
  "grow_block old n = take n old @ replicate (n - length old) (char_of (0::nat))"

text \<open>The first config of the list with the key is overwritten, or a new one is appended.\<close>

fun set_unstored :: "store_config list \<Rightarrow> string \<Rightarrow> string \<Rightarrow> u64 \<Rightarrow> char \<Rightarrow> store_config list res" where
  "set_unstored [] key val sz ty =
     (case memcpy (new_block (unat sz)) val (unat sz) of
        Inl f \<Rightarrow> Inl f
      | Inr b \<Rightarrow> Inr [\<lparr>cfg_key = key, cfg_block = b, value_size = sz, cfg_type = ty\<rparr>])"
| "set_unstored (c # cs) key val sz ty =
     (if cfg_key c = key then
        (case memcpy (if value_size c < sz then grow_block (cfg_block c) (unat sz) else cfg_block c)
               val (unat sz) of
           Inl f \<Rightarrow> Inl f
         | Inr b \<Rightarrow> Inr (\<lparr>cfg_key = key, cfg_block = b, value_size = sz, cfg_type = ty\<rparr> # cs))
      else (case set_unstored cs key val sz ty of Inl f \<Rightarrow> Inl f | Inr cs' \<Rightarrow> Inr (c # cs')))"

definition store_set_config :: "store \<Rightarrow> cstr \<Rightarrow> cstr \<Rightarrow> u64 \<Rightarrow> char \<Rightarrow> (store \<times> bool) res" where
  "store_set_config st key_name val sz ty =
     (case (key_name, val) of
        (Some key, Some v) \<Rightarrow>
          if key = [] then Inr (st, False)
          else if sz < 1 then Inr (st, False)
          else (let st1 = (if key \<in> set (st_keys st) then st
                           else st\<lparr>st_keys := st_keys st @ [key], num_keys := num_keys st + 1\<rparr>) in
            (case set_unstored (unstored_configs st1) key v sz ty of
               Inl f \<Rightarrow> Inl f
             | Inr cs \<Rightarrow> Inr (st1\<lparr>unstored_configs := cs\<rparr>, True)))
      | _ \<Rightarrow> Inr (st, False))"

definition store_get_unstored_config :: "store \<Rightarrow> string \<Rightarrow> store_config option" where
  "store_get_unstored_config st key = List.find (\<lambda>c. cfg_key c = key) (unstored_configs st)"

definition lash_types :: "char set" where
  "lash_types = {CHR ''d'', CHR ''u'', CHR ''s'', CHR ''-''}"

text \<open>Reading a config file: size, value, type byte; a missing type byte means raw data.\<close>

definition parse_config_file :: "string \<Rightarrow> (string \<times> nat \<times> char) option" where
  "parse_config_file bytes =
     (if length bytes < 4 then None
      else (let sz = unat (of_be32 (take 4 bytes)); rest = drop 4 bytes in
        if sz = 0 then None
        else if length rest < sz then None
        else (case drop sz rest of
                [] \<Rightarrow> Some (take sz rest, sz, CHR ''-'')
              | ty # _ \<Rightarrow> if ty \<in> lash_types then Some (take sz rest, sz, ty) else None)))"

definition store_get_config :: "fs \<Rightarrow> store \<Rightarrow> string \<Rightarrow> (string \<times> nat \<times> char) option" where
  "store_get_config s st key =
     (case store_get_unstored_config st key of
        Some c \<Rightarrow> Some (cfg_value c, unat (value_size c), cfg_type c)
      | None \<Rightarrow>
          (case posix_read_file s (store_get_config_filename st key) of
             Inl _ \<Rightarrow> None
           | Inr bytes \<Rightarrow> parse_config_file bytes))"

text \<open>
  The entries a LoadDataSet message gets; \<open>accept\<close> is whether the D-Bus library accepts
  an entry. Keys without a readable value are skipped, a refused entry ends the message.
\<close>

fun config_array :: "(string \<Rightarrow> char \<Rightarrow> string \<Rightarrow> nat \<Rightarrow> bool) \<Rightarrow> fs \<Rightarrow> store \<Rightarrow> string list \<Rightarrow>
    (string \<times> char \<times> string) list \<times> bool" where
  "config_array accept s st [] = ([], True)"
| "config_array accept s st (key # ks) =
     (case store_get_config s st key of
        None \<Rightarrow> config_array accept s st ks
      | Some (v, sz, ty) \<Rightarrow>
          if accept key ty v sz then
            (case config_array accept s st ks of (es, ok) \<Rightarrow> ((key, ty, v) # es, ok))
          else ([], False))"

definition store_create_config_array ::
  "(string \<Rightarrow> char \<Rightarrow> string \<Rightarrow> nat \<Rightarrow> bool) \<Rightarrow> fs \<Rightarrow> store \<Rightarrow>
    (string \<times> char \<times> string) list \<times> bool" where
  "store_create_config_array accept s st = config_array accept s st (st_keys st)"

section \<open>Setting a value\<close>

text \<open>
  The invariant of a store: one key of each name, counted by \<open>num_keys\<close>; one unstored
  config per key, each of them a listed key, none empty, each within its block.
\<close>

definition configs_ok :: "store_config list \<Rightarrow> bool" where
  "configs_ok cs \<longleftrightarrow> distinct (map cfg_key cs) \<and>
     (\<forall>c\<in>set cs. 0 < value_size c \<and> unat (value_size c) \<le> length (cfg_block c))"

definition store_inv :: "store \<Rightarrow> bool" where
  "store_inv st \<longleftrightarrow> distinct (st_keys st) \<and> num_keys st = word_of_nat (length (st_keys st)) \<and>
     configs_ok (unstored_configs st) \<and> cfg_key ` set (unstored_configs st) \<subseteq> set (st_keys st)"

lemma store_inv_new: "store_inv store_new"
  by (simp add: store_inv_def store_new_def configs_ok_def)

lemma memcpy_Inr: "n \<le> length block \<Longrightarrow> n \<le> length val \<Longrightarrow> memcpy block val n = Inr (take n val @ drop n block)"
  by (simp add: memcpy_def)

lemma set_unstored_ok:
  assumes "configs_ok cs" and "0 < sz" and "unat sz \<le> length val"
  shows "\<exists>cs'. set_unstored cs key val sz ty = Inr cs' \<and> configs_ok cs' \<and>
    cfg_key ` set cs' = insert key (cfg_key ` set cs) \<and>
    (\<forall>k. k \<noteq> key \<longrightarrow> List.find (\<lambda>c. cfg_key c = k) cs' = List.find (\<lambda>c. cfg_key c = k) cs) \<and>
    (\<exists>c. List.find (\<lambda>c. cfg_key c = key) cs' = Some c \<and> cfg_value c = take (unat sz) val \<and>
       value_size c = sz \<and> cfg_type c = ty)"
  using assms(1)
proof (induction cs)
  case Nil
  then show ?case using assms(2,3)
    by (simp add: memcpy_Inr new_block_def configs_ok_def cfg_value_def)
next
  case (Cons c cs)
  show ?case
  proof (cases "cfg_key c = key")
    case True
    let ?b = "if value_size c < sz then grow_block (cfg_block c) (unat sz) else cfg_block c"
    have "unat sz \<le> length ?b"
      using Cons.prems by (auto simp: configs_ok_def grow_block_def word_less_nat_alt)
    then show ?thesis using True Cons.prems assms(2,3)
      by (auto simp: memcpy_Inr configs_ok_def cfg_value_def)
  next
    case False
    from Cons.prems have "configs_ok cs" by (simp add: configs_ok_def)
    with Cons.IH obtain cs' where "set_unstored cs key val sz ty = Inr cs'" "configs_ok cs'"
      "cfg_key ` set cs' = insert key (cfg_key ` set cs)"
      "\<forall>k. k \<noteq> key \<longrightarrow> List.find (\<lambda>c. cfg_key c = k) cs' = List.find (\<lambda>c. cfg_key c = k) cs"
      "\<exists>c. List.find (\<lambda>c. cfg_key c = key) cs' = Some c \<and> cfg_value c = take (unat sz) val \<and>
         value_size c = sz \<and> cfg_type c = ty" by blast
    with False Cons.prems show ?thesis by (auto simp: configs_ok_def)
  qed
qed

text \<open>
  Setting a value behaves as a map update. For a non-empty key, a non-empty size and a
  value that has that many bytes, \<open>store_set_config\<close> never writes past the block of the
  value, succeeds and keeps the store invariant; afterwards the key reads back as exactly
  the bytes, size and type set, and every other key reads back as before.
\<close>

theorem store_set_config_update:
  assumes "store_inv st" and "key \<noteq> []" and "0 < sz" and "unat sz \<le> length val"
  shows "\<exists>st'. store_set_config st (Some key) (Some val) sz ty = Inr (st', True) \<and> store_inv st' \<and>
    (\<forall>k. store_get_config s st' k =
       (if k = key then Some (take (unat sz) val, unat sz, ty) else store_get_config s st k))"
proof -
  let ?st = "if key \<in> set (st_keys st) then st
      else st\<lparr>st_keys := st_keys st @ [key], num_keys := num_keys st + 1\<rparr>"
  have same: "unstored_configs ?st = unstored_configs st" "st_dir ?st = st_dir st" by simp_all
  have cok: "configs_ok (unstored_configs st)" using assms(1) by (simp add: store_inv_def)
  from set_unstored_ok [OF cok assms(3,4), of key ty] obtain cs' where
    cs': "set_unstored (unstored_configs st) key val sz ty = Inr cs'" "configs_ok cs'"
    "cfg_key ` set cs' = insert key (cfg_key ` set (unstored_configs st))"
    and others: "\<forall>k. k \<noteq> key \<longrightarrow> List.find (\<lambda>c. cfg_key c = k) cs' =
        List.find (\<lambda>c. cfg_key c = k) (unstored_configs st)"
    and mine: "\<exists>c. List.find (\<lambda>c. cfg_key c = key) cs' = Some c \<and> cfg_value c = take (unat sz) val \<and>
       value_size c = sz \<and> cfg_type c = ty" by blast
  let ?st' = "?st\<lparr>unstored_configs := cs'\<rparr>"
  have "store_set_config st (Some key) (Some val) sz ty = Inr (?st', True)"
    using assms(2,3) cs'(1) by (simp add: store_set_config_def Let_def word_less_1 flip: word_neq_0_conv)
  moreover have "store_inv ?st'"
    using assms(1) cs'(2,3) by (auto simp: store_inv_def)
  moreover have "store_get_config s ?st' k =
      (if k = key then Some (take (unat sz) val, unat sz, ty) else store_get_config s st k)" for k
    using others mine
    by (auto simp: store_get_config_def store_get_unstored_config_def store_get_config_filename_def
        split: option.splits)
  ultimately show ?thesis by blast
qed

theorem store_set_config_update_witness:
  "\<exists>st'. store_set_config store_new (Some ''gain'') (Some ''abcd'') 3 CHR ''-'' = Inr (st', True) \<and>
     store_get_config example_fs st' ''gain'' = Some (''abc'', 3, CHR ''-'')"
  using store_set_config_update [OF store_inv_new, of "''gain''" 3 "''abcd''" "CHR ''-''" example_fs]
  by auto

text \<open>Bad parameters leave the store as it was.\<close>

lemma store_set_config_rejects:
  "key_name = None \<or> key_name = Some [] \<or> val = None \<or> sz = 0 \<Longrightarrow>
   store_set_config st key_name val sz ty = Inr (st, False)"
  by (auto simp: store_set_config_def split: option.splits)

section \<open>The file formats\<close>

lemma bytes_of_nat:
  "(n::nat) div 2 ^ 24 * 2 ^ 24 + n div 2 ^ 16 mod 256 * 2 ^ 16 + n div 2 ^ 8 mod 256 * 2 ^ 8 + n mod 256 = n"
proof -
  define a b c where "a = n div 256" and "b = a div 256" and "c = b div 256"
  have e: "n div 2 ^ 8 = a" "n div 2 ^ 16 = b" "n div 2 ^ 24 = c"
    by (simp_all add: a_def b_def c_def div_mult2_eq [symmetric])
  have "n = a * 256 + n mod 256" "a = b * 256 + a mod 256" "b = c * 256 + b mod 256"
    by (simp_all add: a_def b_def c_def)
  then have "c * 16777216 + b mod 256 * 65536 + a mod 256 * 256 + n mod 256 = n" by linarith
  then show ?thesis unfolding e by simp
qed

lemma of_be32_be32 [simp]: "of_be32 (be32 w) = w"
proof -
  have w: "unat w < 2 ^ 32" using unsigned_less [of w, where ?'a = nat] by simp
  then have "unat w div 2 ^ 24 < 256" by simp
  then have "of_be32 (be32 w) = word_of_nat (unat w div 2 ^ 24 * 2 ^ 24 +
      unat w div 2 ^ 16 mod 256 * 2 ^ 16 + unat w div 2 ^ 8 mod 256 * 2 ^ 8 + unat w mod 256)"
    by (simp add: of_be32_def be32_def del: word_of_nat_eq_iff of_nat_add of_nat_mult)
  then show ?thesis by (simp only: bytes_of_nat) simp
qed

lemma length_be32 [simp]: "length (be32 w) = 4"
  by (simp add: be32_def)

lemma config_roundtrip:
  assumes "0 < unat (value_size c)" and "unat (value_size c) < 2 ^ 32"
    and "unat (value_size c) \<le> length (cfg_block c)" and "cfg_type c \<in> lash_types"
  shows "parse_config_file (be32 (ucast (value_size c)) @ cfg_value c @ [cfg_type c]) =
    Some (cfg_value c, unat (value_size c), cfg_type c)"
proof -
  have "unat (ucast (value_size c) :: u32) = unat (value_size c)"
    using assms(2) by (simp add: unsigned_ucast_eq take_bit_nat_eq_self)
  moreover have "length (cfg_value c) = unat (value_size c)"
    using assms(3) by (simp add: cfg_value_def)
  ultimately show ?thesis using assms(1,4)
    by (simp add: parse_config_file_def Let_def)
qed

text \<open>
  What \<open>store_write_config\<close> writes, \<open>store_get_config\<close> reads back: the encoding of a
  non-empty value below 4 GiB with one of the four types parses to the same value, size and
  type.
\<close>

theorem config_file_roundtrip:
  assumes "0 < unat (value_size c)" and "unat (value_size c) < 2 ^ 32"
    and "unat (value_size c) \<le> length (cfg_block c)" and "cfg_type c \<in> lash_types"
  shows "parse_config_file (be32 (ucast (value_size c)) @ cfg_value c @ [cfg_type c]) =
    Some (cfg_value c, unat (value_size c), cfg_type c)"
  using assms by (rule config_roundtrip)

theorem config_file_roundtrip_witness:
  "parse_config_file (be32 3 @ ''abc'' @ ''s'') = Some (''abc'', 3, CHR ''s'')"
  using config_file_roundtrip [of "\<lparr>cfg_key = ''k'', cfg_block = ''abc'', value_size = 3, cfg_type = CHR ''s''\<rparr>"]
  by (simp add: cfg_value_def lash_types_def)

section \<open>Writing a store and opening it again\<close>

lemma file_lines_line: "newline \<notin> set l \<Longrightarrow> file_lines (l @ newline # rest) = (l @ [newline]) # file_lines rest"
  by (induction l) auto

lemma read_keys_concat:
  "\<forall>k\<in>set ks. newline \<notin> set k \<Longrightarrow>
   read_keys (length ks) (file_lines (concat (map (\<lambda>k. k @ [newline]) ks))) = Some ks"
proof (induction ks)
  case (Cons k ks)
  then have "takeWhile (\<lambda>c. c \<noteq> newline) (k @ [newline]) = k"
    by (subst takeWhile_append2) auto
  with Cons show ?case by (simp add: file_lines_line)
qed simp

text \<open>
  The info file written for a store lists the keys again when read, as long as no key
  contains a line break.
\<close>

lemma store_open_info:
  assumes "node_at s d = Some Dir" and "\<not> denied s d"
    and "node_at s (d @ slash # store_info_file) = Some (File (info_content st))"
    and "\<not> denied s (d @ slash # store_info_file)"
    and "num_keys st = word_of_nat (length (st_keys st))" and "length (st_keys st) < 2 ^ 63"
    and "\<forall>k\<in>set (st_keys st). newline \<notin> set k"
  shows "store_open s (store_new\<lparr>st_dir := Some d\<rparr>) =
    (store_new\<lparr>st_dir := Some d, st_keys := st_keys st, num_keys := num_keys st\<rparr>, True)"
proof -
  let ?n = "length (st_keys st)"
  have nd: "newline \<notin> set (show_nat ?n)" using show_nat_digits [of ?n] digit_facts(4) by blast
  have c: "info_content st = show_nat ?n @ newline # concat (map (\<lambda>k. k @ [newline]) (st_keys st))"
    using assms(5,6) by (simp add: info_content_def show_ld_small)
  have ls: "file_lines (info_content st) =
      (show_nat ?n @ [newline]) # file_lines (concat (map (\<lambda>k. k @ [newline]) (st_keys st)))"
    unfolding c using nd by (rule file_lines_line)
  have un: "unat (word_of_nat ?n :: u64) = ?n" using assms(6) by (simp add: unsigned_of_nat take_bit_nat_eq_self)
  have "posix_read_file s (d @ slash # store_info_file) = Inr (info_content st)"
    using assms(3,4) by (simp add: posix_read_file_def)
  then show ?thesis
    using assms(1-3,5) ls strtol_show [OF assms(6)] read_keys_concat [OF assms(7)] un
    by (simp add: store_open_def dir_exists_def lash_file_exists_def posix_stat_def
        store_get_info_filename_def store_new_def Let_def lash_get_fqn_def lash_strdup_def)
qed

lemma map_of_replace:
  "map_of (map (\<lambda>(q, n). if q = p then (q, f) else (q, n)) xs) q =
     (if q = p \<and> map_of xs p \<noteq> None then Some f else map_of xs q)"
  by (induction xs) auto

lemma write_file_ok:
  assumes "node_at s d = Some Dir" and "node_at s (d @ slash # k) \<noteq> Some Dir"
    and "\<not> denied s (d @ slash # k)" and "slash \<notin> set k"
  shows "\<exists>s'. posix_write_file s (d @ slash # k) c = Inr s' \<and> denied s' = denied s \<and>
    (\<forall>q. node_at s' q = (if q = d @ slash # k then Some (File c) else node_at s q))"
proof (cases "node_at s (d @ slash # k)")
  case None
  then show ?thesis using assms
    by (auto simp: posix_write_file_def last_of_append node_at_def map_add_def split: option.splits)
next
  case (Some n)
  with assms(2) obtain c' where "n = File c'" by (cases n) auto
  with Some assms(3) show ?thesis
    by (auto simp: posix_write_file_def node_at_def map_of_replace)
qed

definition encode_config :: "store_config \<Rightarrow> string" where
  "encode_config c = be32 (ucast (value_size c)) @ cfg_value c @ [cfg_type c]"

text \<open>The directory of a store can take a file for each of the keys \<open>ks\<close>.\<close>

definition writable_keys :: "fs \<Rightarrow> string \<Rightarrow> string list \<Rightarrow> bool" where
  "writable_keys s d ks \<longleftrightarrow> node_at s d = Some Dir \<and> \<not> denied s d \<and>
     (\<forall>k\<in>set ks. slash \<notin> set k \<and> node_at s (d @ slash # k) \<noteq> Some Dir \<and> \<not> denied s (d @ slash # k))"

lemma config_filename: "st_dir st = Some d \<Longrightarrow> store_get_config_filename st k = d @ slash # k"
  by (simp add: store_get_config_filename_def)

lemma write_configs_ok:
  "distinct (map cfg_key cs) \<Longrightarrow> \<forall>c\<in>set cs. 0 < value_size c \<Longrightarrow> st_dir st = Some d \<Longrightarrow>
   writable_keys s d (map cfg_key cs) \<Longrightarrow>
   \<exists>s'. write_configs_loop s st cs = (s', [], True) \<and> denied s' = denied s \<and>
     (\<forall>q. node_at s' q = (case List.find (\<lambda>c. q = d @ slash # cfg_key c) cs of
        Some c \<Rightarrow> Some (File (encode_config c)) | None \<Rightarrow> node_at s q))"
proof (induction cs arbitrary: s)
  case (Cons c cs)
  let ?p = "d @ slash # cfg_key c"
  from Cons.prems(4) have w: "node_at s d = Some Dir" "node_at s ?p \<noteq> Some Dir" "\<not> denied s ?p"
    "slash \<notin> set (cfg_key c)" by (simp_all add: writable_keys_def)
  from write_file_ok [OF w] obtain s1 where s1:
    "posix_write_file s ?p (encode_config c) = Inr s1" "denied s1 = denied s"
    "\<forall>q. node_at s1 q = (if q = ?p then Some (File (encode_config c)) else node_at s q)" by blast
  have "writable_keys s1 d (map cfg_key cs)"
    using Cons.prems(4) s1(2,3) by (auto simp: writable_keys_def)
  with Cons.IH [of s1] Cons.prems obtain s' where s':
    "write_configs_loop s1 st cs = (s', [], True)" "denied s' = denied s1"
    "\<forall>q. node_at s' q = (case List.find (\<lambda>c. q = d @ slash # cfg_key c) cs of
        Some c \<Rightarrow> Some (File (encode_config c)) | None \<Rightarrow> node_at s1 q)" by auto
  have "store_write_config s st c = (s1, True)"
    using Cons.prems(2,3) s1(1) by (auto simp: store_write_config_def config_filename encode_config_def)
  moreover have "List.find (\<lambda>c'. ?p = d @ slash # cfg_key c') cs = None"
    using Cons.prems(1) by (force simp: find_None_set)
  ultimately show ?case using s' s1(2,3) by (auto split: option.splits)
qed simp

text \<open>
  C5. A store survives a trip through the disk. For a store satisfying its invariant, whose
  keys are proper file names without line breaks and different from the info file, whose
  directory is writable and whose pending values are below 4 GiB and of the four types,
  \<open>store_write\<close> succeeds and leaves nothing pending, and a fresh store opened on the same
  directory lists the same keys in the same order and returns for every key the value, size
  and type that the store returned before it was written.
\<close>

theorem store_write_open_roundtrip:
  assumes inv: "store_inv st" and dir: "st_dir st = Some d"
    and pend: "unstored_configs st \<noteq> []" and rem: "removed_keys st = []"
    and wr: "writable_keys s d (store_info_file # st_keys st)"
    and keys: "\<forall>k\<in>set (st_keys st). newline \<notin> set k \<and> k \<noteq> store_info_file"
    and len: "length (st_keys st) < 2 ^ 63"
    and vals: "\<forall>c\<in>set (unstored_configs st). unat (value_size c) < 2 ^ 32 \<and> cfg_type c \<in> lash_types"
  shows "\<exists>s' st' st2. store_write s st = (s', st', True) \<and> unstored_configs st' = [] \<and>
    store_open s' (store_new\<lparr>st_dir := Some d\<rparr>) = (st2, True) \<and> st_keys st2 = st_keys st \<and>
    (\<forall>k\<in>set (st_keys st). store_get_config s' st2 k = store_get_config s st k)"
proof -
  let ?cs = "unstored_configs st"
  have cs: "distinct (map cfg_key ?cs)" "\<forall>c\<in>set ?cs. 0 < value_size c"
    "\<forall>c\<in>set ?cs. unat (value_size c) \<le> length (cfg_block c)"
    "cfg_key ` set ?cs \<subseteq> set (st_keys st)" "num_keys st = word_of_nat (length (st_keys st))"
    using inv by (auto simp: store_inv_def configs_ok_def)
  have d: "node_at s d = Some Dir" "\<not> denied s d" using wr by (simp_all add: writable_keys_def)
  have "writable_keys s d (map cfg_key ?cs)" using wr cs(4) by (auto simp: writable_keys_def)
  from write_configs_ok [OF cs(1,2) dir this] obtain s1 where s1:
    "write_configs_loop s st ?cs = (s1, [], True)" "denied s1 = denied s"
    "\<forall>q. node_at s1 q = (case List.find (\<lambda>c. q = d @ slash # cfg_key c) ?cs of
        Some c \<Rightarrow> Some (File (encode_config c)) | None \<Rightarrow> node_at s q)" by blast
  have no_info: "List.find (\<lambda>c. d @ slash # store_info_file = d @ slash # cfg_key c) ?cs = None"
    using keys cs(4) by (force simp: find_None_set)
  have no_dir: "List.find (\<lambda>c. d = d @ slash # cfg_key c) ?cs = None" by (simp add: find_None_set)
  let ?st1 = "st\<lparr>unstored_configs := []\<rparr>"
  have w: "node_at s1 d = Some Dir" "node_at s1 (d @ slash # store_info_file) \<noteq> Some Dir"
    "\<not> denied s1 (d @ slash # store_info_file)" "slash \<notin> set store_info_file"
    using s1(2,3) no_info no_dir wr by (simp_all add: writable_keys_def)
  from write_file_ok [OF w, of "info_content st"] obtain s2 where s2:
    "posix_write_file s1 (d @ slash # store_info_file) (info_content st) = Inr s2"
    "denied s2 = denied s1" "\<forall>q. node_at s2 q = (if q = d @ slash # store_info_file
        then Some (File (info_content st)) else node_at s1 q)" by blast
  have "store_write s st = (s2, ?st1, True)"
    using pend d dir rem s1(1) s2(1)
    by (simp add: store_write_def dir_exists_def store_write_configs_def store_write_info_file_def
        store_get_info_filename_def info_content_def store_delete_removed_configs_def)
  moreover have opn: "store_open s2 (store_new\<lparr>st_dir := Some d\<rparr>) =
      (store_new\<lparr>st_dir := Some d, st_keys := st_keys st, num_keys := num_keys st\<rparr>, True)"
    using keys w s2 s1(2) d wr len by (intro store_open_info) (auto simp: writable_keys_def cs(5))
  moreover have "store_get_config s2 (store_new\<lparr>st_dir := Some d, st_keys := st_keys st,
      num_keys := num_keys st\<rparr>) k = store_get_config s st k" if k: "k \<in> set (st_keys st)" for k
  proof -
    let ?p = "d @ slash # k"
    have dn: "\<not> denied s2 ?p" "\<not> denied s ?p" using wr k s2(2) s1(2) by (auto simp: writable_keys_def)
    have kp: "?p \<noteq> d @ slash # store_info_file" using keys k by auto
    have fnd: "List.find (\<lambda>c. ?p = d @ slash # cfg_key c) ?cs = List.find (\<lambda>c. cfg_key c = k) ?cs"
      by (intro find_cong) auto
    have "node_at s2 ?p = node_at s1 ?p" using s2(3) kp by simp
    then have at: "node_at s2 ?p = (case List.find (\<lambda>c. cfg_key c = k) ?cs of
        Some c \<Rightarrow> Some (File (encode_config c)) | None \<Rightarrow> node_at s ?p)"
      using s1(3) [rule_format, of ?p] unfolding fnd by simp
    show ?thesis
    proof (cases "List.find (\<lambda>c. cfg_key c = k) ?cs")
      case None
      then show ?thesis using at dn dir
        by (simp add: store_get_config_def store_get_unstored_config_def config_filename
            store_new_def posix_read_file_def split: option.splits node.splits)
    next
      case (Some c)
      then have c: "c \<in> set ?cs" using find_Some_set by metis
      then have "0 < unat (value_size c)" using cs(2) by (simp add: unat_gt_0 word_neq_0_conv)
      then have "parse_config_file (encode_config c) = Some (cfg_value c, unat (value_size c), cfg_type c)"
        unfolding encode_config_def using c vals cs(3) by (intro config_roundtrip) auto
      then show ?thesis using Some at dn dir
        by (simp add: store_get_config_def store_get_unstored_config_def config_filename
            store_new_def posix_read_file_def)
    qed
  qed
  ultimately show ?thesis
    by (intro exI [of _ s2] exI [of _ ?st1] exI [of _ "store_new\<lparr>st_dir := Some d, st_keys := st_keys st,
        num_keys := num_keys st\<rparr>"]) simp
qed

definition example_store :: store where
  "example_store = \<lparr>st_dir = Some ''/p/d'', num_keys = 2, st_keys = [''gain'', ''pan''], removed_keys = [],
     unstored_configs = [\<lparr>cfg_key = ''pan'', cfg_block = ''left'', value_size = 4, cfg_type = CHR ''s''\<rparr>,
       \<lparr>cfg_key = ''gain'', cfg_block = ''00'', value_size = 2, cfg_type = CHR ''-''\<rparr>]\<rparr>"

theorem store_write_open_roundtrip_witness:
  "\<exists>s' st' st2. store_write example_fs example_store = (s', st', True) \<and>
     store_open s' (store_new\<lparr>st_dir := Some ''/p/d''\<rparr>) = (st2, True) \<and>
     store_get_config s' st2 ''pan'' = Some (''left'', 4, CHR ''s'')"
proof -
  have inv: "store_inv example_store"
    by (simp add: store_inv_def example_store_def configs_ok_def)
  have wr: "writable_keys example_fs ''/p/d'' (store_info_file # st_keys example_store)" by code_simp
  have keys: "\<forall>k\<in>set (st_keys example_store). newline \<notin> set k \<and> k \<noteq> store_info_file" by code_simp
  have vals: "\<forall>c\<in>set (unstored_configs example_store). unat (value_size c) < 2 ^ 32 \<and> cfg_type c \<in> lash_types"
    by (simp add: example_store_def lash_types_def)
  have "store_get_config example_fs example_store ''pan'' = Some (''left'', 4, CHR ''s'')"
    by (simp add: store_get_config_def store_get_unstored_config_def example_store_def cfg_value_def)
  then show ?thesis
    using store_write_open_roundtrip [OF inv _ _ _ wr keys _ vals]
    by (fastforce simp: example_store_def)
qed

lemma write_file_effect:
  assumes "posix_write_file s p c = Inr s'"
  shows "node_at s' q = (if q = p then Some (File c) else node_at s q)"
  using assms
  by (auto simp: posix_write_file_def node_at_def map_of_replace map_add_def
      split: option.splits node.splits if_splits)

lemma write_configs_frame:
  "write_configs_loop s st cs = (s', left, ok) \<Longrightarrow> st_dir st = Some d \<Longrightarrow>
   \<forall>c\<in>set cs. q \<noteq> d @ slash # cfg_key c \<Longrightarrow> node_at s' q = node_at s q"
  by (induction s st cs arbitrary: s' left ok rule: write_configs_loop.induct)
     (fastforce simp: store_write_config_def config_filename write_file_effect
        split: prod.splits bool.splits if_splits sum.splits)+

lemma write_configs_no_loss:
  "write_configs_loop s st cs = (s', left, ok) \<Longrightarrow> st_dir st = Some d \<Longrightarrow>
   distinct (map cfg_key cs) \<Longrightarrow> c \<in> set cs \<Longrightarrow>
   c \<in> set left \<or> node_at s' (d @ slash # cfg_key c) = Some (File (encode_config c))"
proof (induction s st cs arbitrary: s' left ok rule: write_configs_loop.induct)
  case (2 s st c0 cs)
  obtain s1 b where w: "store_write_config s st c0 = (s1, b)" by fastforce
  obtain s2 left2 ok2 where r: "write_configs_loop s1 st cs = (s2, left2, ok2)"
    by (metis prod_cases3)
  have s': "s' = s2" "left = (if b then left2 else c0 # left2)"
    using 2(3) w r by (auto split: bool.splits)
  show ?case
  proof (cases "c = c0")
    case True
    show ?thesis
    proof (cases b)
      case b: True
      have "node_at s1 (d @ slash # cfg_key c0) = Some (File (encode_config c0))"
        using w b 2(4)
        by (auto simp: store_write_config_def config_filename encode_config_def write_file_effect
            split: if_splits sum.splits)
      moreover have "node_at s2 (d @ slash # cfg_key c0) = node_at s1 (d @ slash # cfg_key c0)"
        using 2(5) by (intro write_configs_frame [OF r 2(4)]) force
      ultimately show ?thesis using True s' by simp
    qed (use True s' in simp)
  next
    case False
    then have "c \<in> set left2 \<or> node_at s2 (d @ slash # cfg_key c) = Some (File (encode_config c))"
      using 2(1,2) w r 2(4-6) by (cases b) auto
    then show ?thesis using s' by auto
  qed
qed simp

lemma write_configs_left:
  "write_configs_loop s st cs = (s', left, True) \<Longrightarrow> left = []"
  by (induction s st cs arbitrary: s' left rule: write_configs_loop.induct)
     (auto split: prod.splits bool.splits)



end
