(* ===== verification/Xml.thy ===== *)
theory Xml
  imports Prelude
begin

text \<open>
  The parts of libxml2 and libuuid the daemon relies on. A document is the tree that
  \<open>xmlNewChild\<close> calls build: a node has a name, the content string it was given (or none)
  and its children. What content a node reads back as is up to libxml2 (it treats the
  string as markup): the argument \<open>cd\<close> of every reader, with the documented law that plain
  text is kept. The textual form of a UUID is up to libuuid: a \<open>uuid_lib\<close>, with the law
  that parsing inverts printing.
\<close>

section \<open>Documents\<close>

datatype xml = Elem (xname: string) (xtext: cstr) (xkids: "xml list")

definition leaf :: "string \<Rightarrow> cstr \<Rightarrow> xml" where
  "leaf name content = Elem name content []"

fun get_content :: "(string \<Rightarrow> string) \<Rightarrow> xml \<Rightarrow> string" where
  "get_content cd (Elem n t ks) =
     (case t of None \<Rightarrow> '''' | Some s \<Rightarrow> cd s) @ concat (map (get_content cd) ks)"

lemma get_content_leaf [simp]:
  "get_content cd (leaf n (Some s)) = cd s" "get_content cd (leaf n None) = ''''"
  by (simp_all add: leaf_def)

lemma xname_leaf [simp]: "xname (leaf n t) = n"
  by (simp add: leaf_def)

definition plain_text :: "string \<Rightarrow> bool" where
  "plain_text s \<longleftrightarrow> CHR ''&'' \<notin> set s \<and> CHR ''<'' \<notin> set s"

definition keeps_plain :: "(string \<Rightarrow> string) \<Rightarrow> bool" where
  "keeps_plain cd \<longleftrightarrow> (\<forall>s. plain_text s \<longrightarrow> cd s = s)"

lemma keeps_plainD: "keeps_plain cd \<Longrightarrow> plain_text s \<Longrightarrow> cd s = s"
  by (simp add: keeps_plain_def)

lemma keeps_plain_id: "keeps_plain (\<lambda>s. s)"
  by (simp add: keeps_plain_def)

section \<open>UUIDs\<close>

type_synonym uuid = "128 word"

record uuid_lib =
  uuid_unparse :: "uuid \<Rightarrow> string"
  uuid_parse :: "string \<Rightarrow> uuid option"

definition uuid_is_null :: "uuid \<Rightarrow> bool" where
  "uuid_is_null u \<longleftrightarrow> u = 0"

definition uuid_lib_ok :: "uuid_lib \<Rightarrow> bool" where
  "uuid_lib_ok U \<longleftrightarrow> (\<forall>u. uuid_parse U (uuid_unparse U u) = Some u \<and>
     length (uuid_unparse U u) = 36 \<and> plain_text (uuid_unparse U u))"

lemma uuid_lib_okD:
  assumes "uuid_lib_ok U"
  shows "uuid_parse U (uuid_unparse U u) = Some u" "length (uuid_unparse U u) = 36"
    "plain_text (uuid_unparse U u)"
  using assms by (simp_all add: uuid_lib_ok_def)

text \<open>A concrete library for the examples: 32 digits of base 16, padded to 36 characters.\<close>

fun hex_digits :: "nat \<Rightarrow> nat \<Rightarrow> string" where
  "hex_digits 0 n = []"
| "hex_digits (Suc k) n = char_of (65 + n mod 16) # hex_digits k (n div 16)"

fun hex_value :: "string \<Rightarrow> nat" where
  "hex_value [] = 0"
| "hex_value (c # cs) = (of_char c - 65) + 16 * hex_value cs"

lemma length_hex_digits [simp]: "length (hex_digits k n) = k"
  by (induction k n rule: hex_digits.induct) simp_all

lemma hex_value_digits: "n < 16 ^ k \<Longrightarrow> hex_value (hex_digits k n) = n"
proof (induction k n rule: hex_digits.induct)
  case (2 k n)
  then have "n div 16 < 16 ^ k" by (simp add: less_mult_imp_div_less mult.commute)
  moreover have "65 + n mod 16 < 256" by simp
  ultimately show ?case using 2 by simp
qed simp

lemma plain_hex_digits: "plain_text (hex_digits k n)"
proof -
  have val: "of_char (char_of (65 + m mod 16) :: char) = (65 + m mod 16 :: nat)" for m :: nat
    by simp
  have "(65::nat) \<le> of_char c" if "c \<in> set (hex_digits k n)" for c
    using that by (induction k n rule: hex_digits.induct) (auto simp: val)
  moreover have "\<not> (65::nat) \<le> of_char (CHR ''&'')" "\<not> (65::nat) \<le> of_char (CHR ''<'')"
    by simp_all
  ultimately have "c \<notin> {CHR ''&'', CHR ''<''}" if "c \<in> set (hex_digits k n)" for c
    using that by blast
  then show ?thesis unfolding plain_text_def by blast
qed

definition example_uuids :: uuid_lib where
  "example_uuids = \<lparr>uuid_unparse = (\<lambda>u. hex_digits 32 (unat u) @ ''----''),
     uuid_parse = (\<lambda>s. if length s = 36 then Some (word_of_nat (hex_value (take 32 s))) else None)\<rparr>"

lemma example_uuids_ok: "uuid_lib_ok example_uuids"
proof -
  have "unat u < 16 ^ 32" for u :: uuid
    using unsigned_less [of u, where ?'a = nat] by simp
  then have "hex_value (hex_digits 32 (unat u)) = unat u" for u :: uuid
    by (rule hex_value_digits)
  moreover have "plain_text (hex_digits 32 (unat u) @ ''----'')" for u :: uuid
    using plain_hex_digits [of 32 "unat u"] by (simp add: plain_text_def)
  ultimately show ?thesis by (simp add: uuid_lib_ok_def example_uuids_def)
qed

end
