(* ===== verification/JackPatch.thy ===== *)
theory JackPatch
  imports Safety Xml
begin

text \<open>
  \<^verbatim>\<open>lashd/jack_patch.c\<close>: the saved JACK connections. Each end of a patch is a client,
  known either by its LASH UUID or by its JACK name, and a port. Dereferencing a missing
  string and running off a list are faults; a description is formatted into a block whose
  size the code computes, and writing past it would be a fault too.
\<close>

section \<open>Patches and their descriptions\<close>

record jack_patch =
  src_client :: cstr
  src_port :: cstr
  dest_client :: cstr
  dest_port :: cstr
  src_desc :: cstr
  dest_desc :: cstr
  src_client_id :: uuid
  dest_client_id :: uuid

definition jack_patch_new :: jack_patch where
  "jack_patch_new = \<lparr>src_client = None, src_port = None, dest_client = None, dest_port = None,
     src_desc = None, dest_desc = None, src_client_id = 0, dest_client_id = 0\<rparr>"

text \<open>\<open>sprintf (block, "%s:%s", ptr, port)\<close> into a block of the given size.\<close>

definition format_desc :: "nat \<Rightarrow> string \<Rightarrow> string \<Rightarrow> string res" where
  "format_desc block ptr port =
     (let str = ptr @ CHR '':'' # port in
      if length str + 1 \<le> block then Inr str else Inl Out_of_bounds)"

definition jack_patch_set_src_desc :: "uuid_lib \<Rightarrow> jack_patch \<Rightarrow> jack_patch res" where
  "jack_patch_set_src_desc U p =
     (let (ptr, len) = (case src_client p of
            Some c \<Rightarrow> (c, 2 + length c)
          | None \<Rightarrow> (uuid_unparse U (src_client_id p), 2 + 36)) in
      (case src_port p of
         None \<Rightarrow> Inl Null_deref
       | Some port \<Rightarrow>
           (case format_desc (len + length port) ptr port of
              Inl f \<Rightarrow> Inl f
            | Inr d \<Rightarrow> Inr (p\<lparr>src_desc := Some d\<rparr>))))"

definition jack_patch_set_dest_desc :: "uuid_lib \<Rightarrow> jack_patch \<Rightarrow> jack_patch res" where
  "jack_patch_set_dest_desc U p =
     (let (ptr, len) = (case dest_client p of
            Some c \<Rightarrow> (c, 2 + length c)
          | None \<Rightarrow> (uuid_unparse U (dest_client_id p), 2 + 36)) in
      (case dest_port p of
         None \<Rightarrow> Inl Null_deref
       | Some port \<Rightarrow>
           (case format_desc (len + length port) ptr port of
              Inl f \<Rightarrow> Inl f
            | Inr d \<Rightarrow> Inr (p\<lparr>dest_desc := Some d\<rparr>))))"

definition set_descs :: "uuid_lib \<Rightarrow> jack_patch \<Rightarrow> jack_patch res" where
  "set_descs U p =
     (case jack_patch_set_src_desc U p of Inl f \<Rightarrow> Inl f | Inr p' \<Rightarrow> jack_patch_set_dest_desc U p')"

section \<open>XML\<close>

definition jack_patch_create_xml :: "uuid_lib \<Rightarrow> jack_patch \<Rightarrow> xml" where
  "jack_patch_create_xml U p =
     Elem ''jack_patch'' None
       [if uuid_is_null (src_client_id p) then leaf ''src_client'' (src_client p)
        else leaf ''src_client_id'' (Some (uuid_unparse U (src_client_id p))),
        leaf ''src_port'' (src_port p),
        if uuid_is_null (dest_client_id p) then leaf ''dest_client'' (dest_client p)
        else leaf ''dest_client_id'' (Some (uuid_unparse U (dest_client_id p))),
        leaf ''dest_port'' (dest_port p)]"

definition jack_patch_parse_node :: "uuid_lib \<Rightarrow> (string \<Rightarrow> string) \<Rightarrow> jack_patch \<Rightarrow> xml \<Rightarrow> jack_patch" where
  "jack_patch_parse_node U cd p xmlnode =
     (let content = get_content cd xmlnode in
      if xname xmlnode = ''src_client'' then p\<lparr>src_client := Some content\<rparr>
      else if xname xmlnode = ''src_client_id'' then
        (case uuid_parse U content of
           Some u \<Rightarrow> p\<lparr>src_client_id := u, src_client := None\<rparr> | None \<Rightarrow> p)
      else if xname xmlnode = ''src_port'' then p\<lparr>src_port := Some content\<rparr>
      else if xname xmlnode = ''dest_client'' then p\<lparr>dest_client := Some content\<rparr>
      else if xname xmlnode = ''dest_client_id'' then
        (case uuid_parse U content of
           Some u \<Rightarrow> p\<lparr>dest_client_id := u, dest_client := None\<rparr> | None \<Rightarrow> p)
      else if xname xmlnode = ''dest_port'' then p\<lparr>dest_port := Some content\<rparr>
      else p)"

definition jack_patch_parse_xml :: "uuid_lib \<Rightarrow> (string \<Rightarrow> string) \<Rightarrow> jack_patch \<Rightarrow> xml \<Rightarrow> jack_patch res" where
  "jack_patch_parse_xml U cd p parent =
     set_descs U (foldl (jack_patch_parse_node U cd) p (xkids parent))"

section \<open>Copying, making and finding patches\<close>

definition jack_patch_dup :: "uuid_lib \<Rightarrow> jack_patch \<Rightarrow> jack_patch res" where
  "jack_patch_dup U other =
     set_descs U (jack_patch_new\<lparr>src_client := src_client other, src_port := src_port other,
       dest_client := dest_client other, dest_port := dest_port other,
       src_client_id := src_client_id other, dest_client_id := dest_client_id other\<rparr>)"

definition jack_patch_new_with_all ::
  "uuid_lib \<Rightarrow> uuid option \<Rightarrow> uuid option \<Rightarrow> cstr \<Rightarrow> cstr \<Rightarrow> cstr \<Rightarrow> cstr \<Rightarrow> jack_patch res" where
  "jack_patch_new_with_all U src_uuid dest_uuid src_name dest_name sport dport =
     (let p = jack_patch_new;
          p1 = (case src_uuid of Some u \<Rightarrow> p\<lparr>src_client_id := u\<rparr>
                | None \<Rightarrow> p\<lparr>src_client := Some (lash_strdup src_name)\<rparr>);
          p2 = (case dest_uuid of Some u \<Rightarrow> p1\<lparr>dest_client_id := u\<rparr>
                | None \<Rightarrow> p1\<lparr>dest_client := Some (lash_strdup dest_name)\<rparr>)
      in set_descs U (p2\<lparr>src_port := Some (lash_strdup sport), dest_port := Some (lash_strdup dport)\<rparr>))"

text \<open>\<open>strcmp (a, b) != 0\<close> with a pointer that may be \<open>NULL\<close>.\<close>

definition strcmp_ne :: "cstr \<Rightarrow> string \<Rightarrow> bool res" where
  "strcmp_ne a b = (case a of None \<Rightarrow> Inl Null_deref | Some x \<Rightarrow> Inr (x \<noteq> b))"

text \<open>
  Whether one end of a patch is the client given by its UUID or, without one, by its name:
  the code's \<open>continue\<close> is \<open>False\<close>.
\<close>

definition end_matches :: "uuid option \<Rightarrow> string \<Rightarrow> uuid \<Rightarrow> cstr \<Rightarrow> bool res" where
  "end_matches given_uuid given_name patch_uuid patch_name =
     (case given_uuid of
        Some u \<Rightarrow> Inr (\<not> (uuid_is_null patch_uuid \<or> u \<noteq> patch_uuid))
      | None \<Rightarrow> (case strcmp_ne patch_name given_name of Inl f \<Rightarrow> Inl f | Inr ne \<Rightarrow> Inr (\<not> ne)))"

definition ports_match :: "jack_patch \<Rightarrow> string \<Rightarrow> string \<Rightarrow> bool res" where
  "ports_match p sport dport =
     (case strcmp_ne (src_port p) sport of
        Inl f \<Rightarrow> Inl f
      | Inr True \<Rightarrow> Inr False
      | Inr False \<Rightarrow> (case strcmp_ne (dest_port p) dport of Inl f \<Rightarrow> Inl f | Inr ne \<Rightarrow> Inr (\<not> ne)))"

definition patch_matches ::
  "jack_patch \<Rightarrow> uuid option \<Rightarrow> string \<Rightarrow> string \<Rightarrow> uuid option \<Rightarrow> string \<Rightarrow> string \<Rightarrow> bool res" where
  "patch_matches p src_uuid src_name sport dest_uuid dest_name dport =
     (case ports_match p sport dport of
        Inl f \<Rightarrow> Inl f
      | Inr False \<Rightarrow> Inr False
      | Inr True \<Rightarrow>
          (case end_matches src_uuid src_name (src_client_id p) (src_client p) of
             Inl f \<Rightarrow> Inl f
           | Inr False \<Rightarrow> Inr False
           | Inr True \<Rightarrow> end_matches dest_uuid dest_name (dest_client_id p) (dest_client p)))"

text \<open>The index of the first matching patch of the list.\<close>

fun jack_patch_find_by_description ::
  "jack_patch list \<Rightarrow> uuid option \<Rightarrow> string \<Rightarrow> string \<Rightarrow> uuid option \<Rightarrow> string \<Rightarrow> string \<Rightarrow> nat option res" where
  "jack_patch_find_by_description [] su sn sp du dn dp = Inr None"
| "jack_patch_find_by_description (p # ps) su sn sp du dn dp =
     (case patch_matches p su sn sp du dn dp of
        Inl f \<Rightarrow> Inl f
      | Inr True \<Rightarrow> Inr (Some 0)
      | Inr False \<Rightarrow>
          (case jack_patch_find_by_description ps su sn sp du dn dp of
             Inl f \<Rightarrow> Inl f | Inr i \<Rightarrow> Inr (map_option Suc i)))"

section \<open>The operations of the build without the JACK D-Bus service\<close>

text \<open>A client of the JACK manager, as far as patches look at it: its name and UUID.\<close>

type_synonym mgr_client = "string \<times> uuid"

definition jack_patch_set_client_id :: "mgr_client list \<Rightarrow> cstr \<Rightarrow> uuid \<Rightarrow> uuid res" where
  "jack_patch_set_client_id clients name cid =
     (case clients of [] \<Rightarrow> Inr cid
      | _ \<Rightarrow> (case name of None \<Rightarrow> Inl Null_deref
              | Some n \<Rightarrow> (case List.find (\<lambda>c. fst c = n) clients of
                             Some c \<Rightarrow> Inr (snd c) | None \<Rightarrow> Inr cid)))"

definition jack_patch_set :: "mgr_client list \<Rightarrow> jack_patch \<Rightarrow> jack_patch res" where
  "jack_patch_set clients p =
     (case jack_patch_set_client_id clients (src_client p) (src_client_id p) of
        Inl f \<Rightarrow> Inl f
      | Inr u \<Rightarrow>
          (case jack_patch_set_client_id clients (dest_client p) (dest_client_id p) of
             Inl f \<Rightarrow> Inl f
           | Inr v \<Rightarrow> Inr (p\<lparr>src_client_id := u, dest_client_id := v\<rparr>)))"

text \<open>
  After the search loop the code takes the name of \<open>client\<close> whether it was found or not:
  not found, \<open>client\<close> is the last element the loop looked at, or was never set.
\<close>

definition jack_patch_unset_client_id :: "mgr_client list \<Rightarrow> uuid \<Rightarrow> string res" where
  "jack_patch_unset_client_id clients cid =
     (case List.find (\<lambda>c. snd c = cid) clients of
        Some c \<Rightarrow> Inr (fst c)
      | None \<Rightarrow> if clients = [] then Inl Dangling else Inr (fst (last clients)))"

definition jack_patch_unset :: "uuid_lib \<Rightarrow> mgr_client list \<Rightarrow> jack_patch \<Rightarrow> (jack_patch \<times> bool) res" where
  "jack_patch_unset U clients p =
     (case (if uuid_is_null (src_client_id p) then Inr p
            else (case jack_patch_unset_client_id clients (src_client_id p) of
                    Inl f \<Rightarrow> Inl f
                  | Inr n \<Rightarrow> jack_patch_set_src_desc U (p\<lparr>src_client := Some n\<rparr>))) of
        Inl f \<Rightarrow> Inl f
      | Inr p1 \<Rightarrow>
          (case (if uuid_is_null (dest_client_id p1) then Inr p1
                 else (case jack_patch_unset_client_id clients (dest_client_id p1) of
                         Inl f \<Rightarrow> Inl f
                       | Inr n \<Rightarrow> jack_patch_set_dest_desc U (p1\<lparr>dest_client := Some n\<rparr>))) of
             Inl f \<Rightarrow> Inl f
           | Inr p2 \<Rightarrow> Inr (p2, True)))"

definition jack_patch_switch_clients :: "jack_patch \<Rightarrow> jack_patch" where
  "jack_patch_switch_clients p =
     p\<lparr>src_client := dest_client p, dest_client := src_client p,
       src_port := dest_port p, dest_port := src_port p,
       src_client_id := dest_client_id p, dest_client_id := src_client_id p\<rparr>"

text \<open>Splitting a full JACK port name at its first colon; without one the code writes through \<open>NULL\<close>.\<close>

definition jack_patch_set_client_and_port :: "string \<Rightarrow> (string \<times> string) res" where
  "jack_patch_set_client_and_port full =
     (if CHR '':'' \<in> set full then
        Inr (takeWhile (\<lambda>c. c \<noteq> CHR '':'') full, tl (dropWhile (\<lambda>c. c \<noteq> CHR '':'') full))
      else Inl Null_deref)"

definition jack_patch_set_src :: "uuid_lib \<Rightarrow> jack_patch \<Rightarrow> string \<Rightarrow> jack_patch res" where
  "jack_patch_set_src U p src =
     (case jack_patch_set_client_and_port src of
        Inl f \<Rightarrow> Inl f
      | Inr (c, port) \<Rightarrow> jack_patch_set_src_desc U (p\<lparr>src_client := Some c, src_port := Some port\<rparr>))"

definition jack_patch_set_dest :: "uuid_lib \<Rightarrow> jack_patch \<Rightarrow> string \<Rightarrow> jack_patch res" where
  "jack_patch_set_dest U p dest =
     (case jack_patch_set_client_and_port dest of
        Inl f \<Rightarrow> Inl f
      | Inr (c, port) \<Rightarrow> jack_patch_set_dest_desc U (p\<lparr>dest_client := Some c, dest_port := Some port\<rparr>))"

section \<open>What the operations guarantee\<close>

text \<open>A patch both of whose ports are set: what every description needs.\<close>

definition has_ports :: "jack_patch \<Rightarrow> bool" where
  "has_ports p \<longleftrightarrow> src_port p \<noteq> None \<and> dest_port p \<noteq> None"

text \<open>The description an end should carry: the name, or the UUID's text, and the port.\<close>

definition end_desc :: "uuid_lib \<Rightarrow> cstr \<Rightarrow> uuid \<Rightarrow> string \<Rightarrow> string" where
  "end_desc U name u port = (case name of Some c \<Rightarrow> c | None \<Rightarrow> uuid_unparse U u) @ CHR '':'' # port"

lemma set_src_desc_ok:
  assumes "uuid_lib_ok U" "src_port p = Some port"
  shows "jack_patch_set_src_desc U p
    = Inr (p\<lparr>src_desc := Some (end_desc U (src_client p) (src_client_id p) port)\<rparr>)"
  using uuid_lib_okD [OF assms(1)] assms(2)
  by (simp add: jack_patch_set_src_desc_def format_desc_def end_desc_def split: option.split)

lemma set_dest_desc_ok:
  assumes "uuid_lib_ok U" "dest_port p = Some port"
  shows "jack_patch_set_dest_desc U p
    = Inr (p\<lparr>dest_desc := Some (end_desc U (dest_client p) (dest_client_id p) port)\<rparr>)"
  using uuid_lib_okD [OF assms(1)] assms(2)
  by (simp add: jack_patch_set_dest_desc_def format_desc_def end_desc_def split: option.split)

lemma set_descs_ok:
  assumes "uuid_lib_ok U" "src_port p = Some sp" "dest_port p = Some dp"
  shows "set_descs U p
    = Inr (p\<lparr>src_desc := Some (end_desc U (src_client p) (src_client_id p) sp),
             dest_desc := Some (end_desc U (dest_client p) (dest_client_id p) dp)\<rparr>)"
  using assms by (simp add: set_descs_def set_src_desc_ok set_dest_desc_ok)

lemma set_descs_no_ports:
  assumes "uuid_lib_ok U" "\<not> has_ports p"
  shows "set_descs U p = Inl Null_deref"
proof (cases "src_port p")
  case None
  then show ?thesis
    by (simp add: set_descs_def jack_patch_set_src_desc_def Let_def split: prod.split)
next
  case (Some sp)
  then have "dest_port p = None" using assms(2) by (simp add: has_ports_def)
  then show ?thesis using assms(1) Some
    by (simp add: set_descs_def set_src_desc_ok jack_patch_set_dest_desc_def Let_def split: prod.split)
qed

lemmas desc_simps = set_src_desc_ok set_dest_desc_ok set_descs_ok set_descs_no_ports

text \<open>
  A complete patch: each end is a client known by exactly one of its UUID and its name, both
  ports are set, and the descriptions are those of the ends. Every patch the daemon makes
  from JACK's connections is of this form.
\<close>

definition complete_end :: "cstr \<Rightarrow> uuid \<Rightarrow> bool" where
  "complete_end name u \<longleftrightarrow> (uuid_is_null u \<longleftrightarrow> name \<noteq> None)"

definition complete_patch :: "uuid_lib \<Rightarrow> jack_patch \<Rightarrow> bool" where
  "complete_patch U p \<longleftrightarrow> has_ports p
     \<and> complete_end (src_client p) (src_client_id p) \<and> complete_end (dest_client p) (dest_client_id p)
     \<and> src_desc p = Some (end_desc U (src_client p) (src_client_id p) (the (src_port p)))
     \<and> dest_desc p = Some (end_desc U (dest_client p) (dest_client_id p) (the (dest_port p)))"

definition plain_patch :: "jack_patch \<Rightarrow> bool" where
  "plain_patch p \<longleftrightarrow> (\<forall>s \<in> {src_client p, src_port p, dest_client p, dest_port p}.
     case s of None \<Rightarrow> True | Some t \<Rightarrow> plain_text t)"


definition example_patch :: jack_patch where
  "example_patch = \<lparr>src_client = Some ''system'', src_port = Some ''capture_1'',
     dest_client = None, dest_port = Some ''in'', src_desc = Some ''system:capture_1'',
     dest_desc = Some (uuid_unparse example_uuids 77 @ '':in''), src_client_id = 0, dest_client_id = 77\<rparr>"

lemma example_patch_complete: "complete_patch example_uuids example_patch"
  by (simp add: complete_patch_def example_patch_def has_ports_def complete_end_def uuid_is_null_def
      end_desc_def)


text \<open>Reading a patch back either ends in the strlen of a missing port, exactly when the
  element names no source port or no destination port, or gives a patch with both ports:
  the block a description is formatted into is always large enough.\<close>

theorem jack_patch_parse_xml_total:
  assumes "uuid_lib_ok U"
  shows "case jack_patch_parse_xml U cd jack_patch_new parent of
      Inl f \<Rightarrow> f = Null_deref \<and> \<not> {''src_port'', ''dest_port''} \<subseteq> xname ` set (xkids parent)
    | Inr p \<Rightarrow> has_ports p \<and> {''src_port'', ''dest_port''} \<subseteq> xname ` set (xkids parent)"
proof -
  let ?f = "foldl (jack_patch_parse_node U cd)"
  have kids: "(src_port (?f p ks) \<noteq> None \<longleftrightarrow> src_port p \<noteq> None \<or> ''src_port'' \<in> xname ` set ks)
      \<and> (dest_port (?f p ks) \<noteq> None \<longleftrightarrow> dest_port p \<noteq> None \<or> ''dest_port'' \<in> xname ` set ks)" for p ks
    by (induction ks arbitrary: p)
      (auto simp: jack_patch_parse_node_def Let_def split: option.splits if_splits)
  define q where "q = ?f jack_patch_new (xkids parent)"
  have q: "has_ports q \<longleftrightarrow> {''src_port'', ''dest_port''} \<subseteq> xname ` set (xkids parent)"
    using kids [of jack_patch_new "xkids parent"]
    by (simp add: q_def has_ports_def jack_patch_new_def)
  have parse: "jack_patch_parse_xml U cd jack_patch_new parent = set_descs U q"
    by (simp add: jack_patch_parse_xml_def q_def)
  show ?thesis
  proof (cases "has_ports q")
    case True
    then obtain sp dp where ports: "src_port q = Some sp" "dest_port q = Some dp"
      by (auto simp: has_ports_def)
    show ?thesis unfolding parse set_descs_ok [OF assms ports] q [symmetric]
      using ports by (simp add: has_ports_def)
  next
    case False
    show ?thesis unfolding parse set_descs_no_ports [OF assms False] q [symmetric]
      using False by simp
  qed
qed

lemma jack_patch_parse_xml_total_witness:
  "case jack_patch_parse_xml example_uuids (\<lambda>s. s) jack_patch_new
       (Elem ''jack_patch'' None [leaf ''src_port'' (Some ''out'')]) of
      Inl f \<Rightarrow> f = Null_deref \<and> \<not> {''src_port'', ''dest_port''} \<subseteq> xname ` {leaf ''src_port'' (Some ''out'')}
    | Inr p \<Rightarrow> has_ports p \<and> {''src_port'', ''dest_port''} \<subseteq> xname ` {leaf ''src_port'' (Some ''out'')}"
  using jack_patch_parse_xml_total [OF example_uuids_ok, where cd = "\<lambda>s. s" and
      parent = "Elem ''jack_patch'' None [leaf ''src_port'' (Some ''out'')]"] by (simp only: xml.sel list.set)

section \<open>Finding a connection\<close>

text \<open>
  When every patch of the list has both ports and every end without a given UUID has a name,
  the search is the plain one.
\<close>

definition wants :: "uuid option \<Rightarrow> string \<Rightarrow> uuid \<Rightarrow> cstr \<Rightarrow> bool" where
  "wants given_uuid given_name u name =
     (case given_uuid of Some g \<Rightarrow> \<not> uuid_is_null u \<and> g = u | None \<Rightarrow> name = Some given_name)"

definition named_where_needed :: "uuid option \<Rightarrow> cstr \<Rightarrow> bool" where
  "named_where_needed given_uuid name \<longleftrightarrow> given_uuid \<noteq> None \<or> name \<noteq> None"

lemma end_matches_wants:
  "named_where_needed g name \<Longrightarrow> end_matches g gname u name = Inr (wants g gname u name)"
  by (auto simp: end_matches_def wants_def named_where_needed_def strcmp_ne_def split: option.split)

lemma patch_matches_wants:
  assumes "has_ports p" "named_where_needed su (src_client p)" "named_where_needed du (dest_client p)"
  shows "patch_matches p su sn sp du dn dp = Inr (src_port p = Some sp \<and> dest_port p = Some dp
    \<and> wants su sn (src_client_id p) (src_client p) \<and> wants du dn (dest_client_id p) (dest_client p))"
  using assms
  by (auto simp: patch_matches_def ports_match_def strcmp_ne_def has_ports_def end_matches_wants
      split: bool.split)

text \<open>On a list whose patches have their ports, and a name at each end asked for by name, the search
  never touches a missing string and returns the first patch that matches the description.\<close>

theorem find_by_description_first:
  assumes "\<forall>p \<in> set ps. has_ports p \<and> named_where_needed su (src_client p)
    \<and> named_where_needed du (dest_client p)"
  shows "jack_patch_find_by_description ps su sn sp du dn dp =
    Inr (first_index (\<lambda>p. src_port p = Some sp \<and> dest_port p = Some dp
      \<and> wants su sn (src_client_id p) (src_client p) \<and> wants du dn (dest_client_id p) (dest_client p)) ps)"
  using assms
  by (induction ps) (auto simp: patch_matches_wants split: bool.split)

lemma find_by_description_first_witness:
  "jack_patch_find_by_description [example_patch] None ''system'' ''capture_1'' (Some 77) '''' ''in'' = Inr (Some 0)"
  using find_by_description_first [of "[example_patch]" None "Some 77" "''system''" "''capture_1''" "''''" "''in''"]
  by (simp add: example_patch_def has_ports_def named_where_needed_def wants_def uuid_is_null_def)

text \<open>Asking by name for a connection from the source port of a patch whose source is known only by
  its UUID (a saved patch from a LASH client is of that kind) compares with a missing string, when
  no earlier patch of the list has that source port.\<close>

theorem find_by_description_by_name_faults:
  assumes "p \<in> set ps" "src_port p = Some sp" "dest_port p = Some dp" "src_client p = None"
    and "\<forall>q \<in> set (takeWhile (\<lambda>q. q \<noteq> p) ps). src_port q \<notin> {None, Some sp}"
  shows "jack_patch_find_by_description ps None sn sp du dn dp = Inl Null_deref"
  using assms
proof (induction ps)
  case (Cons q ps)
  show ?case
  proof (cases "q = p")
    case True
    then show ?thesis using Cons.prems
      by (simp add: patch_matches_def ports_match_def end_matches_def strcmp_ne_def)
  next
    case False
    then have "patch_matches q None sn sp du dn dp = Inr False"
      using Cons.prems by (auto simp: patch_matches_def ports_match_def strcmp_ne_def split: option.split)
    then show ?thesis using False Cons by simp
  qed
qed simp

lemma find_by_description_by_name_faults_witness:
  "jack_patch_find_by_description [jack_patch_switch_clients example_patch] None ''x'' ''in'' None ''y'' ''capture_1''
    = Inl Null_deref"
  by (rule find_by_description_by_name_faults [where p = "jack_patch_switch_clients example_patch"])
    (simp_all add: jack_patch_switch_clients_def example_patch_def)

section \<open>Swapping, splitting and unsetting\<close>

lemma switch_clients_involution [simp]:
  "jack_patch_switch_clients (jack_patch_switch_clients p) = p"
  by (simp add: jack_patch_switch_clients_def)

lemma switch_clients_matches:
  assumes "has_ports p" "named_where_needed su (src_client p)" "named_where_needed du (dest_client p)"
  shows "patch_matches (jack_patch_switch_clients p) du dn dp su sn sp = patch_matches p su sn sp du dn dp"
  using assms patch_matches_wants [OF assms]
    patch_matches_wants [of "jack_patch_switch_clients p" du su dn dp sn sp]
  by (auto simp: has_ports_def jack_patch_switch_clients_def)

lemma takeWhile_colon [simp]:
  "CHR '':'' \<notin> set c \<Longrightarrow> takeWhile (\<lambda>x. x \<noteq> CHR '':'') (c @ CHR '':'' # port) = c"
  "CHR '':'' \<notin> set c \<Longrightarrow> dropWhile (\<lambda>x. x \<noteq> CHR '':'') (c @ CHR '':'' # port) = CHR '':'' # port"
  by (induction c) auto

text \<open>
  Splitting undoes formatting: the description of an end whose client name has no colon is
  split into that name and port again.
\<close>

lemma split_end_desc:
  "CHR '':'' \<notin> set c \<Longrightarrow>
   jack_patch_set_client_and_port (end_desc U (Some c) u port) = Inr (c, port)"
  by (simp add: jack_patch_set_client_and_port_def end_desc_def)

lemma set_src_desc_roundtrip:
  assumes "uuid_lib_ok U" "CHR '':'' \<notin> set c" "src_client p = Some c" "src_port p = Some port"
    "src_desc p = Some (end_desc U (Some c) (src_client_id p) port)"
  shows "jack_patch_set_src U p (the (src_desc p)) = Inr p"
  using assms by (simp add: jack_patch_set_src_def split_end_desc set_src_desc_ok)

text \<open>
  \<open>set\<close> gives an end the UUID of the client of that name, \<open>unset\<close> the name of the client
  of that UUID: with names and UUIDs distinct, unsetting what was set gives the names back.
\<close>

lemma find_client_by_name:
  "distinct (map fst cs) \<Longrightarrow> (n, u) \<in> set cs \<Longrightarrow> List.find (\<lambda>c. fst c = n) cs = Some (n, u)"
  by (induction cs) (auto simp: image_iff)

lemma find_client_by_uuid:
  "distinct (map snd cs) \<Longrightarrow> (n, u) \<in> set cs \<Longrightarrow> List.find (\<lambda>c. snd c = u) cs = Some (n, u)"
  by (induction cs) (auto simp: image_iff)

definition mgr_clients_ok :: "mgr_client list \<Rightarrow> bool" where
  "mgr_clients_ok cs \<longleftrightarrow> distinct (map fst cs) \<and> distinct (map snd cs) \<and> 0 \<notin> snd ` set cs"

text \<open>With a client list whose names and UUIDs are distinct, a patch between two of its clients that
  is set (names turned into UUIDs) and then unset again names the same clients and ports, with
  the descriptions of those names.\<close>

theorem jack_patch_set_unset:
  assumes "uuid_lib_ok U" "mgr_clients_ok cs" "(n, u) \<in> set cs" "(m, v) \<in> set cs"
    and "src_client p = Some n" "dest_client p = Some m" "src_port p = Some sp" "dest_port p = Some dp"
  shows "(case jack_patch_set cs p of Inl f \<Rightarrow> Inl f
      | Inr q \<Rightarrow> jack_patch_unset U cs (q\<lparr>src_client := None, dest_client := None\<rparr>))
    = Inr (p\<lparr>src_client_id := u, dest_client_id := v,
         src_desc := Some (n @ CHR '':'' # sp), dest_desc := Some (m @ CHR '':'' # dp)\<rparr>, True)"
proof -
  have by_name: "List.find (\<lambda>c. fst c = n) cs = Some (n, u)" "List.find (\<lambda>c. fst c = m) cs = Some (m, v)"
    using assms(2-4) by (simp_all add: mgr_clients_ok_def find_client_by_name)
  have by_uuid: "List.find (\<lambda>c. snd c = u) cs = Some (n, u)" "List.find (\<lambda>c. snd c = v) cs = Some (m, v)"
    using assms(2-4) by (simp_all add: mgr_clients_ok_def find_client_by_uuid)
  have nonzero: "u \<noteq> 0" "v \<noteq> 0"
    using assms(2-4) by (auto simp: mgr_clients_ok_def image_iff)
  have "jack_patch_set cs p = Inr (p\<lparr>src_client_id := u, dest_client_id := v\<rparr>)"
    using assms by_name
    by (auto simp: jack_patch_set_def jack_patch_set_client_id_def split: list.split)
  then show ?thesis
    using assms by_uuid nonzero
    by (simp add: jack_patch_unset_def jack_patch_unset_client_id_def uuid_is_null_def
        set_src_desc_ok set_dest_desc_ok end_desc_def)
qed

definition example_mgr_clients :: "mgr_client list" where
  "example_mgr_clients = [(''synth'', 5), (''mixer'', 9)]"

lemma jack_patch_set_unset_witness:
  "(case jack_patch_set example_mgr_clients (jack_patch_new\<lparr>src_client := Some ''synth'',
        dest_client := Some ''mixer'', src_port := Some ''out'', dest_port := Some ''in''\<rparr>) of Inl f \<Rightarrow> Inl f
      | Inr q \<Rightarrow> jack_patch_unset example_uuids example_mgr_clients (q\<lparr>src_client := None, dest_client := None\<rparr>))
    = Inr (\<lparr>src_client = Some ''synth'', src_port = Some ''out'', dest_client = Some ''mixer'',
        dest_port = Some ''in'', src_desc = Some ''synth:out'', dest_desc = Some ''mixer:in'',
        src_client_id = 5, dest_client_id = 9\<rparr>, True)"
  using jack_patch_set_unset [of example_uuids example_mgr_clients "''synth''" 5 "''mixer''" 9
      "jack_patch_new\<lparr>src_client := Some ''synth'', dest_client := Some ''mixer'',
        src_port := Some ''out'', dest_port := Some ''in''\<rparr>" "''out''" "''in''"]
  by (simp add: example_uuids_ok example_mgr_clients_def mgr_clients_ok_def jack_patch_new_def)

end
