(* ===== verification/AlsaPatch.thy ===== *)
theory AlsaPatch
  imports Safety Xml
begin

text \<open>
  \<^verbatim>\<open>lashd/alsa_patch.c\<close>, \<^verbatim>\<open>alsa_client.c\<close> and \<^verbatim>\<open>alsa_fport.c\<close>: saved ALSA sequencer
  subscriptions, the clients that own them and the ports the daemon does not own. A
  subscription is libasound's container; it holds the fields its documented accessors name.
  A stored queue number is read back through the library, which may narrow it: the argument
  \<open>narrow\<close> of the functions that store one. The one-time allocation of the container that
  \<open>query_to_sub\<close> reuses is taken to succeed.
\<close>

section \<open>Subscriptions\<close>

record seq_addr =
  addr_client :: u8
  addr_port :: u8

record subscription =
  sub_sender :: seq_addr
  sub_dest :: seq_addr
  sub_queue :: u32
  sub_exclusive :: bool
  sub_time_update :: bool
  sub_time_real :: bool

record query =
  query_root :: seq_addr
  query_addr :: seq_addr
  query_queue :: u32
  query_exclusive :: bool
  query_time_update :: bool
  query_time_real :: bool

definition empty_subscription :: subscription where
  "empty_subscription = \<lparr>sub_sender = \<lparr>addr_client = 0, addr_port = 0\<rparr>,
     sub_dest = \<lparr>addr_client = 0, addr_port = 0\<rparr>, sub_queue = 0, sub_exclusive = False,
     sub_time_update = False, sub_time_real = False\<rparr>"

record alsa_patch =
  src_id :: uuid
  dest_id :: uuid
  sub :: subscription

text \<open>
  \<open>alsa_patch_init\<close>: \<open>err\<close> is what \<open>snd_seq_port_subscribe_malloc\<close> returned.
\<close>

definition alsa_patch_init :: "int \<Rightarrow> alsa_patch res" where
  "alsa_patch_init err =
     (if err \<noteq> 0 then Inl Abort
      else Inr \<lparr>src_id = 0, dest_id = 0, sub = empty_subscription\<rparr>)"

definition alsa_patch_set_sub :: "alsa_patch \<Rightarrow> subscription option \<Rightarrow> alsa_patch" where
  "alsa_patch_set_sub p s = (case s of Some x \<Rightarrow> p\<lparr>sub := x\<rparr> | None \<Rightarrow> p)"

definition query_to_sub :: "(u32 \<Rightarrow> u32) \<Rightarrow> query option \<Rightarrow> subscription option" where
  "query_to_sub narrow qo =
     (case qo of None \<Rightarrow> None
      | Some q \<Rightarrow> Some \<lparr>sub_sender = query_root q, sub_dest = query_addr q,
          sub_queue = narrow (query_queue q), sub_exclusive = query_exclusive q,
          sub_time_update = query_time_update q, sub_time_real = query_time_real q\<rparr>)"

definition alsa_patch_set_sub_from_query ::
  "(u32 \<Rightarrow> u32) \<Rightarrow> alsa_patch \<Rightarrow> query option \<Rightarrow> alsa_patch" where
  "alsa_patch_set_sub_from_query narrow p q =
     (case q of Some _ \<Rightarrow> alsa_patch_set_sub p (query_to_sub narrow q) | None \<Rightarrow> p)"

definition alsa_patch_new_with_sub :: "int \<Rightarrow> subscription option \<Rightarrow> alsa_patch res" where
  "alsa_patch_new_with_sub err s = bindr (alsa_patch_init err) (\<lambda>p. Inr (alsa_patch_set_sub p s))"

definition alsa_patch_new_with_query ::
  "(u32 \<Rightarrow> u32) \<Rightarrow> int \<Rightarrow> query option \<Rightarrow> alsa_patch res" where
  "alsa_patch_new_with_query narrow err q =
     bindr (alsa_patch_init err) (\<lambda>p. Inr (alsa_patch_set_sub_from_query narrow p q))"

definition alsa_patch_dup :: "int \<Rightarrow> alsa_patch \<Rightarrow> alsa_patch res" where
  "alsa_patch_dup err other =
     bindr (alsa_patch_new_with_sub err (Some (sub other)))
       (\<lambda>p. Inr (p\<lparr>src_id := src_id other, dest_id := dest_id other\<rparr>))"

definition alsa_patch_get_src_client :: "alsa_patch \<Rightarrow> u8" where
  "alsa_patch_get_src_client p = addr_client (sub_sender (sub p))"

definition alsa_patch_get_src_port :: "alsa_patch \<Rightarrow> u8" where
  "alsa_patch_get_src_port p = addr_port (sub_sender (sub p))"

definition alsa_patch_get_dest_client :: "alsa_patch \<Rightarrow> u8" where
  "alsa_patch_get_dest_client p = addr_client (sub_dest (sub p))"

definition alsa_patch_get_dest_port :: "alsa_patch \<Rightarrow> u8" where
  "alsa_patch_get_dest_port p = addr_port (sub_dest (sub p))"

definition alsa_patch_switch_clients :: "alsa_patch \<Rightarrow> alsa_patch" where
  "alsa_patch_switch_clients p =
     (let s = sub p;
          (from_client, from_port) = (addr_client (sub_sender s), addr_port (sub_sender s));
          (to_client, to_port) = (addr_client (sub_dest s), addr_port (sub_dest s));
          s1 = s\<lparr>sub_sender := \<lparr>addr_client = to_client, addr_port = to_port\<rparr>\<rparr>;
          s2 = s1\<lparr>sub_dest := \<lparr>addr_client = from_client, addr_port = from_port\<rparr>\<rparr>
      in p\<lparr>sub := s2, src_id := dest_id p, dest_id := src_id p\<rparr>)"

section \<open>The manager's clients\<close>

record alsa_client =
  alsa_client_id :: u8
  alsa_id :: uuid
  alsa_patches :: "alsa_patch list"
  alsa_old_patches :: "alsa_patch list"
  alsa_backup_patches :: "alsa_patch list"

definition alsa_client_init :: alsa_client where
  "alsa_client_init = \<lparr>alsa_client_id = 0, alsa_id = 0, alsa_patches = [], alsa_old_patches = [],
     alsa_backup_patches = []\<rparr>"

definition alsa_client_set_id :: "alsa_client \<Rightarrow> uuid \<Rightarrow> alsa_client" where
  "alsa_client_set_id c i = c\<lparr>alsa_id := i\<rparr>"

definition alsa_client_set_client_id :: "alsa_client \<Rightarrow> u8 \<Rightarrow> alsa_client" where
  "alsa_client_set_client_id c n = c\<lparr>alsa_client_id := n\<rparr>"

text \<open>\<open>errs\<close> are the results of the successive allocations.\<close>

fun dup_patch_list :: "int list \<Rightarrow> alsa_patch list \<Rightarrow> alsa_patch list \<Rightarrow> alsa_patch list res" where
  "dup_patch_list errs [] dest = Inr dest"
| "dup_patch_list errs (p # ps) dest =
     (case errs of [] \<Rightarrow> Inl Abort
      | e # es \<Rightarrow> bindr (alsa_patch_dup e p) (\<lambda>q. dup_patch_list es ps (dest @ [q])))"

definition alsa_client_dup_patches :: "int list \<Rightarrow> alsa_client \<Rightarrow> alsa_patch list \<Rightarrow> alsa_patch list res" where
  "alsa_client_dup_patches errs c dest = dup_patch_list errs (alsa_patches c) dest"

definition alsa_patch_set_client_id :: "alsa_client list \<Rightarrow> u8 \<Rightarrow> uuid \<Rightarrow> uuid" where
  "alsa_patch_set_client_id clients n patch_id =
     (case List.find (\<lambda>c. alsa_client_id c = n) clients of Some c \<Rightarrow> alsa_id c | None \<Rightarrow> patch_id)"

definition alsa_patch_set :: "alsa_patch \<Rightarrow> alsa_client list \<Rightarrow> alsa_patch" where
  "alsa_patch_set p clients =
     (let p1 = p\<lparr>src_id := alsa_patch_set_client_id clients (addr_client (sub_sender (sub p))) (src_id p)\<rparr>
      in p1\<lparr>dest_id := alsa_patch_set_client_id clients (addr_client (sub_dest (sub p1))) (dest_id p1)\<rparr>)"

text \<open>The accessor functions the code passes are the selector and updater of one address.\<close>

definition alsa_patch_unset_client_id ::
  "alsa_patch \<Rightarrow> alsa_client list \<Rightarrow> uuid \<Rightarrow> (subscription \<Rightarrow> seq_addr) \<Rightarrow>
   ((seq_addr \<Rightarrow> seq_addr) \<Rightarrow> subscription \<Rightarrow> subscription) \<Rightarrow> alsa_patch \<times> int" where
  "alsa_patch_unset_client_id p clients patch_id get_addr set_addr =
     (case List.find (\<lambda>c. patch_id = alsa_id c) clients of
        Some c \<Rightarrow>
          (p\<lparr>sub := set_addr (\<lambda>_. \<lparr>addr_client = alsa_client_id c,
             addr_port = addr_port (get_addr (sub p))\<rparr>) (sub p)\<rparr>, 0)
      | None \<Rightarrow> (p, 1))"

definition alsa_patch_unset :: "alsa_patch \<Rightarrow> alsa_client list \<Rightarrow> alsa_patch \<times> int" where
  "alsa_patch_unset p clients =
     (let (p1, n1) =
        (if \<not> uuid_is_null (src_id p) then
           (let (q, err) = alsa_patch_unset_client_id p clients (src_id p) sub_sender sub_sender_update
            in (q, if err \<noteq> 0 then 1 else 0))
         else (p, 0))
      in if \<not> uuid_is_null (dest_id p1) then
           (let (q, err) = alsa_patch_unset_client_id p1 clients (dest_id p1) sub_dest sub_dest_update
            in (q, if err \<noteq> 0 then n1 + 1 else n1))
         else (p1, n1))"

section \<open>Ports that are not the daemon's\<close>

record alsa_fport =
  fport_client :: u8
  fport_port :: u8

definition alsa_fport_new :: alsa_fport where
  "alsa_fport_new = \<lparr>fport_client = 0, fport_port = 0\<rparr>"

definition alsa_fport_set_client :: "alsa_fport \<Rightarrow> u8 \<Rightarrow> alsa_fport" where
  "alsa_fport_set_client f c = f\<lparr>fport_client := c\<rparr>"

definition alsa_fport_set_port :: "alsa_fport \<Rightarrow> u8 \<Rightarrow> alsa_fport" where
  "alsa_fport_set_port f p = f\<lparr>fport_port := p\<rparr>"

definition alsa_fport_new_with_all :: "u8 \<Rightarrow> u8 \<Rightarrow> alsa_fport" where
  "alsa_fport_new_with_all c p = alsa_fport_set_port (alsa_fport_set_client alsa_fport_new c) p"

section \<open>XML\<close>

definition show_flag :: "bool \<Rightarrow> string" where
  "show_flag b = (if b then ''1'' else ''0'')"

definition alsa_patch_create_xml :: "uuid_lib \<Rightarrow> alsa_patch \<Rightarrow> xml" where
  "alsa_patch_create_xml U p =
     (let s = sub p in
      Elem ''alsa_patch'' None
       [if uuid_is_null (src_id p) then leaf ''src_client'' (Some (show_nat (unat (addr_client (sub_sender s)))))
        else leaf ''src_client_id'' (Some (uuid_unparse U (src_id p))),
        leaf ''src_port'' (Some (show_nat (unat (addr_port (sub_sender s))))),
        if uuid_is_null (dest_id p) then leaf ''dest_client'' (Some (show_nat (unat (addr_client (sub_dest s)))))
        else leaf ''dest_client_id'' (Some (uuid_unparse U (dest_id p))),
        leaf ''dest_port'' (Some (show_nat (unat (addr_port (sub_dest s))))),
        leaf ''queue'' (Some (show_d (sub_queue s))),
        leaf ''exclusive'' (Some (show_flag (sub_exclusive s))),
        leaf ''time_update'' (Some (show_flag (sub_time_update s))),
        leaf ''time_real'' (Some (show_flag (sub_time_real s)))])"

text \<open>
  A number read by \<open>strtoul\<close> is narrowed to the type it is stored in: a byte of an address,
  the \<open>int\<close> a flag or queue setter takes.
\<close>

definition alsa_patch_parse_node ::
  "uuid_lib \<Rightarrow> (u32 \<Rightarrow> u32) \<Rightarrow> (string \<Rightarrow> string) \<Rightarrow> alsa_patch \<Rightarrow> xml \<Rightarrow> alsa_patch" where
  "alsa_patch_parse_node U narrow cd p xmlnode =
     (let content = get_content cd xmlnode; s = sub p; n = strtoul10 content in
      if xname xmlnode = ''src_client'' then
        p\<lparr>sub := s\<lparr>sub_sender := \<lparr>addr_client = ucast n, addr_port = addr_port (sub_sender s)\<rparr>\<rparr>\<rparr>
      else if xname xmlnode = ''src_client_id'' then
        (case uuid_parse U content of Some u \<Rightarrow> p\<lparr>src_id := u\<rparr> | None \<Rightarrow> p)
      else if xname xmlnode = ''src_port'' then
        p\<lparr>sub := s\<lparr>sub_sender := \<lparr>addr_client = addr_client (sub_sender s), addr_port = ucast n\<rparr>\<rparr>\<rparr>
      else if xname xmlnode = ''dest_client'' then
        p\<lparr>sub := s\<lparr>sub_dest := \<lparr>addr_client = ucast n, addr_port = addr_port (sub_dest s)\<rparr>\<rparr>\<rparr>
      else if xname xmlnode = ''dest_client_id'' then
        (case uuid_parse U content of Some u \<Rightarrow> p\<lparr>dest_id := u\<rparr> | None \<Rightarrow> p)
      else if xname xmlnode = ''dest_port'' then
        p\<lparr>sub := s\<lparr>sub_dest := \<lparr>addr_client = addr_client (sub_dest s), addr_port = ucast n\<rparr>\<rparr>\<rparr>
      else if xname xmlnode = ''queue'' then p\<lparr>sub := s\<lparr>sub_queue := narrow (ucast n)\<rparr>\<rparr>
      else if xname xmlnode = ''exclusive'' then p\<lparr>sub := s\<lparr>sub_exclusive := (ucast n :: u32) \<noteq> 0\<rparr>\<rparr>
      else if xname xmlnode = ''time_update'' then p\<lparr>sub := s\<lparr>sub_time_update := (ucast n :: u32) \<noteq> 0\<rparr>\<rparr>
      else if xname xmlnode = ''time_real'' then p\<lparr>sub := s\<lparr>sub_time_real := (ucast n :: u32) \<noteq> 0\<rparr>\<rparr>
      else p)"

definition alsa_patch_parse_xml ::
  "uuid_lib \<Rightarrow> (u32 \<Rightarrow> u32) \<Rightarrow> (string \<Rightarrow> string) \<Rightarrow> alsa_patch \<Rightarrow> xml \<Rightarrow> alsa_patch" where
  "alsa_patch_parse_xml U narrow cd p parent =
     foldl (alsa_patch_parse_node U narrow cd) p (xkids parent)"

section \<open>Descriptions and comparison\<close>

text \<open>The three character buffers of \<open>alsa_patch_get_desc\<close> have 37, 37 and 256 bytes.\<close>

definition client_desc :: "uuid_lib \<Rightarrow> uuid \<Rightarrow> u8 \<Rightarrow> string res" where
  "client_desc U u n =
     (if uuid_is_null u then sprintf_into 37 (show_nat (unat n)) else sprintf_into 37 (uuid_unparse U u))"

definition alsa_patch_get_desc :: "uuid_lib \<Rightarrow> alsa_patch \<Rightarrow> string res" where
  "alsa_patch_get_desc U p =
     (let s = sub p in
      bindr (client_desc U (src_id p) (addr_client (sub_sender s))) (\<lambda>src.
      bindr (client_desc U (dest_id p) (addr_client (sub_dest s))) (\<lambda>dest.
      sprintf_into 256 (src @ '':'' @ show_nat (unat (addr_port (sub_sender s))) @ '' -> '' @
        dest @ '':'' @ show_nat (unat (addr_port (sub_dest s))) @ '' <queue='' @ show_d (sub_queue s) @
        (if sub_exclusive s then '',exclusive'' else '''') @
        (if sub_time_update s then '',time_update'' else '''') @
        (if sub_time_real s then '',time_real'' else '''') @ ''>''))))"

definition alsa_patch_compare :: "alsa_patch \<Rightarrow> alsa_patch \<Rightarrow> int" where
  "alsa_patch_compare a b =
     (if addr_client (sub_sender (sub a)) \<noteq> addr_client (sub_sender (sub b))
         \<or> addr_port (sub_sender (sub a)) \<noteq> addr_port (sub_sender (sub b)) then 1
      else if addr_client (sub_dest (sub a)) \<noteq> addr_client (sub_dest (sub b))
         \<or> addr_port (sub_dest (sub a)) \<noteq> addr_port (sub_dest (sub b)) then 1
      else if sub_queue (sub a) \<noteq> sub_queue (sub b) \<or> sub_exclusive (sub a) \<noteq> sub_exclusive (sub b)
         \<or> sub_time_update (sub a) \<noteq> sub_time_update (sub b)
         \<or> sub_time_real (sub a) \<noteq> sub_time_real (sub b) then 1
      else 0)"

section \<open>What the operations guarantee\<close>

text \<open>Queue numbers that the library keeps: those of one byte, non-negative as an \<open>int\<close>.\<close>

definition keeps_bytes :: "(u32 \<Rightarrow> u32) \<Rightarrow> bool" where
  "keeps_bytes narrow \<longleftrightarrow> (\<forall>n < 256. narrow (word_of_nat n) = word_of_nat n)"

definition byte_queue :: "alsa_patch \<Rightarrow> bool" where
  "byte_queue p \<longleftrightarrow> unat (sub_queue (sub p)) < 256"

lemma read_byte: "ucast (strtoul10 (show_nat (unat (n::u8)))) = n"
proof -
  have "unat n < 2 ^ 64" using unsigned_less [of n, where ?'a = nat] by simp
  then have "strtoul10 (show_nat (unat n)) = word_of_nat (unat n)" by (rule strtoul_show)
  then show ?thesis by (simp add: ucast_up_ucast_id is_up.rep_eq)
qed

lemma read_flag: "(ucast (strtoul10 (show_flag b)) :: u32) \<noteq> 0 \<longleftrightarrow> b"
  by (simp add: show_flag_def strtoul10_def is_space_def is_digit_def digit_val_def)

lemma read_queue:
  assumes "unat (w::u32) < 256"
  shows "ucast (strtoul10 (show_d w)) = w"
proof -
  have "show_d (word_of_nat (unat w)) = show_nat (unat w)"
    using assms by (intro show_d_small) simp
  moreover have "strtoul10 (show_nat (unat w)) = word_of_nat (unat w)"
    using assms by (intro strtoul_show) simp
  ultimately show ?thesis by (simp add: ucast_up_ucast_id is_up.rep_eq)
qed

lemma plain_digits:
  assumes "\<forall>c \<in> set s. is_digit c"
  shows "plain_text s"
  using assms by (auto simp: plain_text_def is_digit_def)

lemma plain_show_nat: "plain_text (show_nat n)"
  by (rule plain_digits) (rule show_nat_digits)

lemma plain_show_d: "plain_text (show_d w)"
  using plain_show_nat by (simp add: show_d_def plain_text_def)

lemma plain_show_flag: "plain_text (show_flag b)"
  by (simp add: show_flag_def plain_text_def)

text \<open>
  What a saved patch keeps: a client number only where no UUID names the client.
\<close>

definition saved_part :: "alsa_patch \<Rightarrow> alsa_patch" where
  "saved_part p = p\<lparr>sub := (sub p)
     \<lparr>sub_sender := (sub_sender (sub p))\<lparr>addr_client :=
        (if uuid_is_null (src_id p) then addr_client (sub_sender (sub p)) else 0)\<rparr>,
      sub_dest := (sub_dest (sub p))\<lparr>addr_client :=
        (if uuid_is_null (dest_id p) then addr_client (sub_dest (sub p)) else 0)\<rparr>\<rparr>\<rparr>"

lemma parse_node_simps:
  "alsa_patch_parse_node U narrow cd p (leaf ''src_client'' (Some t)) =
     p\<lparr>sub := (sub p)\<lparr>sub_sender := (sub_sender (sub p))\<lparr>addr_client := ucast (strtoul10 (cd t))\<rparr>\<rparr>\<rparr>"
  "alsa_patch_parse_node U narrow cd p (leaf ''src_client_id'' (Some t)) =
     (case uuid_parse U (cd t) of Some u \<Rightarrow> p\<lparr>src_id := u\<rparr> | None \<Rightarrow> p)"
  "alsa_patch_parse_node U narrow cd p (leaf ''src_port'' (Some t)) =
     p\<lparr>sub := (sub p)\<lparr>sub_sender := (sub_sender (sub p))\<lparr>addr_port := ucast (strtoul10 (cd t))\<rparr>\<rparr>\<rparr>"
  "alsa_patch_parse_node U narrow cd p (leaf ''dest_client'' (Some t)) =
     p\<lparr>sub := (sub p)\<lparr>sub_dest := (sub_dest (sub p))\<lparr>addr_client := ucast (strtoul10 (cd t))\<rparr>\<rparr>\<rparr>"
  "alsa_patch_parse_node U narrow cd p (leaf ''dest_client_id'' (Some t)) =
     (case uuid_parse U (cd t) of Some u \<Rightarrow> p\<lparr>dest_id := u\<rparr> | None \<Rightarrow> p)"
  "alsa_patch_parse_node U narrow cd p (leaf ''dest_port'' (Some t)) =
     p\<lparr>sub := (sub p)\<lparr>sub_dest := (sub_dest (sub p))\<lparr>addr_port := ucast (strtoul10 (cd t))\<rparr>\<rparr>\<rparr>"
  "alsa_patch_parse_node U narrow cd p (leaf ''queue'' (Some t)) =
     p\<lparr>sub := (sub p)\<lparr>sub_queue := narrow (ucast (strtoul10 (cd t)))\<rparr>\<rparr>"
  "alsa_patch_parse_node U narrow cd p (leaf ''exclusive'' (Some t)) =
     p\<lparr>sub := (sub p)\<lparr>sub_exclusive := (ucast (strtoul10 (cd t)) :: u32) \<noteq> 0\<rparr>\<rparr>"
  "alsa_patch_parse_node U narrow cd p (leaf ''time_update'' (Some t)) =
     p\<lparr>sub := (sub p)\<lparr>sub_time_update := (ucast (strtoul10 (cd t)) :: u32) \<noteq> 0\<rparr>\<rparr>"
  "alsa_patch_parse_node U narrow cd p (leaf ''time_real'' (Some t)) =
     p\<lparr>sub := (sub p)\<lparr>sub_time_real := (ucast (strtoul10 (cd t)) :: u32) \<noteq> 0\<rparr>\<rparr>"
  by (simp_all add: alsa_patch_parse_node_def Let_def)

lemmas plain_numbers = plain_show_nat plain_show_d plain_show_flag

text \<open>C29. An ALSA patch with a one-byte queue number survives being saved and read into a new patch, up
  to the client numbers of ends known by UUID, which are not saved and read back as 0.\<close>

theorem alsa_patch_xml_roundtrip:
  assumes "uuid_lib_ok U" "keeps_plain cd" "keeps_bytes narrow" "byte_queue p"
  shows "bindr (alsa_patch_init 0) (\<lambda>q. Inr (alsa_patch_parse_xml U narrow cd q (alsa_patch_create_xml U p)))
    = Inr (saved_part p)"
proof -
  have cd: "cd (show_nat n) = show_nat n" "cd (show_d w) = show_d w" "cd (show_flag b) = show_flag b" for n w b
    using assms(2) by (simp_all add: keeps_plainD plain_numbers)
  have ids: "uuid_parse U (cd (uuid_unparse U u)) = Some u" for u
    using assms(1,2) by (simp add: uuid_lib_okD keeps_plainD)
  have queue: "narrow (ucast (strtoul10 (show_d (sub_queue (sub p))))) = sub_queue (sub p)"
  proof -
    have "narrow (word_of_nat (unat (sub_queue (sub p)))) = word_of_nat (unat (sub_queue (sub p)))"
      using assms(3,4) unfolding keeps_bytes_def byte_queue_def by blast
    then show ?thesis using assms(4) by (simp add: read_queue byte_queue_def)
  qed
  show ?thesis
    unfolding alsa_patch_parse_xml_def alsa_patch_create_xml_def alsa_patch_init_def saved_part_def Let_def
    by (cases "uuid_is_null (src_id p)"; cases "uuid_is_null (dest_id p)")
      (simp_all add: parse_node_simps cd ids queue read_byte read_flag
        uuid_is_null_def empty_subscription_def)
qed

definition example_alsa_patch :: alsa_patch where
  "example_alsa_patch = \<lparr>src_id = 7, dest_id = 0, sub =
     \<lparr>sub_sender = \<lparr>addr_client = 128, addr_port = 0\<rparr>, sub_dest = \<lparr>addr_client = 14, addr_port = 1\<rparr>,
      sub_queue = 3, sub_exclusive = True, sub_time_update = False, sub_time_real = True\<rparr>\<rparr>"

lemma alsa_patch_xml_roundtrip_witness:
  "bindr (alsa_patch_init 0) (\<lambda>q. Inr (alsa_patch_parse_xml example_uuids (\<lambda>w. ucast (ucast w :: u8)) (\<lambda>s. s) q
      (alsa_patch_create_xml example_uuids example_alsa_patch))) = Inr (saved_part example_alsa_patch)"
proof (rule alsa_patch_xml_roundtrip [OF example_uuids_ok keeps_plain_id])
  show "keeps_bytes (\<lambda>w. ucast (ucast w :: u8))"
    by (auto simp: keeps_bytes_def unsigned_of_nat take_bit_nat_eq_self)
  show "byte_queue example_alsa_patch" by (simp add: byte_queue_def example_alsa_patch_def)
qed

text \<open>Describing a patch never writes past any of its three buffers, whatever the patch.\<close>

theorem alsa_patch_get_desc_fits:
  assumes "uuid_lib_ok U"
  shows "\<exists>desc. alsa_patch_get_desc U p = Inr desc \<and> length desc < 256"
proof -
  have byte: "length (show_nat (unat (n::u8))) \<le> 3" for n
  proof -
    have "unat n < 10 ^ 3" using unsigned_less [of n, where ?'a = nat] by simp
    then show ?thesis by (rule length_show_nat_le) simp
  qed
  have "\<exists>d. client_desc U u n = Inr d \<and> length d \<le> 36" for u and n :: u8
    using uuid_lib_okD(2) [OF assms] byte [of n]
    by (auto simp: client_desc_def sprintf_into_def)
  then obtain s d where sd: "client_desc U (src_id p) (addr_client (sub_sender (sub p))) = Inr s"
      "length s \<le> 36" "client_desc U (dest_id p) (addr_client (sub_dest (sub p))) = Inr d" "length d \<le> 36"
    by meson
  then show ?thesis
    using byte [of "addr_port (sub_sender (sub p))"] byte [of "addr_port (sub_dest (sub p))"]
      length_show_d [of "sub_queue (sub p)"]
    by (simp add: alsa_patch_get_desc_def Let_def sprintf_into_def)
qed

lemma alsa_patch_get_desc_fits_witness:
  "\<exists>desc. alsa_patch_get_desc example_uuids example_alsa_patch = Inr desc \<and> length desc < 256"
  by (rule alsa_patch_get_desc_fits [OF example_uuids_ok])

lemma alsa_patch_compare_eq: "alsa_patch_compare a b = 0 \<longleftrightarrow> sub a = sub b"
  by (auto simp: alsa_patch_compare_def intro!: subscription.equality seq_addr.equality)

lemma alsa_patch_switch_involution [simp]:
  "alsa_patch_switch_clients (alsa_patch_switch_clients p) = p"
  by (simp add: alsa_patch_switch_clients_def Let_def)

lemma alsa_patch_switch_compare:
  "alsa_patch_compare (alsa_patch_switch_clients a) (alsa_patch_switch_clients b) = alsa_patch_compare a b"
  by (simp add: alsa_patch_switch_clients_def alsa_patch_compare_def Let_def)

lemma alsa_patch_dup_ok: "alsa_patch_dup 0 p = Inr p"
  by (simp add: alsa_patch_dup_def alsa_patch_new_with_sub_def alsa_patch_init_def alsa_patch_set_sub_def)

lemma alsa_client_dup_patches_ok:
  "length errs = length (alsa_patches c) \<Longrightarrow> set errs \<subseteq> {0} \<Longrightarrow>
   alsa_client_dup_patches errs c dest = Inr (dest @ alsa_patches c)"
proof -
  have "length errs = length ps \<Longrightarrow> set errs \<subseteq> {0} \<Longrightarrow> dup_patch_list errs ps dest = Inr (dest @ ps)" for ps dest
    by (induction errs ps dest rule: dup_patch_list.induct) (auto simp: alsa_patch_dup_ok split: list.splits)
  then show "length errs = length (alsa_patches c) \<Longrightarrow> set errs \<subseteq> {0} \<Longrightarrow>
      alsa_client_dup_patches errs c dest = Inr (dest @ alsa_patches c)"
    by (simp add: alsa_client_dup_patches_def)
qed

subsection \<open>UUIDs and client numbers\<close>

text \<open>The number the manager has for a UUID now, if it knows the client.\<close>

definition current_number :: "alsa_client list \<Rightarrow> uuid \<Rightarrow> u8 option" where
  "current_number clients u = map_option alsa_client_id (List.find (\<lambda>c. u = alsa_id c) clients)"

definition renumber_end :: "alsa_client list \<Rightarrow> uuid \<Rightarrow> seq_addr \<Rightarrow> seq_addr" where
  "renumber_end clients u a =
     (if uuid_is_null u then a
      else (case current_number clients u of None \<Rightarrow> a | Some n \<Rightarrow> a\<lparr>addr_client := n\<rparr>))"

definition missing_end :: "alsa_client list \<Rightarrow> uuid \<Rightarrow> int" where
  "missing_end clients u = (if \<not> uuid_is_null u \<and> current_number clients u = None then 1 else 0)"

text \<open>Unsetting a patch gives each end that is known by UUID the number its client has now, keeps the
  ports, the UUIDs and every other field, and returns the number of ends whose client is not
  running.\<close>

theorem alsa_patch_unset_exact:
  "alsa_patch_unset p clients =
     (p\<lparr>sub := (sub p)\<lparr>sub_sender := renumber_end clients (src_id p) (sub_sender (sub p)),
        sub_dest := renumber_end clients (dest_id p) (sub_dest (sub p))\<rparr>\<rparr>,
      missing_end clients (src_id p) + missing_end clients (dest_id p))"
  by (cases "List.find (\<lambda>c. src_id p = alsa_id c) clients";
      cases "List.find (\<lambda>c. dest_id p = alsa_id c) clients")
    (auto simp: alsa_patch_unset_def alsa_patch_unset_client_id_def renumber_end_def missing_end_def
      current_number_def Let_def)

lemma alsa_patch_set_numbers:
  assumes "distinct (map alsa_client_id cs)" "c \<in> set cs" "d \<in> set cs"
    "addr_client (sub_sender (sub p)) = alsa_client_id c" "addr_client (sub_dest (sub p)) = alsa_client_id d"
  shows "alsa_patch_set p cs = p\<lparr>src_id := alsa_id c, dest_id := alsa_id d\<rparr>"
proof -
  have "List.find (\<lambda>x. alsa_client_id x = alsa_client_id e) cs = Some e" if "e \<in> set cs" for e
    using that assms(1) by (induction cs) (auto simp: image_iff)
  then show ?thesis using assms by (simp add: alsa_patch_set_def alsa_patch_set_client_id_def Let_def)
qed

end
