(* ===== verification/JackMgr.thy ===== *)
theory JackMgr
  imports JackPatch
begin

text \<open>
  \<^verbatim>\<open>lashd/jack_mgr_client.c\<close> and \<^verbatim>\<open>lashd/jackdbus_mgr.c\<close>: the manager of JACK clients over
  jackdbus. It keeps the JACK clients bound to LASH clients, those that are not (yet), and
  the last connection graph jackdbus sent. A graph is a D-Bus message the manager checks
  while it walks it: an argument that is not the expected array, or an entry that does not
  parse, is \<open>None\<close>. The replies of jackdbus are arguments of the functions that ask for them.
\<close>

section \<open>Clients of the manager\<close>

type_synonym pid = u32

record jack_mgr_client =
  jc_name :: cstr
  jc_id :: uuid
  jc_old_patches :: "jack_patch list"
  jc_backup_patches :: "jack_patch list"
  jc_jackdbus_id :: u64
  jc_pid :: pid

definition jack_mgr_client_new :: jack_mgr_client where
  "jack_mgr_client_new = \<lparr>jc_name = None, jc_id = 0, jc_old_patches = [], jc_backup_patches = [],
     jc_jackdbus_id = 0, jc_pid = 0\<rparr>"

fun jack_mgr_client_dup_patch_list ::
  "uuid_lib \<Rightarrow> jack_patch list \<Rightarrow> jack_patch list \<Rightarrow> jack_patch list res" where
  "jack_mgr_client_dup_patch_list U [] dest = Inr dest"
| "jack_mgr_client_dup_patch_list U (p # ps) dest =
     bindr (jack_patch_dup U p) (\<lambda>q. jack_mgr_client_dup_patch_list U ps (dest @ [q]))"

definition jack_mgr_client_find_by_id :: "jack_mgr_client list \<Rightarrow> uuid \<Rightarrow> nat option" where
  "jack_mgr_client_find_by_id cs i = first_index (\<lambda>c. i = jc_id c) cs"

definition jack_mgr_client_find_by_jackdbus_id :: "jack_mgr_client list \<Rightarrow> u64 \<Rightarrow> nat option" where
  "jack_mgr_client_find_by_jackdbus_id cs i = first_index (\<lambda>c. jc_jackdbus_id c = i) cs"

definition jack_mgr_client_find_by_pid :: "jack_mgr_client list \<Rightarrow> pid \<Rightarrow> nat option" where
  "jack_mgr_client_find_by_pid cs p = first_index (\<lambda>c. jc_pid c = p) cs"

section \<open>The graph and the manager's state\<close>

record graph_client =
  gc_id :: u64
  gc_name :: string
  gc_ports :: "(u64 \<times> string) option list option"

record graph_patch =
  gp_src_id :: u64
  gp_src_name :: string
  gp_src_port :: string
  gp_dest_id :: u64
  gp_dest_name :: string
  gp_dest_port :: string

record graph =
  g_clients :: "graph_client option list option"
  g_patches :: "graph_patch option list option"

text \<open>
  \<open>jm_unknown_freed\<close> marks a list head whose elements have been freed without the head being
  initialised again: walking or extending the list then follows dangling pointers.
\<close>

record jackdbus_mgr =
  jm_clients :: "jack_mgr_client list"
  jm_unknown :: "jack_mgr_client list"
  jm_unknown_freed :: bool
  jm_graph :: "graph option"
  jm_version :: u64

definition graph_free :: "jackdbus_mgr \<Rightarrow> jackdbus_mgr" where
  "graph_free m = m\<lparr>jm_version := 0, jm_graph := None\<rparr>"

text \<open>A reply to \<open>GetGraph\<close>, or \<open>None\<close> for an error or a reply without a version.\<close>

type_synonym graph_reply = "(u64 \<times> graph) option"

definition graph_return_handler :: "graph_reply \<Rightarrow> jackdbus_mgr \<Rightarrow> jackdbus_mgr" where
  "graph_return_handler r m =
     (case r of None \<Rightarrow> m
      | Some (version, g) \<Rightarrow>
          if version = jm_version m then m
          else (graph_free m)\<lparr>jm_graph := Some g, jm_version := version\<rparr>)"

text \<open>The reply jackdbus gives depends on the version asked for.\<close>

definition get_graph :: "(u64 \<Rightarrow> graph_reply) \<Rightarrow> jackdbus_mgr \<Rightarrow> jackdbus_mgr" where
  "get_graph ask m = graph_return_handler (ask (jm_version m)) m"

fun collect_unknown ::
  "(u64 \<Rightarrow> u64) \<Rightarrow> graph_client option list \<Rightarrow> jackdbus_mgr \<Rightarrow> jackdbus_mgr res" where
  "collect_unknown pid_of [] m = Inr m"
| "collect_unknown pid_of (None # es) m = Inr (graph_free m)"
| "collect_unknown pid_of (Some gc # es) m =
     (if pid_of (gc_id gc) \<noteq> 0 then
        (if jm_unknown_freed m then Inl Dangling
         else collect_unknown pid_of es (m\<lparr>jm_unknown := jm_unknown m @
           [jack_mgr_client_new\<lparr>jc_name := Some (gc_name gc), jc_jackdbus_id := gc_id gc,
              jc_pid := ucast (pid_of (gc_id gc))\<rparr>]\<rparr>))
      else collect_unknown pid_of es m)"

definition get_unknown_clients :: "(u64 \<Rightarrow> u64) \<Rightarrow> jackdbus_mgr \<Rightarrow> jackdbus_mgr res" where
  "get_unknown_clients pid_of m =
     (case jm_graph m of None \<Rightarrow> Inr m
      | Some g \<Rightarrow> (case g_clients g of None \<Rightarrow> Inr (graph_free m)
                   | Some es \<Rightarrow> collect_unknown pid_of es m))"

definition jackdbus_mgr_clear :: "jackdbus_mgr \<Rightarrow> jackdbus_mgr res" where
  "jackdbus_mgr_clear m =
     (if jm_unknown_freed m then Inl Dangling
      else Inr (graph_free (m\<lparr>jm_unknown_freed := (jm_unknown m \<noteq> [])\<rparr>)))"

definition jackdbus_mgr_new ::
  "bool \<Rightarrow> (u64 \<Rightarrow> graph_reply) \<Rightarrow> (u64 \<Rightarrow> u64) \<Rightarrow> jackdbus_mgr res" where
  "jackdbus_mgr_new server_started ask pid_of =
     (let m = \<lparr>jm_clients = [], jm_unknown = [], jm_unknown_freed = False, jm_graph = None, jm_version = 0\<rparr>
      in if server_started then get_unknown_clients pid_of (get_graph ask m) else Inr m)"

section \<open>Connections\<close>

text \<open>A request to jackdbus to connect two ports.\<close>

datatype connect = Connect cstr cstr cstr cstr

text \<open>The UUIDs of the ends of a patch that involves the client; \<open>None\<close> if it does not.\<close>

definition get_patch_uuids ::
  "jack_mgr_client list \<Rightarrow> jack_mgr_client \<Rightarrow> u64 \<Rightarrow> u64 \<Rightarrow> (uuid option \<times> uuid option) option" where
  "get_patch_uuids cs client src dest =
     (if src \<noteq> jc_jackdbus_id client \<and> dest \<noteq> jc_jackdbus_id client then None
      else
        (let uuid_of = (\<lambda>i. if i = jc_jackdbus_id client then Some (jc_id client)
               else map_option (\<lambda>k. jc_id (cs ! k)) (jack_mgr_client_find_by_jackdbus_id cs i))
         in Some (uuid_of src, uuid_of dest)))"

definition remove_nth :: "nat \<Rightarrow> 'a list \<Rightarrow> 'a list" where
  "remove_nth i xs = take i xs @ drop (Suc i) xs"

definition del_old_patch ::
  "jack_mgr_client list \<Rightarrow> jack_mgr_client \<Rightarrow> graph_patch \<Rightarrow> jack_mgr_client res" where
  "del_old_patch cs client g =
     (case get_patch_uuids cs client (gp_src_id g) (gp_dest_id g) of
        None \<Rightarrow> Inr client
      | Some (src_uuid, dest_uuid) \<Rightarrow>
          bindr (jack_patch_find_by_description (jc_old_patches client)
                   src_uuid (gp_src_name g) (gp_src_port g) dest_uuid (gp_dest_name g) (gp_dest_port g))
            (\<lambda>found. case found of None \<Rightarrow> Inr client
               | Some i \<Rightarrow> Inr (client\<lparr>jc_old_patches := remove_nth i (jc_old_patches client)\<rparr>)))"

text \<open>The name of the other end: the saved name, else that of the client with the saved UUID.\<close>

definition other_end :: "jack_mgr_client list \<Rightarrow> cstr \<Rightarrow> uuid \<Rightarrow> string" where
  "other_end cs name u =
     (case name of Some n \<Rightarrow> n
      | None \<Rightarrow> (case jack_mgr_client_find_by_id cs u of
                  Some k \<Rightarrow> (case jc_name (cs ! k) of Some n \<Rightarrow> n | None \<Rightarrow> '''')
                | None \<Rightarrow> ''''))"

text \<open>\<open>strcmp (a, b) == 0\<close> guarded by an equality of UUIDs.\<close>

definition id_and_port :: "uuid \<Rightarrow> uuid \<Rightarrow> cstr \<Rightarrow> string \<Rightarrow> bool res" where
  "id_and_port u v port name =
     (if u \<noteq> v then Inr False else bindr (strcmp_ne port name) (\<lambda>ne. Inr (\<not> ne)))"

fun new_client_port ::
  "jack_mgr_client list \<Rightarrow> jack_mgr_client \<Rightarrow> string \<Rightarrow> string \<Rightarrow> jack_patch list \<Rightarrow> connect list res" where
  "new_client_port cs client client_name port_name [] = Inr []"
| "new_client_port cs client client_name port_name (p # ps) =
     bindr (id_and_port (src_client_id p) (jc_id client) (src_port p) port_name) (\<lambda>is_src.
     bindr (if is_src then
              Inr [Connect (Some client_name) (Some port_name)
                     (Some (other_end cs (dest_client p) (dest_client_id p))) (dest_port p)]
            else bindr (id_and_port (dest_client_id p) (jc_id client) (dest_port p) port_name) (\<lambda>is_dest.
              Inr (if is_dest then [Connect (Some (other_end cs (src_client p) (src_client_id p))) (src_port p)
                                     (Some client_name) (Some port_name)]
                   else []))) (\<lambda>here.
     bindr (new_client_port cs client client_name port_name ps) (\<lambda>rest. Inr (here @ rest))))"

text \<open>Whether a saved end, known by name, is the foreign port.\<close>

definition is_foreign_end :: "cstr \<Rightarrow> cstr \<Rightarrow> string \<Rightarrow> string \<Rightarrow> bool res" where
  "is_foreign_end name port client_name port_name =
     (case name of None \<Rightarrow> Inr False
      | Some n \<Rightarrow> if n \<noteq> client_name then Inr False
                  else bindr (strcmp_ne port port_name) (\<lambda>ne. Inr (\<not> ne)))"

fun foreign_patches ::
  "jack_mgr_client \<Rightarrow> string \<Rightarrow> string \<Rightarrow> jack_patch list \<Rightarrow> connect list res" where
  "foreign_patches client client_name port_name [] = Inr []"
| "foreign_patches client client_name port_name (p # ps) =
     bindr (if src_client_id p = jc_id client then
              bindr (is_foreign_end (dest_client p) (dest_port p) client_name port_name) (\<lambda>yes.
                Inr (if yes then [Connect (jc_name client) (src_port p) (Some client_name) (Some port_name)] else []))
            else
              bindr (is_foreign_end (src_client p) (src_port p) client_name port_name) (\<lambda>yes.
                Inr (if yes then [Connect (Some client_name) (Some port_name) (jc_name client) (dest_port p)] else [])))
       (\<lambda>here. bindr (foreign_patches client client_name port_name ps) (\<lambda>rest. Inr (here @ rest)))"

fun new_foreign_port :: "jack_mgr_client list \<Rightarrow> string \<Rightarrow> string \<Rightarrow> connect list res" where
  "new_foreign_port [] client_name port_name = Inr []"
| "new_foreign_port (c # cs) client_name port_name =
     bindr (foreign_patches c client_name port_name (jc_old_patches c)) (\<lambda>here.
     bindr (new_foreign_port cs client_name port_name) (\<lambda>rest. Inr (here @ rest)))"

section \<open>Reading the graph for one client\<close>

text \<open>
  The client is the \<open>i\<close>-th of the manager's list. The first loop looks for its entry in the
  client array: \<open>None\<close> for an entry that does not parse.
\<close>

fun find_graph_client :: "graph_client option list \<Rightarrow> string \<Rightarrow> graph_client option option" where
  "find_graph_client [] name = Some None"
| "find_graph_client (None # es) name = None"
| "find_graph_client (Some gc # es) name = (if gc_name gc = name then Some (Some gc) else find_graph_client es name)"

text \<open>The port loop; the flag is \<open>False\<close> when an entry did not parse.\<close>

fun connect_ports ::
  "jack_mgr_client list \<Rightarrow> jack_mgr_client \<Rightarrow> string \<Rightarrow> (u64 \<times> string) option list \<Rightarrow> (connect list \<times> bool) res" where
  "connect_ports cs client name [] = Inr ([], True)"
| "connect_ports cs client name (None # es) = Inr ([], False)"
| "connect_ports cs client name (Some (_, port) # es) =
     bindr (new_client_port cs client name port (jc_old_patches client)) (\<lambda>here.
     bindr (connect_ports cs client name es) (\<lambda>(rest, ok). Inr (here @ rest, ok)))"

fun drop_connected ::
  "jack_mgr_client list \<Rightarrow> jack_mgr_client \<Rightarrow> graph_patch option list \<Rightarrow> (jack_mgr_client \<times> bool) res" where
  "drop_connected cs client [] = Inr (client, True)"
| "drop_connected cs client (None # es) = Inr (client, False)"
| "drop_connected cs client (Some g # es) =
     bindr (del_old_patch cs client g) (\<lambda>client'. drop_connected cs client' es)"

definition get_client_data :: "jackdbus_mgr \<Rightarrow> nat \<Rightarrow> (jackdbus_mgr \<times> connect list \<times> bool) res" where
  "get_client_data m i =
     (let fail = (\<lambda>m cn. Inr (graph_free m, cn, False));
          client = jm_clients m ! i in
      (case jm_graph m of None \<Rightarrow> Inr (m, [], False)
       | Some g \<Rightarrow>
      (case g_clients g of None \<Rightarrow> fail m []
       | Some es \<Rightarrow>
      (let m0 = m\<lparr>jm_clients := (jm_clients m)[i := client\<lparr>jc_jackdbus_id := 0\<rparr>]\<rparr> in
      (case jc_name client of None \<Rightarrow> (if es = [] \<or> hd es = None then fail m0 [] else Inl Null_deref)
       | Some name \<Rightarrow>
      (case find_graph_client es name of None \<Rightarrow> fail m0 []
       | Some None \<Rightarrow> fail m0 []
       | Some (Some gc) \<Rightarrow>
           if gc_id gc = 0 then fail m0 []
           else
             (let client1 = client\<lparr>jc_jackdbus_id := gc_id gc\<rparr>;
                  cs = (jm_clients m)[i := client1];
                  m1 = m\<lparr>jm_clients := cs\<rparr> in
              if jc_old_patches client1 = [] then Inr (m1, [], True)
              else
                (case gc_ports gc of None \<Rightarrow> fail m1 []
                 | Some ports \<Rightarrow>
                     bindr (connect_ports cs client1 (gc_name gc) ports) (\<lambda>(cn, ok).
                       if \<not> ok then fail m1 cn
                       else
                         (case g_patches g of None \<Rightarrow> fail m1 cn
                          | Some ps \<Rightarrow>
                              bindr (drop_connected cs client1 ps) (\<lambda>(client2, ok2).
                                let m2 = m\<lparr>jm_clients := (jm_clients m)[i := client2]\<rparr> in
                                if ok2 then Inr (m2, cn, True) else fail m2 cn)))))))))))"

section \<open>Removing a client, saving its patches\<close>

definition jackdbus_mgr_remove_client :: "jackdbus_mgr \<Rightarrow> uuid \<Rightarrow> jackdbus_mgr \<times> jack_patch list option" where
  "jackdbus_mgr_remove_client m u =
     (case jack_mgr_client_find_by_id (jm_clients m) u of
        None \<Rightarrow> (m, None)
      | Some i \<Rightarrow> (m\<lparr>jm_clients := remove_nth i (jm_clients m)\<rparr>, Some (jc_backup_patches (jm_clients m ! i))))"

text \<open>The patches collected, and whether every entry parsed.\<close>

fun collect_patches ::
  "uuid_lib \<Rightarrow> jack_mgr_client list \<Rightarrow> jack_mgr_client \<Rightarrow> graph_patch option list \<Rightarrow> jack_patch list \<Rightarrow>
   (jack_patch list \<times> bool) res" where
  "collect_patches U cs client [] dest = Inr (dest, True)"
| "collect_patches U cs client (None # es) dest = Inr (dest, False)"
| "collect_patches U cs client (Some g # es) dest =
     (case get_patch_uuids cs client (gp_src_id g) (gp_dest_id g) of
        None \<Rightarrow> collect_patches U cs client es dest
      | Some (u, v) \<Rightarrow>
          bindr (jack_patch_new_with_all U u v (Some (gp_src_name g)) (Some (gp_dest_name g))
                   (Some (gp_src_port g)) (Some (gp_dest_port g)))
            (\<lambda>p. collect_patches U cs client es (dest @ [p])))"

definition get_client_patches ::
  "uuid_lib \<Rightarrow> jackdbus_mgr \<Rightarrow> uuid \<Rightarrow> (jackdbus_mgr \<times> jack_patch list \<times> bool) res" where
  "get_client_patches U m u =
     (case jm_graph m of None \<Rightarrow> Inr (m, [], False)
      | Some g \<Rightarrow>
     (case jack_mgr_client_find_by_id (jm_clients m) u of None \<Rightarrow> Inr (m, [], False)
      | Some i \<Rightarrow>
     (let client = jm_clients m ! i in
     (case g_patches g of None \<Rightarrow> Inr (graph_free m, [], False)
      | Some es \<Rightarrow>
          bindr (collect_patches U (jm_clients m) client es []) (\<lambda>(dest, ok).
            if \<not> ok then Inr (graph_free m, dest, False)
            else
              bindr (if dest = [] then Inr [] else jack_mgr_client_dup_patch_list U dest []) (\<lambda>backup.
                Inr (m\<lparr>jm_clients := (jm_clients m)[i := client\<lparr>jc_backup_patches := backup\<rparr>]\<rparr>, dest, True)))))))"

section \<open>What the manager guarantees\<close>

lemma jack_mgr_client_find_by_id_Some:
  "jack_mgr_client_find_by_id cs u = Some i \<Longrightarrow> i < length cs \<and> jc_id (cs ! i) = u"
  unfolding jack_mgr_client_find_by_id_def by (auto dest: first_index_Some)

lemma find_by_jackdbus_id_Some:
  "jack_mgr_client_find_by_jackdbus_id cs k = Some i \<Longrightarrow> i < length cs \<and> jc_jackdbus_id (cs ! i) = k"
  unfolding jack_mgr_client_find_by_jackdbus_id_def by (auto dest: first_index_Some)

text \<open>The patch the manager makes of an edge of the graph, and the edges that involve a client.\<close>

definition involves :: "jack_mgr_client \<Rightarrow> graph_patch \<Rightarrow> bool" where
  "involves client g \<longleftrightarrow> gp_src_id g = jc_jackdbus_id client \<or> gp_dest_id g = jc_jackdbus_id client"

definition uuid_of_end :: "jack_mgr_client list \<Rightarrow> jack_mgr_client \<Rightarrow> u64 \<Rightarrow> uuid option" where
  "uuid_of_end cs client k =
     (if k = jc_jackdbus_id client then Some (jc_id client)
      else map_option (\<lambda>j. jc_id (cs ! j)) (jack_mgr_client_find_by_jackdbus_id cs k))"

definition saved_patch :: "uuid_lib \<Rightarrow> jack_mgr_client list \<Rightarrow> jack_mgr_client \<Rightarrow> graph_patch \<Rightarrow> jack_patch" where
  "saved_patch U cs client g =
     (let name = (\<lambda>u n. case u of Some _ \<Rightarrow> None | None \<Rightarrow> Some n);
          uid = (\<lambda>u. case u of Some x \<Rightarrow> x | None \<Rightarrow> 0);
          su = uuid_of_end cs client (gp_src_id g); du = uuid_of_end cs client (gp_dest_id g);
          sn = name su (gp_src_name g); dn = name du (gp_dest_name g) in
      \<lparr>src_client = sn, src_port = Some (gp_src_port g), dest_client = dn, dest_port = Some (gp_dest_port g),
       src_desc = Some (end_desc U sn (uid su) (gp_src_port g)),
       dest_desc = Some (end_desc U dn (uid du) (gp_dest_port g)),
       src_client_id = uid su, dest_client_id = uid du\<rparr>)"

lemma get_patch_uuids_cases:
  "get_patch_uuids cs client (gp_src_id g) (gp_dest_id g) =
     (if involves client g then Some (uuid_of_end cs client (gp_src_id g), uuid_of_end cs client (gp_dest_id g))
      else None)"
  by (auto simp: get_patch_uuids_def involves_def uuid_of_end_def Let_def)

lemma new_with_all_saved:
  assumes "uuid_lib_ok U"
  shows "jack_patch_new_with_all U (uuid_of_end cs client (gp_src_id g)) (uuid_of_end cs client (gp_dest_id g))
      (Some (gp_src_name g)) (Some (gp_dest_name g)) (Some (gp_src_port g)) (Some (gp_dest_port g))
    = Inr (saved_patch U cs client g)"
  using assms
  by (cases "uuid_of_end cs client (gp_src_id g)"; cases "uuid_of_end cs client (gp_dest_id g)")
    (simp_all add: jack_patch_new_with_all_def saved_patch_def set_descs_ok Let_def jack_patch_new_def
      lash_strdup_def)

lemma saved_patch_complete:
  assumes "\<forall>c \<in> set cs. jc_id c \<noteq> 0" "jc_id client \<noteq> 0"
  shows "complete_patch U (saved_patch U cs client g)"
proof -
  have "u \<noteq> 0" if "uuid_of_end cs client k = Some u" for k u
    using that assms by (auto simp: uuid_of_end_def split: if_splits dest!: find_by_jackdbus_id_Some)
  then show ?thesis
    by (auto simp: complete_patch_def saved_patch_def has_ports_def complete_end_def uuid_is_null_def
        Let_def split: option.split)
qed

lemma saved_patch_dup:
  assumes "uuid_lib_ok U"
  shows "jack_patch_dup U (saved_patch U cs client g) = Inr (saved_patch U cs client g)"
  using assms
  by (simp add: jack_patch_dup_def jack_patch_new_def saved_patch_def set_descs_ok Let_def)

lemma dup_patch_list_ok:
  "\<forall>p \<in> set ps. jack_patch_dup U p = Inr p \<Longrightarrow> jack_mgr_client_dup_patch_list U ps dest = Inr (dest @ ps)"
  by (induction ps arbitrary: dest) simp_all

lemma collect_patches_exact:
  "uuid_lib_ok U \<Longrightarrow> collect_patches U cs client (map Some ps) dest =
     Inr (dest @ map (saved_patch U cs client) (filter (involves client) ps), True)"
  by (induction ps arbitrary: dest) (simp_all add: get_patch_uuids_cases new_with_all_saved)

definition saved_patches :: "uuid_lib \<Rightarrow> jackdbus_mgr \<Rightarrow> nat \<Rightarrow> graph_patch list \<Rightarrow> jack_patch list" where
  "saved_patches U m i ps =
     map (saved_patch U (jm_clients m) (jm_clients m ! i)) (filter (involves (jm_clients m ! i)) ps)"

lemma get_client_patches_eq:
  assumes "uuid_lib_ok U" "jm_graph m = Some g" "g_patches g = Some (map Some ps)"
    "jack_mgr_client_find_by_id (jm_clients m) u = Some i"
  shows "get_client_patches U m u =
     Inr (m\<lparr>jm_clients := (jm_clients m)[i := (jm_clients m ! i)\<lparr>jc_backup_patches := saved_patches U m i ps\<rparr>]\<rparr>,
          saved_patches U m i ps, True)"
proof -
  have "jack_mgr_client_dup_patch_list U (saved_patches U m i ps) [] = Inr (saved_patches U m i ps)"
    using dup_patch_list_ok [of "saved_patches U m i ps" U "[]"] saved_patch_dup [OF assms(1)]
    by (auto simp: saved_patches_def)
  then show ?thesis
    using assms collect_patches_exact [OF assms(1), of "jm_clients m" "jm_clients m ! i" ps "[]"]
    by (simp add: get_client_patches_def saved_patches_def Let_def)
qed


definition example_edges :: "graph_patch list" where
  "example_edges =
     [\<lparr>gp_src_id = 1, gp_src_name = ''synth'', gp_src_port = ''out'', gp_dest_id = 2, gp_dest_name = ''system'', gp_dest_port = ''playback_1''\<rparr>,
      \<lparr>gp_src_id = 3, gp_src_name = ''x'', gp_src_port = ''y'', gp_dest_id = 2, gp_dest_name = ''system'', gp_dest_port = ''playback_1''\<rparr>]"

definition example_graph :: graph where
  "example_graph = \<lparr>g_clients = Some [], g_patches = Some (map Some example_edges)\<rparr>"

definition example_jack_mgr :: jackdbus_mgr where
  "example_jack_mgr = \<lparr>jm_clients = [jack_mgr_client_new\<lparr>jc_name := Some ''synth'', jc_id := 42, jc_jackdbus_id := 1\<rparr>],
     jm_unknown = [], jm_unknown_freed = False, jm_graph = Some example_graph, jm_version = 5\<rparr>"


text \<open>The connections taken at the last save are what is left to a client that is lost: removing it
  from the manager hands out exactly the patches that save returned, and no other client of the
  manager changes.\<close>

theorem remove_client_returns_saved:
  assumes "uuid_lib_ok U" "jm_graph m = Some g" "g_patches g = Some (map Some ps)"
    "jack_mgr_client_find_by_id (jm_clients m) u = Some i"
  shows "\<exists>m' dest. get_client_patches U m u = Inr (m', dest, True) \<and>
     jackdbus_mgr_remove_client m' u = (m'\<lparr>jm_clients := remove_nth i (jm_clients m)\<rparr>, Some dest)"
proof -
  let ?c = "(jm_clients m ! i)\<lparr>jc_backup_patches := saved_patches U m i ps\<rparr>"
  have i: "i < length (jm_clients m)" "jc_id (jm_clients m ! i) = u"
    using jack_mgr_client_find_by_id_Some [OF assms(4)] by auto
  have "first_index (\<lambda>c. u = jc_id c) (xs[k := (xs ! k)\<lparr>jc_backup_patches := b\<rparr>])
      = first_index (\<lambda>c. u = jc_id c) xs" for xs :: "jack_mgr_client list" and k b
    by (induction xs arbitrary: k) (auto split: nat.split)
  then have "jack_mgr_client_find_by_id ((jm_clients m)[i := ?c]) u = Some i"
    using assms(4) by (simp add: jack_mgr_client_find_by_id_def)
  moreover have "remove_nth i ((jm_clients m)[i := ?c]) = remove_nth i (jm_clients m)"
    by (simp add: remove_nth_def)
  ultimately show ?thesis
    using get_client_patches_eq [OF assms] i by (simp add: jackdbus_mgr_remove_client_def)
qed

lemma remove_client_returns_saved_witness:
  "\<exists>m' dest. get_client_patches example_uuids example_jack_mgr 42 = Inr (m', dest, True) \<and>
     jackdbus_mgr_remove_client m' 42 = (m'\<lparr>jm_clients := []\<rparr>, Some dest)"
  using remove_client_returns_saved [OF example_uuids_ok, of example_jack_mgr example_graph example_edges 42 0]
  by (simp add: example_edges_def example_jack_mgr_def example_graph_def jack_mgr_client_find_by_id_def jack_mgr_client_new_def
      remove_nth_def)

text \<open>Stopping the JACK server while an unbound JACK client is listed, then starting it again with a
  graph that lists any live client, follows a dangling pointer: the stop frees the unbound
  clients and leaves the list head pointing at them.\<close>

theorem clear_leaves_dangling:
  assumes "jm_unknown m \<noteq> []" "\<not> jm_unknown_freed m" "ask 0 = Some (v, g)" "v \<noteq> 0"
    "g_clients g = Some (Some gc # es)" "pid_of (gc_id gc) \<noteq> 0"
  shows "bindr (jackdbus_mgr_clear m) (\<lambda>m'. get_unknown_clients pid_of (get_graph ask (m'\<lparr>jm_version := 0\<rparr>)))
    = Inl Dangling"
  using assms
  by (simp add: jackdbus_mgr_clear_def get_graph_def graph_return_handler_def graph_free_def
      get_unknown_clients_def)

definition system_client :: graph_client where
  "system_client = \<lparr>gc_id = 1, gc_name = ''system'', gc_ports = Some []\<rparr>"

definition system_graph :: graph where
  "system_graph = \<lparr>g_clients = Some [Some system_client], g_patches = Some []\<rparr>"

lemma clear_leaves_dangling_witness:
  "bindr (jackdbus_mgr_clear (example_jack_mgr\<lparr>jm_unknown := [jack_mgr_client_new]\<rparr>))
     (\<lambda>m'. get_unknown_clients (\<lambda>_. 100) (get_graph (\<lambda>_. Some (7, system_graph)) (m'\<lparr>jm_version := 0\<rparr>)))
    = Inl Dangling"
  by (rule clear_leaves_dangling [where v = 7 and g = system_graph and es = "[]" and gc = system_client])
    (simp_all add: example_jack_mgr_def system_graph_def)

subsection \<open>Old patches\<close>

lemma set_remove_nth: "set (remove_nth i xs) \<subseteq> set xs"
  by (auto simp: remove_nth_def dest: in_set_takeD in_set_dropD)

lemma del_old_patch_shrinks:
  "del_old_patch cs c g = Inr c' \<Longrightarrow>
     c' = c\<lparr>jc_old_patches := jc_old_patches c'\<rparr> \<and> set (jc_old_patches c') \<subseteq> set (jc_old_patches c)"
  using set_remove_nth
  by (fastforce simp: del_old_patch_def bindr_Inr_iff split: option.splits prod.splits)

lemma drop_connected_shrinks:
  "drop_connected cs c es = Inr (c', ok) \<Longrightarrow>
     c' = c\<lparr>jc_old_patches := jc_old_patches c'\<rparr> \<and> set (jc_old_patches c') \<subseteq> set (jc_old_patches c)"
proof (induction cs c es rule: drop_connected.induct)
  case (3 cs c g es)
  then obtain d where d: "del_old_patch cs c g = Inr d" "drop_connected cs d es = Inr (c', ok)"
    by (auto simp: bindr_Inr_iff)
  with 3(1) [OF _ d(2)] del_old_patch_shrinks [OF d(1)] show ?case
    by (metis jack_mgr_client.update_convs(3) jack_mgr_client.surjective subset_trans
        jack_mgr_client.select_convs)
qed auto

subsection \<open>Saving never fails\<close>

lemma new_with_all_total:
  assumes "uuid_lib_ok U"
  shows "\<exists>p. jack_patch_new_with_all U u v n m (Some sp) (Some dp) = Inr p \<and> has_ports p"
  using assms
  by (cases u; cases v)
    (simp_all add: jack_patch_new_with_all_def set_descs_ok Let_def jack_patch_new_def lash_strdup_def has_ports_def)

lemma dup_total: "uuid_lib_ok U \<Longrightarrow> has_ports p \<Longrightarrow> \<exists>q. jack_patch_dup U p = Inr q"
  by (auto simp: jack_patch_dup_def has_ports_def set_descs_ok jack_patch_new_def)

lemma dup_patch_list_total:
  "uuid_lib_ok U \<Longrightarrow> \<forall>p \<in> set ps. has_ports p \<Longrightarrow> \<exists>qs. jack_mgr_client_dup_patch_list U ps dest = Inr qs"
proof (induction ps arbitrary: dest)
  case (Cons p ps)
  then obtain q where "jack_patch_dup U p = Inr q" using dup_total by fastforce
  then show ?case using Cons by simp
qed simp

lemma collect_patches_total:
  "uuid_lib_ok U \<Longrightarrow> \<forall>p \<in> set dest. has_ports p \<Longrightarrow>
     \<exists>ps ok. collect_patches U cs client es dest = Inr (ps, ok) \<and> (\<forall>p \<in> set ps. has_ports p)"
proof (induction es arbitrary: dest)
  case (Cons e es)
  show ?case
  proof (cases e)
    case None
    then show ?thesis using Cons.prems by auto
  next
    case (Some g)
    show ?thesis
    proof (cases "get_patch_uuids cs client (gp_src_id g) (gp_dest_id g)")
      case None
      then show ?thesis using Cons Some by simp
    next
      case uv: (Some uv)
      obtain p where p: "jack_patch_new_with_all U (fst uv) (snd uv) (Some (gp_src_name g)) (Some (gp_dest_name g))
          (Some (gp_src_port g)) (Some (gp_dest_port g)) = Inr p" "has_ports p"
        using new_with_all_total [OF Cons.prems(1)] by blast
      then show ?thesis using Cons.IH [of "dest @ [p]"] Cons.prems Some uv
        by (simp add: case_prod_unfold)
    qed
  qed
qed auto

lemma get_client_patches_total:
  assumes "uuid_lib_ok U"
  shows "\<exists>m' ps ok. get_client_patches U m u = Inr (m', ps, ok)"
proof -
  have collect: "\<exists>ps ok. collect_patches U cs client es [] = Inr (ps, ok) \<and> (\<forall>p \<in> set ps. has_ports p)" for cs client es
    using collect_patches_total [OF assms] by simp
  show ?thesis
  proof (cases "jm_graph m")
    case (Some g)
    show ?thesis
    proof (cases "jack_mgr_client_find_by_id (jm_clients m) u")
      case i: (Some i)
      show ?thesis
      proof (cases "g_patches g")
        case es: (Some es)
        obtain ps ok where ps: "collect_patches U (jm_clients m) (jm_clients m ! i) es [] = Inr (ps, ok)"
            "\<forall>p \<in> set ps. has_ports p"
          using collect by blast
        then obtain qs where "jack_mgr_client_dup_patch_list U ps [] = Inr qs"
          using dup_patch_list_total [OF assms] by blast
        then show ?thesis using Some i es ps by (cases ok) (auto simp: get_client_patches_def)
      qed (auto simp: get_client_patches_def Some i)
    qed (auto simp: get_client_patches_def Some)
  qed (auto simp: get_client_patches_def)
qed

end
