(* ===== verification/Output.thy ===== *)
theory Output
  imports Prelude
begin

text \<open>
  What \<^verbatim>\<open>lashd/loader.c\<close> does with the output of a child process: the bytes read from a file
  descriptor are collected in a buffer of fixed size, cut into lines, and logged, with runs of equal
  lines shortened. The last part is the command line built for a terminal.
\<close>

section \<open>The reader of one file descriptor\<close>

datatype log_line =
    Log_line string
  | Log_repeating
  | Log_repeated u32
  | Log_truncated string

record reader =
  rd_pending :: string
  rd_last :: string
  rd_count :: u32

definition reader_new :: reader where
  "reader_new = \<lparr>rd_pending = '''', rd_last = '''', rd_count = 0\<rparr>"

abbreviation newline :: char where "newline \<equiv> CHR 0x0A"
abbreviation nul :: char where "nul \<equiv> CHR 0x00"

definition CLIENT_OUTPUT_BUFFER_SIZE :: nat where
  "CLIENT_OUTPUT_BUFFER_SIZE = 2048"

definition loader_check_line_repeat_end :: "u32 \<Rightarrow> log_line list" where
  "loader_check_line_repeat_end count = (if 2 \<le> count then [Log_repeated count] else [])"

text \<open>One complete line.\<close>

definition log_one_line :: "string \<Rightarrow> reader \<times> log_line list \<Rightarrow> reader \<times> log_line list" where
  "log_one_line line = (\<lambda>(r, log).
     if 0 < rd_count r \<and> rd_last r = line then
       (r\<lparr>rd_count := rd_count r + 1\<rparr>, log @ (if rd_count r = 1 then [Log_repeating] else []))
     else
       (r\<lparr>rd_last := line, rd_count := 1\<rparr>,
        log @ loader_check_line_repeat_end (rd_count r) @ [Log_line line]))"

text \<open>\<open>strchr (s, '\n')\<close> stops at a NUL byte. The line before the newline, and what follows.\<close>

fun split_eol :: "string \<Rightarrow> (string \<times> string) option" where
  "split_eol [] = None"
| "split_eol (c # s) =
     (if c = newline then Some ('''', s)
      else if c = nul then None
      else map_option (\<lambda>(line, rest). (c # line, rest)) (split_eol s))"

lemma split_eol_Some:
  "split_eol s = Some (line, rest) \<Longrightarrow> s = line @ newline # rest \<and> newline \<notin> set line \<and> nul \<notin> set line"
  by (induction s arbitrary: line) (auto split: if_splits)

lemma split_eol_None: "nul \<notin> set s \<Longrightarrow> split_eol s = None \<longleftrightarrow> newline \<notin> set s"
  by (induction s) auto

lemma split_eol_line:
  "newline \<notin> set line \<Longrightarrow> nul \<notin> set line \<Longrightarrow> split_eol (line @ newline # rest) = Some (line, rest)"
  by (induction line) auto

lemma split_eol_shorter: "split_eol s = Some (line, rest) \<Longrightarrow> length rest < length s"
  by (drule split_eol_Some) simp

function log_lines :: "string \<Rightarrow> reader \<times> log_line list \<Rightarrow> string \<times> (reader \<times> log_line list)" where
  "log_lines s x =
     (case split_eol s of
        None \<Rightarrow> (s, x)
      | Some (line, rest) \<Rightarrow> log_lines rest (log_one_line line x))"
  by pat_completeness auto
termination
  by (relation "measure (\<lambda>(s, x). length s)") (auto dest: split_eol_shorter)

declare log_lines.simps [simp del]

text \<open>The bytes a positive \<open>read\<close> has put behind the pending ones are worked off.\<close>

definition take_bytes :: "string \<Rightarrow> reader \<times> log_line list \<Rightarrow> (reader \<times> log_line list) res" where
  "take_bytes chunk = (\<lambda>(r, log).
     if CLIENT_OUTPUT_BUFFER_SIZE \<le> length (rd_pending r @ chunk) then Inl Out_of_bounds
     else
       (let (rest, r1, log1) = log_lines (rd_pending r @ chunk) (r, log)
        in if length rest = CLIENT_OUTPUT_BUFFER_SIZE - 1
           then Inr (r1\<lparr>rd_pending := ''''\<rparr>, log1 @ [Log_truncated (takeWhile (\<lambda>c. c \<noteq> nul) rest)])
           else Inr (r1\<lparr>rd_pending := rest\<rparr>, log1)))"

text \<open>
  The descriptor does not block and gives the bytes written to it in packets; a \<open>read\<close> gets
  at most one packet, and the empty string stands for the end of the file or an error.
\<close>

fun fd_read :: "nat \<Rightarrow> string list \<Rightarrow> string \<times> string list" where
  "fd_read m [] = ('''', [])"
| "fd_read m (c # cs) = (take m c, if length c \<le> m then cs else drop m c # cs)"

lemma fd_read_smaller:
  "fd_read m ps = (chunk, ps') \<Longrightarrow> chunk \<noteq> '''' \<Longrightarrow> sum_list (map length ps') < sum_list (map length ps)"
  by (cases ps) (auto split: if_splits)

lemma fd_read_concat: "fd_read m ps = (chunk, ps') \<Longrightarrow> concat ps = chunk @ concat ps'"
  by (cases ps) (auto split: if_splits)

lemma fd_read_length: "fd_read m ps = (chunk, ps') \<Longrightarrow> length chunk \<le> m"
  by (cases ps) auto

definition max_read :: "reader \<Rightarrow> nat" where
  "max_read r = unat (word_of_nat CLIENT_OUTPUT_BUFFER_SIZE - 1 - word_of_nat (length (rd_pending r)) :: u64)"

text \<open>A \<open>read\<close> of no bytes returns 0, which is what was asked for, and the loop goes on.\<close>

function loader_read_child_output ::
  "string list \<Rightarrow> reader \<times> log_line list \<Rightarrow> ((reader \<times> log_line list) \<times> string list) res" where
  "loader_read_child_output ps x =
     (if max_read (fst x) = 0 then Inl Diverges
      else if fst (fd_read (max_read (fst x)) ps) = [] then Inr (x, snd (fd_read (max_read (fst x)) ps))
      else bindr (take_bytes (fst (fd_read (max_read (fst x)) ps)) x) (\<lambda>x'.
        if length (fst (fd_read (max_read (fst x)) ps)) = max_read (fst x)
        then loader_read_child_output (snd (fd_read (max_read (fst x)) ps)) x'
        else Inr (x', snd (fd_read (max_read (fst x)) ps))))"
  by pat_completeness auto
termination
  by (relation "measure (\<lambda>(ps, x). sum_list (map length ps))") (simp_all add: fd_read_smaller [OF surjective_pairing])

declare loader_read_child_output.simps [simp del]

section \<open>Cutting into lines\<close>

lemma log_lines_None: "split_eol s = None \<Longrightarrow> log_lines s x = (s, x)"
  by (simp add: log_lines.simps)

lemma log_lines_Some: "split_eol s = Some (line, rest) \<Longrightarrow> log_lines s x = log_lines rest (log_one_line line x)"
  by (simp add: log_lines.simps [of s])

lemma log_lines_rest: "nul \<notin> set s \<Longrightarrow> newline \<notin> set (fst (log_lines s x))"
proof (induction s x rule: log_lines.induct)
  case (1 s x)
  show ?case
  proof (cases "split_eol s")
    case None
    then show ?thesis using 1(2) by (simp add: log_lines_None split_eol_None)
  next
    case (Some p)
    obtain line rest where p: "(line, rest) = p" by (cases p) auto
    have "nul \<notin> set rest" using split_eol_Some [of s line rest] Some 1(2) p [symmetric] by simp
    then show ?thesis using 1(1) [OF Some p] Some p [symmetric] by (simp add: log_lines_Some)
  qed
qed

text \<open>Cutting the lines of a string, then those of more bytes, is cutting the lines of both together.\<close>

lemma log_lines_append:
  "nul \<notin> set a \<Longrightarrow> log_lines (a @ b) x = log_lines (fst (log_lines a x) @ b) (snd (log_lines a x))"
proof (induction a x rule: log_lines.induct)
  case (1 a x)
  show ?case
  proof (cases "split_eol a")
    case None
    then show ?thesis by (simp add: log_lines_None)
  next
    case (Some p)
    obtain line rest where p: "(line, rest) = p" by (cases p) auto
    then have a: "a = line @ newline # rest" "newline \<notin> set line" "nul \<notin> set line"
      using split_eol_Some [of a line rest] Some p by auto
    have "split_eol (a @ b) = Some (line, rest @ b)" using split_eol_line a by simp
    then show ?thesis using 1(1) [OF Some p] 1(2) Some p [symmetric] a(1) by (simp add: log_lines_Some)
  qed
qed

lemma log_lines_pending:
  "rd_pending (fst (snd (log_lines s x))) = rd_pending (fst x)"
proof (induction s x rule: log_lines.induct)
  case (1 s x)
  have "rd_pending (fst (log_one_line l x)) = rd_pending (fst x)" for l
    by (cases x) (simp add: log_one_line_def)
  then show ?case using 1 by (cases "split_eol s") (auto simp: log_lines_None log_lines_Some)
qed

lemma log_lines_shorter: "length (fst (log_lines s x)) \<le> length s"
proof (induction s x rule: log_lines.induct)
  case (1 s x)
  then show ?case
    using split_eol_shorter [of s] by (cases "split_eol s") (fastforce simp: log_lines_None log_lines_Some)+
qed

text \<open>The pending bytes play no part while lines are logged.\<close>

lemma log_lines_set_pending:
  "log_lines s (r\<lparr>rd_pending := q\<rparr>, log) =
     (let (rest, r1, log1) = log_lines s (r, log) in (rest, r1\<lparr>rd_pending := q\<rparr>, log1))"
proof (induction s "(r, log)" arbitrary: r log rule: log_lines.induct)
  case (1 s)
  have one: "log_one_line l (r\<lparr>rd_pending := q\<rparr>, log) =
      (let (r1, log1) = log_one_line l (r, log) in (r1\<lparr>rd_pending := q\<rparr>, log1))" for l
    by (simp add: log_one_line_def)
  show ?case
  proof (cases "split_eol s")
    case (Some p)
    obtain line rest where p: "(line, rest) = p" by (cases p) auto
    obtain r1 log1 where l: "log_one_line line (r, log) = (r1, log1)" by force
    then show ?thesis using 1 [OF Some p l] Some p [symmetric] one [of line] l by (simp add: log_lines_Some)
  qed (simp add: log_lines_None)
qed

section \<open>Bounds\<close>

definition reader_ok :: "reader \<Rightarrow> bool" where
  "reader_ok r \<longleftrightarrow> length (rd_pending r) < CLIENT_OUTPUT_BUFFER_SIZE - 1"

lemma max_read_eq:
  "reader_ok r \<Longrightarrow> max_read r = CLIENT_OUTPUT_BUFFER_SIZE - 1 - length (rd_pending r)"
proof -
  assume ok: "reader_ok r"
  then have "word_of_nat CLIENT_OUTPUT_BUFFER_SIZE - 1 - word_of_nat (length (rd_pending r)) =
      (word_of_nat (CLIENT_OUTPUT_BUFFER_SIZE - 1 - length (rd_pending r)) :: u64)"
    by (simp add: reader_ok_def CLIENT_OUTPUT_BUFFER_SIZE_def of_nat_diff)
  moreover have "CLIENT_OUTPUT_BUFFER_SIZE - 1 - length (rd_pending r) < 2 ^ 64"
    by (simp add: CLIENT_OUTPUT_BUFFER_SIZE_def)
  ultimately show ?thesis by (simp add: max_read_def unsigned_of_nat take_bit_nat_eq_self)
qed

lemma take_bytes_total:
  assumes "reader_ok r" "length chunk \<le> CLIENT_OUTPUT_BUFFER_SIZE - 1 - length (rd_pending r)"
  shows "\<exists>r' log'. take_bytes chunk (r, log) = Inr (r', log') \<and> reader_ok r'"
proof -
  have fits: "length (rd_pending r @ chunk) < CLIENT_OUTPUT_BUFFER_SIZE"
    using assms by (simp add: reader_ok_def CLIENT_OUTPUT_BUFFER_SIZE_def)
  obtain rest r1 log1 where l: "log_lines (rd_pending r @ chunk) (r, log) = (rest, r1, log1)"
    using prod_cases3 by blast
  have "length rest \<le> length (rd_pending r @ chunk)" using log_lines_shorter [of "rd_pending r @ chunk" "(r, log)"] l by simp
  then have "length rest < CLIENT_OUTPUT_BUFFER_SIZE" using fits by linarith
  then show ?thesis using fits l by (auto simp: take_bytes_def reader_ok_def) (simp_all add: CLIENT_OUTPUT_BUFFER_SIZE_def)
qed

text \<open>Any output: no byte is written outside the buffer, no read is for nothing, and the loop ends.\<close>

lemma read_total:
  "reader_ok (fst x) \<Longrightarrow> \<exists>x' rest used. loader_read_child_output ps x = Inr (x', rest) \<and> reader_ok (fst x')
     \<and> concat ps = used @ concat rest"
proof (induction ps x rule: loader_read_child_output.induct)
  case (1 ps x)
  let ?m = "max_read (fst x)"
  obtain chunk ps' where rd: "fd_read ?m ps = (chunk, ps')" by force
  have m: "?m = CLIENT_OUTPUT_BUFFER_SIZE - 1 - length (rd_pending (fst x))" "?m \<noteq> 0"
    using max_read_eq [OF 1(2)] 1(2) by (simp_all add: reader_ok_def)
  have con: "concat ps = chunk @ concat ps'" by (rule fd_read_concat [OF rd])
  show ?case
  proof (cases "chunk = []")
    case True
    then show ?thesis using 1(2) m rd con by (simp add: loader_read_child_output.simps)
  next
    case False
    obtain r' log' where x': "take_bytes chunk x = Inr (r', log')" "reader_ok r'"
      using take_bytes_total [of "fst x" chunk "snd x"] 1(2) fd_read_length [OF rd] m by auto
    show ?thesis
    proof (cases "length chunk = ?m")
      case True
      obtain x'' rest used where "loader_read_child_output ps' (r', log') = Inr (x'', rest)" "reader_ok (fst x'')"
          "concat ps' = used @ concat rest"
        using 1(1) [of "(r', log')"] m(2) rd False x' True by auto
      then show ?thesis
        using m rd False x' True con by (simp add: loader_read_child_output.simps [of ps x])
    next
      case notfull: False
      then show ?thesis
        using m rd False x' con by (simp add: loader_read_child_output.simps [of ps x])
    qed
  qed
qed

section \<open>The reference: a stream cut into lines\<close>

definition feed :: "string \<Rightarrow> reader \<times> log_line list \<Rightarrow> reader \<times> log_line list" where
  "feed data = (\<lambda>(r, log). let (rest, r1, log1) = log_lines (rd_pending r @ data) (r, log)
     in (r1\<lparr>rd_pending := rest\<rparr>, log1))"

text \<open>Every line, and the part after the last newline, leaves room in the buffer; \<open>k\<close> more bytes may come.\<close>

fun short_lines :: "nat \<Rightarrow> string \<Rightarrow> bool" where
  "short_lines k [] \<longleftrightarrow> True"
| "short_lines k (c # s) \<longleftrightarrow>
     (if c = newline then short_lines (CLIENT_OUTPUT_BUFFER_SIZE - 2) s else 0 < k \<and> short_lines (k - 1) s)"

abbreviation lines_fit :: "string \<Rightarrow> bool" where
  "lines_fit s \<equiv> short_lines (CLIENT_OUTPUT_BUFFER_SIZE - 2) s"

lemma short_lines_prefix: "short_lines k (a @ b) \<Longrightarrow> newline \<notin> set a \<Longrightarrow> length a \<le> k"
  by (induction a arbitrary: k) (auto split: if_splits, fastforce)

lemma short_lines_line: "short_lines k (line @ newline # s) \<Longrightarrow> newline \<notin> set line \<Longrightarrow> lines_fit s"
  by (induction line arbitrary: k) auto

lemma lines_fit_short: "length s \<le> k \<Longrightarrow> k \<le> CLIENT_OUTPUT_BUFFER_SIZE - 2 \<Longrightarrow> short_lines k s"
  by (induction s arbitrary: k) auto

lemma lines_fit_rest:
  "lines_fit (a @ b) \<Longrightarrow> nul \<notin> set a \<Longrightarrow> lines_fit (fst (log_lines a x) @ b)"
proof (induction a x rule: log_lines.induct)
  case (1 a x)
  show ?case
  proof (cases "split_eol a")
    case None
    then show ?thesis using 1(2) by (simp add: log_lines_None)
  next
    case (Some p)
    obtain line rest where p: "(line, rest) = p" by (cases p) auto
    then have a: "a = line @ newline # rest" "newline \<notin> set line"
      using split_eol_Some [of a line rest] Some by auto
    have "lines_fit (rest @ b)" using 1(2) a short_lines_line [of _ line "rest @ b"] by simp
    then show ?thesis using 1(1) [OF Some p] 1(3) Some p [symmetric] a(1) by (simp add: log_lines_Some)
  qed
qed

lemma log_lines_nul: "nul \<notin> set a \<Longrightarrow> nul \<notin> set (fst (log_lines a x))"
proof (induction a x rule: log_lines.induct)
  case (1 a x)
  then show ?case
    using split_eol_Some [of a] by (cases "split_eol a") (fastforce simp: log_lines_None log_lines_Some)+
qed

text \<open>Feeding in two parts is feeding at once.\<close>

lemma feed_append:
  assumes "nul \<notin> set (rd_pending (fst x) @ a)"
  shows "feed b (feed a x) = feed (a @ b) x"
proof -
  obtain r log where x: "x = (r, log)" by force
  obtain rest r1 log1 where one: "log_lines (rd_pending r @ a) (r, log) = (rest, r1, log1)" using prod_cases3 by blast
  have two: "log_lines (rd_pending r @ a @ b) (r, log) = log_lines (rest @ b) (r1, log1)"
    using log_lines_append [of "rd_pending r @ a" b "(r, log)"] assms one x by simp
  show ?thesis
    by (simp add: feed_def x one two log_lines_set_pending [where r = r1] Let_def split: prod.split)
qed

lemma take_bytes_feed:
  assumes "length (rd_pending (fst x) @ chunk) < CLIENT_OUTPUT_BUFFER_SIZE" "nul \<notin> set (rd_pending (fst x) @ chunk)"
    and "lines_fit (rd_pending (fst x) @ chunk @ further)"
  shows "take_bytes chunk x = Inr (feed chunk x)"
    "reader_ok (fst (feed chunk x))" "nul \<notin> set (rd_pending (fst (feed chunk x)))"
    "lines_fit (rd_pending (fst (feed chunk x)) @ further)"
proof -
  obtain r log where x: "x = (r, log)" by force
  obtain rest r1 log1 where l: "log_lines (rd_pending r @ chunk) (r, log) = (rest, r1, log1)" using prod_cases3 by blast
  have f: "feed chunk x = (r1\<lparr>rd_pending := rest\<rparr>, log1)" by (simp add: feed_def x l)
  have fit: "lines_fit (rest @ further)"
    using lines_fit_rest [of "rd_pending r @ chunk" further "(r, log)"] assms(2,3) l x by simp
  have nl: "newline \<notin> set rest" using log_lines_rest [of "rd_pending r @ chunk" "(r, log)"] assms(2) l x by simp
  have "length rest \<le> CLIENT_OUTPUT_BUFFER_SIZE - 2" by (rule short_lines_prefix [OF fit nl])
  then have len: "length rest < CLIENT_OUTPUT_BUFFER_SIZE - 1" by (simp add: CLIENT_OUTPUT_BUFFER_SIZE_def)
  show "take_bytes chunk x = Inr (feed chunk x)"
    using assms(1) len by (simp add: take_bytes_def x l f [unfolded x])
  show "reader_ok (fst (feed chunk x))" using len by (simp add: f reader_ok_def)
  show "nul \<notin> set (rd_pending (fst (feed chunk x)))"
    using log_lines_nul [of "rd_pending r @ chunk" "(r, log)"] assms(2) l x by (simp add: f [unfolded x])
  show "lines_fit (rd_pending (fst (feed chunk x)) @ further)" using fit by (simp add: f)
qed

lemma read_feed:
  "reader_ok (fst x) \<Longrightarrow> nul \<notin> set (rd_pending (fst x) @ concat ps) \<Longrightarrow> lines_fit (rd_pending (fst x) @ concat ps) \<Longrightarrow>
     newline \<notin> set (rd_pending (fst x)) \<Longrightarrow>
     \<exists>used rest. loader_read_child_output ps x = Inr (feed used x, rest) \<and> concat ps = used @ concat rest"
proof (induction ps x rule: loader_read_child_output.induct)
  case (1 ps x)
  let ?m = "max_read (fst x)"
  obtain chunk ps' where rd: "fd_read ?m ps = (chunk, ps')" by force
  have m: "?m = CLIENT_OUTPUT_BUFFER_SIZE - 1 - length (rd_pending (fst x))" "?m \<noteq> 0"
    using max_read_eq [OF 1(2)] 1(2) by (simp_all add: reader_ok_def)
  have con: "concat ps = chunk @ concat ps'" by (rule fd_read_concat [OF rd])
  show ?case
  proof (cases "chunk = []")
    case True
    have "split_eol (rd_pending (fst x)) = None" using 1(3,5) by (subst split_eol_None) auto
    then have "feed '''' x = x" by (cases x) (simp add: feed_def log_lines_None)
    moreover have "loader_read_child_output ps x = Inr (x, ps')" using True m rd by (simp add: loader_read_child_output.simps)
    ultimately show ?thesis using con True by (intro exI [of _ "[]"] exI [of _ ps']) simp
  next
    case False
    have len: "length (rd_pending (fst x) @ chunk) < CLIENT_OUTPUT_BUFFER_SIZE"
      using fd_read_length [OF rd] m 1(2) by (simp add: reader_ok_def CLIENT_OUTPUT_BUFFER_SIZE_def)
    note t = take_bytes_feed [OF len, of "concat ps'"]
    have t1: "take_bytes chunk x = Inr (feed chunk x)" and ok: "reader_ok (fst (feed chunk x))"
      and fit: "lines_fit (rd_pending (fst (feed chunk x)) @ concat ps')" and nuls: "nul \<notin> set (rd_pending (fst (feed chunk x)))"
      using t 1(3,4) con by auto
    have nl: "newline \<notin> set (rd_pending (fst (feed chunk x)))"
      using log_lines_rest [of "rd_pending (fst x) @ chunk" x] 1(3) con
      by (cases x) (simp add: feed_def split: prod.split, fastforce)
    show ?thesis
    proof (cases "length chunk = ?m")
      case True
      have "nul \<notin> set (rd_pending (fst (feed chunk x)) @ concat ps')" using nuls 1(3) con by simp
      then obtain used rest where rec: "loader_read_child_output ps' (feed chunk x) = Inr (feed used (feed chunk x), rest)"
          "concat ps' = used @ concat rest"
        using 1(1) [of "feed chunk x"] m(2) rd False t1 True ok fit nl by auto
      moreover have "feed used (feed chunk x) = feed (chunk @ used) x" using 1(3) con by (intro feed_append) simp
      ultimately show ?thesis
        using m rd False t1 True con
        by (intro exI [of _ "chunk @ used"] exI [of _ rest]) (simp add: loader_read_child_output.simps [of ps x])
    next
      case notfull: False
      then show ?thesis
        using m rd False t1 con by (intro exI [of _ chunk]) (simp add: loader_read_child_output.simps [of ps x])
    qed
  qed
qed

section \<open>Properties of the reader\<close>

text \<open>C33. Whatever a child process writes, and however its output arrives, reading it never goes outside
  the buffer, always returns, and leaves room for at least one more byte.\<close>

theorem loader_read_child_output_safe:
  assumes "reader_ok r"
  shows "\<exists>r' log' rest. loader_read_child_output ps (r, log) = Inr ((r', log'), rest) \<and> reader_ok r'
    \<and> (\<exists>used. concat ps = used @ concat rest)"
  using read_total [of "(r, log)" ps] assms by auto

theorem loader_read_child_output_safe_witness:
  "\<exists>r' log' rest. loader_read_child_output [replicate 5000 CHR ''x''] (reader_new, []) = Inr ((r', log'), rest)
    \<and> reader_ok r'"
  using loader_read_child_output_safe [of reader_new "[replicate 5000 CHR ''x'']" "[]"]
  by (auto simp: reader_new_def reader_ok_def CLIENT_OUTPUT_BUFFER_SIZE_def)

text \<open>C10. As long as no line is longer than the buffer, the way the output is cut into packets does not
  matter: what has been read is logged as if the whole stream had been cut into lines at once,
  with the bytes after the last newline kept for the next time.\<close>

theorem child_output_cut_into_lines:
  assumes "reader_ok r" "newline \<notin> set (rd_pending r)" "nul \<notin> set (rd_pending r @ concat ps)"
    and "lines_fit (rd_pending r @ concat ps)"
  shows "\<exists>used rest. loader_read_child_output ps (r, log) = Inr (feed used (r, log), rest) \<and> concat ps = used @ concat rest"
  using read_feed [of "(r, log)" ps] assms by simp

theorem child_output_cut_into_lines_witness:
  "\<exists>used rest. loader_read_child_output [''ab'', ''c'' @ [newline] @ ''d''] (reader_new, []) =
      Inr (feed used (reader_new, []), rest) \<and> ''abc'' @ [newline] @ ''d'' = used @ concat rest"
  using child_output_cut_into_lines [of reader_new "[''ab'', ''c'' @ [newline] @ ''d'']" "[]"]
  by (auto simp: reader_new_def reader_ok_def CLIENT_OUTPUT_BUFFER_SIZE_def)

text \<open>An example of the reference: a line in two packets, repeated twice more.\<close>

lemma feed_example:
  "feed (''b'' @ [newline] @ ''ab'' @ [newline] @ ''ab'' @ [newline] @ ''x'' @ [newline]) (feed ''a'' (reader_new, [])) =
     (\<lparr>rd_pending = '''', rd_last = ''x'', rd_count = 1\<rparr>, [Log_line ''ab'', Log_repeating, Log_repeated 3, Log_line ''x''])"
  by (simp add: feed_def reader_new_def log_lines.simps log_one_line_def loader_check_line_repeat_end_def)

section \<open>Command lines\<close>

definition XTERM_COMMAND_EXTENSION :: string where
  "XTERM_COMMAND_EXTENSION = ''&& sh || sh''"

definition quoted :: "string \<Rightarrow> string" where
  "quoted arg = CHR 0x22 # arg @ [CHR 0x22, CHR '' '']"

text \<open>\<open>buf\<close> is what has been written to the array of \<open>len\<close> bytes before \<open>ptr\<close>.\<close>

fun append_quoted :: "nat \<Rightarrow> string list \<Rightarrow> string \<Rightarrow> string res" where
  "append_quoted len [] buf = Inr buf"
| "append_quoted len (a # as) buf =
     bindr (sprintf_into (len - length buf) (quoted a)) (\<lambda>s. append_quoted len as (buf @ s))"

definition terminal_command :: "string list \<Rightarrow> string res" where
  "terminal_command argv =
     (let len = foldl (\<lambda>n a. n + (length a + 3)) (length XTERM_COMMAND_EXTENSION + 1) argv in
      bindr (append_quoted len argv '''') (\<lambda>buf.
      bindr (sprintf_into (len - length buf) XTERM_COMMAND_EXTENSION) (\<lambda>s. Inr (buf @ s))))"

text \<open>\<open>strcpy\<close> and the space; then the terminator.\<close>

fun append_spaced :: "nat \<Rightarrow> string list \<Rightarrow> string \<Rightarrow> string res" where
  "append_spaced len [] buf = Inr buf"
| "append_spaced len (a # as) buf =
     bindr (sprintf_into (len - length buf) a) (\<lambda>s. append_spaced len as (buf @ s @ '' ''))"

definition debug_command :: "string list \<Rightarrow> string res" where
  "debug_command argv =
     (let len = foldl (\<lambda>n a. n + (length a + 1)) 0 argv in
      bindr (append_spaced len argv '''') (\<lambda>buf. if length buf < len then Inr buf else Inl Out_of_bounds))"

lemma foldl_sum: fixes m :: nat shows "foldl (\<lambda>n a. n + g a) m xs = m + sum_list (map g xs)"
  by (induction xs arbitrary: m) auto

lemma append_quoted_fits:
  "length buf + sum_list (map (\<lambda>a. length a + 3) argv) < len \<Longrightarrow>
     append_quoted len argv buf = Inr (buf @ concat (map quoted argv))"
  by (induction argv arbitrary: buf) (auto simp: quoted_def)

lemma append_spaced_fits:
  "length buf + sum_list (map (\<lambda>a. length a + 1) argv) = len \<Longrightarrow>
     append_spaced len argv buf = Inr (buf @ concat (map (\<lambda>a. a @ '' '') argv))"
  by (induction argv arbitrary: buf) auto

lemma length_spaced: "length (concat (map (\<lambda>a. a @ '' '') argv)) = sum_list (map (\<lambda>a. length a + 1) argv)"
  by (induction argv) auto

lemma length_quoted: "length (concat (map quoted argv)) = sum_list (map (\<lambda>a. length a + 3) argv)"
  by (induction argv) (auto simp: quoted_def)

text \<open>The command line for a terminal exactly fills the array computed for it; the one logged in
  debugging builds writes its terminator one byte behind its array, whatever the arguments.\<close>

theorem command_line_buffers:
  "terminal_command argv = Inr (concat (map quoted argv) @ XTERM_COMMAND_EXTENSION) \<and>
   debug_command argv = Inl Out_of_bounds"
proof
  let ?len = "length XTERM_COMMAND_EXTENSION + 1 + sum_list (map (\<lambda>a. length a + 3) argv)"
  have "append_quoted ?len argv '''' = Inr (concat (map quoted argv))"
    using append_quoted_fits [of "''''" argv ?len] by simp
  moreover have "sprintf_into (?len - length (concat (map quoted argv))) XTERM_COMMAND_EXTENSION = Inr XTERM_COMMAND_EXTENSION"
    by (rule sprintf_into_fits) (subst length_quoted, simp)
  ultimately show "terminal_command argv = Inr (concat (map quoted argv) @ XTERM_COMMAND_EXTENSION)"
    by (simp add: terminal_command_def foldl_sum Let_def)
  show "debug_command argv = Inl Out_of_bounds"
    using append_spaced_fits [of "''''" argv "sum_list (map (\<lambda>a. length a + 1) argv)"]
    unfolding debug_command_def foldl_sum Let_def by (simp add: length_spaced [simplified])
qed

end
