(* ===== verification/Session.thy ===== *)
theory Session
  imports Files Store JackMgr AlsaPatch Output
begin

unbundle bit_operations_syntax

text \<open>
  The state of the daemon (\<^verbatim>\<open>lashd/client.h\<close>, \<^verbatim>\<open>project.h\<close>, \<^verbatim>\<open>server.h\<close>, the list of
  \<^verbatim>\<open>loader.c\<close>): clients and projects live in a heap and are known by their addresses, as
  the structures of the code are known by pointers; the lists of the code are lists of
  addresses. Everything the daemon says to the outside (D-Bus signals and method calls,
  connection requests to jackdbus) is appended to one trace. What the daemon asks of the
  outside is either a stream of answers kept in the state (new UUIDs, the results of
  \<open>fork\<close>) or part of the environment \<open>env\<close> every operation gets. The build modelled is the
  one with the JACK D-Bus service and without ALSA.
\<close>

section \<open>Clients\<close>

datatype event_type =
    LASH_Event_Unknown | LASH_Client_Name | LASH_Jack_Client_Name | LASH_Alsa_Client_ID
  | LASH_Save_File | LASH_Restore_File | LASH_Save_Data_Set | LASH_Restore_Data_Set | LASH_Save
  | LASH_Quit | LASH_Server_Lost | LASH_Project_Add | LASH_Project_Remove | LASH_Project_Dir
  | LASH_Project_Name | LASH_Client_Add | LASH_Client_Remove | LASH_Percentage

type_synonym addr = nat

text \<open>\<open>argc\<close> is the length of \<open>cl_argv\<close>, a \<open>NULL\<close> \<open>argv\<close> the empty list.\<close>

record lash_client =
  cl_id :: uuid
  cl_id_str :: string
  cl_pid :: pid
  cl_flags :: u32
  cl_class :: cstr
  cl_working_dir :: cstr
  cl_data_path :: cstr
  cl_argv :: "string list"
  cl_dbus_name :: cstr
  cl_name :: cstr
  cl_store :: "store option"
  cl_pending_task :: u64
  cl_task_type :: event_type
  cl_task_progress :: u8
  cl_jack_client_name :: cstr
  cl_jack_patches :: "jack_patch list"
  cl_alsa_client_id :: u8
  cl_alsa_patches :: "alsa_patch list"
  cl_dependencies :: "uuid list"
  cl_unsatisfied_deps :: "uuid list"
  cl_project :: "addr option"

definition client_new :: lash_client where
  "client_new = \<lparr>cl_id = 0, cl_id_str = '''', cl_pid = 0, cl_flags = 0, cl_class = None, cl_working_dir = None,
     cl_data_path = None, cl_argv = [], cl_dbus_name = None, cl_name = None, cl_store = None,
     cl_pending_task = 0, cl_task_type = LASH_Event_Unknown, cl_task_progress = 0,
     cl_jack_client_name = None, cl_jack_patches = [], cl_alsa_client_id = 0, cl_alsa_patches = [],
     cl_dependencies = [], cl_unsatisfied_deps = [], cl_project = None\<rparr>"

text \<open>The bits of the flags word the daemon looks at.\<close>

definition LASH_Config_Data_Set :: u32 where "LASH_Config_Data_Set = 0x00000001"
definition LASH_Config_File :: u32 where "LASH_Config_File = 0x00000002"
definition LASH_Terminal :: u32 where "LASH_Terminal = 0x00000010"
definition LASH_Restored :: u32 where "LASH_Restored = 0x00000040"
definition LASH_Saved :: u32 where "LASH_Saved = 0x01000000"

lemmas flag_defs = LASH_Config_Data_Set_def LASH_Config_File_def LASH_Terminal_def
  LASH_Restored_def LASH_Saved_def

definition CLIENT_CONFIG_DATA_SET :: "lash_client \<Rightarrow> bool" where
  "CLIENT_CONFIG_DATA_SET c \<longleftrightarrow> cl_flags c AND LASH_Config_Data_Set \<noteq> 0"

definition CLIENT_CONFIG_FILE :: "lash_client \<Rightarrow> bool" where
  "CLIENT_CONFIG_FILE c \<longleftrightarrow> cl_flags c AND LASH_Config_File \<noteq> 0"

definition CLIENT_HAS_INTERNAL_STATE :: "lash_client \<Rightarrow> bool" where
  "CLIENT_HAS_INTERNAL_STATE c \<longleftrightarrow> cl_flags c AND (LASH_Config_Data_Set OR LASH_Config_File) \<noteq> 0"

definition CLIENT_SAVED :: "lash_client \<Rightarrow> bool" where
  "CLIENT_SAVED c \<longleftrightarrow> cl_flags c AND LASH_Saved \<noteq> 0"

text \<open>\<open>c->name && strcmp (c->name, name) == 0\<close>, over the clients of a list.\<close>

definition client_find_by_name :: "lash_client list \<Rightarrow> string \<Rightarrow> nat option" where
  "client_find_by_name cs name = first_index (\<lambda>c. cl_name c = Some name) cs"

definition project_get_client_by_id :: "lash_client list \<Rightarrow> uuid \<Rightarrow> nat option" where
  "project_get_client_by_id cs u = first_index (\<lambda>c. cl_id c = u) cs"

definition client_get_identity :: "lash_client \<Rightarrow> string" where
  "client_get_identity c = (case cl_name c of Some n \<Rightarrow> n | None \<Rightarrow> cl_id_str c)"

section \<open>Projects\<close>

datatype project_task = No_task | Task_save | Task_load

record project =
  p_doc :: "xml option"
  p_name :: cstr
  p_move_on_close :: bool
  p_directory :: cstr
  p_description :: cstr
  p_notes :: cstr
  p_modified_status :: bool
  p_clients :: "addr list"
  p_lost_clients :: "addr list"
  p_task_type :: project_task
  p_tasks_total :: u32
  p_tasks_pending :: u32
  p_tasks_progress :: u32

definition project_new :: project where
  "project_new = \<lparr>p_doc = None, p_name = None, p_move_on_close = False, p_directory = None,
     p_description = None, p_notes = None, p_modified_status = False, p_clients = [], p_lost_clients = [],
     p_task_type = No_task, p_tasks_total = 0, p_tasks_pending = 0, p_tasks_progress = 0\<rparr>"

section \<open>The daemon\<close>

datatype event =
    Project_appeared cstr cstr
  | Project_disappeared cstr
  | Project_name_changed cstr cstr
  | Project_path_changed cstr cstr
  | Project_description_changed cstr cstr
  | Project_notes_changed cstr cstr
  | Project_saved cstr
  | Project_loaded cstr
  | Client_appeared string cstr cstr
  | Client_disappeared string cstr
  | Client_name_changed string cstr
  | Progress u8
  | Project_modified_status_changed cstr bool
  | Save_signal cstr u64
  | Quit_signal cstr
  | Load_call cstr u64 cstr
  | Load_data_set_call cstr u64 "(string \<times> char \<times> string) list"
  | Connect_ports connect
  | Child_log string string bool log_line

record loader_child =
  ch_id :: uuid
  ch_project :: string
  ch_argv0 :: string
  ch_dead :: bool
  ch_pid :: pid
  ch_terminal :: bool
  ch_stdout :: reader
  ch_stderr :: reader

record world =
  clients :: "addr \<Rightarrow> lash_client"
  projects :: "addr \<Rightarrow> project"
  next_client :: addr
  next_project :: addr
  loaded_projects :: "addr list"
  all_projects :: "addr list"
  projects_dir :: string
  task_iter :: u64
  jackdbus :: jackdbus_mgr
  disk :: fs
  childs :: "loader_child list"
  trace :: "event list"
  new_uuids :: "nat \<Rightarrow> uuid"
  forks :: "nat \<Rightarrow> pid option"
  quitting :: bool
text \<open>
  The environment: libuuid, how libxml2 reads a node's content back, how it writes and reads
  a document (\<open>None\<close> when it cannot be parsed), jackdbus's answers, whether a LoadDataSet
  message can be built and sent and which entries it takes.
\<close>

record env =
  e_uuids :: uuid_lib
  e_content :: "string \<Rightarrow> string"
  e_xml_save :: "xml \<Rightarrow> string"
  e_xml_parse :: "string \<Rightarrow> xml option"
  e_graph :: "u64 \<Rightarrow> graph_reply"
  e_pid_of :: "u64 \<Rightarrow> u64"
  e_call_ok :: bool
  e_send_ok :: bool
  e_accept :: "string \<Rightarrow> char \<Rightarrow> string \<Rightarrow> nat \<Rightarrow> bool"

definition emit :: "event \<Rightarrow> world \<Rightarrow> world" where
  "emit e w = w\<lparr>trace := trace w @ [e]\<rparr>"

definition upd_client :: "addr \<Rightarrow> (lash_client \<Rightarrow> lash_client) \<Rightarrow> world \<Rightarrow> world" where
  "upd_client a f w = w\<lparr>clients := (clients w)(a := f (clients w a))\<rparr>"

definition upd_project :: "addr \<Rightarrow> (project \<Rightarrow> project) \<Rightarrow> world \<Rightarrow> world" where
  "upd_project a f w = w\<lparr>projects := (projects w)(a := f (projects w a))\<rparr>"

text \<open>The clients of the two lists of a project, in list order.\<close>

definition clients_of :: "world \<Rightarrow> addr \<Rightarrow> lash_client list" where
  "clients_of w p = map (clients w) (p_clients (projects w p))"

definition lost_clients_of :: "world \<Rightarrow> addr \<Rightarrow> lash_client list" where
  "lost_clients_of w p = map (clients w) (p_lost_clients (projects w p))"

text \<open>Removing an element from the list that holds it, as \<open>list_del\<close> does.\<close>

definition del :: "addr \<Rightarrow> addr list \<Rightarrow> addr list" where
  "del a xs = remove1 a xs"

definition unlink_client :: "addr \<Rightarrow> addr \<Rightarrow> world \<Rightarrow> world" where
  "unlink_client p a w = upd_project p (\<lambda>x. x\<lparr>p_clients := del a (p_clients x),
     p_lost_clients := del a (p_lost_clients x)\<rparr>) w"

lemma emit_simps [simp, frame_simps]:
  "clients (emit e w) = clients w" "projects (emit e w) = projects w"
  "next_client (emit e w) = next_client w" "next_project (emit e w) = next_project w"
  "loaded_projects (emit e w) = loaded_projects w" "all_projects (emit e w) = all_projects w"
  "projects_dir (emit e w) = projects_dir w" "task_iter (emit e w) = task_iter w"
  "jackdbus (emit e w) = jackdbus w" "disk (emit e w) = disk w" "childs (emit e w) = childs w"
  "trace (emit e w) = trace w @ [e]" "new_uuids (emit e w) = new_uuids w" "forks (emit e w) = forks w"
  "quitting (emit e w) = quitting w"
  by (simp_all add: emit_def)

lemma upd_client_simps [simp, frame_simps]:
  "clients (upd_client a f w) = (clients w)(a := f (clients w a))" "projects (upd_client a f w) = projects w"
  "next_client (upd_client a f w) = next_client w" "next_project (upd_client a f w) = next_project w"
  "loaded_projects (upd_client a f w) = loaded_projects w" "all_projects (upd_client a f w) = all_projects w"
  "projects_dir (upd_client a f w) = projects_dir w" "task_iter (upd_client a f w) = task_iter w"
  "jackdbus (upd_client a f w) = jackdbus w" "disk (upd_client a f w) = disk w"
  "childs (upd_client a f w) = childs w" "trace (upd_client a f w) = trace w"
  "new_uuids (upd_client a f w) = new_uuids w" "forks (upd_client a f w) = forks w"
  "quitting (upd_client a f w) = quitting w"
  by (simp_all add: upd_client_def)

lemma upd_project_simps [simp, frame_simps]:
  "projects (upd_project a g w) = (projects w)(a := g (projects w a))" "clients (upd_project a g w) = clients w"
  "next_client (upd_project a g w) = next_client w" "next_project (upd_project a g w) = next_project w"
  "loaded_projects (upd_project a g w) = loaded_projects w" "all_projects (upd_project a g w) = all_projects w"
  "projects_dir (upd_project a g w) = projects_dir w" "task_iter (upd_project a g w) = task_iter w"
  "jackdbus (upd_project a g w) = jackdbus w" "disk (upd_project a g w) = disk w"
  "childs (upd_project a g w) = childs w" "trace (upd_project a g w) = trace w"
  "new_uuids (upd_project a g w) = new_uuids w" "forks (upd_project a g w) = forks w"
  "quitting (upd_project a g w) = quitting w"
  by (simp_all add: upd_project_def)

section \<open>Links\<close>

text \<open>
  The part of the state that says which client is in which list of which project, and which
  projects are in which list of the daemon.
\<close>

named_theorems link_simps \<open>operations that leave the links alone\<close>

definition links :: "world \<Rightarrow> (addr \<Rightarrow> addr list \<times> addr list) \<times> (addr \<Rightarrow> addr option) \<times> addr \<times> addr \<times>
    addr list \<times> addr list" where
  "links w = ((\<lambda>p. (p_clients (projects w p), p_lost_clients (projects w p))), (\<lambda>a. cl_project (clients w a)),
     next_client w, next_project w, loaded_projects w, all_projects w)"

lemma links_emit [simp, link_simps]: "links (emit e w) = links w"
  by (simp add: links_def)

lemma links_upd_client [simp, link_simps]:
  "(\<And>c. cl_project (f c) = cl_project c) \<Longrightarrow> links (upd_client a f w) = links w"
  by (simp add: links_def fun_eq_iff)

lemma links_upd_project [simp, link_simps]:
  "(\<And>x. p_clients (f x) = p_clients x) \<Longrightarrow> (\<And>x. p_lost_clients (f x) = p_lost_clients x) \<Longrightarrow>
     links (upd_project p f w) = links w"
  by (simp add: links_def fun_eq_iff)

lemma links_updates [simp, link_simps]:
  "links (w\<lparr>disk := d\<rparr>) = links w" "links (w\<lparr>task_iter := i\<rparr>) = links w"
  "links (w\<lparr>jackdbus := m\<rparr>) = links w" "links (w\<lparr>childs := cs\<rparr>) = links w"
  "links (w\<lparr>forks := fo\<rparr>) = links w" "links (w\<lparr>new_uuids := us\<rparr>) = links w"
  "links (w\<lparr>quitting := q\<rparr>) = links w"
  by (simp_all add: links_def)

text \<open>A small state for examples: one project with two running clients of one class.\<close>

definition example_world :: world where
  "example_world =
     \<lparr>clients = (\<lambda>a. client_new\<lparr>cl_id := word_of_nat (a + 1), cl_class := Some ''synth'',
        cl_name := (if a = 0 then Some ''synth'' else if a = 1 then Some ''synth 01'' else None),
        cl_argv := [''synth''], cl_dbus_name := Some (CHR '':'' # show_nat a), cl_project := Some 0\<rparr>),
      projects = (\<lambda>p. project_new\<lparr>p_name := Some ''demo'', p_directory := Some ''/p/demo'', p_clients := [0, 1]\<rparr>),
      next_client = 3, next_project = 1, loaded_projects = [0], all_projects = [], projects_dir = ''/p'',
      task_iter = 0,
      jackdbus = \<lparr>jm_clients = [], jm_unknown = [], jm_unknown_freed = False, jm_graph = None, jm_version = 0\<rparr>,
      disk = \<lparr>nodes = [(''/'', Dir), (''/p'', Dir), (''/p/demo'', Dir)], denied = (\<lambda>_. False)\<rparr>, childs = [], trace = [],
      new_uuids = (\<lambda>n. word_of_nat (n + 100)), forks = (\<lambda>n. Some (word_of_nat (n + 1000))), quitting = False\<rparr>"

end
