(* ===== verification/ClientDep.thy ===== *)
theory ClientDep
  imports Session
begin

text \<open>
  \<^verbatim>\<open>lashd/client_dependency.c\<close>: the dependencies between the clients of a project. The
  search for a circular dependency recurses through the dependencies of the clients of a
  list without a bound; \<open>None\<close> is a search that never returns.
\<close>

section \<open>Operations\<close>

text \<open>
  The loop over the dependencies \<open>ds\<close> of a client, with the recursive call of
  \<open>client_dependency_find_circular\<close> for each unfolded into it.
\<close>

partial_function (option) circular_deps :: "lash_client list \<Rightarrow> uuid \<Rightarrow> uuid list \<Rightarrow> bool option" where
  "circular_deps cs orig ds =
     (case ds of [] \<Rightarrow> Some False
      | d # rest \<Rightarrow>
          if orig = d then Some True
          else Option.bind
            (case project_get_client_by_id cs d of
               None \<Rightarrow> Some False
             | Some i \<Rightarrow> circular_deps cs orig (cl_dependencies (cs ! i)))
            (\<lambda>found. if found then Some True else circular_deps cs orig rest))"

definition client_dependency_find_circular :: "lash_client list \<Rightarrow> uuid \<Rightarrow> uuid \<Rightarrow> bool option" where
  "client_dependency_find_circular cs orig new =
     (case project_get_client_by_id cs new of
        None \<Rightarrow> Some False
      | Some i \<Rightarrow> circular_deps cs orig (cl_dependencies (cs ! i)))"

definition client_dependency_add :: "lash_client list \<Rightarrow> lash_client \<Rightarrow> uuid \<Rightarrow> lash_client res" where
  "client_dependency_add cs c new =
     (if new \<in> set (cl_dependencies c) then Inr c
      else (case client_dependency_find_circular cs (cl_id c) new of
              None \<Rightarrow> Inl Diverges
            | Some True \<Rightarrow> Inr c
            | Some False \<Rightarrow> Inr (c\<lparr>cl_dependencies := new # cl_dependencies c\<rparr>)))"

definition client_dependency_remove :: "uuid list \<Rightarrow> uuid \<Rightarrow> uuid list" where
  "client_dependency_remove ds u = remove1 u ds"

definition client_dependency_list_sanity_check :: "lash_client list \<Rightarrow> lash_client \<Rightarrow> lash_client" where
  "client_dependency_list_sanity_check cs c =
     c\<lparr>cl_dependencies := filter (\<lambda>d. project_get_client_by_id cs d \<noteq> None) (cl_dependencies c)\<rparr>"

definition client_dependency_init_unsatisfied :: "lash_client \<Rightarrow> lash_client" where
  "client_dependency_init_unsatisfied c =
     c\<lparr>cl_unsatisfied_deps := foldl (\<lambda>us d. d # us) [] (cl_dependencies c)\<rparr>"

section \<open>The dependency graph\<close>

text \<open>The edges of a set of clients, and of the search through a client list.\<close>

definition dep_edges :: "lash_client set \<Rightarrow> (uuid \<times> uuid) set" where
  "dep_edges C = {(cl_id c, d) | c d. c \<in> C \<and> d \<in> set (cl_dependencies c)}"

lemma dep_edges_insert:
  "dep_edges {} = {}"
  "dep_edges (insert c C) = (\<lambda>d. (cl_id c, d)) ` set (cl_dependencies c) \<union> dep_edges C"
  by (auto simp: dep_edges_def)

lemma dep_edges_mono: "C \<subseteq> D \<Longrightarrow> dep_edges C \<subseteq> dep_edges D"
  by (auto simp: dep_edges_def)

lemma finite_dep_edges: "finite C \<Longrightarrow> finite (dep_edges C)"
proof -
  assume "finite C"
  moreover have "dep_edges C = (\<Union>c\<in>C. (\<lambda>d. (cl_id c, d)) ` set (cl_dependencies c))"
    by (auto simp: dep_edges_def)
  ultimately show ?thesis by simp
qed

lemma get_client_by_id_Some:
  "project_get_client_by_id cs u = Some i \<Longrightarrow> i < length cs \<and> cl_id (cs ! i) = u"
  unfolding project_get_client_by_id_def by (auto dest: first_index_Some)

lemma get_client_by_id_None: "project_get_client_by_id cs u = None \<longleftrightarrow> u \<notin> cl_id ` set cs"
  unfolding project_get_client_by_id_def by (auto simp: first_index_None)

text \<open>With distinct UUIDs the dependencies the search reads are the edges of the graph.\<close>

lemma deps_of_found:
  assumes "inj_on cl_id (set cs)" "project_get_client_by_id cs u = Some i"
  shows "set (cl_dependencies (cs ! i)) = {d. (u, d) \<in> dep_edges (set cs)}"
proof -
  have i: "cs ! i \<in> set cs" "cl_id (cs ! i) = u" using get_client_by_id_Some [OF assms(2)] by auto
  have "c = cs ! i" if "c \<in> set cs" "cl_id c = u" for c
    using inj_onD [OF assms(1), of c "cs ! i"] that i by simp
  then have "(u, d) \<in> dep_edges (set cs) \<longleftrightarrow> d \<in> set (cl_dependencies (cs ! i))" for d
    unfolding dep_edges_def using i by blast
  then show ?thesis by blast
qed

lemma no_edges_of_missing:
  "project_get_client_by_id cs u = None \<Longrightarrow> (u, d) \<notin> dep_edges (set cs)"
  unfolding get_client_by_id_None dep_edges_def by blast

section \<open>The search ends on acyclic graphs\<close>

definition circular_from :: "lash_client list \<Rightarrow> uuid \<Rightarrow> uuid \<Rightarrow> bool option" where
  "circular_from cs orig d =
     (case project_get_client_by_id cs d of
        None \<Rightarrow> Some False
      | Some i \<Rightarrow> circular_deps cs orig (cl_dependencies (cs ! i)))"

lemma circular_deps_Nil [simp]: "circular_deps cs orig [] = Some False"
  by (subst circular_deps.simps) simp

lemma circular_deps_Cons:
  "circular_deps cs orig (d # ds) =
     (if orig = d then Some True
      else Option.bind (circular_from cs orig d)
        (\<lambda>found. if found then Some True else circular_deps cs orig ds))"
  by (subst circular_deps.simps) (simp add: circular_from_def)

lemma circular_deps_all:
  assumes "\<forall>d \<in> set ds. circular_from cs orig d = Some ((d, orig) \<in> E\<^sup>+)"
  shows "circular_deps cs orig ds = Some (\<exists>d \<in> set ds. (d, orig) \<in> E\<^sup>*)"
  using assms by (induction ds) (auto simp: circular_deps_Cons rtrancl_eq_or_trancl)

lemma reach_one:
  "(\<exists>e. (d, e) \<in> E \<and> (e, x) \<in> E\<^sup>*) \<longleftrightarrow> (d, x) \<in> E\<^sup>+"
  by (blast dest: tranclD intro: rtrancl_into_trancl2)

lemma circular_from_exact:
  assumes inj: "inj_on cl_id (set cs)" and acy: "acyclic (dep_edges (set cs))"
  shows "circular_from cs orig d = Some ((d, orig) \<in> (dep_edges (set cs))\<^sup>+)"
proof -
  let ?E = "dep_edges (set cs)"
  have "wf (?E\<inverse>)" using acy by (intro finite_acyclic_wf_converse finite_dep_edges) simp_all
  then show ?thesis
  proof (induction d rule: wf_induct_rule)
    case (less d)
    show ?case
    proof (cases "project_get_client_by_id cs d")
      case None
      then have "(d, orig) \<notin> ?E\<^sup>+" using no_edges_of_missing by (blast dest: tranclD)
      then show ?thesis using None by (simp add: circular_from_def)
    next
      case (Some i)
      note deps = deps_of_found [OF inj Some]
      have "circular_deps cs orig (cl_dependencies (cs ! i)) =
          Some (\<exists>e \<in> set (cl_dependencies (cs ! i)). (e, orig) \<in> ?E\<^sup>*)"
        by (rule circular_deps_all) (use less deps in blast)
      moreover have "(\<exists>e \<in> set (cl_dependencies (cs ! i)). (e, orig) \<in> ?E\<^sup>*) \<longleftrightarrow> (d, orig) \<in> ?E\<^sup>+"
        unfolding deps reach_one [symmetric] by blast
      ultimately show ?thesis using Some by (simp add: circular_from_def)
    qed
  qed
qed

lemma find_circular_exact:
  assumes "inj_on cl_id (set cs)" "acyclic (dep_edges (set cs))"
  shows "client_dependency_find_circular cs orig new = Some ((new, orig) \<in> (dep_edges (set cs))\<^sup>+)"
  using circular_from_exact [OF assms] by (simp add: client_dependency_find_circular_def circular_from_def)

section \<open>Adding a dependency\<close>

text \<open>
  The client a dependency is added to may already be in the list the search walks (the
  D-Bus method) or not yet (a project being loaded). Paths that leave the new edge's source
  are cut there: they use only the other clients' edges.
\<close>

lemma edges_replace:
  "dep_edges (insert (c\<lparr>cl_dependencies := new # cl_dependencies c\<rparr>) (C - {c})) \<subseteq>
     insert (cl_id c, new) (dep_edges (insert c C))"
  by (auto simp: dep_edges_def)

lemma path_cut:
  assumes "(a, z) \<in> (insert_edges \<union> E)\<^sup>*" "\<forall>(x, y) \<in> insert_edges. x = z"
  shows "(a, z) \<in> E\<^sup>*"
  using assms
proof (induction rule: converse_rtrancl_induct)
  case (step y w)
  then show ?case by (cases "y = z") (auto intro: converse_rtrancl_into_rtrancl)
qed simp

lemma reach_without_source:
  assumes "(new, cl_id c) \<in> (dep_edges (insert c (set cs)))\<^sup>+" "new \<noteq> cl_id c"
  shows "(new, cl_id c) \<in> (dep_edges (set cs))\<^sup>+"
proof -
  have "dep_edges (insert c (set cs)) = dep_edges {c} \<union> dep_edges (set cs)"
    by (auto simp: dep_edges_def)
  then have "(new, cl_id c) \<in> (dep_edges {c} \<union> dep_edges (set cs))\<^sup>*"
    using assms(1) by (simp add: trancl_into_rtrancl)
  then have "(new, cl_id c) \<in> (dep_edges (set cs))\<^sup>*"
    by (rule path_cut) (auto simp: dep_edges_def)
  then show ?thesis using assms(2) by (simp add: rtrancl_eq_or_trancl)
qed

text \<open>C7. Adding a dependency on another client of an acyclic dependency graph ends, keeps the graph
  acyclic, and refuses exactly the duplicates and the dependencies that would close a cycle.\<close>

theorem client_dependency_add_acyclic:
  assumes "inj_on cl_id (insert c (set cs))" "acyclic (dep_edges (insert c (set cs)))" "new \<noteq> cl_id c"
  shows "\<exists>c'. client_dependency_add cs c new = Inr c'
    \<and> acyclic (dep_edges (insert c' (set cs - {c})))
    \<and> c' = c\<lparr>cl_dependencies :=
        (if new \<in> set (cl_dependencies c) \<or> (new, cl_id c) \<in> (dep_edges (insert c (set cs)))\<^sup>+
         then cl_dependencies c else new # cl_dependencies c)\<rparr>"
proof -
  let ?E = "dep_edges (insert c (set cs))" and ?F = "dep_edges (set cs)"
  have sub: "?F \<subseteq> ?E" by (rule dep_edges_mono) blast
  have inj: "inj_on cl_id (set cs)" using assms(1) by (rule inj_on_subset) blast
  have acy: "acyclic ?F" using assms(2) sub by (rule acyclic_subset)
  have find: "client_dependency_find_circular cs (cl_id c) new = Some ((new, cl_id c) \<in> ?E\<^sup>+)"
  proof -
    have "(new, cl_id c) \<in> ?F\<^sup>+ \<longleftrightarrow> (new, cl_id c) \<in> ?E\<^sup>+"
      using reach_without_source [OF _ assms(3)] trancl_mono [OF _ sub] by blast
    then show ?thesis using find_circular_exact [OF inj acy, of "cl_id c" new] by simp
  qed
  have same: "acyclic (dep_edges (insert c (set cs - {c})))"
    using assms(2) by (simp add: insert_Diff_single)
  have new: "acyclic (dep_edges (insert (c\<lparr>cl_dependencies := new # cl_dependencies c\<rparr>) (set cs - {c})))"
    if "(new, cl_id c) \<notin> ?E\<^sup>+"
  proof -
    have "acyclic (insert (cl_id c, new) ?E)"
      using assms(2,3) that by (simp add: acyclic_insert rtrancl_eq_or_trancl)
    then show ?thesis using edges_replace by (rule acyclic_subset)
  qed
  show ?thesis
    using find same new by (auto simp: client_dependency_add_def)
qed

definition dep_client :: "uuid \<Rightarrow> uuid list \<Rightarrow> lash_client" where
  "dep_client u ds = client_new\<lparr>cl_id := u, cl_dependencies := ds\<rparr>"

definition example_clients :: "lash_client list" where
  "example_clients = [dep_client 1 [2], dep_client 2 [], dep_client 3 [1]]"

lemma example_clients_acyclic: "acyclic (dep_edges (set example_clients))"
proof -
  have "dep_edges (set example_clients) = {(1, 2), (3, 1)}"
    by (simp add: dep_edges_insert example_clients_def dep_client_def insert_commute)
  moreover have "acyclic {(1, 2), (3, 1 :: uuid)}"
    using wf_acyclic [OF wf_on_bot] by (simp add: acyclic_insert rtrancl_insert)
  ultimately show ?thesis by simp
qed

lemma client_dependency_add_acyclic_witness:
  "\<exists>c'. client_dependency_add example_clients (dep_client 2 []) 3 = Inr c'
    \<and> acyclic (dep_edges (insert c' (set example_clients - {dep_client 2 []})))
    \<and> c' = (dep_client 2 [])\<lparr>cl_dependencies :=
        (if 3 \<in> set (cl_dependencies (dep_client 2 [])) \<or>
            (3, cl_id (dep_client 2 [])) \<in> (dep_edges (insert (dep_client 2 []) (set example_clients)))\<^sup>+
         then cl_dependencies (dep_client 2 []) else 3 # cl_dependencies (dep_client 2 []))\<rparr>"
proof (rule client_dependency_add_acyclic)
  have ins: "insert (dep_client 2 []) (set example_clients) = set example_clients"
    by (auto simp: example_clients_def)
  have "distinct (map cl_id example_clients)" by (simp add: example_clients_def dep_client_def)
  then show "inj_on cl_id (insert (dep_client 2 []) (set example_clients))"
    unfolding ins by (simp only: distinct_map)
  show "acyclic (dep_edges (insert (dep_client 2 []) (set example_clients)))"
    unfolding ins by (rule example_clients_acyclic)
  show "3 \<noteq> cl_id (dep_client 2 [])" by (simp add: dep_client_def)
qed

section \<open>A client that depends on itself\<close>

lemma self_loop_diverges:
  assumes "circular_deps cs orig ds = Some r"
    and "project_get_client_by_id cs x = Some i" "cl_dependencies (cs ! i) = [x]" "orig \<noteq> x"
  shows "ds \<noteq> [x]"
proof -
  have "cs = cs \<longrightarrow> orig = orig \<longrightarrow> ds \<noteq> [x]"
  proof (rule circular_deps.raw_induct
      [where P = "\<lambda>cs' orig' ds' r. cs' = cs \<longrightarrow> orig' = orig \<longrightarrow> ds' \<noteq> [x]", OF _ assms(1)])
    fix f cs' orig' ds' r'
    assume ih: "\<And>cs' orig' ds' r. f cs' orig' ds' = Some r \<Longrightarrow> cs' = cs \<longrightarrow> orig' = orig \<longrightarrow> ds' \<noteq> [x]"
      and body: "(case ds' of [] \<Rightarrow> Some False
        | d # rest \<Rightarrow> if orig' = d then Some True
            else Option.bind (case project_get_client_by_id cs' d of None \<Rightarrow> Some False
                | Some i \<Rightarrow> f cs' orig' (cl_dependencies (cs' ! i)))
              (\<lambda>found. if found then Some True else f cs' orig' rest)) = Some r'"
    show "cs' = cs \<longrightarrow> orig' = orig \<longrightarrow> ds' \<noteq> [x]"
    proof (intro impI notI)
      assume "cs' = cs" "orig' = orig" "ds' = [x]"
      then obtain b where "f cs orig [x] = Some b"
        using body assms(2-4) by (auto simp: bind_eq_Some_conv)
      then show False using ih by blast
    qed
  qed
  then show ?thesis by blast
qed

text \<open>C36. The search has a hole: a client without dependencies may be made to depend on itself. After
  that, making any other client depend on it recurses without end.\<close>

theorem self_dependency_accepted:
  assumes "project_get_client_by_id cs (cl_id c) = Some i" "cs ! i = c" "cl_dependencies c = []"
    "cl_id d \<noteq> cl_id c" "cl_id c \<notin> set (cl_dependencies d)"
  shows "\<exists>c'. client_dependency_add cs c (cl_id c) = Inr c' \<and> cl_dependencies c' = [cl_id c]
    \<and> client_dependency_add (cs[i := c']) d (cl_id c) = Inl Diverges"
proof -
  let ?c = "c\<lparr>cl_dependencies := [cl_id c]\<rparr>"
  have add: "client_dependency_add cs c (cl_id c) = Inr ?c"
    using assms(1-3) by (simp add: client_dependency_add_def client_dependency_find_circular_def)
  have i: "i < length cs" using get_client_by_id_Some [OF assms(1)] by simp
  have "first_index (\<lambda>x. cl_id x = u) (xs[k := (xs ! k)\<lparr>cl_dependencies := ds\<rparr>])
      = first_index (\<lambda>x. cl_id x = u) xs" for xs :: "lash_client list" and u k ds
    by (induction xs arbitrary: k) (auto split: nat.split)
  then have found: "project_get_client_by_id (cs[i := ?c]) (cl_id c) = Some i"
    using assms(1,2) unfolding project_get_client_by_id_def by metis
  have "circular_deps (cs[i := ?c]) (cl_id d) [cl_id c] = None"
  proof (rule ccontr)
    assume "circular_deps (cs[i := ?c]) (cl_id d) [cl_id c] \<noteq> None"
    then obtain r where "circular_deps (cs[i := ?c]) (cl_id d) [cl_id c] = Some r" by blast
    then have "[cl_id c] \<noteq> [cl_id c]"
      by (rule self_loop_diverges [OF _ found _ assms(4)]) (use i in simp)
    then show False by simp
  qed
  then have "client_dependency_add (cs[i := ?c]) d (cl_id c) = Inl Diverges"
    using assms(5) found i
    by (simp add: client_dependency_add_def client_dependency_find_circular_def)
  with add show ?thesis by force
qed

lemma self_dependency_accepted_witness:
  "\<exists>c'. client_dependency_add [dep_client 1 [], dep_client 2 []] (dep_client 1 []) 1 = Inr c'
    \<and> cl_dependencies c' = [1]
    \<and> client_dependency_add [c', dep_client 2 []] (dep_client 2 []) 1 = Inl Diverges"
  using self_dependency_accepted [of "[dep_client 1 [], dep_client 2 []]" "dep_client 1 []" 0 "dep_client 2 []"]
  by (simp add: dep_client_def project_get_client_by_id_def)

section \<open>The other operations\<close>

lemma init_unsatisfied_rev:
  "client_dependency_init_unsatisfied c = c\<lparr>cl_unsatisfied_deps := rev (cl_dependencies c)\<rparr>"
proof -
  have "foldl (\<lambda>us d. d # us) acc ds = rev ds @ acc" for acc ds :: "uuid list"
    by (induction ds arbitrary: acc) simp_all
  then show ?thesis by (simp add: client_dependency_init_unsatisfied_def)
qed

lemma sanity_check_edges:
  "dep_edges {client_dependency_list_sanity_check cs c} \<subseteq> dep_edges {c}"
  by (auto simp: dep_edges_def client_dependency_list_sanity_check_def)

lemma sanity_check_targets:
  "set (cl_dependencies (client_dependency_list_sanity_check cs c)) \<subseteq> cl_id ` set cs"
  by (auto simp: client_dependency_list_sanity_check_def get_client_by_id_None)

end
