(* ===== verification/Project.thy ===== *)
theory Project
  imports ClientDep
begin

text \<open>
  \<^verbatim>\<open>lashd/project.c\<close>, with the parts of \<^verbatim>\<open>client.c\<close> and \<^verbatim>\<open>loader.c\<close> it calls: projects, their
  clients, saving and loading. Every operation takes the state and gives the state after it,
  or the fault that stops the daemon.
\<close>

section \<open>Launching (loader.c) and client stores (client.c)\<close>

text \<open>
  \<open>loader_execute\<close> in the parent process. An empty \<open>argv\<close> is a \<open>NULL\<close> array; the child's
  file descriptors are not modelled.
\<close>

definition loader_execute :: "addr \<Rightarrow> bool \<Rightarrow> world \<Rightarrow> world res" where
  "loader_execute a terminal w =
     (case cl_argv (clients w a) of
        [] \<Rightarrow> Inl Null_deref
      | program # _ \<Rightarrow>
          (case cl_project (clients w a) of
             None \<Rightarrow> Inl Null_deref
           | Some p \<Rightarrow>
               (let result = forks w 0;
                    child_pid = (case result of None \<Rightarrow> 0 | Some x \<Rightarrow> x);
                    child = \<lparr>ch_id = cl_id (clients w a), ch_project = lash_strdup (p_name (projects w p)),
                             ch_argv0 = program, ch_dead = False, ch_pid = child_pid, ch_terminal = terminal,
                             ch_stdout = reader_new, ch_stderr = reader_new\<rparr>;
                    w1 = w\<lparr>forks := (\<lambda>n. forks w (Suc n)), childs := childs w @ [child]\<rparr>
                in Inr (upd_client a (\<lambda>c. c\<lparr>cl_pid := child_pid\<rparr>) w1))))"

definition project_launch_client :: "addr \<Rightarrow> world \<Rightarrow> world res" where
  "project_launch_client a w = loader_execute a (cl_flags (clients w a) AND LASH_Terminal \<noteq> 0) w"

definition client_store_open :: "addr \<Rightarrow> string \<Rightarrow> world \<Rightarrow> world \<times> bool" where
  "client_store_open a dir w =
     (let d = (case cl_store (clients w a) of
                 Some st \<Rightarrow> fst (store_write (disk w) st)
               | None \<Rightarrow> lash_create_dir (disk w) dir);
          (st', ok) = store_open d (store_new\<lparr>st_dir := Some dir\<rparr>)
      in (upd_client a (\<lambda>c. c\<lparr>cl_store := Some st'\<rparr>) (w\<lparr>disk := d\<rparr>), ok))"

definition client_store_close :: "addr \<Rightarrow> world \<Rightarrow> world \<times> bool" where
  "client_store_close a w =
     (case cl_store (clients w a) of
        None \<Rightarrow> (w, True)
      | Some st \<Rightarrow>
          (let (d, st', ok) = store_write (disk w) st
           in (upd_client a (\<lambda>c. c\<lparr>cl_store := None\<rparr>) (w\<lparr>disk := d\<rparr>), ok)))"

section \<open>Names, directories, status\<close>

definition PROJECT_ID_DIR :: string where "PROJECT_ID_DIR = ''.id''"
definition PROJECT_CONFIG_DIR :: string where "PROJECT_CONFIG_DIR = ''.config''"
definition PROJECT_INFO_FILE :: string where "PROJECT_INFO_FILE = ''.lash_info''"
definition PROJECT_NOTES_FILE :: string where "PROJECT_NOTES_FILE = ''.notes''"

definition under :: "cstr \<Rightarrow> string \<Rightarrow> string" where
  "under dir file = fst (lash_get_fqn 48 dir (Some file))"

lemma under_eq [simp]: "under (Some d) f = d @ slash # f"
  by (simp add: under_def)

definition project_get_client_dir :: "project \<Rightarrow> string \<Rightarrow> string" where
  "project_get_client_dir p id_str = under (Some (under (p_directory p) PROJECT_ID_DIR)) id_str"

definition project_get_client_config_dir :: "project \<Rightarrow> string \<Rightarrow> string" where
  "project_get_client_config_dir p id_str = under (Some (project_get_client_dir p id_str)) PROJECT_CONFIG_DIR"

text \<open>Whether a client of the project, running or lost, has the name.\<close>

definition project_get_client_by_name :: "world \<Rightarrow> addr \<Rightarrow> string \<Rightarrow> addr option" where
  "project_get_client_by_name w p name =
     (case client_find_by_name (clients_of w p) name of
        Some i \<Rightarrow> Some (p_clients (projects w p) ! i)
      | None \<Rightarrow> map_option (\<lambda>i. p_lost_clients (projects w p) ! i)
                  (client_find_by_name (lost_clients_of w p) name))"

fun try_suffixes :: "world \<Rightarrow> addr \<Rightarrow> string \<Rightarrow> nat list \<Rightarrow> string option res" where
  "try_suffixes w p class [] = Inr None"
| "try_suffixes w p class (i # is) =
     bindr (sprintf_into (length class + 4) (class @ '' '' @ show_02u i)) (\<lambda>str.
       if project_get_client_by_name w p str = None then Inr (Some str)
       else try_suffixes w p class is)"

definition project_get_unique_client_name :: "world \<Rightarrow> addr \<Rightarrow> addr \<Rightarrow> string option res" where
  "project_get_unique_client_name w p a =
     (case cl_class (clients w a) of
        None \<Rightarrow> Inl Null_deref
      | Some class \<Rightarrow>
          if project_get_client_by_name w p class = None then
            bindr (sprintf_into (length class + 4) class) (\<lambda>str. Inr (Some str))
          else try_suffixes w p class [1..<100])"

definition project_name_client :: "addr \<Rightarrow> addr \<Rightarrow> world \<Rightarrow> world res" where
  "project_name_client p a w =
     bindr (project_get_unique_client_name w p a) (\<lambda>n.
       let name = (case n of Some s \<Rightarrow> s | None \<Rightarrow> lash_strdup (Some ''''))
       in Inr (upd_client a (\<lambda>c. c\<lparr>cl_name := Some name\<rparr>) w))"

definition project_set_modified_status :: "addr \<Rightarrow> bool \<Rightarrow> world \<Rightarrow> world" where
  "project_set_modified_status p new_status w =
     (if p_modified_status (projects w p) = new_status then w
      else emit (Project_modified_status_changed (p_name (projects w p)) new_status)
             (upd_project p (\<lambda>x. x\<lparr>p_modified_status := new_status\<rparr>) w))"

definition project_new_client :: "env \<Rightarrow> addr \<Rightarrow> addr \<Rightarrow> world \<Rightarrow> world res" where
  "project_new_client E p a w =
     (let u = new_uuids w 0;
          id_str = uuid_unparse (e_uuids E) u;
          path = project_get_client_dir (projects w p) id_str;
          w1 = upd_client a (\<lambda>c. c\<lparr>cl_id := u, cl_id_str := id_str, cl_data_path := Some path\<rparr>)
                 (w\<lparr>new_uuids := (\<lambda>n. new_uuids w (Suc n))\<rparr>);
          w2 = (if CLIENT_CONFIG_DATA_SET (clients w1 a)
                then fst (client_store_open a (project_get_client_config_dir (projects w1 p) id_str) w1) else w1);
          w3 = upd_project p (\<lambda>x. x\<lparr>p_clients := a # p_clients x\<rparr>)
                 (upd_client a (\<lambda>c. c\<lparr>cl_project := Some p\<rparr>) w2);
          w4 = w3\<lparr>disk := lash_create_dir (disk w3) path\<rparr>
      in bindr (project_name_client p a w4) (\<lambda>w5.
           let w6 = project_set_modified_status p True w5
           in Inr (emit (Client_appeared (cl_id_str (clients w6 a)) (p_name (projects w6 p))
                (cl_name (clients w6 a))) w6)))"

section \<open>Restoring clients\<close>

fun satisfy_loop :: "uuid \<Rightarrow> addr list \<Rightarrow> world \<Rightarrow> world res" where
  "satisfy_loop u [] w = Inr w"
| "satisfy_loop u (l # ls) w =
     (if cl_unsatisfied_deps (clients w l) = [] then satisfy_loop u ls w
      else
        (let w1 = upd_client l (\<lambda>c. c\<lparr>cl_unsatisfied_deps :=
                    client_dependency_remove (cl_unsatisfied_deps c) u\<rparr>) w
         in if cl_unsatisfied_deps (clients w1 l) = [] then
              bindr (project_launch_client l w1) (satisfy_loop u ls)
            else satisfy_loop u ls w1))"

definition project_satisfy_client_dependency :: "addr \<Rightarrow> addr \<Rightarrow> world \<Rightarrow> world res" where
  "project_satisfy_client_dependency p a w =
     satisfy_loop (cl_id (clients w a)) (p_lost_clients (projects w p)) w"

definition project_load_file :: "addr \<Rightarrow> world \<Rightarrow> world" where
  "project_load_file a w =
     (let w1 = w\<lparr>task_iter := task_iter w + 1\<rparr>;
          w2 = upd_client a (\<lambda>c. c\<lparr>cl_pending_task := task_iter w1, cl_task_type := LASH_Restore_File,
                 cl_task_progress := 0\<rparr>) w1
      in emit (Load_call (cl_dbus_name (clients w2 a)) (cl_pending_task (clients w2 a))
                (cl_data_path (clients w2 a))) w2)"

definition project_load_data_set :: "env \<Rightarrow> addr \<Rightarrow> addr \<Rightarrow> world \<Rightarrow> world" where
  "project_load_data_set E p a w =
     (let (w1, opened) = client_store_open a
            (project_get_client_config_dir (projects w p) (cl_id_str (clients w a))) w
      in if \<not> opened then w1
         else (case cl_store (clients w1 a) of
             None \<Rightarrow> w1
           | Some st \<Rightarrow>
               if st_keys st = [] then w1
               else if \<not> e_call_ok E then w1
               else
                 (let task_id = task_iter w1 + 1;
                      w2 = w1\<lparr>task_iter := task_id\<rparr>;
                      (configs, ok) = store_create_config_array (e_accept E) (disk w2) st
                  in if \<not> ok then w2
                     else if \<not> e_send_ok E then w2
                     else upd_client a (\<lambda>c. c\<lparr>cl_pending_task := task_id,
                              cl_task_type := LASH_Restore_Data_Set, cl_task_progress := 0\<rparr>)
                            (emit (Load_data_set_call (cl_dbus_name (clients w2 a)) task_id configs) w2))))"

section \<open>Moving\<close>

definition close_stores :: "addr list \<Rightarrow> world \<Rightarrow> world" where
  "close_stores as w = foldl (\<lambda>w a. fst (client_store_close a w)) w as"

definition open_stores :: "addr \<Rightarrow> addr list \<Rightarrow> world \<Rightarrow> world" where
  "open_stores p as w =
     foldl (\<lambda>w a. fst (client_store_open a
       (project_get_client_config_dir (projects w p) (cl_id_str (clients w a))) w)) w as"

definition project_move :: "addr \<Rightarrow> string \<Rightarrow> world \<Rightarrow> world res" where
  "project_move p new_dir w =
     (if new_dir = [] then Inr w
      else (case p_directory (projects w p) of
          None \<Rightarrow> Inl Null_deref
        | Some dir \<Rightarrow>
            if new_dir = dir then Inr w
            else (case posix_opendir (disk w) new_dir of
                Inr _ \<Rightarrow> Inr w
              | Inl ENOTDIR \<Rightarrow> Inr w
              | Inl _ \<Rightarrow>
                  (let as = p_clients (projects w p); w1 = close_stores as w
                   in (case posix_rename_dir (disk w1) dir new_dir of
                       Inl _ \<Rightarrow> Inr w1
                     | Inr d \<Rightarrow>
                         (let w2 = upd_project p (\<lambda>x. x\<lparr>p_directory := Some new_dir\<rparr>) (w1\<lparr>disk := d\<rparr>);
                              w3 = emit (Project_path_changed (p_name (projects w2 p)) (Some new_dir)) w2
                          in Inr (open_stores p as w3)))))))"

section \<open>Saving\<close>

fun start_save :: "addr \<Rightarrow> addr list \<Rightarrow> world \<Rightarrow> world" where
  "start_save p [] w = w"
| "start_save p (a # as) w =
     (if CLIENT_HAS_INTERNAL_STATE (clients w a) then
        start_save p as
          (upd_project p (\<lambda>x. x\<lparr>p_tasks_total := p_tasks_total x + 1\<rparr>)
            (upd_client a (\<lambda>c. c\<lparr>cl_pending_task := task_iter w,
               cl_task_type := (if CLIENT_CONFIG_FILE c then LASH_Save_File else LASH_Save_Data_Set),
               cl_task_progress := 0\<rparr>) w))
      else start_save p as w)"

definition project_save_clients :: "addr \<Rightarrow> world \<Rightarrow> world" where
  "project_save_clients p w =
     (if \<exists>a \<in> set (p_clients (projects w p)). cl_pending_task (clients w a) \<noteq> 0 then w
      else
        (let w1 = upd_project p (\<lambda>x. x\<lparr>p_task_type := Task_save, p_tasks_total := 0, p_tasks_progress := 0\<rparr>) w;
             w2 = w1\<lparr>task_iter := task_iter w1 + 1\<rparr>;
             w3 = emit (Save_signal (p_name (projects w2 p)) (task_iter w2)) w2;
             w4 = start_save p (p_clients (projects w3 p)) w3;
             w5 = upd_project p (\<lambda>x. x\<lparr>p_tasks_pending := p_tasks_total x\<rparr>) w4
         in if p_tasks_total (projects w5 p) = 0 then upd_project p (\<lambda>x. x\<lparr>p_task_type := No_task\<rparr>) w5 else w5))"

text \<open>The patches of a client as XML; nothing when the manager cannot tell them.\<close>

definition project_create_client_jack_patch_xml :: "env \<Rightarrow> addr \<Rightarrow> world \<Rightarrow> (world \<times> xml list) res" where
  "project_create_client_jack_patch_xml E a w =
     bindr (get_client_patches (e_uuids E) (jackdbus w) (cl_id (clients w a))) (\<lambda>(m, patches, ok).
       Inr (w\<lparr>jackdbus := m\<rparr>,
            if ok then [Elem ''jack_patch_set'' None (map (jack_patch_create_xml (e_uuids E)) patches)] else []))"

definition project_create_client_dependencies_xml :: "env \<Rightarrow> lash_client \<Rightarrow> xml" where
  "project_create_client_dependencies_xml E c =
     Elem ''dependencies'' None (map (\<lambda>d. leaf ''id'' (Some (uuid_unparse (e_uuids E) d))) (cl_dependencies c))"

definition client_fields_xml :: "lash_client \<Rightarrow> xml list" where
  "client_fields_xml c =
     [leaf ''class'' (cl_class c), leaf ''id'' (Some (cl_id_str c)), leaf ''name'' (cl_name c),
      leaf ''flags'' (Some (show_d (cl_flags c))), leaf ''working_directory'' (cl_working_dir c),
      Elem ''arg_set'' None (map (\<lambda>s. leaf ''arg'' (Some s)) (cl_argv c))]"

fun clients_xml :: "env \<Rightarrow> addr list \<Rightarrow> world \<Rightarrow> (world \<times> xml list) res" where
  "clients_xml E [] w = Inr (w, [])"
| "clients_xml E (a # as) w =
     (let c = clients w a in
      bindr (if cl_jack_client_name c \<noteq> None then project_create_client_jack_patch_xml E a w else Inr (w, []))
        (\<lambda>(w1, jack).
          let deps = (if cl_dependencies c \<noteq> [] then [project_create_client_dependencies_xml E c] else [])
          in bindr (clients_xml E as w1) (\<lambda>(w2, rest).
               Inr (w2, Elem ''client'' None (client_fields_xml c @ jack @ deps) # rest))))"

definition project_create_xml :: "env \<Rightarrow> addr \<Rightarrow> world \<Rightarrow> (world \<times> xml) res" where
  "project_create_xml E p w =
     bindr (clients_xml E (p_clients (projects w p)) w) (\<lambda>(w1, cs).
       Inr (w1, Elem ''lash_project'' None
         ([leaf ''version'' (Some ''1.0''), leaf ''name'' (p_name (projects w p)),
           leaf ''description'' (p_description (projects w p))] @ cs)))"

definition project_write_info :: "env \<Rightarrow> addr \<Rightarrow> world \<Rightarrow> (world \<times> bool) res" where
  "project_write_info E p w =
     bindr (project_create_xml E p w) (\<lambda>(w1, doc).
       let w2 = upd_project p (\<lambda>x. x\<lparr>p_doc := Some doc\<rparr>) w1;
           filename = under (p_directory (projects w2 p)) PROJECT_INFO_FILE
       in (case posix_write_file (disk w2) filename (e_xml_save E doc) of
             Inl _ \<Rightarrow> Inr (w2, False)
           | Inr d \<Rightarrow> Inr (w2\<lparr>disk := d\<rparr>, True)))"

definition project_clear_lost_clients :: "addr \<Rightarrow> world \<Rightarrow> world" where
  "project_clear_lost_clients p w =
     (let d = foldl (\<lambda>d a. if lash_dir_exists d (cl_data_path (clients w a))
                           then lash_remove_dir d (lash_strdup (cl_data_path (clients w a))) else d)
                (disk w) (p_lost_clients (projects w p))
      in upd_project p (\<lambda>x. x\<lparr>p_lost_clients := []\<rparr>) (w\<lparr>disk := d\<rparr>))"

definition project_load_notes :: "addr \<Rightarrow> world \<Rightarrow> world" where
  "project_load_notes p w =
     (case lash_read_text_file (disk w) (under (p_directory (projects w p)) PROJECT_NOTES_FILE) of
        None \<Rightarrow> w
      | Some data \<Rightarrow> upd_project p (\<lambda>x. x\<lparr>p_notes := data\<rparr>) w)"

definition project_save_notes :: "addr \<Rightarrow> world \<Rightarrow> world \<times> bool" where
  "project_save_notes p w =
     (let notes = p_notes (projects w p) in
      (case posix_write_file (disk w) (under (p_directory (projects w p)) PROJECT_NOTES_FILE)
              (case notes of Some s \<Rightarrow> s | None \<Rightarrow> '''') of
         Inl _ \<Rightarrow> (w, False)
       | Inr d \<Rightarrow> (w\<lparr>disk := d\<rparr>, notes \<noteq> Some '''')))"

definition project_clients_save_complete :: "env \<Rightarrow> addr \<Rightarrow> world \<Rightarrow> world res" where
  "project_clients_save_complete E p w =
     bindr (project_write_info E p w) (\<lambda>(w1, success).
       Inr (project_set_modified_status p False
         (emit (Project_saved (p_name (projects w1 p))) (emit (Progress 100) w1))))"

definition project_loaded :: "addr \<Rightarrow> world \<Rightarrow> world" where
  "project_loaded p w =
     project_set_modified_status p False
       (emit (Project_loaded (p_name (projects w p))) (emit (Progress 100) w))"

definition project_save :: "env \<Rightarrow> addr \<Rightarrow> world \<Rightarrow> world res" where
  "project_save E p w =
     (if p_task_type (projects w p) \<noteq> No_task then Inr w
      else
        (let w1 = emit (Progress 0) w;
             w2 = (if p \<in> set (all_projects w1) then w1 else w1\<lparr>all_projects := all_projects w1 @ [p]\<rparr>);
             w3 = (if lash_dir_exists (disk w2) (p_directory (projects w2 p)) then w2
                   else w2\<lparr>disk := lash_create_dir (disk w2) (lash_strdup (p_directory (projects w2 p)))\<rparr>);
             w4 = project_save_clients p w3;
             w5 = w4\<lparr>jackdbus := get_graph (e_graph E) (jackdbus w4)\<rparr>;
             w6 = fst (project_save_notes p w5);
             w7 = project_clear_lost_clients p w6
         in if p_tasks_total (projects w7 p) = 0 then project_clients_save_complete E p w7 else Inr w7))"

section \<open>Progress of a task\<close>

definition project_client_progress :: "addr \<Rightarrow> addr \<Rightarrow> u8 \<Rightarrow> world \<Rightarrow> world" where
  "project_client_progress p a percentage w =
     (let old = cl_task_progress (clients w a);
          w1 = (if old \<noteq> 0 then upd_project p (\<lambda>x. x\<lparr>p_tasks_progress := p_tasks_progress x - ucast old\<rparr>) w else w);
          w2 = upd_project p (\<lambda>x. x\<lparr>p_tasks_progress := p_tasks_progress x + ucast percentage\<rparr>) w1;
          w3 = upd_client a (\<lambda>c. c\<lparr>cl_task_progress := percentage\<rparr>) w2
      in if p_tasks_total (projects w3 p) = 0 then w3
         else
           (let pr = ucast (p_tasks_progress (projects w3 p) div p_tasks_total (projects w3 p)) :: u8
            in emit (Progress (if pr > 99 then 99 else pr)) w3))"

definition project_client_task_completed :: "env \<Rightarrow> addr \<Rightarrow> addr \<Rightarrow> world \<Rightarrow> world res" where
  "project_client_task_completed E p a w =
     (let w1 = project_client_progress p a 100 w in
      if p_tasks_pending (projects w1 p) = 0 then Inr w1
      else
        (let w2 = upd_project p (\<lambda>x. x\<lparr>p_tasks_pending := p_tasks_pending x - 1\<rparr>) w1 in
         if p_tasks_pending (projects w2 p) \<noteq> 0 then Inr w2
         else
           (let w3 = upd_project p (\<lambda>x. x\<lparr>p_task_type := No_task, p_tasks_total := 0, p_tasks_progress := 0\<rparr>) w2
            in (case cl_task_type (clients w3 a) of
                  LASH_Save_Data_Set \<Rightarrow> project_clients_save_complete E p w3
                | LASH_Save_File \<Rightarrow> project_clients_save_complete E p w3
                | LASH_Restore_File \<Rightarrow> Inr (project_loaded p w3)
                | LASH_Restore_Data_Set \<Rightarrow> Inr (project_loaded p w3)
                | _ \<Rightarrow> Inr w3))))"

section \<open>Client names\<close>

definition client_names :: "world \<Rightarrow> addr \<Rightarrow> string set" where
  "client_names w p = {n. \<exists>c \<in> set (clients_of w p @ lost_clients_of w p). cl_name c = Some n}"

lemma client_find_by_name_None: "client_find_by_name cs n = None \<longleftrightarrow> (\<forall>c \<in> set cs. cl_name c \<noteq> Some n)"
  by (simp add: client_find_by_name_def first_index_None)

lemma get_client_by_name_None: "project_get_client_by_name w p n = None \<longleftrightarrow> n \<notin> client_names w p"
proof (cases "client_find_by_name (clients_of w p) n")
  case None
  then show ?thesis
    using client_find_by_name_None [of "clients_of w p" n] client_find_by_name_None [of "lost_clients_of w p" n]
    by (auto simp: project_get_client_by_name_def client_names_def)
next
  case (Some i)
  then have "\<not> (\<forall>c \<in> set (clients_of w p). cl_name c \<noteq> Some n)"
    using client_find_by_name_None [of "clients_of w p" n] by simp
  with Some show ?thesis by (auto simp: project_get_client_by_name_def client_names_def)
qed

lemma suffix_fits: "i < 100 \<Longrightarrow> sprintf_into (length class + 4) (class @ '' '' @ show_02u i) = Inr (class @ '' '' @ show_02u i)"
  by (rule sprintf_into_fits) (simp add: length_show_02u)

lemma try_suffixes_exact:
  "\<forall>i \<in> set js. i < 100 \<Longrightarrow> try_suffixes w p class js =
     Inr (map_option (\<lambda>i. class @ '' '' @ show_02u i)
       (List.find (\<lambda>i. class @ '' '' @ show_02u i \<notin> client_names w p) js))"
proof (induction js)
  case (Cons i js)
  then show ?case using suffix_fits [of i "class"] by (simp add: get_client_by_name_None)
qed simp

text \<open>The names the search tries, in order: the class, then the class with a suffix 01 to 99.\<close>

definition candidate_names :: "string \<Rightarrow> string list" where
  "candidate_names class = class # map (\<lambda>i. class @ '' '' @ show_02u i) [1..<100]"

lemma find_map: "List.find P (map f xs) = map_option f (List.find (\<lambda>x. P (f x)) xs)"
  by (induction xs) simp_all

lemma unique_name_exact:
  "cl_class (clients w a) = Some class \<Longrightarrow> project_get_unique_client_name w p a =
     Inr (List.find (\<lambda>n. n \<notin> client_names w p) (candidate_names class))"
  by (simp add: project_get_unique_client_name_def get_client_by_name_None candidate_names_def
      try_suffixes_exact find_map)

lemma distinct_candidates: "distinct (candidate_names class)"
  by (auto simp: candidate_names_def distinct_map inj_on_def dest: show_02u_inj)

text \<open>The name a client gets is never the name of another client of the project, and the buffer it
  is formatted into is never overrun; a client is left without a name only when the class and
  all its 99 numbered variants are taken, that is with at least 100 named clients.\<close>

theorem project_get_unique_client_name_free:
  assumes "cl_class (clients w a) = Some class"
  shows "\<exists>r. project_get_unique_client_name w p a = Inr r \<and>
     (case r of Some n \<Rightarrow> n \<notin> client_names w p \<and> n \<in> set (candidate_names class)
      | None \<Rightarrow> set (candidate_names class) \<subseteq> client_names w p
          \<and> 100 \<le> length (p_clients (projects w p)) + length (p_lost_clients (projects w p)))"
proof (cases "List.find (\<lambda>n. n \<notin> client_names w p) (candidate_names class)")
  case (Some n)
  then have "n \<notin> client_names w p" "n \<in> set (candidate_names class)" by (auto simp: find_Some_iff)
  with Some show ?thesis by (simp add: unique_name_exact [OF assms])
next
  case None
  let ?cs = "clients_of w p @ lost_clients_of w p"
  have sub: "set (candidate_names class) \<subseteq> client_names w p" using None by (auto simp: find_None_iff)
  also have "client_names w p = (\<lambda>c. the (cl_name c)) ` {c \<in> set ?cs. cl_name c \<noteq> None}"
    unfolding client_names_def by (auto simp: image_iff) force+
  finally have "card (set (candidate_names class)) \<le> card ((\<lambda>c. the (cl_name c)) ` {c \<in> set ?cs. cl_name c \<noteq> None})"
    by (intro card_mono) simp_all
  also have "\<dots> \<le> card {c \<in> set ?cs. cl_name c \<noteq> None}" by (rule card_image_le) simp
  also have "\<dots> \<le> card (set ?cs)" by (intro card_mono) auto
  also have "\<dots> \<le> length ?cs" by (rule card_length)
  finally have "100 \<le> length ?cs"
    by (simp add: distinct_card [OF distinct_candidates]) (simp add: candidate_names_def)
  with None sub show ?thesis
    by (simp add: unique_name_exact [OF assms] clients_of_def lost_clients_of_def)
qed

lemma project_get_unique_client_name_free_witness:
  "\<exists>r. project_get_unique_client_name example_world 0 2 = Inr r \<and>
     (case r of Some n \<Rightarrow> n \<notin> client_names example_world 0 \<and> n \<in> set (candidate_names ''synth'')
      | None \<Rightarrow> set (candidate_names ''synth'') \<subseteq> client_names example_world 0
          \<and> 100 \<le> length (p_clients (projects example_world 0)) + length (p_lost_clients (projects example_world 0)))"
  by (rule project_get_unique_client_name_free) (simp add: example_world_def)

section \<open>What leaves the lists of projects and clients alone\<close>

lemma links_loader_execute [link_simps]: "loader_execute a t w = Inr w' \<Longrightarrow> links w' = links w"
  by (auto simp: loader_execute_def Let_def split: list.splits option.splits)

lemma links_launch [link_simps]: "project_launch_client a w = Inr w' \<Longrightarrow> links w' = links w"
  by (simp add: project_launch_client_def links_loader_execute)

lemma links_store_open [link_simps]: "links (fst (client_store_open a dir w)) = links w"
  by (simp add: client_store_open_def Let_def split: prod.split option.split)

lemma links_store_close [link_simps]: "links (fst (client_store_close a w)) = links w"
  by (simp add: client_store_close_def Let_def split: prod.split option.split)

lemma links_name_client [link_simps]: "project_name_client p a w = Inr w' \<Longrightarrow> links w' = links w"
  by (auto simp: project_name_client_def Let_def bindr_Inr_iff)

lemma links_modified [link_simps]: "links (project_set_modified_status p b w) = links w"
  by (simp add: project_set_modified_status_def)

lemma links_satisfy_loop [link_simps]: "satisfy_loop u ls w = Inr w' \<Longrightarrow> links w' = links w"
proof (induction u ls w rule: satisfy_loop.induct)
  case (2 u l ls w)
  let ?w1 = "upd_client l (\<lambda>c. c\<lparr>cl_unsatisfied_deps :=
                    client_dependency_remove (cl_unsatisfied_deps c) u\<rparr>) w"
  have links: "links ?w1 = links w" by simp
  show ?case
  proof (cases "cl_unsatisfied_deps (clients w l) = []")
    case True
    then show ?thesis using 2 by simp
  next
    case unsat: False
    show ?thesis
    proof (cases "cl_unsatisfied_deps (clients ?w1 l) = []")
      case True
      then obtain w2 where "project_launch_client l ?w1 = Inr w2" "satisfy_loop u ls w2 = Inr w'"
        using 2(4) unsat by (auto simp: Let_def bindr_Inr_iff)
      note w2 = this
      have "links w' = links w2" by (rule 2(2) [OF unsat refl True w2])
      then show ?thesis using links_launch [OF w2(1)] links by simp
    next
      case False
      then show ?thesis using 2(3) [OF unsat refl False] 2(4) unsat links by (simp add: Let_def)
    qed
  qed
qed simp

lemma links_satisfy [link_simps]: "project_satisfy_client_dependency p a w = Inr w' \<Longrightarrow> links w' = links w"
  by (simp add: project_satisfy_client_dependency_def links_satisfy_loop)

lemma links_load_file [link_simps]: "links (project_load_file a w) = links w"
  by (simp add: project_load_file_def Let_def)

lemma links_load_data_set [link_simps]: "links (project_load_data_set E p a w) = links w"
proof -
  obtain w1 ok where opened: "client_store_open a
      (project_get_client_config_dir (projects w p) (cl_id_str (clients w a))) w = (w1, ok)" by force
  then have "links w1 = links w" using links_store_open by (metis fst_conv)
  then show ?thesis
    by (simp add: project_load_data_set_def opened Let_def split: prod.split option.split)
qed

lemma links_close_stores [link_simps]: "links (close_stores as w) = links w"
  unfolding close_stores_def by (induction "as" arbitrary: w) (simp_all add: links_store_close)

lemma links_open_stores [link_simps]: "links (open_stores p as w) = links w"
  unfolding open_stores_def by (induction "as" arbitrary: w) (simp_all add: links_store_open)

lemma links_move [link_simps]: "project_move p d w = Inr w' \<Longrightarrow> links w' = links w"
proof -
  have upd: "links (emit e (upd_project p (\<lambda>x. x\<lparr>p_directory := z\<rparr>) (w1\<lparr>disk := k\<rparr>))) = links w1" for e z w1 k
    by simp
  show "project_move p d w = Inr w' \<Longrightarrow> links w' = links w"
    by (auto simp: project_move_def Let_def links_open_stores links_close_stores upd
        split: if_splits option.splits sum.splits errno.splits)
qed

end
