(* ===== verification/Restore.thy ===== *)
theory Restore
  imports Project
begin

text \<open>
  Reading projects back (\<open>client_parse_xml\<close> of \<^verbatim>\<open>lashd/client.c\<close>; \<open>project_load\<close>,
  \<open>project_new_from_disk\<close> of \<^verbatim>\<open>lashd/project.c\<close>), losing a client, unloading a project and
  the small operations on its names and texts.
\<close>

section \<open>Clients from XML\<close>

fun parse_args :: "env \<Rightarrow> xml list \<Rightarrow> string list" where
  "parse_args E [] = []"
| "parse_args E (n # ns) =
     (if xname n = ''arg'' then get_content (e_content E) n # parse_args E ns else parse_args E ns)"

fun parse_jack_patches :: "env \<Rightarrow> xml list \<Rightarrow> jack_patch list res" where
  "parse_jack_patches E [] = Inr []"
| "parse_jack_patches E (n # ns) =
     (if xname n = ''jack_patch'' then
        bindr (jack_patch_parse_xml (e_uuids E) (e_content E) jack_patch_new n) (\<lambda>p.
        bindr (parse_jack_patches E ns) (\<lambda>ps. Inr (p # ps)))
      else parse_jack_patches E ns)"

fun parse_dependencies :: "env \<Rightarrow> lash_client list \<Rightarrow> lash_client \<Rightarrow> xml list \<Rightarrow> lash_client res" where
  "parse_dependencies E cs c [] = Inr c"
| "parse_dependencies E cs c (n # ns) =
     (if xname n = ''id'' then
        (case uuid_parse (e_uuids E) (get_content (e_content E) n) of
           None \<Rightarrow> parse_dependencies E cs c ns
         | Some u \<Rightarrow> bindr (client_dependency_add cs c u) (\<lambda>c'. parse_dependencies E cs c' ns))
      else parse_dependencies E cs c ns)"

text \<open>\<open>cs\<close> are the lost clients of the project at the time of the call.\<close>

definition client_parse_node :: "env \<Rightarrow> lash_client list \<Rightarrow> lash_client \<Rightarrow> xml \<Rightarrow> lash_client res" where
  "client_parse_node E cs c node =
     (let content = get_content (e_content E) node in
      if xname node = ''class'' then Inr (c\<lparr>cl_class := Some content\<rparr>)
      else if xname node = ''id'' then
        (let u = (case uuid_parse (e_uuids E) content of Some v \<Rightarrow> v | None \<Rightarrow> cl_id c)
         in Inr (c\<lparr>cl_id := u, cl_id_str := uuid_unparse (e_uuids E) u\<rparr>))
      else if xname node = ''name'' then Inr (c\<lparr>cl_name := Some content\<rparr>)
      else if xname node = ''flags'' then Inr (c\<lparr>cl_flags := ucast (strtoul10 content)\<rparr>)
      else if xname node = ''working_directory'' then Inr (c\<lparr>cl_working_dir := Some content\<rparr>)
      else if xname node = ''arg_set'' then Inr (c\<lparr>cl_argv := cl_argv c @ parse_args E (xkids node)\<rparr>)
      else if xname node = ''jack_patch_set'' then
        bindr (parse_jack_patches E (xkids node)) (\<lambda>ps. Inr (c\<lparr>cl_jack_patches := cl_jack_patches c @ ps\<rparr>))
      else if xname node = ''dependencies'' then parse_dependencies E cs c (xkids node)
      else Inr c)"

fun client_parse_nodes :: "env \<Rightarrow> lash_client list \<Rightarrow> lash_client \<Rightarrow> xml list \<Rightarrow> lash_client res" where
  "client_parse_nodes E cs c [] = Inr c"
| "client_parse_nodes E cs c (n # ns) = bindr (client_parse_node E cs c n) (\<lambda>c'. client_parse_nodes E cs c' ns)"

definition client_parse_xml :: "env \<Rightarrow> lash_client list \<Rightarrow> lash_client \<Rightarrow> xml \<Rightarrow> lash_client res" where
  "client_parse_xml E cs c parent = client_parse_nodes E cs c (xkids parent)"

section \<open>Unloading\<close>

text \<open>Removing the running clients from the JACK manager.\<close>

definition unload_jack :: "addr list \<Rightarrow> world \<Rightarrow> world" where
  "unload_jack as w =
     foldl (\<lambda>w a. if cl_jack_client_name (clients w a) \<noteq> None
                  then w\<lparr>jackdbus := fst (jackdbus_mgr_remove_client (jackdbus w) (cl_id (clients w a)))\<rparr> else w)
       w as"

definition project_unload :: "addr \<Rightarrow> world \<Rightarrow> world res" where
  "project_unload p w =
     (let w1 = w\<lparr>loaded_projects := del p (loaded_projects w)\<rparr>;
          w2 = emit (Quit_signal (p_name (projects w1 p))) w1;
          w3 = unload_jack (p_clients (projects w2 p)) w2;
          w4 = upd_project p (\<lambda>x. x\<lparr>p_clients := [], p_lost_clients := []\<rparr>) w3
      in bindr (if p_move_on_close (projects w4 p) then
                  (case p_name (projects w4 p) of
                     None \<Rightarrow> Inl Null_deref
                   | Some name \<Rightarrow> project_move p (projects_dir w4 @ slash #
                       map (\<lambda>c. if c = slash then CHR '' '' else c) name) w4)
                else Inr w4) (\<lambda>w5.
           if p_doc (projects w5 p) = None \<and> lash_dir_exists (disk w5) (p_directory (projects w5 p))
           then Inr (w5\<lparr>disk := lash_remove_dir (disk w5) (lash_strdup (p_directory (projects w5 p)))\<rparr>)
           else Inr w5))"

definition project_is_loaded :: "addr \<Rightarrow> world \<Rightarrow> bool" where
  "project_is_loaded p w \<longleftrightarrow> p \<in> set (loaded_projects w)"

definition project_destroy :: "addr \<Rightarrow> world \<Rightarrow> world res" where
  "project_destroy p w = (if project_is_loaded p w then project_unload p w else Inr w)"

section \<open>Loading\<close>

fun load_nodes :: "env \<Rightarrow> addr \<Rightarrow> xml list \<Rightarrow> world \<Rightarrow> world res" where
  "load_nodes E p [] w = Inr w"
| "load_nodes E p (n # ns) w =
     (if xname n = ''version'' then load_nodes E p ns w
      else if xname n = ''name'' then
        load_nodes E p ns (upd_project p (\<lambda>x. x\<lparr>p_name := Some (get_content (e_content E) n)\<rparr>) w)
      else if xname n = ''client'' then
        bindr (client_parse_xml E (lost_clients_of w p) (client_new\<lparr>cl_project := Some p\<rparr>) n) (\<lambda>c.
          let a = next_client w in
          load_nodes E p ns
            (upd_project p (\<lambda>x. x\<lparr>p_lost_clients := a # p_lost_clients x\<rparr>)
              (upd_client a (\<lambda>_. c) (w\<lparr>next_client := a + 1\<rparr>))))
      else load_nodes E p ns w)"

definition project_load :: "env \<Rightarrow> addr \<Rightarrow> world \<Rightarrow> (world \<times> bool) res" where
  "project_load E p w =
     (case p_doc (projects w p) of
        None \<Rightarrow> Inl Null_deref
      | Some root \<Rightarrow>
          if xname root \<noteq> ''lash_project'' then Inr (w, False)
          else bindr (load_nodes E p (xkids root) w) (\<lambda>w1.
            if p_name (projects w1 p) = None then bindr (project_unload p w1) (\<lambda>w2. Inr (w2, False))
            else Inr (upd_project p (\<lambda>x. x\<lparr>p_modified_status := False\<rparr>) (project_load_notes p w1), True)))"

fun header_nodes :: "env \<Rightarrow> xml list \<Rightarrow> project \<Rightarrow> project" where
  "header_nodes E [] x = x"
| "header_nodes E (n # ns) x =
     (if xname n = ''version'' then header_nodes E ns x
      else if xname n = ''name'' then header_nodes E ns (x\<lparr>p_name := Some (get_content (e_content E) n)\<rparr>)
      else if xname n = ''description'' then
        header_nodes E ns (x\<lparr>p_description := Some (get_content (e_content E) n)\<rparr>)
      else header_nodes E ns x)"

text \<open>The project read, or none; a failure frees the structure and leaves the state as it was.\<close>

definition project_new_from_disk :: "env \<Rightarrow> fs \<Rightarrow> string \<Rightarrow> string \<Rightarrow> project option" where
  "project_new_from_disk E d parent_dir project_dir =
     (let dir = lash_dup_fqn parent_dir project_dir;
          x = project_new\<lparr>p_name := Some (lash_strdup (Some project_dir)), p_directory := Some dir\<rparr> in
      (case posix_stat d dir of Inl _ \<Rightarrow> None
       | Inr _ \<Rightarrow>
          (let filename = lash_dup_fqn dir PROJECT_INFO_FILE in
           if \<not> lash_file_exists d filename then None
           else (case posix_read_file d filename of Inl _ \<Rightarrow> None
             | Inr text \<Rightarrow> (case e_xml_parse E text of None \<Rightarrow> None
                | Some root \<Rightarrow>
                    if xname root \<noteq> ''lash_project'' then None
                    else (let y = header_nodes E (xkids root) (x\<lparr>p_doc := Some root\<rparr>)
                          in if p_name y = None then None else Some y))))))"

section \<open>Losing a client\<close>

definition remove_if_empty :: "fs \<Rightarrow> cstr \<Rightarrow> fs" where
  "remove_if_empty d dir =
     (if lash_dir_exists d dir \<and> lash_dir_empty d (lash_strdup dir) then lash_remove_dir d (lash_strdup dir) else d)"

definition lose_store :: "addr \<Rightarrow> world \<Rightarrow> world" where
  "lose_store a w =
     (if CLIENT_CONFIG_DATA_SET (clients w a) then
        (case cl_store (clients w a) of
           None \<Rightarrow> w
         | Some st \<Rightarrow>
             if st_keys st \<noteq> [] then
               (let (d, st', ok) = store_write (disk w) st
                in upd_client a (\<lambda>c. c\<lparr>cl_store := Some st'\<rparr>) (w\<lparr>disk := d\<rparr>))
             else if lash_dir_exists (disk w) (st_dir st)
             then w\<lparr>disk := lash_remove_dir (disk w) (lash_strdup (st_dir st))\<rparr> else w)
      else w)"

definition lose_dirs :: "addr \<Rightarrow> addr \<Rightarrow> world \<Rightarrow> world" where
  "lose_dirs p a w =
     (if CLIENT_CONFIG_DATA_SET (clients w a) \<or> CLIENT_CONFIG_FILE (clients w a) then
        (let d1 = remove_if_empty (disk w) (cl_data_path (clients w a));
             d2 = remove_if_empty d1 (Some (under (p_directory (projects w p)) PROJECT_ID_DIR))
         in w\<lparr>disk := d2\<rparr>)
      else w)"

definition lose_jack :: "addr \<Rightarrow> world \<Rightarrow> world" where
  "lose_jack a w =
     (if cl_jack_client_name (clients w a) \<noteq> None then
        (let (m, backup) = jackdbus_mgr_remove_client (jackdbus w) (cl_id (clients w a)); w1 = w\<lparr>jackdbus := m\<rparr>
         in (case backup of None \<Rightarrow> w1
             | Some ps \<Rightarrow> upd_client a (\<lambda>c. c\<lparr>cl_jack_patches := ps @ cl_jack_patches c\<rparr>) w1))
      else w)"

definition project_lose_client :: "addr \<Rightarrow> addr \<Rightarrow> world \<Rightarrow> world" where
  "project_lose_client p a w =
     (let w1 = lose_jack a (lose_dirs p a (lose_store a w));
          w2 = upd_client a (\<lambda>c. c\<lparr>cl_pid := 0, cl_project := Some p\<rparr>) w1;
          w3 = upd_project p (\<lambda>x. x\<lparr>p_lost_clients := a # p_lost_clients x\<rparr>) w2;
          w4 = project_set_modified_status p True w3
      in emit (Client_disappeared (cl_id_str (clients w4 a)) (p_name (projects w4 p))) w4)"

section \<open>Names and texts\<close>

definition project_rename :: "addr \<Rightarrow> string \<Rightarrow> world \<Rightarrow> world res" where
  "project_rename p new_name w =
     (case p_name (projects w p) of
        None \<Rightarrow> Inl Null_deref
      | Some old_name \<Rightarrow>
          (let w1 = upd_project p (\<lambda>x. x\<lparr>p_move_on_close := (p_move_on_close x \<or> old_name \<noteq> new_name),
                      p_name := Some (lash_strdup (Some new_name))\<rparr>) w;
               w2 = emit (Project_name_changed (Some old_name) (Some new_name)) w1
           in Inr (project_set_modified_status p True w2)))"

definition project_set_description :: "addr \<Rightarrow> cstr \<Rightarrow> world \<Rightarrow> world" where
  "project_set_description p description w =
     (let w1 = upd_project p (\<lambda>x. x\<lparr>p_description := description\<rparr>) w
      in project_set_modified_status p True
           (emit (Project_description_changed (p_name (projects w1 p)) description) w1))"

definition project_set_notes :: "addr \<Rightarrow> cstr \<Rightarrow> world \<Rightarrow> world" where
  "project_set_notes p notes w =
     (let w1 = upd_project p (\<lambda>x. x\<lparr>p_notes := notes\<rparr>) w
      in project_set_modified_status p True (emit (Project_notes_changed (p_name (projects w1 p)) notes) w1))"

definition project_rename_client :: "addr \<Rightarrow> string \<Rightarrow> world \<Rightarrow> world res" where
  "project_rename_client a name w =
     (case cl_name (clients w a) of
        None \<Rightarrow> Inl Null_deref
      | Some old \<Rightarrow>
          if old = name then Inr w
          else (let w1 = upd_client a (\<lambda>c. c\<lparr>cl_name := Some name\<rparr>) w
                in Inr (emit (Client_name_changed (cl_id_str (clients w1 a)) (cl_name (clients w1 a))) w1)))"

definition project_clear_id_dir :: "addr \<Rightarrow> world \<Rightarrow> world" where
  "project_clear_id_dir p w =
     (let dir = under (p_directory (projects w p)) PROJECT_ID_DIR
      in if lash_dir_exists (disk w) (Some dir) then w\<lparr>disk := lash_remove_dir (disk w) dir\<rparr> else w)"

end
