(* ===== verification/Client.thy ===== *)
theory Client
  imports Restore
begin

text \<open>
  The handlers of \<^verbatim>\<open>lashd/client.c\<close>: a client's progress through a task, its restoration and
  its disconnection; and the binding of JACK clients to LASH clients of
  \<^verbatim>\<open>lashd/jackdbus_mgr.c\<close>.
\<close>

section \<open>Tasks\<close>

definition reset_task :: "addr \<Rightarrow> world \<Rightarrow> world" where
  "reset_task a w = upd_client a (\<lambda>c. c\<lparr>cl_pending_task := 0, cl_task_type := LASH_Event_Unknown,
     cl_task_progress := 0\<rparr>) w"

definition mark_saved :: "addr \<Rightarrow> world \<Rightarrow> world" where
  "mark_saved a w = upd_client a (\<lambda>c. c\<lparr>cl_flags := cl_flags c OR LASH_Saved\<rparr>) w"

definition write_client_store :: "addr \<Rightarrow> world \<Rightarrow> (world \<times> bool) res" where
  "write_client_store a w =
     (case cl_store (clients w a) of
        None \<Rightarrow> Inl Null_deref
      | Some st \<Rightarrow>
          (let (d, st', ok) = store_write (disk w) st
           in Inr (upd_client a (\<lambda>c. c\<lparr>cl_store := Some st'\<rparr>) (w\<lparr>disk := d\<rparr>), ok)))"

text \<open>What the task type asks for; \<open>None\<close> for an unknown type, which ends the handler.\<close>

definition finish_task :: "addr \<Rightarrow> addr \<Rightarrow> bool \<Rightarrow> world \<Rightarrow> world option res" where
  "finish_task p a was_successful w =
     (case cl_task_type (clients w a) of
        LASH_Save_Data_Set \<Rightarrow>
          if was_successful then
            bindr (write_client_store a w) (\<lambda>(w1, ok). Inr (Some (if ok then mark_saved a w1 else w1)))
          else Inr (Some w)
      | LASH_Save_File \<Rightarrow> Inr (Some (if was_successful then mark_saved a w else w))
      | LASH_Restore_File \<Rightarrow>
          if was_successful then bindr (project_satisfy_client_dependency p a w) (\<lambda>w1. Inr (Some w1))
          else Inr (Some w)
      | LASH_Restore_Data_Set \<Rightarrow>
          if was_successful then bindr (project_satisfy_client_dependency p a w) (\<lambda>w1. Inr (Some w1))
          else Inr (Some w)
      | _ \<Rightarrow> Inr None)"

definition client_task_completed :: "env \<Rightarrow> addr \<Rightarrow> bool \<Rightarrow> world \<Rightarrow> world res" where
  "client_task_completed E a was_successful w =
     (case cl_project (clients w a) of
        None \<Rightarrow> Inr (reset_task a w)
      | Some p \<Rightarrow>
          bindr (finish_task p a was_successful w) (\<lambda>r.
            case r of
              None \<Rightarrow> Inr (reset_task a w)
            | Some w1 \<Rightarrow> bindr (project_client_task_completed E p a w1) (\<lambda>w2. Inr (reset_task a w2))))"

definition client_task_progressed :: "env \<Rightarrow> addr \<Rightarrow> u8 \<Rightarrow> world \<Rightarrow> world res" where
  "client_task_progressed E a percentage w =
     (case cl_project (clients w a) of
        None \<Rightarrow> Inr w
      | Some p \<Rightarrow>
          if percentage = 0 then client_task_completed E a False w
          else if percentage = 255 then client_task_completed E a True w
          else if percentage \<le> cl_task_progress (clients w a) then Inr w
          else Inr (project_client_progress p a (if percentage > 99 then 99 else percentage) w))"

section \<open>Restoring and disconnecting\<close>

definition client_resume_project :: "env \<Rightarrow> addr \<Rightarrow> world \<Rightarrow> world res" where
  "client_resume_project E a w =
     (case cl_project (clients w a) of
        None \<Rightarrow> Inl Null_deref
      | Some p \<Rightarrow>
          (let w1 = (if cl_data_path (clients w a) = None \<or> cl_data_path (clients w a) = Some ''''
                     then upd_client a (\<lambda>c. c\<lparr>cl_data_path :=
                            Some (project_get_client_dir (projects w p) (cl_id_str c))\<rparr>) w else w);
               c1 = clients w1 a;
               w2 = (if CLIENT_CONFIG_FILE c1 \<or> CLIENT_CONFIG_DATA_SET c1
                     then w1\<lparr>disk := lash_create_dir (disk w1) (lash_strdup (cl_data_path c1))\<rparr> else w1);
               w3 = unlink_client p a w2;
               c3 = clients w3 a;
               (w4, stateless_client) =
                 (if CLIENT_SAVED c3 then
                    (if CLIENT_CONFIG_FILE c3 then (project_load_file a w3, False)
                     else if CLIENT_CONFIG_DATA_SET c3 then (project_load_data_set E p a w3, False)
                     else (w3, True))
                  else (w3, True));
               w5 = upd_project p (\<lambda>x. x\<lparr>p_clients := a # p_clients x\<rparr>) w4
           in bindr (if cl_name (clients w5 a) = None \<or> cl_name (clients w5 a) = Some ''''
                     then project_name_client p a w5 else Inr w5) (\<lambda>w6.
              let w7 = emit (Client_appeared (cl_id_str (clients w6 a)) (p_name (projects w6 p))
                         (cl_name (clients w6 a))) w6
              in if stateless_client then
                   bindr (project_client_task_completed E p a
                            (upd_client a (\<lambda>c. c\<lparr>cl_task_type := LASH_Restore_Data_Set\<rparr>) w7)) (\<lambda>w8.
                     Inr (upd_client a (\<lambda>c. c\<lparr>cl_task_type := LASH_Event_Unknown\<rparr>) w8))
                 else Inr w7)))"

text \<open>A client without a project is in no list of a project, and is freed.\<close>

definition client_disconnected :: "addr option \<Rightarrow> world \<Rightarrow> world" where
  "client_disconnected ao w =
     (case ao of
        None \<Rightarrow> w
      | Some a \<Rightarrow>
          (case cl_project (clients w a) of
             None \<Rightarrow> emit (Client_disappeared (cl_id_str (clients w a)) (Some '''')) w
           | Some p \<Rightarrow> project_lose_client p a (unlink_client p a w)))"

definition client_maybe_fill_class :: "addr \<Rightarrow> world \<Rightarrow> world res" where
  "client_maybe_fill_class a w =
     (case cl_class (clients w a) of
        Some _ \<Rightarrow> Inr w
      | None \<Rightarrow>
          (case cl_jack_client_name (clients w a) of
             None \<Rightarrow> Inr w
           | Some name \<Rightarrow>
               if name = '''' then Inr w
               else project_rename_client a name (upd_client a (\<lambda>c. c\<lparr>cl_class := Some name\<rparr>) w)))"

section \<open>Binding JACK clients\<close>

text \<open>
  The JACK client is a value that has been taken out of the list it was in; \<open>connects\<close> are
  the requests to restore its connections.
\<close>

definition lashd_jackdbus_mgr_bind_client :: "env \<Rightarrow> jack_mgr_client \<Rightarrow> addr \<Rightarrow> world \<Rightarrow> world res" where
  "lashd_jackdbus_mgr_bind_client E jc a w =
     (let c = clients w a; old = cl_jack_patches c in
      bindr (jack_mgr_client_dup_patch_list (e_uuids E) old (jc_backup_patches jc)) (\<lambda>backup.
        let jc1 = jc\<lparr>jc_id := cl_id c, jc_old_patches := old, jc_backup_patches := backup\<rparr>;
            w1 = upd_client a (\<lambda>c. c\<lparr>cl_jack_patches := []\<rparr>) w;
            m1 = (jackdbus w1)\<lparr>jm_clients := jm_clients (jackdbus w1) @ [jc1]\<rparr>;
            m2 = get_graph (e_graph E) m1
        in bindr (get_client_data m2 (length (jm_clients (jackdbus w1)))) (\<lambda>(m3, connects, ok).
             let w2 = foldl (\<lambda>w cn. emit (Connect_ports cn) w) (w1\<lparr>jackdbus := m3\<rparr>) connects;
                 w3 = upd_client a (\<lambda>c. c\<lparr>cl_jack_client_name := jc_name jc1\<rparr>) w2
             in client_maybe_fill_class a w3)))"

end
