(* ===== verification/Dbus.thy ===== *)
theory Dbus
  imports Prelude
begin

text \<open>
  The D-Bus helpers of \<^verbatim>\<open>dbus/\<close>: values and the dictionary entries of data sets (\<^verbatim>\<open>method.c\<close>),
  descriptions of interfaces and the introspection document made of them (\<^verbatim>\<open>interface.h\<close>,
  \<^verbatim>\<open>introspection.c\<close>), and the way from a method call to its handler (\<^verbatim>\<open>object_path.c\<close>,
  \<^verbatim>\<open>interface.c\<close>). libdbus itself is modelled by what the code sees of it: typed values,
  messages with a member, an interface, a sender and a list of arguments. Memory suffices.
\<close>

section \<open>Values\<close>

text \<open>
  A \<open>double\<close> is its eight bytes in memory; an array carries the signature of its elements; a
  dictionary is an array of entries.
\<close>

datatype dval =
    DByte u8
  | DBool bool
  | DInt32 u32
  | DUint32 u32
  | DUint64 u64
  | DDouble string
  | DString string
  | DVariant dval
  | DArray string "dval list"
  | DStruct "dval list"
  | DEntry dval dval

fun dbus_type :: "dval \<Rightarrow> char" where
  "dbus_type (DByte _) = CHR ''y''"
| "dbus_type (DBool _) = CHR ''b''"
| "dbus_type (DInt32 _) = CHR ''i''"
| "dbus_type (DUint32 _) = CHR ''u''"
| "dbus_type (DUint64 _) = CHR ''t''"
| "dbus_type (DDouble _) = CHR ''d''"
| "dbus_type (DString _) = CHR ''s''"
| "dbus_type (DVariant _) = CHR ''v''"
| "dbus_type (DArray _ _) = CHR ''a''"
| "dbus_type (DStruct _) = CHR ''r''"
| "dbus_type (DEntry _ _) = CHR ''e''"

text \<open>Numbers in memory, on a little-endian machine.\<close>

fun nat_bytes :: "nat \<Rightarrow> nat \<Rightarrow> string" where
  "nat_bytes 0 n = []"
| "nat_bytes (Suc k) n = char_of (n mod 256) # nat_bytes k (n div 256)"

fun bytes_nat :: "string \<Rightarrow> nat" where
  "bytes_nat [] = 0"
| "bytes_nat (c # cs) = of_char c + 256 * bytes_nat cs"

lemma length_nat_bytes [simp]: "length (nat_bytes k n) = k"
  by (induction k arbitrary: n) simp_all

lemma of_char_less: "of_char c < (256 :: nat)"
  by (metis of_char_mod_256 mod_less_divisor zero_less_numeral)

lemma bytes_nat_less: "bytes_nat cs < 256 ^ length cs"
proof (induction cs)
  case (Cons c cs)
  have "of_char c + 256 * bytes_nat cs < 256 * (bytes_nat cs + 1)" using of_char_less [of c] by simp
  also have "\<dots> \<le> 256 * 256 ^ length cs" using Cons by (intro mult_le_mono) simp_all
  finally show ?case by simp
qed simp

lemma nat_bytes_inverse: "nat_bytes (length cs) (bytes_nat cs) = cs"
proof (induction cs)
  case (Cons c cs)
  then show ?case using of_char_less [of c] by simp
qed simp

lemma bytes_nat_inverse: "n < 256 ^ k \<Longrightarrow> bytes_nat (nat_bytes k n) = n"
proof (induction k arbitrary: n)
  case (Suc k)
  then have "n div 256 < 256 ^ k" by (simp add: less_mult_imp_div_less mult.commute)
  then show ?case using Suc by simp
qed simp

definition u32_bytes :: "u32 \<Rightarrow> string" where
  "u32_bytes w = nat_bytes 4 (unat w)"

definition bytes_u32 :: "string \<Rightarrow> u32" where
  "bytes_u32 b = word_of_nat (bytes_nat b)"

lemma length_u32_bytes [simp]: "length (u32_bytes w) = 4"
  by (simp add: u32_bytes_def)

lemma u32_bytes_inverse: "length b = 4 \<Longrightarrow> u32_bytes (bytes_u32 b) = b"
proof -
  assume b: "length b = 4"
  then have "bytes_nat b < 2 ^ 32" using bytes_nat_less [of b] by simp
  then have "unat (word_of_nat (bytes_nat b) :: u32) = bytes_nat b"
    by (simp add: unat_of_nat take_bit_nat_eq_self)
  then show ?thesis using nat_bytes_inverse [of b] b by (simp add: u32_bytes_def bytes_u32_def)
qed

lemma bytes_u32_inverse: "bytes_u32 (u32_bytes w) = w"
proof -
  have "unat w < 256 ^ 4" using unsigned_less [of w, where ?'a = nat] by simp
  then show ?thesis by (simp add: bytes_u32_def u32_bytes_def bytes_nat_inverse)
qed

section \<open>Dictionary entries\<close>

text \<open>
  A value as the C code passes it: the type character and the bytes the pointer leads to (the
  characters of a string). Other types cannot be appended.
\<close>

definition basic_value :: "char \<Rightarrow> string \<Rightarrow> dval option" where
  "basic_value ty v =
     (if ty = CHR ''d'' then Some (DDouble v)
      else if ty = CHR ''u'' then Some (DUint32 (bytes_u32 v))
      else if ty = CHR ''s'' then Some (DString v) else None)"

definition method_iter_append_variant :: "char \<Rightarrow> string \<Rightarrow> dval option" where
  "method_iter_append_variant ty v = map_option DVariant (basic_value ty v)"

definition method_iter_append_variant_raw :: "string \<Rightarrow> nat \<Rightarrow> dval" where
  "method_iter_append_variant_raw buf len =
     DVariant (DArray ''y'' (map (\<lambda>c. DByte (of_char c)) (take len buf)))"

text \<open>The entry that is appended to the array.\<close>

definition method_iter_append_dict_entry :: "char \<Rightarrow> string \<Rightarrow> string \<Rightarrow> nat \<Rightarrow> dval option" where
  "method_iter_append_dict_entry ty key v len =
     (if ty = CHR ''-'' then Some (DEntry (DString key) (method_iter_append_variant_raw v len))
      else map_option (DEntry (DString key)) (method_iter_append_variant ty v))"

fun dbyte :: "dval \<Rightarrow> string" where
  "dbyte (DByte b) = [char_of (unat b)]"
| "dbyte _ = []"

fun value_bytes :: "dval \<Rightarrow> string" where
  "value_bytes (DDouble b) = b"
| "value_bytes (DUint32 w) = u32_bytes w"
| "value_bytes (DString s) = s"
| "value_bytes (DArray _ xs) = concat (map dbyte xs)"
| "value_bytes _ = []"

text \<open>The key, the type and the value of the entry the iterator points to, if it is one.\<close>

definition method_iter_get_dict_entry :: "dval option \<Rightarrow> (string \<times> char \<times> string) option" where
  "method_iter_get_dict_entry it =
     (case it of
        Some (DEntry (DString key) (DVariant v)) \<Rightarrow>
          (case v of
             DArray sig _ \<Rightarrow> if sig \<noteq> ''y'' then None else Some (key, CHR ''-'', value_bytes v)
           | _ \<Rightarrow> Some (key, dbus_type v, value_bytes v))
      | _ \<Rightarrow> None)"

text \<open>The values a call for arguments of the given types gets, and the rest of the arguments.\<close>

fun method_iter_get_args :: "char list \<Rightarrow> dval list \<Rightarrow> (dval list \<times> dval list) option" where
  "method_iter_get_args [] vs = Some ([], vs)"
| "method_iter_get_args (t # ts) [] = None"
| "method_iter_get_args (t # ts) (v # vs) =
     (if dbus_type v \<noteq> t then None
      else map_option (\<lambda>(xs, rest). (v # xs, rest)) (method_iter_get_args ts vs))"

lemma bytes_of_chars: "concat (map (dbyte \<circ> (\<lambda>c. DByte (of_char c))) cs) = cs"
proof (induction cs)
  case (Cons c cs)
  have "unat (of_char c :: u8) = unat (word_of_nat (of_char c) :: u8)" by (simp only: of_nat_of_char)
  also have "\<dots> = of_char c"
    using of_char_less [of c] by (simp add: unat_of_nat take_bit_nat_eq_self)
  finally show ?case using Cons by simp
qed simp

text \<open>The values of a data set travel unchanged: what one side appends to a message as an entry
  of one of the four configuration types is what the other side gets from it.\<close>

theorem dict_entry_roundtrip:
  assumes "ty \<in> {CHR ''d'', CHR ''u'', CHR ''s'', CHR ''-''}" "ty = CHR ''u'' \<Longrightarrow> length v = 4"
    and "ty = CHR ''-'' \<Longrightarrow> len = length v"
  shows "\<exists>e. method_iter_append_dict_entry ty key v len = Some e
     \<and> method_iter_get_dict_entry (Some e) = Some (key, ty, v)"
  using assms
  by (auto simp: method_iter_append_dict_entry_def method_iter_append_variant_def basic_value_def
      method_iter_get_dict_entry_def method_iter_append_variant_raw_def bytes_of_chars u32_bytes_inverse)

lemma dict_entry_roundtrip_witness:
  "\<exists>e. method_iter_append_dict_entry (CHR ''-'') ''k'' [CHR 0x00, CHR ''a'', CHR 0xFF] 3 = Some e
     \<and> method_iter_get_dict_entry (Some e) = Some (''k'', CHR ''-'', [CHR 0x00, CHR ''a'', CHR 0xFF])"
  by (rule dict_entry_roundtrip) simp_all

section \<open>Descriptions\<close>

datatype direction = DIRECTION_OUT | DIRECTION_IN

type_synonym method_arg = "string \<times> string \<times> direction"
type_synonym signal_arg = "string \<times> string"

text \<open>\<open>'h\<close> is the type of handlers; the methods of an interface end at the first without a name.\<close>

record 'h method_desc =
  m_name :: string
  m_handler :: "'h option"
  m_args :: "method_arg list"

record signal_desc =
  s_name :: string
  s_args :: "signal_arg list"

text \<open>
  The handler of an interface is \<open>interface_default_handler\<close>, or \<open>introspection_handler\<close> for
  the interface of the introspection.
\<close>

record 'h interface =
  i_name :: string
  i_introspects :: bool
  i_methods :: "'h method_desc list"
  i_signals :: "signal_desc list"

definition g_dbus_interface_dtor_introspectable :: "'h interface" where
  "g_dbus_interface_dtor_introspectable =
     \<lparr>i_name = ''org.freedesktop.DBus.Introspectable'', i_introspects = True,
      i_methods = [\<lparr>m_name = ''Introspect'', m_handler = None, m_args = [(''xml_data'', ''s'', DIRECTION_OUT)]\<rparr>],
      i_signals = []\<rparr>"

section \<open>The introspection document\<close>

definition quoted :: "string \<Rightarrow> string" where
  "quoted s = CHR 0x22 # s @ [CHR 0x22]"

definition method_arg_xml :: "method_arg \<Rightarrow> string" where
  "method_arg_xml a =
     (case a of (n, t, d) \<Rightarrow> ''      <arg name='' @ quoted n @ '' type='' @ quoted t @ '' direction='' @
        quoted (if d = DIRECTION_IN then ''in'' else ''out'') @ '' />'' @ [newline])"

definition method_xml :: "'h method_desc \<Rightarrow> string" where
  "method_xml m = ''    <method name='' @ quoted (m_name m) @ ''>'' @ [newline] @
     concat (map method_arg_xml (m_args m)) @ ''    </method>'' @ [newline]"

definition signal_arg_xml :: "signal_arg \<Rightarrow> string" where
  "signal_arg_xml a =
     (case a of (n, t) \<Rightarrow> ''      <arg name='' @ quoted n @ '' type='' @ quoted t @ '' />'' @ [newline])"

definition signal_xml :: "signal_desc \<Rightarrow> string" where
  "signal_xml s = ''    <signal name='' @ quoted (s_name s) @ ''>'' @ [newline] @
     concat (map signal_arg_xml (s_args s)) @ ''    </signal>'' @ [newline]"

definition interface_xml :: "'h interface \<Rightarrow> string" where
  "interface_xml i = ''  <interface name='' @ quoted (i_name i) @ ''>'' @ [newline] @
     concat (map method_xml (i_methods i)) @ concat (map signal_xml (i_signals i)) @ ''  </interface>'' @ [newline]"

text \<open>The block has 16384 bytes; every \<open>sprintf\<close> goes on where the one before it stopped.\<close>

definition introspection_new :: "string \<Rightarrow> 'h interface list \<Rightarrow> string res" where
  "introspection_new path is =
     sprintf_into 16384
       (''<!DOCTYPE node PUBLIC '' @ quoted ''-//freedesktop//DTD D-BUS Object Introspection 1.0//EN'' @ [newline] @
        '' '' @ quoted ''http://www.freedesktop.org/standards/dbus/1.0/introspect.dtd'' @ ''>'' @ [newline] @
        ''<node name='' @ quoted path @ ''>'' @ [newline] @ concat (map interface_xml is) @ ''</node>'')"

record 'h object_path =
  op_name :: string
  op_interfaces :: "'h interface list"
  op_introspection :: string

text \<open>No object path for invalid arguments; the given interfaces come after the introspection's.\<close>

definition object_path_new :: "cstr \<Rightarrow> 'h interface list \<Rightarrow> 'h object_path option res" where
  "object_path_new name is =
     (case name of
        None \<Rightarrow> Inr None
      | Some n \<Rightarrow>
          if n = [] \<or> is = [] then Inr None
          else (let all = g_dbus_interface_dtor_introspectable # is in
            bindr (introspection_new n all) (\<lambda>doc.
              Inr (Some \<lparr>op_name = n, op_interfaces = all, op_introspection = doc\<rparr>))))"

text \<open>A bound on the length of the document, from the tables.\<close>

definition args_length :: "method_arg list \<Rightarrow> nat" where
  "args_length as = (\<Sum>(n, t, d) \<leftarrow> as. length n + length t + 48)"

lemma length_method_xml: "length (method_xml m) \<le> 2 * length (m_name m) + 40 + args_length (m_args m)"
proof -
  have "length (concat (map method_arg_xml as)) \<le> args_length as" for as
    by (induction as) (auto simp: args_length_def method_arg_xml_def quoted_def split: prod.split)
  from this [of "m_args m"] show ?thesis by (simp add: method_xml_def quoted_def)
qed

definition sig_args_length :: "signal_arg list \<Rightarrow> nat" where
  "sig_args_length as = (\<Sum>(n, t) \<leftarrow> as. length n + length t + 30)"

lemma length_signal_xml: "length (signal_xml s) \<le> length (s_name s) + 40 + sig_args_length (s_args s)"
proof -
  have "length (concat (map signal_arg_xml as)) \<le> sig_args_length as" for as
    by (induction as) (auto simp: sig_args_length_def signal_arg_xml_def quoted_def split: prod.split)
  from this [of "s_args s"] show ?thesis by (simp add: signal_xml_def quoted_def)
qed

definition methods_length :: "'h method_desc list \<Rightarrow> nat" where
  "methods_length ms = (\<Sum>m \<leftarrow> ms. 2 * length (m_name m) + 40 + args_length (m_args m))"

definition signals_length :: "signal_desc list \<Rightarrow> nat" where
  "signals_length ss = (\<Sum>s \<leftarrow> ss. length (s_name s) + 40 + sig_args_length (s_args s))"

lemma length_interface_xml:
  "length (interface_xml i) \<le> length (i_name i) + 40 + methods_length (i_methods i) + signals_length (i_signals i)"
proof -
  have "length (concat (map method_xml ms)) \<le> methods_length ms" for ms :: "'a method_desc list"
    by (induction ms) (use length_method_xml in \<open>force simp: methods_length_def intro: add_mono\<close>)+
  moreover have "length (concat (map signal_xml ss)) \<le> signals_length ss" for ss
    by (induction ss) (use length_signal_xml in \<open>force simp: signals_length_def intro: add_mono\<close>)+
  ultimately have "length (concat (map method_xml (i_methods i))) \<le> methods_length (i_methods i)"
    "length (concat (map signal_xml (i_signals i))) \<le> signals_length (i_signals i)" by blast+
  then show ?thesis by (simp add: interface_xml_def quoted_def)
qed

section \<open>From a message to its handler\<close>

datatype dbus_error =
    Error_generic | Error_invalid_args | Error_unknown_client | Error_invalid_task
  | Error_unknown_project | Error_invalid_client_id | Error_unknown_method | Error_unfinished_task

datatype reply = No_reply | Error_reply dbus_error | Method_return "dval list"

datatype message_type = Message_method_call | Message_method_return | Message_error | Message_signal

record message =
  msg_type :: message_type
  msg_interface :: cstr
  msg_member :: cstr
  msg_sender :: cstr
  msg_args :: "dval list"

type_synonym 's handler = "message \<Rightarrow> 's \<Rightarrow> ('s \<times> reply) res"

text \<open>A handler that built no reply answers with an empty one; \<open>None\<close> when no method has the name.\<close>

definition run_method :: "'s handler option \<Rightarrow> message \<Rightarrow> 's \<Rightarrow> ('s \<times> reply) res" where
  "run_method h msg s =
     (case h of
        None \<Rightarrow> Inr (s, Error_reply Error_generic)
      | Some f \<Rightarrow> bindr (f msg s) (\<lambda>(s1, r). Inr (s1, if r = No_reply then Method_return [] else r)))"

fun interface_default_handler :: "'s handler method_desc list \<Rightarrow> string \<Rightarrow> message \<Rightarrow> 's \<Rightarrow> ('s \<times> reply) res option" where
  "interface_default_handler [] name msg s = None"
| "interface_default_handler (m # ms) name msg s =
     (if name = m_name m then Some (run_method (m_handler m) msg s) else interface_default_handler ms name msg s)"

definition introspection_handler :: "string \<Rightarrow> string \<Rightarrow> 's \<Rightarrow> ('s \<times> reply) res option" where
  "introspection_handler doc name s =
     (if name = ''Introspect'' then Some (Inr (s, Method_return [DString doc])) else None)"

definition interface_handler :: "string \<Rightarrow> 's handler interface \<Rightarrow> string \<Rightarrow> message \<Rightarrow> 's \<Rightarrow> ('s \<times> reply) res option" where
  "interface_handler doc i name msg s =
     (if i_introspects i then introspection_handler doc name s else interface_default_handler (i_methods i) name msg s)"

text \<open>With an interface in the message only the first one of that name is tried.\<close>

fun try_named :: "string \<Rightarrow> 's handler interface list \<Rightarrow> string \<Rightarrow> string \<Rightarrow> message \<Rightarrow> 's \<Rightarrow> ('s \<times> reply) res option" where
  "try_named doc [] iname name msg s = None"
| "try_named doc (i # is) iname name msg s =
     (if iname = i_name i then interface_handler doc i name msg s else try_named doc is iname name msg s)"

fun try_all :: "string \<Rightarrow> 's handler interface list \<Rightarrow> string \<Rightarrow> message \<Rightarrow> 's \<Rightarrow> ('s \<times> reply) res option" where
  "try_all doc [] name msg s = None"
| "try_all doc (i # is) name msg s =
     (case interface_handler doc i name msg s of Some r \<Rightarrow> Some r | None \<Rightarrow> try_all doc is name msg s)"

text \<open>
  The state and the message sent back, if any. Without a member the code reports the error
  through a call structure nothing has filled in.
\<close>

definition object_path_handler :: "'s handler object_path \<Rightarrow> message \<Rightarrow> 's \<Rightarrow> ('s \<times> reply option) res" where
  "object_path_handler path msg s =
     (if msg_type msg \<noteq> Message_method_call then Inr (s, None)
      else (case msg_member msg of
          None \<Rightarrow> Inl Dangling
        | Some name \<Rightarrow>
            bindr (case (case msg_interface msg of
                      Some iname \<Rightarrow> try_named (op_introspection path) (op_interfaces path) iname name msg s
                    | None \<Rightarrow> try_all (op_introspection path) (op_interfaces path) name msg s) of
                Some r \<Rightarrow> r
              | None \<Rightarrow> Inr (s, Error_reply Error_unknown_method))
              (\<lambda>(s1, r). Inr (s1, Some (if r = No_reply then Method_return [] else r)))))"

text \<open>
  What the handler is to do, in terms of the tables: the interfaces a message may mean, the
  first of them that has the method, and the answer.
\<close>

definition meant :: "'h interface list \<Rightarrow> message \<Rightarrow> 'h interface list" where
  "meant is msg =
     (case msg_interface msg of
        None \<Rightarrow> is
      | Some n \<Rightarrow> (case List.find (\<lambda>i. i_name i = n) is of None \<Rightarrow> [] | Some i \<Rightarrow> [i]))"

definition offers :: "string \<Rightarrow> 'h interface \<Rightarrow> bool" where
  "offers name i \<longleftrightarrow> (if i_introspects i then name = ''Introspect'' else name \<in> m_name ` set (i_methods i))"

definition answer :: "string \<Rightarrow> 's handler interface \<Rightarrow> string \<Rightarrow> message \<Rightarrow> 's \<Rightarrow> ('s \<times> reply) res" where
  "answer doc i name msg s =
     (if i_introspects i then Inr (s, Method_return [DString doc])
      else (case List.find (\<lambda>m. m_name m = name) (i_methods i) of
          None \<Rightarrow> Inr (s, Error_reply Error_unknown_method)
        | Some m \<Rightarrow> run_method (m_handler m) msg s))"

lemma default_handler_find:
  "interface_default_handler ms name msg s =
     map_option (\<lambda>m. run_method (m_handler m) msg s) (List.find (\<lambda>m. m_name m = name) ms)"
  by (induction ms) auto

lemma interface_handler_answer:
  "interface_handler doc i name msg s = (if offers name i then Some (answer doc i name msg s) else None)"
proof (cases "i_introspects i")
  case False
  then show ?thesis
    by (cases "List.find (\<lambda>m. m_name m = name) (i_methods i)")
      (auto simp: interface_handler_def default_handler_find offers_def answer_def find_None_set dest!: find_Some_set)
qed (simp add: interface_handler_def introspection_handler_def offers_def answer_def)

lemma try_named_find:
  "try_named doc is iname name msg s =
     (case List.find (\<lambda>i. i_name i = iname) is of None \<Rightarrow> None | Some i \<Rightarrow> interface_handler doc i name msg s)"
  by (induction "is") auto

lemma try_all_find:
  "try_all doc is name msg s = map_option (\<lambda>i. answer doc i name msg s) (List.find (offers name) is)"
  by (induction "is") (simp_all add: interface_handler_answer)

lemma answer_replies: "answer doc i name msg s = Inr (s1, r) \<Longrightarrow> r \<noteq> No_reply"
  by (auto simp: answer_def run_method_def bindr_Inr_iff split: if_split_asm option.split_asm)

lemma handler_target:
  assumes "msg_type msg = Message_method_call" "msg_member msg = Some name"
  shows "object_path_handler path msg s =
    (case List.find (offers name) (meant (op_interfaces path) msg) of
       None \<Rightarrow> Inr (s, Some (Error_reply Error_unknown_method))
     | Some i \<Rightarrow> bindr (answer (op_introspection path) i name msg s) (\<lambda>(s1, r). Inr (s1, Some r)))"
proof -
  have strip: "bindr (answer doc i name msg s) (\<lambda>(s1, r). Inr (s1, Some (if r = No_reply then Method_return [] else r)))
      = bindr (answer doc i name msg s) (\<lambda>(s1, r). Inr (s1, Some r))" for doc i
    by (rule bindr_cong) (auto dest: answer_replies)
  show ?thesis
    using assms
    by (cases "msg_interface msg"; cases "List.find (\<lambda>i. i_name i = the (msg_interface msg)) (op_interfaces path)";
        cases "List.find (offers name) (op_interfaces path)")
      (simp_all add: object_path_handler_def meant_def try_named_find try_all_find interface_handler_answer strip)
qed

text \<open>C12. Dispatch follows the tables: a method call runs, once, the handler that the first interface
  it may mean registers under the member's name (any interface that has the method when the
  message names none), its answer is sent, an empty one when the handler built none, and a
  call that no interface takes leaves the state alone and is answered with an error.\<close>

theorem object_path_handler_dispatches:
  assumes "msg_type msg = Message_method_call" "msg_member msg = Some name"
  shows "object_path_handler path msg s =
    (case List.find (offers name) (meant (op_interfaces path) msg) of
       None \<Rightarrow> Inr (s, Some (Error_reply Error_unknown_method))
     | Some i \<Rightarrow> bindr (answer (op_introspection path) i name msg s) (\<lambda>(s1, r). Inr (s1, Some r)))"
  by (rule handler_target [OF assms])

lemma object_path_handler_dispatches_witness:
  "object_path_handler
      \<lparr>op_name = ''/'', op_interfaces = [g_dbus_interface_dtor_introspectable,
         \<lparr>i_name = ''a'', i_introspects = False,
          i_methods = [\<lparr>m_name = ''Inc'', m_handler = Some (\<lambda>m n. Inr (Suc n, No_reply)), m_args = []\<rparr>], i_signals = []\<rparr>],
       op_introspection = ''doc''\<rparr>
      \<lparr>msg_type = Message_method_call, msg_interface = None, msg_member = Some ''Inc'', msg_sender = None, msg_args = []\<rparr>
      (4 :: nat) = Inr (5, Some (Method_return []))"
  by (subst object_path_handler_dispatches [where name = "''Inc''"])
    (simp_all add: meant_def offers_def answer_def run_method_def g_dbus_interface_dtor_introspectable_def)

section \<open>Objects whose methods keep an invariant\<close>

locale served_object =
  fixes path :: "'s handler object_path"
    and inv :: "'s \<Rightarrow> bool"
  assumes handlers_keep: "i \<in> set (op_interfaces path) \<Longrightarrow> m \<in> set (i_methods i) \<Longrightarrow> m_handler m = Some f \<Longrightarrow>
      inv s \<Longrightarrow> f msg s = Inr (s', r) \<Longrightarrow> inv s'"
begin

lemma answer_keeps:
  assumes "i \<in> set (op_interfaces path)" "inv s" "answer doc i name msg s = Inr (s', r)"
  shows "inv s'"
proof (cases "i_introspects i")
  case False
  show ?thesis
  proof (cases "List.find (\<lambda>m. m_name m = name) (i_methods i)")
    case (Some m)
    then have m: "m \<in> set (i_methods i)" by (auto dest: find_Some_set)
    have run: "run_method (m_handler m) msg s = Inr (s', r)" using assms(3) False Some by (simp add: answer_def)
    show ?thesis
    proof (cases "m_handler m")
      case (Some f)
      then obtain r' where "f msg s = Inr (s', r')" using run by (auto simp: run_method_def bindr_Inr_iff)
      then show ?thesis using handlers_keep [OF assms(1) m Some assms(2)] by blast
    qed (use run assms in \<open>simp add: run_method_def\<close>)
  qed (use assms False in \<open>simp add: answer_def\<close>)
qed (use assms in \<open>simp add: answer_def\<close>)

lemma handler_keeps:
  assumes "inv s" "object_path_handler path msg s = Inr (s', r)"
  shows "inv s'"
proof (cases "msg_type msg = Message_method_call")
  case True
  then obtain name where name: "msg_member msg = Some name"
    using assms(2) by (auto simp: object_path_handler_def split: option.split_asm)
  show ?thesis
  proof (cases "List.find (offers name) (meant (op_interfaces path) msg)")
    case (Some i)
    then have "i \<in> set (op_interfaces path)"
      by (auto simp: meant_def split: option.split_asm if_split_asm dest!: find_Some_set)
    moreover obtain r' where "answer (op_introspection path) i name msg s = Inr (s', r')"
      using assms(2) Some by (auto simp: handler_target [OF True name] bindr_Inr_iff)
    ultimately show ?thesis using answer_keeps assms(1) by blast
  qed (use assms in \<open>simp add: handler_target [OF True name]\<close>)
qed (use assms in \<open>simp add: object_path_handler_def\<close>)

end


text \<open>Objects whose methods also return for every message the bus lets through.\<close>

locale answering_object = served_object +
  fixes good :: "message \<Rightarrow> bool"
  assumes handlers_return: "i \<in> set (op_interfaces path) \<Longrightarrow> m \<in> set (i_methods i) \<Longrightarrow> m_handler m = Some f \<Longrightarrow>
      inv s \<Longrightarrow> good msg \<Longrightarrow> \<exists>y. f msg s = Inr y"
begin

lemma answer_returns:
  assumes "i \<in> set (op_interfaces path)" "inv s" "good msg"
  shows "\<exists>y. answer doc i name msg s = Inr y"
proof (cases "i_introspects i")
  case False
  show ?thesis
  proof (cases "List.find (\<lambda>m. m_name m = name) (i_methods i)")
    case (Some m)
    then have m: "m \<in> set (i_methods i)" by (auto dest: find_Some_set)
    then show ?thesis
      using handlers_return [OF assms(1) m _ assms(2,3)] False Some
      by (cases "m_handler m") (force simp: answer_def run_method_def)+
  qed (use False in \<open>simp add: answer_def\<close>)
qed (simp add: answer_def)

lemma handler_returns:
  assumes "inv s" "good msg" "msg_type msg = Message_method_call \<Longrightarrow> msg_member msg \<noteq> None"
  shows "\<exists>s' r. object_path_handler path msg s = Inr (s', r) \<and> inv s'"
proof -
  have "\<exists>s' r. object_path_handler path msg s = Inr (s', r)"
  proof (cases "msg_type msg = Message_method_call")
    case True
    then obtain name where name: "msg_member msg = Some name" using assms(3) by auto
    show ?thesis
    proof (cases "List.find (offers name) (meant (op_interfaces path) msg)")
      case (Some i)
      then have "i \<in> set (op_interfaces path)"
        by (auto simp: meant_def split: option.split_asm if_split_asm dest!: find_Some_set)
      then obtain s1 r1 where "answer (op_introspection path) i name msg s = Inr (s1, r1)"
        using answer_returns assms(1,2) by (metis surj_pair)
      then show ?thesis using Some by (simp add: handler_target [OF True name])
    qed (simp add: handler_target [OF True name])
  qed (simp add: object_path_handler_def)
  then show ?thesis using handler_keeps assms(1) by blast
qed

end

end
