(* ===== verification/Server.thy ===== *)
theory Server
  imports Client Dbus
begin

text \<open>
  \<^verbatim>\<open>lashd/server.c\<close>: the loaded and the available projects, names for new ones, adding clients
  and restoring projects; the D-Bus methods clients call (\<^verbatim>\<open>lashd/dbus_iface_server.c\<close>); the
  children of the loader (\<^verbatim>\<open>lashd/loader.c\<close>) and the signals of jackdbus
  (\<^verbatim>\<open>lashd/jackdbus_mgr.c\<close>).
\<close>

section \<open>Finding projects and clients\<close>

text \<open>A loop that compares a string of each element with \<open>strcmp\<close>; a missing one is a fault.\<close>

fun find_by_str :: "(addr \<Rightarrow> cstr) \<Rightarrow> string \<Rightarrow> addr list \<Rightarrow> addr option res" where
  "find_by_str f s [] = Inr None"
| "find_by_str f s (a # as) =
     (case f a of None \<Rightarrow> Inl Null_deref
      | Some t \<Rightarrow> if t = s then Inr (Some a) else find_by_str f s as)"

definition server_find_project_by_name :: "world \<Rightarrow> cstr \<Rightarrow> addr option res" where
  "server_find_project_by_name w name =
     (case name of None \<Rightarrow> Inr None
      | Some s \<Rightarrow> find_by_str (\<lambda>p. p_name (projects w p)) s (loaded_projects w))"

fun find_client_by_dbus_name :: "world \<Rightarrow> string \<Rightarrow> addr list \<Rightarrow> addr option res" where
  "find_client_by_dbus_name w s [] = Inr None"
| "find_client_by_dbus_name w s (p # ps) =
     bindr (find_by_str (\<lambda>a. cl_dbus_name (clients w a)) s (p_clients (projects w p))) (\<lambda>r.
       case r of Some a \<Rightarrow> Inr (Some a) | None \<Rightarrow> find_client_by_dbus_name w s ps)"

definition server_find_client_by_dbus_name :: "world \<Rightarrow> string \<Rightarrow> addr option res" where
  "server_find_client_by_dbus_name w s = find_client_by_dbus_name w s (loaded_projects w)"

definition find_in_lists :: "(addr \<Rightarrow> bool) \<Rightarrow> addr list list \<Rightarrow> addr option" where
  "find_in_lists P ls = List.find P (concat ls)"

definition server_find_client_by_id :: "world \<Rightarrow> uuid \<Rightarrow> addr option" where
  "server_find_client_by_id w u =
     find_in_lists (\<lambda>a. cl_id (clients w a) = u) (map (\<lambda>p. p_clients (projects w p)) (loaded_projects w))"

definition server_find_client_by_pid :: "world \<Rightarrow> pid \<Rightarrow> addr option" where
  "server_find_client_by_pid w x =
     find_in_lists (\<lambda>a. cl_pid (clients w a) = x) (map (\<lambda>p. p_clients (projects w p)) (loaded_projects w))"

definition server_find_lost_client_by_pid :: "world \<Rightarrow> pid \<Rightarrow> addr option" where
  "server_find_lost_client_by_pid w x =
     find_in_lists (\<lambda>a. cl_pid (clients w a) = x) (map (\<lambda>p. p_lost_clients (projects w p)) (loaded_projects w))"

section \<open>New projects\<close>

definition name_is_free :: "world \<Rightarrow> string \<Rightarrow> bool res" where
  "name_is_free w name =
     bindr (server_find_project_by_name w (Some name)) (\<lambda>r.
       Inr (r = None \<and> \<not> lash_file_exists (disk w)
         (under (Some (under (Some (projects_dir w)) name)) PROJECT_INFO_FILE)))"

text \<open>The loop over \<open>i\<close>; \<open>name\<close> is the content of the static buffer of 1034 bytes.\<close>

function new_name_loop :: "world \<Rightarrow> string \<Rightarrow> string \<Rightarrow> nat \<Rightarrow> string option res" where
  "new_name_loop w suggestion name i =
     (if 1000000000 < i then Inr None
      else bindr (name_is_free w name) (\<lambda>free.
        if free then Inr (Some name)
        else bindr (sprintf_into 1034 (suggestion @ '' '' @ show_nat i)) (\<lambda>name'.
          new_name_loop w suggestion name' (i + 1))))"
  by pat_completeness auto
termination
  by (relation "measure (\<lambda>(w, s, n, i). 1000000001 - i)") auto

declare new_name_loop.simps [simp del]

definition server_create_new_project_name :: "world \<Rightarrow> cstr \<Rightarrow> string option res" where
  "server_create_new_project_name w suggestion =
     (case suggestion of
        Some (c # cs) \<Rightarrow>
          if length (c # cs) > 1023 then Inr None else new_name_loop w (c # cs) (c # cs) 2
      | _ \<Rightarrow> new_name_loop w ''New Project'' ''New Project'' 2)"

definition server_create_new_project :: "cstr \<Rightarrow> world \<Rightarrow> (world \<times> addr) res" where
  "server_create_new_project name w =
     bindr (server_create_new_project_name w name) (\<lambda>new_name.
       let p = next_project w;
           x = project_new\<lparr>p_name := new_name,
                 p_directory := Some (fst (lash_get_fqn 48 (Some (projects_dir w)) new_name))\<rparr>;
           w1 = upd_project p (\<lambda>_. x) (w\<lparr>next_project := p + 1\<rparr>);
           w2 = project_clear_id_dir p w1;
           w3 = w2\<lparr>loaded_projects := loaded_projects w2 @ [p]\<rparr>
       in Inr (emit (Project_appeared (p_name x) (p_directory x)) w3, p))"

text \<open>The first loaded project that was never saved, else the last loaded one, else a new one.\<close>

definition server_get_newborn_project :: "world \<Rightarrow> (world \<times> addr) res" where
  "server_get_newborn_project w =
     (case List.find (\<lambda>p. p_doc (projects w p) = None) (loaded_projects w) of
        Some p \<Rightarrow> Inr (w, p)
      | None \<Rightarrow> if loaded_projects w \<noteq> [] then Inr (w, last (loaded_projects w))
                else server_create_new_project None w)"

section \<open>Closing and saving\<close>

definition server_close_project :: "addr \<Rightarrow> world \<Rightarrow> world res" where
  "server_close_project p w =
     bindr (project_unload p w) (\<lambda>w1. Inr (emit (Project_disappeared (p_name (projects w1 p))) w1))"

definition server_project_close_by_name :: "string \<Rightarrow> world \<Rightarrow> (world \<times> bool) res" where
  "server_project_close_by_name name w =
     bindr (server_find_project_by_name w (Some name)) (\<lambda>r.
       case r of None \<Rightarrow> Inr (w, False)
       | Some p \<Rightarrow> bindr (server_close_project p w) (\<lambda>w1. Inr (w1, True)))"

text \<open>Each round closes the first loaded project, which leaves the list.\<close>

fun close_projects :: "addr list \<Rightarrow> world \<Rightarrow> world res" where
  "close_projects [] w = Inr w"
| "close_projects (p # ps) w = bindr (server_close_project p w) (close_projects ps)"

definition server_close_all_projects :: "world \<Rightarrow> world res" where
  "server_close_all_projects w = close_projects (loaded_projects w) w"

fun save_projects :: "env \<Rightarrow> addr list \<Rightarrow> world \<Rightarrow> world res" where
  "save_projects E [] w = Inr w"
| "save_projects E (p # ps) w = bindr (project_save E p w) (save_projects E ps)"

definition server_save_all_projects :: "env \<Rightarrow> world \<Rightarrow> world res" where
  "server_save_all_projects E w = save_projects E (loaded_projects w) w"

definition server_project_save_by_name :: "env \<Rightarrow> string \<Rightarrow> world \<Rightarrow> (world \<times> bool) res" where
  "server_project_save_by_name E name w =
     bindr (server_find_project_by_name w (Some name)) (\<lambda>r.
       case r of None \<Rightarrow> Inr (w, False)
       | Some p \<Rightarrow> bindr (project_save E p w) (\<lambda>w1. Inr (w1, True)))"

section \<open>Adding clients\<close>

definition unknown_by_pid :: "world \<Rightarrow> pid \<Rightarrow> nat option res" where
  "unknown_by_pid w x =
     (if jm_unknown_freed (jackdbus w) then Inl Dangling
      else Inr (jack_mgr_client_find_by_pid (jm_unknown (jackdbus w)) x))"

definition bind_unknown :: "env \<Rightarrow> pid \<Rightarrow> addr \<Rightarrow> world \<Rightarrow> world res" where
  "bind_unknown E x a w =
     bindr (unknown_by_pid w x) (\<lambda>r.
       case r of None \<Rightarrow> Inr w
       | Some i \<Rightarrow>
           lashd_jackdbus_mgr_bind_client E (jm_unknown (jackdbus w) ! i) a
             (w\<lparr>jackdbus := (jackdbus w)\<lparr>jm_unknown := remove_nth i (jm_unknown (jackdbus w))\<rparr>\<rparr>))"

definition server_add_client ::
  "env \<Rightarrow> string \<Rightarrow> pid \<Rightarrow> string \<Rightarrow> u32 \<Rightarrow> string \<Rightarrow> string list \<Rightarrow> world \<Rightarrow> (world \<times> addr) res" where
  "server_add_client E dbus_name x class flags working_dir argv w =
     bindr
       (case (if x \<noteq> 0 then server_find_lost_client_by_pid w x else None) of
          Some a \<Rightarrow>
            bindr (client_resume_project E a (upd_client a (\<lambda>c. c\<lparr>cl_dbus_name := Some dbus_name,
                cl_flags := cl_flags c OR LASH_Restored\<rparr>) w)) (\<lambda>w1. Inr (w1, a))
        | None \<Rightarrow>
            (let a = next_client w;
                 c = client_new\<lparr>cl_pid := x, cl_class := Some class, cl_flags := flags, cl_argv := argv,
                       cl_dbus_name := Some dbus_name, cl_working_dir := Some working_dir\<rparr>;
                 w1 = upd_client a (\<lambda>_. c) (w\<lparr>next_client := a + 1\<rparr>)
             in bindr (server_get_newborn_project w1) (\<lambda>(w2, p).
                bindr (project_new_client E p a w2) (\<lambda>w3. Inr (w3, a)))))
       (\<lambda>(w1, a). bindr (bind_unknown E x a w1) (\<lambda>w2. Inr (w2, a)))"

section \<open>Restoring a project\<close>

fun restore_clients :: "addr \<Rightarrow> addr list \<Rightarrow> world \<Rightarrow> world res" where
  "restore_clients p [] w = Inr w"
| "restore_clients p (a # as) w =
     (let w1 = upd_client a (\<lambda>c. c\<lparr>cl_project := Some p\<rparr>) w;
          w2 = upd_project p (\<lambda>x. x\<lparr>p_tasks_total := p_tasks_total x + 1\<rparr>) w1;
          w3 = upd_client a (client_dependency_list_sanity_check (lost_clients_of w2 p)) w2;
          w4 = upd_client a client_dependency_init_unsatisfied w3
      in if cl_unsatisfied_deps (clients w4 a) \<noteq> [] then restore_clients p as w4
         else bindr (project_launch_client a w4) (restore_clients p as))"

definition avoid_name_clash :: "addr \<Rightarrow> world \<Rightarrow> world res" where
  "avoid_name_clash p w =
     bindr (server_find_project_by_name w (p_name (projects w p))) (\<lambda>r.
       case r of None \<Rightarrow> Inr w
       | Some _ \<Rightarrow>
           bindr (server_create_new_project_name w (p_name (projects w p))) (\<lambda>n.
             case n of None \<Rightarrow> Inl Null_deref | Some name \<Rightarrow> project_rename p name w))"

definition server_project_restore :: "env \<Rightarrow> addr \<Rightarrow> world \<Rightarrow> (world \<times> bool) res" where
  "server_project_restore E p w =
     (if project_is_loaded p w then Inr (w, False)
      else bindr (project_load E p w) (\<lambda>(w1, ok).
        if \<not> ok then Inr (w1, False)
        else bindr (avoid_name_clash p w1) (\<lambda>w2.
          let w3 = w2\<lparr>loaded_projects := loaded_projects w2 @ [p]\<rparr>;
              w4 = emit (Project_appeared (p_name (projects w3 p)) (p_directory (projects w3 p))) w3;
              w5 = upd_project p (\<lambda>x. x\<lparr>p_task_type := Task_load, p_tasks_total := 0, p_tasks_progress := 0\<rparr>) w4;
              w6 = emit (Progress 0) w5
          in bindr (restore_clients p (p_lost_clients (projects w6 p)) w6) (\<lambda>w7.
               Inr (upd_project p (\<lambda>x. x\<lparr>p_tasks_pending := p_tasks_total x\<rparr>) w7, True)))))"

definition server_project_restore_by_name :: "env \<Rightarrow> string \<Rightarrow> world \<Rightarrow> (world \<times> bool) res" where
  "server_project_restore_by_name E name w =
     bindr (find_by_str (\<lambda>p. p_name (projects w p)) name (all_projects w)) (\<lambda>r.
       case r of None \<Rightarrow> Inr (w, False) | Some p \<Rightarrow> server_project_restore E p w)"

definition server_project_restore_by_dir :: "env \<Rightarrow> string \<Rightarrow> world \<Rightarrow> (world \<times> bool) res" where
  "server_project_restore_by_dir E dir w =
     bindr (find_by_str (\<lambda>p. p_directory (projects w p)) dir (all_projects w)) (\<lambda>r.
       case r of None \<Rightarrow> Inr (w, False) | Some p \<Rightarrow> server_project_restore E p w)"

section \<open>Start\<close>

text \<open>The subdirectories of the projects directory that hold a project become available.\<close>

fun fill_projects :: "env \<Rightarrow> string list \<Rightarrow> world \<Rightarrow> world" where
  "fill_projects E [] w = w"
| "fill_projects E (d # ds) w =
     (if posix_stat (disk w) (projects_dir w @ slash # d) \<noteq> Inr Dir \<or> (d \<noteq> '''' \<and> hd d = CHR ''.'')
      then fill_projects E ds w
      else (case project_new_from_disk E (disk w) (projects_dir w) d of
          None \<Rightarrow> fill_projects E ds w
        | Some x \<Rightarrow>
            (let p = next_project w
             in fill_projects E ds
                  (upd_project p (\<lambda>_. x) (w\<lparr>next_project := p + 1, all_projects := all_projects w @ [p]\<rparr>)))))"

definition server_fill_projects :: "env \<Rightarrow> world \<Rightarrow> world" where
  "server_fill_projects E w =
     (case posix_opendir (disk w) (projects_dir w) of
        Inl _ \<Rightarrow> w
      | Inr _ \<Rightarrow> fill_projects E (posix_readdir (disk w) (projects_dir w)) w)"

section \<open>The methods clients call\<close>


definition check_tasks :: "lash_client \<Rightarrow> u64 option \<Rightarrow> dbus_error option" where
  "check_tasks c task_id =
     (case task_id of
        None \<Rightarrow> Some Error_invalid_args
      | Some t \<Rightarrow> if cl_pending_task c = 0 then Some Error_invalid_task
                  else if cl_pending_task c \<noteq> t then Some Error_invalid_task else None)"

text \<open>An argument of the message that is missing or of the wrong type is \<open>None\<close>.\<close>

definition lashd_dbus_progress ::
  "env \<Rightarrow> string \<Rightarrow> u64 option \<Rightarrow> u8 option \<Rightarrow> world \<Rightarrow> (world \<times> dbus_error option) res" where
  "lashd_dbus_progress E sender task_id percentage w =
     bindr (server_find_client_by_dbus_name w sender) (\<lambda>r.
       case r of None \<Rightarrow> Inr (w, Some Error_unknown_client)
       | Some a \<Rightarrow>
           (case check_tasks (clients w a) task_id of
              Some e \<Rightarrow> Inr (w, Some e)
            | None \<Rightarrow>
                (case percentage of None \<Rightarrow> Inr (w, Some Error_invalid_args)
                 | Some x \<Rightarrow> bindr (client_task_progressed E a x w) (\<lambda>w1. Inr (w1, None)))))"

text \<open>A string is stored with its terminator.\<close>

definition get_and_set_config :: "store \<Rightarrow> dval \<Rightarrow> (store \<times> bool) res" where
  "get_and_set_config st entry =
     (case method_iter_get_dict_entry (Some entry) of None \<Rightarrow> Inr (st, False)
      | Some (key, ty, v) \<Rightarrow>
          if ty = CHR ''d'' then store_set_config st (Some key) (Some v) 8 ty
          else if ty = CHR ''u'' then store_set_config st (Some key) (Some v) 4 ty
          else if ty = CHR ''s'' then
            store_set_config st (Some key) (Some (v @ [CHR 0x00])) (word_of_nat (length v + 1)) ty
          else if ty = CHR ''-'' then store_set_config st (Some key) (Some v) (word_of_nat (length v)) ty
          else Inr (st, False))"

fun set_configs :: "store \<Rightarrow> dval list \<Rightarrow> (store \<times> bool) res" where
  "set_configs st [] = Inr (st, True)"
| "set_configs st (e # es) =
     bindr (get_and_set_config st e) (\<lambda>(st1, ok). if ok then set_configs st1 es else Inr (st1, False))"

definition lashd_dbus_commit_data_set ::
  "env \<Rightarrow> string \<Rightarrow> u64 option \<Rightarrow> dval list option \<Rightarrow> world \<Rightarrow>
   (world \<times> dbus_error option) res" where
  "lashd_dbus_commit_data_set E sender task_id configs w =
     bindr (server_find_client_by_dbus_name w sender) (\<lambda>r.
       case r of None \<Rightarrow> Inr (w, Some Error_unknown_client)
       | Some a \<Rightarrow>
           (case check_tasks (clients w a) task_id of
              Some e \<Rightarrow> Inr (w, Some e)
            | None \<Rightarrow>
                (case cl_store (clients w a) of None \<Rightarrow> Inr (w, Some Error_generic)
                 | Some st \<Rightarrow>
                     (case configs of None \<Rightarrow> Inr (w, Some Error_invalid_args)
                      | Some es \<Rightarrow>
                          if es = [] then Inr (w, Some Error_generic)
                          else bindr (set_configs st es) (\<lambda>(st1, ok).
                            bindr (client_task_completed E a ok (upd_client a (\<lambda>c. c\<lparr>cl_store := Some st1\<rparr>) w))
                              (\<lambda>w1. Inr (w1, if ok then None else Some Error_generic)))))))"

text \<open>The client learns what the daemon knows of it; a project without a name has no answer.\<close>

definition connect_reply :: "world \<Rightarrow> lash_client \<Rightarrow> reply" where
  "connect_reply w c =
     (case (case cl_project c of None \<Rightarrow> Some '''' | Some p \<Rightarrow> p_name (projects w p)) of
        None \<Rightarrow> No_reply
      | Some project_name \<Rightarrow> Method_return
          [DString (cl_id_str c), DString (case cl_name c of Some n \<Rightarrow> n | None \<Rightarrow> ''''), DString project_name,
           DString (case cl_data_path c of Some d \<Rightarrow> d | None \<Rightarrow> ''''), DInt32 (cl_flags c),
           DString (case cl_working_dir c of Some d \<Rightarrow> d | None \<Rightarrow> '''')])"

definition lashd_dbus_connect ::
  "env \<Rightarrow> string option \<Rightarrow> (pid \<times> string \<times> u32 \<times> string \<times> string list) option \<Rightarrow> world \<Rightarrow>
   (world \<times> reply) res" where
  "lashd_dbus_connect E sender args w =
     (case sender of None \<Rightarrow> Inr (w, No_reply)
      | Some s \<Rightarrow>
          (case args of None \<Rightarrow> Inr (w, Error_reply Error_invalid_args)
           | Some (x, class, flags, wd, argv) \<Rightarrow>
               bindr (server_add_client E s x class flags wd argv w) (\<lambda>(w1, a).
                 Inr (w1, connect_reply w1 (clients w1 a)))))"

section \<open>Children of the loader\<close>

definition loader_child_find_and_mark_dead :: "pid \<Rightarrow> world \<Rightarrow> world" where
  "loader_child_find_and_mark_dead x w =
     (case first_index (\<lambda>ch. ch_pid ch = x) (childs w) of
        None \<Rightarrow> w
      | Some i \<Rightarrow> w\<lparr>childs := (childs w)[i := (childs w ! i)\<lparr>ch_dead := True\<rparr>]\<rparr>)"

text \<open>The signal handler gets the children \<open>waitpid\<close> reports, one after the other.\<close>

definition loader_sigchld_handler :: "pid list \<Rightarrow> world \<Rightarrow> world" where
  "loader_sigchld_handler pids w = fold loader_child_find_and_mark_dead pids w"

definition log_child :: "loader_child \<Rightarrow> bool \<Rightarrow> log_line list \<Rightarrow> world \<Rightarrow> world" where
  "log_child ch is_error ls w = fold (\<lambda>l. emit (Child_log (ch_project ch) (ch_argv0 ch) is_error l)) ls w"

fun bury :: "loader_child list \<Rightarrow> world \<Rightarrow> world" where
  "bury [] w = w"
| "bury (ch # chs) w =
     (if ch_dead ch then
        (let w1 = log_child ch False (loader_check_line_repeat_end (rd_count (ch_stdout ch))) w;
             w2 = log_child ch True (loader_check_line_repeat_end (rd_count (ch_stderr ch))) w1;
             w3 = w2\<lparr>childs := remove1 ch (childs w2)\<rparr>
         in bury chs (client_disconnected (server_find_client_by_pid w3 (ch_pid ch)) w3))
      else bury chs w)"

definition loader_childs_bury :: "world \<Rightarrow> world" where
  "loader_childs_bury w = bury (childs w) w"

text \<open>
  Reading the output of the children that run. \<open>fds\<close> gives the packets waiting on the two
  descriptors of a child; what is left of them is the next reading's affair.
\<close>

definition read_child :: "string list \<times> string list \<Rightarrow> loader_child \<Rightarrow> world \<Rightarrow> (loader_child \<times> world) res" where
  "read_child fds ch w =
     (if ch_dead ch \<or> ch_terminal ch then Inr (ch, w)
      else bindr (loader_read_child_output (fst fds) (ch_stdout ch, [])) (\<lambda>((r1, log1), rest1).
        let w1 = log_child ch False log1 w; ch1 = ch\<lparr>ch_stdout := r1\<rparr>
        in bindr (loader_read_child_output (snd fds) (ch_stderr ch1, [])) (\<lambda>((r2, log2), rest2).
             Inr (ch1\<lparr>ch_stderr := r2\<rparr>, log_child ch1 True log2 w1))))"

fun read_childs :: "(pid \<Rightarrow> string list \<times> string list) \<Rightarrow> loader_child list \<Rightarrow> world \<Rightarrow> (loader_child list \<times> world) res" where
  "read_childs fds [] w = Inr ([], w)"
| "read_childs fds (ch # chs) w =
     bindr (read_child (fds (ch_pid ch)) ch w) (\<lambda>(ch1, w1).
     bindr (read_childs fds chs w1) (\<lambda>(chs1, w2). Inr (ch1 # chs1, w2)))"

definition loader_read_childs_output :: "(pid \<Rightarrow> string list \<times> string list) \<Rightarrow> world \<Rightarrow> world res" where
  "loader_read_childs_output fds w = bindr (read_childs fds (childs w) w) (\<lambda>(chs, w1). Inr (w1\<lparr>childs := chs\<rparr>))"

definition loader_run :: "(pid \<Rightarrow> string list \<times> string list) \<Rightarrow> world \<Rightarrow> world res" where
  "loader_run fds w = bindr (loader_read_childs_output fds w) (\<lambda>w1. Inr (loader_childs_bury w1))"

section \<open>Signals of jackdbus\<close>

definition jack_mgr_client_modified :: "uuid \<Rightarrow> world \<Rightarrow> world" where
  "jack_mgr_client_modified u w =
     (case server_find_client_by_id w u of
        None \<Rightarrow> w
      | Some a \<Rightarrow> (case cl_project (clients w a) of None \<Rightarrow> w | Some p \<Rightarrow> project_set_modified_status p True w))"

definition connected_end :: "u64 \<Rightarrow> graph_patch \<Rightarrow> world \<Rightarrow> (world \<times> bool) res" where
  "connected_end k g w =
     (case jack_mgr_client_find_by_jackdbus_id (jm_clients (jackdbus w)) k of
        None \<Rightarrow> Inr (w, False)
      | Some i \<Rightarrow>
          (let m = jackdbus w; c = jm_clients m ! i in
           bindr (del_old_patch (jm_clients m) c g) (\<lambda>c1.
             Inr (jack_mgr_client_modified (jc_id c1)
               (w\<lparr>jackdbus := m\<lparr>jm_clients := (jm_clients m)[i := c1]\<rparr>\<rparr>), True))))"

definition lashd_jackdbus_mgr_ports_connected :: "graph_patch \<Rightarrow> world \<Rightarrow> world res" where
  "lashd_jackdbus_mgr_ports_connected g w =
     bindr (connected_end (gp_src_id g) g w) (\<lambda>(w1, found).
       if found \<and> gp_src_id g = gp_dest_id g then Inr w1
       else bindr (connected_end (gp_dest_id g) g w1) (\<lambda>(w2, _). Inr w2))"

definition disconnected_end :: "u64 \<Rightarrow> world \<Rightarrow> world \<times> bool" where
  "disconnected_end k w =
     (case jack_mgr_client_find_by_jackdbus_id (jm_clients (jackdbus w)) k of
        None \<Rightarrow> (w, False)
      | Some i \<Rightarrow> (jack_mgr_client_modified (jc_id (jm_clients (jackdbus w) ! i)) w, True))"

definition lashd_jackdbus_mgr_ports_disconnected :: "graph_patch \<Rightarrow> world \<Rightarrow> world" where
  "lashd_jackdbus_mgr_ports_disconnected g w =
     (let (w1, found) = disconnected_end (gp_src_id g) w
      in if found \<and> gp_src_id g = gp_dest_id g then w1 else fst (disconnected_end (gp_dest_id g) w1))"

definition lashd_jackdbus_on_client_appeared :: "env \<Rightarrow> string \<Rightarrow> u64 \<Rightarrow> world \<Rightarrow> world res" where
  "lashd_jackdbus_on_client_appeared E name k w =
     (let x = e_pid_of E k in
      if sint x \<le> 0 then Inr w
      else
        (let jc = jack_mgr_client_new\<lparr>jc_name := Some name, jc_jackdbus_id := k, jc_pid := ucast x\<rparr>;
             found = (case server_find_client_by_pid w (ucast x) of
                        Some a \<Rightarrow> Some a | None \<Rightarrow> server_find_lost_client_by_pid w (ucast x))
         in (case found of
               None \<Rightarrow>
                 if jm_unknown_freed (jackdbus w) then Inl Dangling
                 else Inr (w\<lparr>jackdbus := (jackdbus w)\<lparr>jm_unknown := jm_unknown (jackdbus w) @ [jc]\<rparr>\<rparr>)
             | Some a \<Rightarrow> lashd_jackdbus_mgr_bind_client E jc a w)))"

definition lashd_jackdbus_on_client_disappeared :: "u64 \<Rightarrow> world \<Rightarrow> world res" where
  "lashd_jackdbus_on_client_disappeared k w =
     (if jm_unknown_freed (jackdbus w) then Inl Dangling
      else (case jack_mgr_client_find_by_jackdbus_id (jm_unknown (jackdbus w)) k of
          None \<Rightarrow> Inr w
        | Some i \<Rightarrow> Inr (w\<lparr>jackdbus := (jackdbus w)\<lparr>jm_unknown := remove_nth i (jm_unknown (jackdbus w))\<rparr>\<rparr>)))"

definition lashd_jackdbus_port_appeared :: "u64 \<Rightarrow> string \<Rightarrow> string \<Rightarrow> world \<Rightarrow> world res" where
  "lashd_jackdbus_port_appeared k client_name port_name w =
     (let m = jackdbus w in
      bindr (case jack_mgr_client_find_by_jackdbus_id (jm_clients m) k of
               Some i \<Rightarrow>
                 (let c = jm_clients m ! i
                  in if jc_old_patches c \<noteq> [] then new_client_port (jm_clients m) c client_name port_name (jc_old_patches c)
                     else Inr [])
             | None \<Rightarrow> new_foreign_port (jm_clients m) client_name port_name) (\<lambda>connects.
        Inr (foldl (\<lambda>w cn. emit (Connect_ports cn) w) w connects)))"

text \<open>The signals, with the arguments they carry.\<close>

datatype jack_signal =
    Client_appeared_signal string u64
  | Client_disappeared_signal u64
  | Port_appeared_signal u64 string string
  | Ports_connected_signal graph_patch
  | Ports_disconnected_signal graph_patch
  | Server_started_signal
  | Server_stopped_signal
  | Name_owner_changed_signal string string

definition lashd_jackdbus_handler :: "env \<Rightarrow> jack_signal \<Rightarrow> world \<Rightarrow> world res" where
  "lashd_jackdbus_handler E s w =
     (case s of
        Client_appeared_signal name k \<Rightarrow> lashd_jackdbus_on_client_appeared E name k w
      | Client_disappeared_signal k \<Rightarrow> lashd_jackdbus_on_client_disappeared k w
      | Port_appeared_signal k client_name port_name \<Rightarrow> lashd_jackdbus_port_appeared k client_name port_name w
      | Ports_connected_signal g \<Rightarrow> lashd_jackdbus_mgr_ports_connected g w
      | Ports_disconnected_signal g \<Rightarrow> Inr (lashd_jackdbus_mgr_ports_disconnected g w)
      | Server_started_signal \<Rightarrow>
          bindr (get_unknown_clients (e_pid_of E) (get_graph (e_graph E) ((jackdbus w)\<lparr>jm_version := 0\<rparr>)))
            (\<lambda>m. Inr (w\<lparr>jackdbus := m\<rparr>))
      | Server_stopped_signal \<Rightarrow> bindr (jackdbus_mgr_clear (jackdbus w)) (\<lambda>m. Inr (w\<lparr>jackdbus := m\<rparr>))
      | Name_owner_changed_signal old_owner new_owner \<Rightarrow>
          if old_owner = '''' \<or> new_owner = '''' then Inr (w\<lparr>jackdbus := (jackdbus w)\<lparr>jm_version := 0\<rparr>\<rparr>)
          else Inr w)"

end
