(* ===== verification/Tasks.thy ===== *)
theory Tasks
  imports Client
begin

text \<open>
  The save task of a project, end to end: \<open>project_save\<close> asks the stateful clients to save,
  their progress reports and completions come back through \<open>client_task_progressed\<close> and
  \<open>client_task_completed\<close>, the last one finishes the save. The invariant \<open>saving\<close> ties the
  project's three counters to its clients; from it follow the percentages sent out, that no
  counter wraps, and that the save is reported exactly once, after every client is done.
\<close>

section \<open>Finishing a save\<close>

lemma clients_xml_total:
  "uuid_lib_ok (e_uuids E) \<Longrightarrow> \<exists>m xs. clients_xml E as w = Inr (w\<lparr>jackdbus := m\<rparr>, xs)"
proof (induction "as" arbitrary: w)
  case (Cons a as)
  obtain m ys where one: "(if cl_jack_client_name (clients w a) \<noteq> None
      then project_create_client_jack_patch_xml E a w else Inr (w, [])) = Inr (w\<lparr>jackdbus := m\<rparr>, ys)"
  proof (cases "cl_jack_client_name (clients w a) \<noteq> None")
    case True
    obtain m ps ok where "get_client_patches (e_uuids E) (jackdbus w) (cl_id (clients w a)) = Inr (m, ps, ok)"
      using get_client_patches_total [OF Cons.prems] by blast
    then show ?thesis using True that by (simp add: project_create_client_jack_patch_xml_def)
  next
    case False
    then show ?thesis using that [of "jackdbus w" "[]"] by simp
  qed
  obtain m' xs where "clients_xml E as (w\<lparr>jackdbus := m\<rparr>) = Inr (w\<lparr>jackdbus := m'\<rparr>, xs)"
    using Cons.IH [OF Cons.prems, of "w\<lparr>jackdbus := m\<rparr>"] by auto
  then show ?case using one by (auto simp: Let_def)
next
  case Nil
  have "clients_xml E [] w = Inr (w\<lparr>jackdbus := jackdbus w\<rparr>, [])" by simp
  then show ?case by blast
qed

definition saved_events :: "world \<Rightarrow> addr \<Rightarrow> event list" where
  "saved_events w p = [Progress 100, Project_saved (p_name (projects w p))] @
     (if p_modified_status (projects w p)
      then [Project_modified_status_changed (p_name (projects w p)) False] else [])"

text \<open>Writing the project file changes only the JACK manager, the disk and the saved document.\<close>

lemma write_info_total:
  assumes "uuid_lib_ok (e_uuids E)"
  shows "\<exists>m doc d ok. project_write_info E p w =
    Inr ((upd_project p (\<lambda>x. x\<lparr>p_doc := Some doc\<rparr>) (w\<lparr>jackdbus := m\<rparr>))\<lparr>disk := d\<rparr>, ok)"
proof -
  obtain m xs where "clients_xml E (p_clients (projects w p)) w = Inr (w\<lparr>jackdbus := m\<rparr>, xs)"
    using clients_xml_total [OF assms] by blast
  then obtain doc where "project_create_xml E p w = Inr (w\<lparr>jackdbus := m\<rparr>, doc)"
    by (simp add: project_create_xml_def)
  then have written: "project_write_info E p w =
      (let w2 = upd_project p (\<lambda>x. x\<lparr>p_doc := Some doc\<rparr>) (w\<lparr>jackdbus := m\<rparr>) in
       case posix_write_file (disk w2) (under (p_directory (projects w2 p)) PROJECT_INFO_FILE) (e_xml_save E doc) of
         Inl _ \<Rightarrow> Inr (w2\<lparr>disk := disk w2\<rparr>, False) | Inr d \<Rightarrow> Inr (w2\<lparr>disk := d\<rparr>, True))"
    by (simp add: project_write_info_def Let_def split: sum.split)
  show ?thesis
  proof (cases "posix_write_file (disk w) (under (p_directory (projects w p)) PROJECT_INFO_FILE) (e_xml_save E doc)")
    case (Inl e)
    show ?thesis by (rule exI [of _ m], rule exI [of _ doc], rule exI [of _ "disk w"], rule exI [of _ False])
      (simp add: written Inl)
  next
    case (Inr d)
    show ?thesis by (rule exI [of _ m], rule exI [of _ doc], rule exI [of _ d], rule exI [of _ True])
      (simp add: written Inr)
  qed
qed

lemma save_complete_effect:
  assumes "uuid_lib_ok (e_uuids E)"
  shows "\<exists>w'. project_clients_save_complete E p w = Inr w' \<and> clients w' = clients w
    \<and> trace w' = trace w @ saved_events w p \<and> links w' = links w
    \<and> (\<exists>doc. projects w' = (projects w)(p := (projects w p)\<lparr>p_doc := Some doc, p_modified_status := False\<rparr>))"
proof -
  obtain m doc d ok where "project_write_info E p w =
      Inr ((upd_project p (\<lambda>x. x\<lparr>p_doc := Some doc\<rparr>) (w\<lparr>jackdbus := m\<rparr>))\<lparr>disk := d\<rparr>, ok)"
    using write_info_total [OF assms] by blast
  moreover have "x\<lparr>p_doc := Some doc\<rparr> = x\<lparr>p_doc := Some doc, p_modified_status := False\<rparr>"
    if "\<not> p_modified_status x" for x :: project
    using that by (intro project.equality) simp_all
  ultimately show ?thesis
    by (auto simp: project_clients_save_complete_def project_set_modified_status_def saved_events_def
        intro!: exI [of _ doc])
qed

section \<open>Counters\<close>

lemma unat_ucast8 [simp]: "unat (ucast (b::u8) :: u32) = unat b"
  by (simp add: unsigned_ucast_eq take_bit_nat_eq_self_iff unsigned_less [where ?'a = nat, THEN less_le_trans])

lemma shift_progress:
  fixes p :: u32 and old new :: u8
  assumes "unat old \<le> unat p" "unat p - unat old + unat new < 2 ^ 32"
  shows "unat (p - ucast old + ucast new) = unat p - unat old + unat new"
proof -
  have "(ucast old :: u32) \<le> p" using assms(1) by (simp add: word_le_nat_alt)
  then have "unat (p - ucast old) = unat p - unat old" by (simp add: unat_sub)
  then show ?thesis using assms(2) by (simp add: unat_word_ariths(1))
qed

text \<open>The clients that still owe the project an answer.\<close>

definition active :: "world \<Rightarrow> addr \<Rightarrow> addr list" where
  "active w p = filter (\<lambda>a. cl_pending_task (clients w a) \<noteq> 0) (p_clients (projects w p))"

definition progress_of :: "world \<Rightarrow> addr \<Rightarrow> nat" where
  "progress_of w a = unat (cl_task_progress (clients w a))"

definition save_client_ok :: "world \<Rightarrow> addr \<Rightarrow> addr \<Rightarrow> bool" where
  "save_client_ok w p a \<longleftrightarrow> cl_project (clients w a) = Some p \<and> progress_of w a \<le> 99
     \<and> (cl_task_type (clients w a) = LASH_Save_File
        \<or> cl_task_type (clients w a) = LASH_Save_Data_Set \<and> cl_store (clients w a) \<noteq> None)"

definition saving :: "world \<Rightarrow> addr \<Rightarrow> bool" where
  "saving w p \<longleftrightarrow> distinct (p_clients (projects w p)) \<and> active w p \<noteq> []
     \<and> (\<forall>a \<in> set (active w p). save_client_ok w p a)
     \<and> p_task_type (projects w p) = Task_save
     \<and> unat (p_tasks_pending (projects w p)) = length (active w p)
     \<and> length (active w p) \<le> unat (p_tasks_total (projects w p))
     \<and> unat (p_tasks_total (projects w p)) \<le> 2 ^ 24
     \<and> unat (p_tasks_progress (projects w p)) =
         100 * (unat (p_tasks_total (projects w p)) - length (active w p)) + sum_list (map (progress_of w) (active w p))"

lemma sum_progress_le:
  "\<forall>a \<in> set as. progress_of w a \<le> 99 \<Longrightarrow> sum_list (map (progress_of w) as) \<le> 99 * length as"
  by (induction "as") auto

lemma savingD:
  assumes "saving w p"
  shows "distinct (active w p)" "unat (p_tasks_progress (projects w p)) \<le> 100 * unat (p_tasks_total (projects w p))"
    "p_tasks_total (projects w p) \<noteq> 0" "p_tasks_pending (projects w p) \<noteq> 0"
proof -
  let ?t = "unat (p_tasks_total (projects w p))" and ?n = "length (active w p)"
  have "sum_list (map (progress_of w) (active w p)) \<le> 99 * ?n"
    using assms by (intro sum_progress_le) (auto simp: saving_def save_client_ok_def)
  moreover have n: "?n \<le> ?t" "0 < ?n" using assms by (auto simp: saving_def)
  ultimately show "unat (p_tasks_progress (projects w p)) \<le> 100 * ?t"
    using assms by (simp add: saving_def)
  show "distinct (active w p)" using assms by (simp add: saving_def active_def)
  show "p_tasks_total (projects w p) \<noteq> 0" "p_tasks_pending (projects w p) \<noteq> 0"
    using assms n by (auto simp: saving_def)
qed

lemma progress_member_le:
  assumes "saving w p" "a \<in> set (active w p)"
  shows "progress_of w a \<le> unat (p_tasks_progress (projects w p))"
  using assms member_le_sum_list [of "progress_of w a" "map (progress_of w) (active w p)"]
  by (simp add: saving_def)

text \<open>The percentage a sum of progress amounts to, as it is sent out: at most 99 while a task runs.\<close>

definition percent :: "nat \<Rightarrow> nat \<Rightarrow> nat" where
  "percent n progress = min 99 (progress div n)"

lemma emitted_percent:
  fixes pr tot :: u32
  assumes "unat pr \<le> 100 * unat tot" "tot \<noteq> 0"
  shows "unat (if (ucast (pr div tot) :: u8) > 99 then 99 else ucast (pr div tot) :: u8) = percent (unat tot) (unat pr)"
proof -
  have "unat pr div unat tot \<le> 100"
    using assms by (metis div_le_mono nonzero_mult_div_cancel_right unat_eq_zero)
  then have "unat (ucast (pr div tot) :: u8) = unat pr div unat tot"
    by (simp add: unsigned_ucast_eq unat_div take_bit_nat_eq_self)
  then show ?thesis by (simp add: percent_def word_less_nat_alt)
qed

section \<open>A progress report\<close>

definition others_progress :: "world \<Rightarrow> addr \<Rightarrow> addr \<Rightarrow> nat" where
  "others_progress w p a = sum_list (map (progress_of w) (remove1 a (active w p)))"

definition done_progress :: "world \<Rightarrow> addr \<Rightarrow> nat" where
  "done_progress w p = 100 * (unat (p_tasks_total (projects w p)) - length (active w p))"

lemma saving_split:
  assumes "saving w p" "a \<in> set (active w p)"
  shows "unat (p_tasks_progress (projects w p)) = done_progress w p + others_progress w p a + progress_of w a"
    "done_progress w p + others_progress w p a + 100 \<le> 100 * unat (p_tasks_total (projects w p))"
proof -
  have sum: "sum_list (map (progress_of w) (active w p)) = progress_of w a + others_progress w p a"
    using assms(2) by (simp add: others_progress_def sum_list_map_remove1)
  then show "unat (p_tasks_progress (projects w p)) = done_progress w p + others_progress w p a + progress_of w a"
    using assms(1) by (simp add: saving_def done_progress_def)
  have "others_progress w p a \<le> 99 * length (remove1 a (active w p))"
    unfolding others_progress_def using assms(1)
    by (intro sum_progress_le) (auto simp: saving_def save_client_ok_def dest: notin_set_remove1)
  moreover have "length (remove1 a (active w p)) + 1 = length (active w p)"
    using assms(2) length_pos_if_in_set [OF assms(2)] by (simp add: length_remove1)
  moreover have "length (active w p) \<le> unat (p_tasks_total (projects w p))"
    using assms(1) by (simp add: saving_def)
  ultimately show "done_progress w p + others_progress w p a + 100 \<le> 100 * unat (p_tasks_total (projects w p))"
    by (simp add: done_progress_def)
qed

lemma client_progress_effect:
  assumes "saving w p" "a \<in> set (active w p)" "unat x \<le> 100"
  shows "\<exists>pr n. unat pr = done_progress w p + others_progress w p a + unat x
    \<and> unat n = percent (unat (p_tasks_total (projects w p))) (unat pr)
    \<and> project_client_progress p a x w = emit (Progress n)
        (upd_client a (\<lambda>c. c\<lparr>cl_task_progress := x\<rparr>) (upd_project p (\<lambda>y. y\<lparr>p_tasks_progress := pr\<rparr>) w))"
proof -
  let ?tot = "p_tasks_total (projects w p)" and ?old = "cl_task_progress (clients w a)"
  define pr where "pr = p_tasks_progress (projects w p) - ucast ?old + ucast x"
  note split = saving_split [OF assms(1,2)]
  have bound: "100 * unat ?tot < 2 ^ 32" using assms(1) by (simp add: saving_def)
  have pr: "unat pr = done_progress w p + others_progress w p a + unat x"
    unfolding pr_def using split assms(3) bound
    by (subst shift_progress) (simp_all add: progress_of_def)
  have le: "unat pr \<le> 100 * unat ?tot" using pr split(2) assms(3) by simp
  have code: "project_client_progress p a x w = emit (Progress (if (ucast (pr div ?tot) :: u8) > 99 then 99 else ucast (pr div ?tot)))
        (upd_client a (\<lambda>c. c\<lparr>cl_task_progress := x\<rparr>) (upd_project p (\<lambda>y. y\<lparr>p_tasks_progress := pr\<rparr>) w))"
    using savingD(3) [OF assms(1)]
    by (simp add: project_client_progress_def Let_def pr_def upd_project_def upd_client_def)
  show ?thesis
    using pr code emitted_percent [OF le savingD(3) [OF assms(1)]] by blast
qed

lemma active_upd [simp]:
  "(\<And>c. cl_pending_task (f c) = cl_pending_task c) \<Longrightarrow> active (upd_client a f w) p = active w p"
  "(\<And>y. p_clients (g y) = p_clients y) \<Longrightarrow> active (upd_project q g w) p = active w p"
  "active (emit e w) p = active w p"
  by (auto simp: active_def intro!: filter_cong)

text \<open>C24. While a project is being saved, a progress report of a client that owes its answer (1 to 254,
  above its last one) is taken up: the daemon sends exactly the average over all clients of the
  task, never more than 99, no counter wraps, and the invariant of the save holds again.\<close>

theorem client_task_progressed_average:
  assumes "saving w p" "a \<in> set (active w p)" "0 < x" "x < 255" "cl_task_progress (clients w a) < x"
  shows "\<exists>w' n. client_task_progressed E a x w = Inr w' \<and> saving w' p \<and> active w' p = active w p
    \<and> trace w' = trace w @ [Progress n]
    \<and> unat n = percent (unat (p_tasks_total (projects w p)))
        (done_progress w p + others_progress w p a + min 99 (unat x))"
proof -
  let ?y = "if x > 99 then 99 else x"
  have y: "unat ?y = min 99 (unat x)" by (simp add: word_less_nat_alt)
  then have "unat ?y \<le> 100" by simp
  then obtain pr n where pr: "unat pr = done_progress w p + others_progress w p a + unat ?y"
      and n: "unat n = percent (unat (p_tasks_total (projects w p))) (unat pr)"
      and eff: "project_client_progress p a ?y w = emit (Progress n)
        (upd_client a (\<lambda>c. c\<lparr>cl_task_progress := ?y\<rparr>) (upd_project p (\<lambda>y. y\<lparr>p_tasks_progress := pr\<rparr>) w))"
    using client_progress_effect [OF assms(1,2)] by blast
  let ?w' = "emit (Progress n)
        (upd_client a (\<lambda>c. c\<lparr>cl_task_progress := ?y\<rparr>) (upd_project p (\<lambda>y. y\<lparr>p_tasks_progress := pr\<rparr>) w))"
  have ok: "save_client_ok w p a" using assms(1,2) by (simp add: saving_def)
  then have run: "client_task_progressed E a x w = Inr ?w'"
    using assms(3-5) eff by (auto simp: client_task_progressed_def save_client_ok_def)
  have act: "active ?w' p = active w p" by simp
  have prog: "progress_of ?w' b = (if b = a then unat ?y else progress_of w b)" for b
    by (simp add: progress_of_def)
  have sum: "sum_list (map (progress_of ?w') (active w p)) = others_progress w p a + unat ?y"
  proof -
    have dist: "distinct (active w p)" by (rule savingD(1) [OF assms(1)])
    have same: "map (progress_of ?w') (remove1 a (active w p)) = map (progress_of w) (remove1 a (active w p))"
      using dist by (intro map_cong) (auto simp: prog)
    show ?thesis
      unfolding sum_list_map_remove1 [OF assms(2), of "progress_of ?w'"] same others_progress_def
      by (simp add: progress_of_def)
  qed
  have "saving ?w' p"
    unfolding saving_def act
  proof (intro conjI)
    show "\<forall>b \<in> set (active w p). save_client_ok ?w' p b"
      using assms(1) y by (auto simp: saving_def save_client_ok_def prog)
    show "unat (p_tasks_progress (projects ?w' p)) = 100 * (unat (p_tasks_total (projects ?w' p)) - length (active w p))
        + sum_list (map (progress_of ?w') (active w p))"
      unfolding sum by (simp add: pr done_progress_def)
  qed (use assms(1) in \<open>simp_all add: saving_def\<close>)
  then show ?thesis using run n pr y act by (metis emit_simps(12) upd_client_simps(12) upd_project_simps(12))
qed

section \<open>A client is done\<close>

definition same_task :: "(lash_client \<Rightarrow> lash_client) \<Rightarrow> bool" where
  "same_task f \<longleftrightarrow> (\<forall>c. cl_project (f c) = cl_project c \<and> cl_pending_task (f c) = cl_pending_task c
     \<and> cl_task_type (f c) = cl_task_type c \<and> cl_task_progress (f c) = cl_task_progress c
     \<and> (cl_store c \<noteq> None \<longrightarrow> cl_store (f c) \<noteq> None))"

lemma finish_save:
  assumes "save_client_ok w p a"
  shows "\<exists>f d. finish_task p a s w = Inr (Some ((upd_client a f w)\<lparr>disk := d\<rparr>)) \<and> same_task f"
proof -
  have id_world: "w = (upd_client a (\<lambda>c. c) w)\<lparr>disk := disk w\<rparr>" by (simp add: upd_client_def)
  have id_task: "same_task (\<lambda>c. c)" by (simp add: same_task_def)
  have mark: "mark_saved a w = (upd_client a (\<lambda>c. c\<lparr>cl_flags := cl_flags c OR LASH_Saved\<rparr>) w)\<lparr>disk := disk w\<rparr>"
    by (simp add: mark_saved_def upd_client_def)
  have flags: "same_task (\<lambda>c. c\<lparr>cl_flags := cl_flags c OR LASH_Saved\<rparr>)" by (simp add: same_task_def)
  show ?thesis
  proof (cases "cl_task_type (clients w a) = LASH_Save_File \<or> \<not> s")
    case True
    then have "finish_task p a s w = Inr (Some (if s then mark_saved a w else w))"
      using assms by (auto simp: finish_task_def save_client_ok_def)
    then show ?thesis
    proof (cases s)
      case True
      with \<open>finish_task p a s w = _\<close> have "finish_task p a s w =
          Inr (Some ((upd_client a (\<lambda>c. c\<lparr>cl_flags := cl_flags c OR LASH_Saved\<rparr>) w)\<lparr>disk := disk w\<rparr>))"
        using mark by simp
      then show ?thesis using flags by blast
    next
      case False
      with \<open>finish_task p a s w = _\<close> have "finish_task p a s w =
          Inr (Some ((upd_client a (\<lambda>c. c) w)\<lparr>disk := disk w\<rparr>))"
        using id_world by simp
      then show ?thesis using id_task by blast
    qed
  next
    case False
    then obtain st where st: "cl_task_type (clients w a) = LASH_Save_Data_Set" "cl_store (clients w a) = Some st" "s"
      using assms by (auto simp: save_client_ok_def)
    obtain d st' ok where written: "store_write (disk w) st = (d, st', ok)" by (cases "store_write (disk w) st") auto
    define f where "f = (\<lambda>c :: lash_client. (if ok then c\<lparr>cl_store := Some st', cl_flags := cl_flags c OR LASH_Saved\<rparr>
       else c\<lparr>cl_store := Some st'\<rparr>))"
    have "finish_task p a s w = Inr (Some ((upd_client a f w)\<lparr>disk := d\<rparr>))"
      using st written by (simp add: finish_task_def write_client_store_def mark_saved_def upd_client_def f_def)
    moreover have "same_task f" by (simp add: same_task_def f_def)
    ultimately show ?thesis by blast
  qed
qed

lemma same_task_frame:
  fixes w :: world and a :: addr and d :: fs and f :: "lash_client \<Rightarrow> lash_client"
  assumes "same_task f"
  defines "w' \<equiv> (upd_client a f w)\<lparr>disk := d\<rparr>"
  shows "active w' p = active w p" "progress_of w' b = progress_of w b"
    "others_progress w' p b = others_progress w p b" "done_progress w' p = done_progress w p"
    "saving w p \<Longrightarrow> saving w' p" "cl_task_type (clients w' b) = cl_task_type (clients w b)"
    "cl_project (clients w' b) = cl_project (clients w b)"
proof -
  show act: "active w' p = active w p"
    using assms(1) by (auto simp: w'_def active_def same_task_def intro!: filter_cong)
  show prog: "progress_of w' b = progress_of w b" for b
    using assms(1) by (simp add: w'_def progress_of_def same_task_def)
  show "others_progress w' p b = others_progress w p b"
    by (simp add: others_progress_def act prog cong: map_cong)
  show "done_progress w' p = done_progress w p"
    by (simp add: done_progress_def act) (simp add: w'_def)
  show "cl_task_type (clients w' b) = cl_task_type (clients w b)"
    "cl_project (clients w' b) = cl_project (clients w b)"
    using assms(1) by (simp_all add: w'_def same_task_def)
  have all: "progress_of w' = progress_of w" by (rule ext) (rule prog)
  have ok: "save_client_ok w p b \<Longrightarrow> save_client_ok w' p b" for b
    unfolding save_client_ok_def all using assms(1) by (auto simp: w'_def same_task_def)
  have "projects w' = projects w" by (simp add: w'_def)
  then show "saving w p \<Longrightarrow> saving w' p"
    unfolding saving_def act all using ok by auto
qed

lemma active_reset:
  assumes "distinct (p_clients (projects w p))"
  shows "active (reset_task a w) p = remove1 a (active w p)"
proof -
  have "active (reset_task a w) p = filter (\<lambda>b. b \<noteq> a) (active w p)"
    by (auto simp: active_def reset_task_def filter_filter intro!: filter_cong)
  moreover have "distinct (active w p)" using assms by (simp add: active_def)
  ultimately show ?thesis by (simp add: distinct_remove1_removeAll removeAll_filter_not_eq eq_commute)
qed

text \<open>The state after the answer of a client, the last one or not.\<close>

definition save_step :: "world \<Rightarrow> addr \<Rightarrow> addr \<Rightarrow> world \<Rightarrow> bool" where
  "save_step w p a w' \<longleftrightarrow>
     active w' p = remove1 a (active w p) \<and> p_name (projects w' p) = p_name (projects w p) \<and>
     (if length (active w p) = 1
      then p_task_type (projects w' p) = No_task \<and> (\<exists>n. trace w' = trace w @ [Progress n] @ saved_events w p)
      else saving w' p \<and> p_modified_status (projects w' p) = p_modified_status (projects w p)
        \<and> (\<exists>n. trace w' = trace w @ [Progress n]))"

lemma pending_minus_one:
  fixes n :: u32
  shows "n \<noteq> 0 \<Longrightarrow> unat (n - 1) = unat n - 1"
  by (simp add: unat_minus_one)

lemma project_task_completed_step:
  assumes lib: "uuid_lib_ok (e_uuids E)" and sv: "saving w p" and a: "a \<in> set (active w p)"
  shows "\<exists>w'. project_client_task_completed E p a w = Inr w' \<and> save_step w p a (reset_task a w')"
proof -
  let ?len = "length (active w p)" and ?tot = "unat (p_tasks_total (projects w p))"
  have "unat (100 :: u8) \<le> 100" by simp
  then obtain pr n where pr: "unat pr = done_progress w p + others_progress w p a + 100"
    and eff: "project_client_progress p a 100 w = emit (Progress n)
        (upd_client a (\<lambda>c. c\<lparr>cl_task_progress := 100\<rparr>) (upd_project p (\<lambda>y. y\<lparr>p_tasks_progress := pr\<rparr>) w))"
    using client_progress_effect [OF sv a] by fastforce
  define w2 where "w2 = project_client_progress p a 100 w"
  define w3 where "w3 = upd_project p (\<lambda>x. x\<lparr>p_tasks_pending := p_tasks_pending x - 1\<rparr>) w2"
  have act: "active w2 p = active w p" "active w3 p = active w p" by (simp_all add: w3_def w2_def eff)
  have dist: "distinct (p_clients (projects w p))" "distinct (active w p)"
    using sv savingD(1) by (auto simp: saving_def)
  have ok: "save_client_ok w p a" using sv a by (simp add: saving_def)
  have pend: "unat (p_tasks_pending (projects w3 p)) = ?len - 1" "p_tasks_pending (projects w2 p) \<noteq> 0"
    using sv savingD(4) [OF sv] by (simp_all add: w3_def w2_def eff pending_minus_one saving_def)
  have trace3: "trace w3 = trace w @ [Progress n]" by (simp add: w3_def w2_def eff)
  show ?thesis
  proof (cases "?len = 1")
    case True
    define w4 where "w4 = upd_project p (\<lambda>x. x\<lparr>p_task_type := No_task, p_tasks_total := 0, p_tasks_progress := 0\<rparr>) w3"
    have "p_tasks_pending (projects w3 p) = 0" using pend True by (simp add: unat_eq_zero)
    then have run: "project_client_task_completed E p a w = project_clients_save_complete E p w4"
      using pend(2) ok
      by (auto simp: project_client_task_completed_def w2_def [symmetric] w3_def [symmetric] w4_def [symmetric] Let_def)
        (auto simp: w4_def w3_def w2_def eff save_client_ok_def)
    obtain w' doc where w': "project_clients_save_complete E p w4 = Inr w'" "clients w' = clients w4"
        "trace w' = trace w4 @ saved_events w4 p"
        "projects w' = (projects w4)(p := (projects w4 p)\<lparr>p_doc := Some doc, p_modified_status := False\<rparr>)"
      using save_complete_effect [OF lib, of p w4] by blast
    have "saved_events w4 p = saved_events w p"
      by (simp add: saved_events_def w4_def w3_def w2_def eff)
    moreover have "active w' p = active w p"
    proof -
      have "active w' p = active w4 p" by (simp add: active_def w'(2,4))
      also have "\<dots> = active w p" using act by (simp add: w4_def)
      finally show ?thesis .
    qed
    moreover have "p_clients (projects w' p) = p_clients (projects w p)" "p_name (projects w' p) = p_name (projects w p)"
      "p_task_type (projects w' p) = No_task" "trace w4 = trace w @ [Progress n]"
      by (simp_all add: w'(4) w4_def w3_def w2_def eff)
    ultimately have "save_step w p a (reset_task a w')"
      using True dist active_reset [of w' p a] w'(3) by (auto simp: save_step_def) (simp_all add: reset_task_def)
    then show ?thesis using run w'(1) by auto
  next
    case False
    then have "unat (p_tasks_pending (projects w3 p)) \<noteq> 0"
      using pend(1) length_pos_if_in_set [OF a] by linarith
    then have "p_tasks_pending (projects w3 p) \<noteq> 0" by auto
    then have run: "project_client_task_completed E p a w = Inr w3"
      using pend(2) by (simp add: project_client_task_completed_def w2_def [symmetric] w3_def [symmetric] Let_def)
    let ?w' = "reset_task a w3"
    have act': "active ?w' p = remove1 a (active w p)"
      using active_reset [of w3 p a] dist act by (simp add: w3_def w2_def eff)
    have prog: "progress_of ?w' b = progress_of w b" if "b \<noteq> a" for b
      using that by (simp add: progress_of_def reset_task_def w3_def w2_def eff)
    have sum: "sum_list (map (progress_of ?w') (remove1 a (active w p))) = others_progress w p a"
      unfolding others_progress_def using dist(2) by (intro arg_cong [of _ _ sum_list] map_cong) (auto simp: prog)
    have len: "length (remove1 a (active w p)) = ?len - 1" "0 < ?len" "?len \<le> ?tot"
      using a sv by (auto simp: length_remove1 length_pos_if_in_set saving_def)
    have rest: "?tot - length (remove1 a (active w p)) = Suc (?tot - ?len)" using len by linarith
    have "saving ?w' p"
      unfolding saving_def act'
    proof (intro conjI)
      show "remove1 a (active w p) \<noteq> []" using len False by (cases "remove1 a (active w p)") auto
      show "\<forall>b \<in> set (remove1 a (active w p)). save_client_ok ?w' p b"
        using sv dist(2) prog
        by (auto simp: saving_def save_client_ok_def reset_task_def w3_def w2_def eff)
      show "unat (p_tasks_progress (projects ?w' p)) =
          100 * (unat (p_tasks_total (projects ?w' p)) - length (remove1 a (active w p)))
          + sum_list (map (progress_of ?w') (remove1 a (active w p)))"
        unfolding sum using pr rest by (simp add: done_progress_def reset_task_def w3_def w2_def eff)
      show "unat (p_tasks_pending (projects ?w' p)) = length (remove1 a (active w p))"
        using pend(1) len by (simp add: reset_task_def)
    qed (use sv len in \<open>simp_all add: saving_def reset_task_def w3_def w2_def eff\<close>)
    then have "save_step w p a ?w'"
      using False act' trace3 by (simp add: save_step_def) (simp add: reset_task_def w3_def w2_def eff)
    then show ?thesis using run by blast
  qed
qed

lemma client_task_completed_step_lemma:
  assumes "uuid_lib_ok (e_uuids E)" "saving w p" "a \<in> set (active w p)"
  shows "\<exists>w'. client_task_completed E a s w = Inr w' \<and> save_step w p a w'"
proof -
  have ok: "save_client_ok w p a" using assms(2,3) by (simp add: saving_def)
  then obtain f d where f: "finish_task p a s w = Inr (Some ((upd_client a f w)\<lparr>disk := d\<rparr>))" "same_task f"
    using finish_save by blast
  let ?w1 = "(upd_client a f w)\<lparr>disk := d\<rparr>"
  note frame = same_task_frame [OF f(2), where w = w and a = a and d = d]
  obtain w' where w': "project_client_task_completed E p a ?w1 = Inr w'" "save_step ?w1 p a (reset_task a w')"
    using project_task_completed_step [OF assms(1), of ?w1 p a] assms(2,3) frame by auto
  have "save_step w p a (reset_task a w')"
    using w'(2) frame(1) [of p] by (simp add: save_step_def saved_events_def split: if_splits)
  moreover have "client_task_completed E a s w = Inr (reset_task a w')"
    using ok f w'(1) by (simp add: client_task_completed_def save_client_ok_def)
  ultimately show ?thesis by blast
qed

text \<open>When a client of a running save answers, successfully or not, the save goes on with the other
  clients (the invariant holds again) or, if it was the last one, ends: the project file is
  written, and the daemon announces the completed save; neither case can fault.\<close>

theorem client_task_completed_step:
  assumes "uuid_lib_ok (e_uuids E)" "saving w p" "a \<in> set (active w p)"
  shows "\<exists>w'. client_task_completed E a s w = Inr w' \<and> save_step w p a w'"
  using assms by (rule client_task_completed_step_lemma)

section \<open>The whole save\<close>

lemma saving_frame:
  assumes "saving w p" "clients w' = clients w"
    "p_clients (projects w' p) = p_clients (projects w p)" "p_task_type (projects w' p) = p_task_type (projects w p)"
    "p_tasks_total (projects w' p) = p_tasks_total (projects w p)"
    "p_tasks_pending (projects w' p) = p_tasks_pending (projects w p)"
    "p_tasks_progress (projects w' p) = p_tasks_progress (projects w p)"
  shows "saving w' p"
proof -
  have "active w' p = active w p" by (simp add: active_def assms)
  moreover have "progress_of w' = progress_of w" by (rule ext) (simp add: progress_of_def assms)
  ultimately show ?thesis using assms by (simp add: saving_def save_client_ok_def)
qed

definition begin_save :: "u64 \<Rightarrow> lash_client \<Rightarrow> lash_client" where
  "begin_save task c = c\<lparr>cl_pending_task := task,
     cl_task_type := (if CLIENT_CONFIG_FILE c then LASH_Save_File else LASH_Save_Data_Set), cl_task_progress := 0\<rparr>"

lemma begin_save_flags [simp]:
  "CLIENT_HAS_INTERNAL_STATE (begin_save t c) = CLIENT_HAS_INTERNAL_STATE c"
  "begin_save t (begin_save t c) = begin_save t c"
  by (simp_all add: begin_save_def CLIENT_HAS_INTERNAL_STATE_def CLIENT_CONFIG_FILE_def)

definition stateful :: "world \<Rightarrow> addr \<Rightarrow> addr list" where
  "stateful w p = filter (\<lambda>a. CLIENT_HAS_INTERNAL_STATE (clients w a)) (p_clients (projects w p))"

lemma start_save_eq:
  "start_save p as w =
     w\<lparr>clients := (\<lambda>a. if a \<in> set as \<and> CLIENT_HAS_INTERNAL_STATE (clients w a)
                       then begin_save (task_iter w) (clients w a) else clients w a),
       projects := (projects w)(p := (projects w p)\<lparr>p_tasks_total := p_tasks_total (projects w p) +
         word_of_nat (length (filter (\<lambda>a. CLIENT_HAS_INTERNAL_STATE (clients w a)) as))\<rparr>)\<rparr>"
proof (induction "as" arbitrary: w)
  case Nil
  show ?case by simp
next
  case (Cons a as)
  show ?case
  proof (cases "CLIENT_HAS_INTERNAL_STATE (clients w a)")
    case True
    let ?w1 = "upd_project p (\<lambda>x. x\<lparr>p_tasks_total := p_tasks_total x + 1\<rparr>)
            (upd_client a (begin_save (task_iter w)) w)"
    have step: "start_save p (a # as) w = start_save p as ?w1"
      using True by (simp add: begin_save_def [abs_def])
    have len: "filter (\<lambda>b. CLIENT_HAS_INTERNAL_STATE (clients ?w1 b)) as =
        filter (\<lambda>b. CLIENT_HAS_INTERNAL_STATE (clients w b)) as"
      by (intro filter_cong) auto
    have cl: "(\<lambda>b. if b \<in> set as \<and> CLIENT_HAS_INTERNAL_STATE (clients ?w1 b)
          then begin_save (task_iter ?w1) (clients ?w1 b) else clients ?w1 b) =
        (\<lambda>b. if b \<in> set (a # as) \<and> CLIENT_HAS_INTERNAL_STATE (clients w b)
          then begin_save (task_iter w) (clients w b) else clients w b)"
      using True by (auto simp: fun_eq_iff)
    show ?thesis
      unfolding step Cons.IH len cl using True by (simp add: upd_project_def upd_client_def add.assoc fun_upd_def cong: if_cong)
  next
    case False
    have "(\<lambda>b. if b \<in> set (a # as) \<and> CLIENT_HAS_INTERNAL_STATE (clients w b)
          then begin_save (task_iter w) (clients w b) else clients w b) =
        (\<lambda>b. if b \<in> set as \<and> CLIENT_HAS_INTERNAL_STATE (clients w b)
          then begin_save (task_iter w) (clients w b) else clients w b)"
      using False by (auto simp: fun_eq_iff)
    then show ?thesis using False by (simp add: Cons.IH)
  qed
qed

lemma save_clients_starts:
  assumes "\<forall>a \<in> set (p_clients (projects w p)). cl_pending_task (clients w a) = 0"
    and "distinct (p_clients (projects w p))" "stateful w p \<noteq> []"
    and "length (p_clients (projects w p)) \<le> 2 ^ 24" "task_iter w + 1 \<noteq> 0"
    and "\<forall>a \<in> set (stateful w p). cl_project (clients w a) = Some p \<and>
      (CLIENT_CONFIG_FILE (clients w a) \<or> cl_store (clients w a) \<noteq> None)"
  defines "w' \<equiv> project_save_clients p w"
  shows "saving w' p" "active w' p = stateful w p" "p_tasks_total (projects w' p) \<noteq> 0"
    "\<forall>a \<in> set (stateful w p). cl_pending_task (clients w' a) = task_iter w + 1"
    "trace w' = trace w @ [Save_signal (p_name (projects w p)) (task_iter w + 1)]"
    "p_name (projects w' p) = p_name (projects w p)"
    "p_modified_status (projects w' p) = p_modified_status (projects w p)"
proof -
  let ?P = "\<lambda>a. CLIENT_HAS_INTERNAL_STATE (clients w a)"
  let ?n = "length (stateful w p)"
  have n: "0 < ?n" "?n \<le> 2 ^ 24"
    using assms(3,4) length_filter_le [of ?P "p_clients (projects w p)"]
    by (auto simp: stateful_def simp del: length_filter_le)
  then have unat_n: "unat (word_of_nat ?n :: u32) = ?n" by (simp add: unsigned_of_nat take_bit_nat_eq_self)
  then have nz: "(word_of_nat ?n :: u32) \<noteq> 0" using n(1) by (metis less_not_refl unat_0)
  have cl: "clients w' = (\<lambda>a. if a \<in> set (p_clients (projects w p)) \<and> ?P a
      then begin_save (task_iter w + 1) (clients w a) else clients w a)"
    and pr: "projects w' p = (projects w p)\<lparr>p_task_type := Task_save, p_tasks_total := word_of_nat ?n,
      p_tasks_pending := word_of_nat ?n, p_tasks_progress := 0\<rparr>"
    and tr: "trace w' = trace w @ [Save_signal (p_name (projects w p)) (task_iter w + 1)]"
    using assms(1) nz
    by (auto simp: w'_def project_save_clients_def start_save_eq Let_def stateful_def)
  show act: "active w' p = stateful w p"
    using assms(1,5) by (auto simp: active_def stateful_def pr cl begin_save_def intro!: filter_cong)
  show "trace w' = trace w @ [Save_signal (p_name (projects w p)) (task_iter w + 1)]" by (rule tr)
  show "p_name (projects w' p) = p_name (projects w p)" "p_tasks_total (projects w' p) \<noteq> 0"
    "p_modified_status (projects w' p) = p_modified_status (projects w p)"
    using nz by (simp_all add: pr)
  show "\<forall>a \<in> set (stateful w p). cl_pending_task (clients w' a) = task_iter w + 1"
    by (auto simp: cl stateful_def begin_save_def)
  have zero: "sum_list (map (progress_of w') (stateful w p)) = 0"
    by (auto simp: progress_of_def cl stateful_def begin_save_def)
  show "saving w' p"
    unfolding saving_def act
  proof (intro conjI)
    show "\<forall>a \<in> set (stateful w p). save_client_ok w' p a"
      using assms(6) by (auto simp: save_client_ok_def progress_of_def cl stateful_def begin_save_def)
    show "unat (p_tasks_progress (projects w' p)) = 100 * (unat (p_tasks_total (projects w' p)) - ?n)
        + sum_list (map (progress_of w') (stateful w p))"
      unfolding zero by (simp add: pr unat_n)
  qed (use assms(2,3) n unat_n in \<open>simp_all add: pr\<close>)
qed

text \<open>What a save needs to start: no client busy, and stores for the clients that save into one.\<close>

definition can_save :: "world \<Rightarrow> addr \<Rightarrow> bool" where
  "can_save w p \<longleftrightarrow> (\<forall>a \<in> set (p_clients (projects w p)). cl_pending_task (clients w a) = 0)
     \<and> distinct (p_clients (projects w p)) \<and> length (p_clients (projects w p)) \<le> 2 ^ 24
     \<and> task_iter w + 1 \<noteq> 0
     \<and> (\<forall>a \<in> set (stateful w p). cl_project (clients w a) = Some p \<and>
         (CLIENT_CONFIG_FILE (clients w a) \<or> cl_store (clients w a) \<noteq> None))"

lemma save_notes_frame:
  "\<exists>d. fst (project_save_notes p w) = w\<lparr>disk := d\<rparr>"
proof (cases "posix_write_file (disk w) (under (p_directory (projects w p)) PROJECT_NOTES_FILE)
      (case p_notes (projects w p) of Some s \<Rightarrow> s | None \<Rightarrow> '''')")
  case (Inl e)
  then have "fst (project_save_notes p w) = w\<lparr>disk := disk w\<rparr>" by (simp add: project_save_notes_def Let_def)
  then show ?thesis by blast
next
  case (Inr d)
  then have "fst (project_save_notes p w) = w\<lparr>disk := d\<rparr>" by (simp add: project_save_notes_def Let_def)
  then show ?thesis by blast
qed

lemma project_save_starts_lemma:
  assumes "can_save w p" "p_task_type (projects w p) = No_task" "stateful w p \<noteq> []"
  shows "\<exists>w'. project_save E p w = Inr w' \<and> saving w' p \<and> active w' p = stateful w p
    \<and> (\<forall>a \<in> set (stateful w p). cl_pending_task (clients w' a) = task_iter w + 1)
    \<and> trace w' = trace w @ [Progress 0, Save_signal (p_name (projects w p)) (task_iter w + 1)]
    \<and> p_name (projects w' p) = p_name (projects w p)
    \<and> p_modified_status (projects w' p) = p_modified_status (projects w p)"
proof -
  define w3 where "w3 = (let w1 = emit (Progress 0) w;
             w2 = (if p \<in> set (all_projects w1) then w1 else w1\<lparr>all_projects := all_projects w1 @ [p]\<rparr>)
         in if lash_dir_exists (disk w2) (p_directory (projects w2 p)) then w2
            else w2\<lparr>disk := lash_create_dir (disk w2) (lash_strdup (p_directory (projects w2 p)))\<rparr>)"
  have w3: "clients w3 = clients w" "projects w3 = projects w" "task_iter w3 = task_iter w"
    "trace w3 = trace w @ [Progress 0]"
    by (simp_all add: w3_def Let_def)
  have st: "stateful w3 p = stateful w p" by (simp add: stateful_def w3)
  have pre: "\<forall>a \<in> set (p_clients (projects w3 p)). cl_pending_task (clients w3 a) = 0"
      "distinct (p_clients (projects w3 p))" "stateful w3 p \<noteq> []"
      "length (p_clients (projects w3 p)) \<le> 2 ^ 24" "task_iter w3 + 1 \<noteq> 0"
      "\<forall>a \<in> set (stateful w3 p). cl_project (clients w3 a) = Some p \<and>
        (CLIENT_CONFIG_FILE (clients w3 a) \<or> cl_store (clients w3 a) \<noteq> None)"
    using assms by (auto simp: can_save_def st w3)
  note start = save_clients_starts [OF pre]
  let ?w4 = "project_save_clients p w3"
  let ?w5 = "?w4\<lparr>jackdbus := get_graph (e_graph E) (jackdbus ?w4)\<rparr>"
  obtain d where d: "fst (project_save_notes p ?w5) = ?w5\<lparr>disk := d\<rparr>" using save_notes_frame by blast
  let ?w7 = "project_clear_lost_clients p (?w5\<lparr>disk := d\<rparr>)"
  have body: "project_save E p w = (let w4 = project_save_clients p w3;
             w5 = w4\<lparr>jackdbus := get_graph (e_graph E) (jackdbus w4)\<rparr>;
             w6 = fst (project_save_notes p w5);
             w7 = project_clear_lost_clients p w6
         in if p_tasks_total (projects w7 p) = 0 then project_clients_save_complete E p w7 else Inr w7)"
    unfolding project_save_def w3_def Let_def by (simp only: assms(2) simp_thms if_False)
  have total: "p_tasks_total (projects ?w7 p) = p_tasks_total (projects ?w4 p)"
    by (simp add: project_clear_lost_clients_def)
  have run: "project_save E p w = Inr ?w7"
    unfolding body Let_def d total using start(3) by (simp only: simp_thms if_False)
  have "clients ?w7 = clients ?w4" "trace ?w7 = trace ?w4" by (simp_all add: project_clear_lost_clients_def)
  moreover have "saving ?w7 p"
    using start(1) by (rule saving_frame) (simp_all add: project_clear_lost_clients_def)
  moreover have "active ?w7 p = active ?w4 p" by (simp add: active_def project_clear_lost_clients_def)
  moreover have "p_name (projects ?w7 p) = p_name (projects ?w4 p)"
      "p_modified_status (projects ?w7 p) = p_modified_status (projects ?w4 p)"
    by (simp_all add: project_clear_lost_clients_def)
  ultimately show ?thesis using run start by (simp add: st w3)
qed

text \<open>C22. Saving a project whose clients are idle and of which at least one keeps state asks all of those
  clients, and only them, to save under one new task number, and leaves the project in a save
  whose invariant holds.\<close>

theorem project_save_starts:
  assumes "can_save w p" "p_task_type (projects w p) = No_task" "stateful w p \<noteq> []"
  shows "\<exists>w'. project_save E p w = Inr w' \<and> saving w' p \<and> active w' p = stateful w p
    \<and> (\<forall>a \<in> set (stateful w p). cl_pending_task (clients w' a) = task_iter w + 1)
    \<and> trace w' = trace w @ [Progress 0, Save_signal (p_name (projects w p)) (task_iter w + 1)]"
  using project_save_starts_lemma [OF assms, of E] by blast

text \<open>The answers of the clients, in some order.\<close>

fun answers :: "env \<Rightarrow> (addr \<times> bool) list \<Rightarrow> world \<Rightarrow> world res" where
  "answers E [] w = Inr w"
| "answers E ((a, s) # xs) w = bindr (client_task_completed E a s w) (answers E xs)"

lemma answers_complete:
  assumes "uuid_lib_ok (e_uuids E)"
  shows "saving w p \<Longrightarrow> distinct (map fst xs) \<Longrightarrow> set (map fst xs) = set (active w p) \<Longrightarrow>
    \<exists>w' ns. answers E xs w = Inr w' \<and> p_task_type (projects w' p) = No_task \<and> active w' p = []
      \<and> length ns = length xs \<and> trace w' = trace w @ map Progress ns @ saved_events w p"
proof (induction xs arbitrary: w)
  case Nil
  then show ?case by (simp add: saving_def)
next
  case (Cons x xs)
  obtain a s where x: "x = (a, s)" by force
  have a: "a \<in> set (active w p)" using Cons.prems(3) x by auto
  obtain w1 where w1: "client_task_completed E a s w = Inr w1" "save_step w p a w1"
    using client_task_completed_step_lemma [OF assms Cons.prems(1) a] by blast
  have act: "active w1 p = remove1 a (active w p)" using w1(2) by (simp add: save_step_def)
  have dist: "distinct (active w p)" by (rule savingD(1) [OF Cons.prems(1)])
  have rest: "set (map fst xs) = set (active w1 p)"
    using Cons.prems(2,3) x dist by (auto simp: act)
  show ?case
  proof (cases "length (active w p) = 1")
    case True
    then obtain n where n: "p_task_type (projects w1 p) = No_task" "trace w1 = trace w @ [Progress n] @ saved_events w p"
      using w1(2) by (auto simp: save_step_def)
    have "active w1 p = []" using act True a by (cases "active w p") auto
    then have "xs = []" using rest by simp
    then have "answers E (x # xs) w = Inr w1" using x w1(1) by simp
    then show ?thesis using n \<open>active w1 p = []\<close> \<open>xs = []\<close>
      by (intro exI [of _ w1] exI [of _ "[n]"]) simp
  next
    case False
    then obtain n where n: "saving w1 p" "trace w1 = trace w @ [Progress n]"
        "saved_events w1 p = saved_events w p"
      using w1(2) by (auto simp: save_step_def saved_events_def)
    then obtain w' ns where w': "answers E xs w1 = Inr w'" "p_task_type (projects w' p) = No_task" "active w' p = []"
        "length ns = length xs" "trace w' = trace w1 @ map Progress ns @ saved_events w1 p"
      using Cons.IH [OF n(1) _ rest] Cons.prems(2) by auto
    then show ?thesis using x w1(1) n by (intro exI [of _ w'] exI [of _ "n # ns"]) simp
  qed
qed

text \<open>C2. Once every client asked has answered, in whatever order and with whatever success, the save is
  over: the task is free again, and the daemon announced the saved project exactly once, as the
  last thing, after one progress signal per client.\<close>

theorem save_completes_once:
  assumes "uuid_lib_ok (e_uuids E)" "can_save w p" "p_task_type (projects w p) = No_task" "stateful w p \<noteq> []"
    and "distinct (map fst xs)" "set (map fst xs) = set (stateful w p)"
  shows "\<exists>w' ns. bindr (project_save E p w) (answers E xs) = Inr w'
    \<and> p_task_type (projects w' p) = No_task \<and> active w' p = []
    \<and> trace w' = trace w @ [Progress 0, Save_signal (p_name (projects w p)) (task_iter w + 1)]
        @ map Progress ns @ saved_events w p \<and> length ns = length xs"
proof -
  obtain w1 where w1: "project_save E p w = Inr w1" "saving w1 p" "active w1 p = stateful w p"
      "trace w1 = trace w @ [Progress 0, Save_signal (p_name (projects w p)) (task_iter w + 1)]"
      "p_name (projects w1 p) = p_name (projects w p)"
      "p_modified_status (projects w1 p) = p_modified_status (projects w p)"
    using project_save_starts_lemma [OF assms(2-4), of E] by blast
  then have "saved_events w1 p = saved_events w p" by (simp add: saved_events_def)
  then show ?thesis
    using answers_complete [OF assms(1) w1(2) assms(5)] assms(6) w1 by auto
qed

section \<open>Examples\<close>

definition example_env :: env where
  "example_env = \<lparr>e_uuids = example_uuids, e_content = (\<lambda>s. s), e_xml_save = (\<lambda>_. ''''),
     e_xml_parse = (\<lambda>_. None), e_graph = (\<lambda>_. None), e_pid_of = (\<lambda>_. 0), e_call_ok = True,
     e_send_ok = True, e_accept = (\<lambda>_ _ _ _. True)\<rparr>"

text \<open>Both clients of the example save into a file; first nothing goes on, then they are asked to
  save, and one has come to 40 per cent.\<close>

definition example_file_world :: world where
  "example_file_world = upd_client 0 (\<lambda>c. c\<lparr>cl_flags := LASH_Config_File\<rparr>)
     (upd_client 1 (\<lambda>c. c\<lparr>cl_flags := LASH_Config_File\<rparr>) example_world)"

definition example_saving :: world where
  "example_saving = upd_client 0 (\<lambda>c. c\<lparr>cl_pending_task := 1, cl_task_type := LASH_Save_File\<rparr>)
     (upd_client 1 (\<lambda>c. c\<lparr>cl_pending_task := 1, cl_task_type := LASH_Save_File, cl_task_progress := 40\<rparr>)
       (upd_project 0 (\<lambda>x. x\<lparr>p_task_type := Task_save, p_tasks_total := 2, p_tasks_pending := 2,
          p_tasks_progress := 40\<rparr>) example_file_world))"

lemmas example_defs = example_saving_def example_file_world_def example_world_def example_env_def

lemma example_active: "active example_saving 0 = [0, 1]"
  by (simp add: active_def example_defs project_new_def client_new_def)

lemma example_saving_ok: "saving example_saving 0"
  unfolding saving_def example_active
  by (simp add: example_defs project_new_def client_new_def save_client_ok_def progress_of_def)

lemma example_stateful: "stateful example_file_world 0 = [0, 1]"
  by (simp add: stateful_def example_defs project_new_def client_new_def CLIENT_HAS_INTERNAL_STATE_def flag_defs)

lemma example_can_save: "can_save example_file_world 0"
  unfolding can_save_def example_stateful
  by (simp add: example_defs project_new_def client_new_def CLIENT_CONFIG_FILE_def flag_defs)

lemma example_idle: "p_task_type (projects example_file_world 0) = No_task"
  by (simp add: example_defs project_new_def)

theorem client_task_progressed_average_witness:
  "\<exists>w' n. client_task_progressed example_env 1 70 example_saving = Inr w' \<and> saving w' 0
    \<and> active w' 0 = [0, 1] \<and> trace w' = [Progress n] \<and> unat n = 35"
proof -
  have t: "unat (p_tasks_total (projects example_saving 0)) = 2" "trace example_saving = []"
      "cl_task_progress (clients example_saving 1) = 40"
    by (simp_all add: example_defs project_new_def client_new_def)
  have p: "done_progress example_saving 0 = 0" "others_progress example_saving 0 1 = 0"
    unfolding done_progress_def others_progress_def example_active t
    by (simp_all add: progress_of_def example_defs project_new_def client_new_def)
  show ?thesis
    using client_task_progressed_average [OF example_saving_ok, of 1 70 example_env]
    by (simp add: example_active t p percent_def del: One_nat_def)
qed

theorem client_task_completed_step_witness:
  "\<exists>w'. client_task_completed example_env 1 True example_saving = Inr w' \<and> saving w' 0 \<and> active w' 0 = [0]"
  using client_task_completed_step [of example_env example_saving 0 1 True]
  by (auto simp: example_env_def example_uuids_ok example_saving_ok example_active save_step_def)

theorem project_save_starts_witness:
  "\<exists>w'. project_save example_env 0 example_file_world = Inr w' \<and> saving w' 0 \<and> active w' 0 = [0, 1]
    \<and> cl_pending_task (clients w' 0) = 1 \<and> cl_pending_task (clients w' 1) = 1"
proof -
  have "task_iter example_file_world = 0" by (simp add: example_defs)
  then show ?thesis
    using project_save_starts [OF example_can_save example_idle, of example_env]
    by (auto simp: example_stateful)
qed

theorem save_completes_once_witness:
  "\<exists>w' ns. bindr (project_save example_env 0 example_file_world) (answers example_env [(1, True), (0, False)]) = Inr w'
    \<and> p_task_type (projects w' 0) = No_task \<and> length ns = 2
    \<and> trace w' = [Progress 0, Save_signal (Some ''demo'') 1] @ map Progress ns
        @ saved_events example_file_world 0"
proof -
  have "task_iter example_file_world = 0" "trace example_file_world = []"
      "p_name (projects example_file_world 0) = Some ''demo''"
    by (simp_all add: example_defs project_new_def)
  moreover have "uuid_lib_ok (e_uuids example_env)" by (simp add: example_env_def example_uuids_ok)
  ultimately show ?thesis
    using save_completes_once [OF _ example_can_save example_idle, of example_env "[(1, True), (0, False)]"]
    by (auto simp: example_stateful numeral_2_eq_2)
qed

end
