(* ===== verification/Hazards.thy ===== *)
theory Hazards
  imports Tasks Server
begin

text \<open>
  Sequences of ordinary operations after which the daemon cannot go on as it means to: a save that never
  ends, a project that can no longer be saved, clients that are never launched, a fault.
  Each theorem shows what the code of \<^verbatim>\<open>lashd/project.c\<close>, \<^verbatim>\<open>client.c\<close> and \<^verbatim>\<open>server.c\<close> does.
\<close>

section \<open>A client lost during a save\<close>

text \<open>What losing a client leaves alone.\<close>

lemma lose_store_frame:
  "projects (lose_store a w) = projects w" "b \<noteq> a \<Longrightarrow> clients (lose_store a w) b = clients w b"
  by (simp_all add: lose_store_def split: prod.split option.split)

lemma lose_dirs_frame:
  "projects (lose_dirs p a w) = projects w" "clients (lose_dirs p a w) = clients w"
  by (simp_all add: lose_dirs_def Let_def)

lemma lose_jack_frame:
  "projects (lose_jack a w) = projects w" "b \<noteq> a \<Longrightarrow> clients (lose_jack a w) b = clients w b"
  by (simp_all add: lose_jack_def Let_def split: prod.split option.split)

lemma modified_frame:
  "clients (project_set_modified_status p b w) = clients w"
  "projects (project_set_modified_status p b w) =
     (projects w)(p := (projects w p)\<lparr>p_modified_status := b\<rparr>)"
proof -
  show "clients (project_set_modified_status p b w) = clients w" by (simp add: project_set_modified_status_def)
  show "projects (project_set_modified_status p b w) =
      (projects w)(p := (projects w p)\<lparr>p_modified_status := b\<rparr>)"
  proof (cases "p_modified_status (projects w p) = b")
    case True
    then have "(projects w p)\<lparr>p_modified_status := b\<rparr> = projects w p" by (intro project.equality) simp_all
    then have "(projects w)(p := (projects w p)\<lparr>p_modified_status := b\<rparr>) = projects w" by (intro fun_upd_idem) simp
    then show ?thesis using True by (simp add: project_set_modified_status_def)
  qed (simp add: project_set_modified_status_def)
qed

lemma lose_client_frame:
  "b \<noteq> a \<Longrightarrow> clients (project_lose_client p a w) b = clients w b"
  "projects (project_lose_client p a w) = (projects w)(p := (projects w p)
     \<lparr>p_lost_clients := a # p_lost_clients (projects w p), p_modified_status := True\<rparr>)"
  by (simp_all add: project_lose_client_def Let_def modified_frame lose_store_frame lose_dirs_frame lose_jack_frame)

text \<open>More answers are waited for than clients can give.\<close>

definition stalled :: "world \<Rightarrow> addr \<Rightarrow> bool" where
  "stalled w p \<longleftrightarrow> p_task_type (projects w p) = Task_save \<and> distinct (p_clients (projects w p))
     \<and> length (active w p) < unat (p_tasks_pending (projects w p))
     \<and> (\<forall>a \<in> set (active w p). save_client_ok w p a)"

lemma disconnect_stalls:
  assumes "saving w p" "a \<in> set (active w p)"
  defines "w' \<equiv> client_disconnected (Some a) w"
  shows "stalled w' p" "active w' p = remove1 a (active w p)"
proof -
  have proj: "cl_project (clients w a) = Some p" using assms(1,2) by (simp add: saving_def save_client_ok_def)
  then have w': "w' = project_lose_client p a (unlink_client p a w)" by (simp add: w'_def client_disconnected_def)
  have cl: "clients w' b = clients w b" if "b \<noteq> a" for b
    using that by (simp add: w' lose_client_frame unlink_client_def)
  have pr: "p_clients (projects w' p) = remove1 a (p_clients (projects w p))"
      "p_task_type (projects w' p) = p_task_type (projects w p)"
      "p_tasks_pending (projects w' p) = p_tasks_pending (projects w p)"
    by (simp_all add: w' lose_client_frame unlink_client_def del_def)
  have dist: "distinct (p_clients (projects w p))" using assms(1) by (simp add: saving_def)
  then have notin: "a \<notin> set (remove1 a (p_clients (projects w p)))" by simp
  have "active w' p = filter (\<lambda>b. cl_pending_task (clients w b) \<noteq> 0) (remove1 a (p_clients (projects w p)))"
    unfolding active_def pr
  proof (rule filter_cong [OF refl])
    fix b assume "b \<in> set (remove1 a (p_clients (projects w p)))"
    then have "b \<noteq> a" using notin by auto
    then show "(cl_pending_task (clients w' b) \<noteq> 0) = (cl_pending_task (clients w b) \<noteq> 0)" by (simp add: cl)
  qed
  then show act: "active w' p = remove1 a (active w p)" by (simp add: active_def filter_remove1)
  have "save_client_ok w' p b" if "b \<in> set (active w' p)" for b
  proof -
    have "b \<noteq> a" "b \<in> set (active w p)" using that dist unfolding act by (auto simp: active_def)
    then show ?thesis using assms(1) cl by (auto simp: saving_def save_client_ok_def progress_of_def)
  qed
  then show "stalled w' p"
    using assms(1,2) dist length_pos_if_in_set [OF assms(2)]
    by (auto simp: stalled_def act pr saving_def length_remove1)
qed

lemma client_progress_frame:
  "clients (project_client_progress p a x w) = (clients w)(a := (clients w a)\<lparr>cl_task_progress := x\<rparr>)"
  "\<exists>pr. projects (project_client_progress p a x w) = (projects w)(p := (projects w p)\<lparr>p_tasks_progress := pr\<rparr>)"
proof -
  show "clients (project_client_progress p a x w) = (clients w)(a := (clients w a)\<lparr>cl_task_progress := x\<rparr>)"
    by (simp add: project_client_progress_def Let_def)
  let ?old = "cl_task_progress (clients w a)"
  have "projects (project_client_progress p a x w) = (projects w)(p := (projects w p)\<lparr>p_tasks_progress :=
      (if ?old \<noteq> 0 then p_tasks_progress (projects w p) - ucast ?old else p_tasks_progress (projects w p)) + ucast x\<rparr>)"
    by (cases "?old = 0") (simp_all add: project_client_progress_def Let_def)
  then show "\<exists>pr. projects (project_client_progress p a x w) = (projects w)(p := (projects w p)\<lparr>p_tasks_progress := pr\<rparr>)"
    by blast
qed

lemma stalled_step:
  assumes "stalled w p" "a \<in> set (active w p)"
  shows "\<exists>w'. client_task_completed E a s w = Inr w' \<and> stalled w' p \<and> active w' p = remove1 a (active w p)"
proof -
  have ok: "save_client_ok w p a" using assms by (simp add: stalled_def)
  then obtain f d where f: "finish_task p a s w = Inr (Some ((upd_client a f w)\<lparr>disk := d\<rparr>))" "same_task f"
    using finish_save by blast
  define w1 where "w1 = (upd_client a f w)\<lparr>disk := d\<rparr>"
  note frame = same_task_frame [OF f(2), where w = w and a = a and d = d, folded w1_def]
  define w2 where "w2 = project_client_progress p a 100 w1"
  have cl2: "clients w2 = (clients w1)(a := (clients w1 a)\<lparr>cl_task_progress := 100\<rparr>)"
    by (simp add: w2_def client_progress_frame)
  obtain pr where pr2: "projects w2 = (projects w)(p := (projects w p)\<lparr>p_tasks_progress := pr\<rparr>)"
    using client_progress_frame(2) [of p a 100 w1] by (auto simp: w2_def w1_def)
  define w3 where "w3 = upd_project p (\<lambda>x. x\<lparr>p_tasks_pending := p_tasks_pending x - 1\<rparr>) w2"
  have len: "0 < length (active w p)" using assms(2) by (rule length_pos_if_in_set)
  have nz: "p_tasks_pending (projects w2 p) \<noteq> 0" using assms(1) len by (auto simp: stalled_def pr2)
  have pend: "unat (p_tasks_pending (projects w3 p)) = unat (p_tasks_pending (projects w p)) - 1"
    using nz by (simp add: w3_def pr2 pending_minus_one)
  moreover have "length (active w p) < unat (p_tasks_pending (projects w p))" using assms(1) by (simp add: stalled_def)
  ultimately have "unat (p_tasks_pending (projects w3 p)) \<noteq> 0" using len by linarith
  then have "p_tasks_pending (projects w3 p) \<noteq> 0" by auto
  then have "project_client_task_completed E p a w1 = Inr w3"
    using nz by (simp add: project_client_task_completed_def w2_def [symmetric] w3_def [symmetric] Let_def)
  then have run: "client_task_completed E a s w = Inr (reset_task a w3)"
    using ok f(1) by (simp add: client_task_completed_def save_client_ok_def w1_def)
  have dist: "distinct (p_clients (projects w p))" using assms(1) by (simp add: stalled_def)
  have "active w3 p = active w1 p" by (auto simp: active_def w3_def cl2 pr2 w1_def intro!: filter_cong)
  then have act: "active (reset_task a w3) p = remove1 a (active w p)"
    using active_reset [of w3 p a] dist frame(1) [of p] by (simp add: w3_def pr2)
  have "save_client_ok (reset_task a w3) p b" if "b \<in> set (remove1 a (active w p))" for b
  proof -
    have "b \<noteq> a" "b \<in> set (active w p)" using that dist by (auto simp: active_def)
    then show ?thesis
      using assms(1) by (auto simp: stalled_def save_client_ok_def progress_of_def reset_task_def w3_def cl2 w1_def)
  qed
  moreover have "length (remove1 a (active w p)) < unat (p_tasks_pending (projects (reset_task a w3) p))"
  proof -
    have "length (active w p) < unat (p_tasks_pending (projects w p))" using assms(1) by (simp add: stalled_def)
    then have "length (active w p) - 1 < unat (p_tasks_pending (projects w3 p))" using pend len by linarith
    then show ?thesis using assms(2) by (simp add: length_remove1) (simp add: reset_task_def)
  qed
  moreover have "p_task_type (projects (reset_task a w3) p) = Task_save"
      "distinct (p_clients (projects (reset_task a w3) p))"
    using assms(1) by (simp_all add: stalled_def reset_task_def w3_def pr2)
  ultimately have "stalled (reset_task a w3) p" by (simp add: stalled_def act)
  then show ?thesis using run act by blast
qed

lemma stalled_answers:
  "stalled w p \<Longrightarrow> distinct (map fst xs) \<Longrightarrow> set (map fst xs) \<subseteq> set (active w p) \<Longrightarrow>
     \<exists>w'. answers E xs w = Inr w' \<and> stalled w' p"
proof (induction xs arbitrary: w)
  case (Cons x xs)
  obtain a s where x: "x = (a, s)" by force
  obtain w1 where w1: "client_task_completed E a s w = Inr w1" "stalled w1 p" "active w1 p = remove1 a (active w p)"
    using stalled_step [OF Cons.prems(1), of a E s] Cons.prems(3) x by auto
  have "distinct (active w p)" using Cons.prems(1) by (simp add: stalled_def active_def)
  then have "set (map fst xs) \<subseteq> set (active w1 p)" using Cons.prems(2,3) x w1(3) by auto
  then show ?case using Cons.IH [OF w1(2)] Cons.prems(2) x w1(1) by auto
qed simp



section \<open>Saving while a client is busy\<close>

lemma clear_lost_frame:
  "clients (project_clear_lost_clients p w) = clients w" "trace (project_clear_lost_clients p w) = trace w"
  "projects (project_clear_lost_clients p w) = (projects w)(p := (projects w p)\<lparr>p_lost_clients := []\<rparr>)"
  by (simp_all add: project_clear_lost_clients_def Let_def)

text \<open>When a client of an idle project is still busy with a task of its own, as after it was launched
  and told to load its file, a request to save the project asks no client to save, and yet the
  daemon announces the project as saved.\<close>

theorem busy_client_save_announced:
  assumes "uuid_lib_ok (e_uuids E)" "p_task_type (projects w p) = No_task" "p_tasks_total (projects w p) = 0"
    and "a \<in> set (p_clients (projects w p))" "cl_pending_task (clients w a) \<noteq> 0"
  shows "\<exists>w'. project_save E p w = Inr w' \<and> trace w' = trace w @ Progress 0 # saved_events w p
    \<and> clients w' = clients w"
proof -
  define w3 where "w3 = (let w1 = emit (Progress 0) w;
             w2 = (if p \<in> set (all_projects w1) then w1 else w1\<lparr>all_projects := all_projects w1 @ [p]\<rparr>)
         in if lash_dir_exists (disk w2) (p_directory (projects w2 p)) then w2
            else w2\<lparr>disk := lash_create_dir (disk w2) (lash_strdup (p_directory (projects w2 p)))\<rparr>)"
  have w3: "clients w3 = clients w" "projects w3 = projects w" "trace w3 = trace w @ [Progress 0]"
    by (simp_all add: w3_def Let_def)
  let ?w5 = "w3\<lparr>jackdbus := get_graph (e_graph E) (jackdbus w3)\<rparr>"
  obtain d where d: "fst (project_save_notes p ?w5) = ?w5\<lparr>disk := d\<rparr>" using save_notes_frame by blast
  let ?w7 = "project_clear_lost_clients p (?w5\<lparr>disk := d\<rparr>)"
  have "project_save_clients p w3 = w3" using assms(4,5) by (auto simp: project_save_clients_def w3)
  moreover have "p_tasks_total (projects ?w7 p) = 0" using assms(3) by (simp add: clear_lost_frame w3)
  moreover have "project_save E p w = (let w4 = project_save_clients p w3;
             w5 = w4\<lparr>jackdbus := get_graph (e_graph E) (jackdbus w4)\<rparr>;
             w6 = fst (project_save_notes p w5);
             w7 = project_clear_lost_clients p w6
         in if p_tasks_total (projects w7 p) = 0 then project_clients_save_complete E p w7 else Inr w7)"
    unfolding project_save_def w3_def Let_def by (simp only: assms(2) simp_thms if_False)
  ultimately have "project_save E p w = project_clients_save_complete E p ?w7" by (simp add: Let_def d)
  moreover have "saved_events ?w7 p = saved_events w p" by (simp add: saved_events_def clear_lost_frame w3)
  ultimately show ?thesis
    using save_complete_effect [OF assms(1), of p ?w7] by (auto simp: clear_lost_frame w3)
qed

theorem busy_client_save_announced_witness:
  "\<exists>w'. project_save example_env 0 (project_load_file 0 example_world) = Inr w'
    \<and> trace w' = [Load_call (Some '':0'') 1 None, Progress 0, Progress 100, Project_saved (Some ''demo'')]"
proof -
  let ?w = "project_load_file 0 example_world"
  have w: "projects ?w = projects example_world" "cl_pending_task (clients ?w 0) \<noteq> 0"
      "trace ?w = [Load_call (Some '':0'') 1 None]"
    by (simp_all add: project_load_file_def Let_def example_world_def client_new_def) code_simp
  have p: "p_task_type (projects example_world 0) = No_task" "p_tasks_total (projects example_world 0) = 0"
      "0 \<in> set (p_clients (projects example_world 0))" "p_name (projects example_world 0) = Some ''demo''"
      "\<not> p_modified_status (projects example_world 0)"
    by (simp_all add: example_world_def project_new_def)
  show ?thesis
    using busy_client_save_announced [of example_env ?w 0 0] w p
    by (auto simp: example_env_def example_uuids_ok saved_events_def)
qed

section \<open>Restoring a project without clients\<close>

text \<open>The document a save writes for a project without clients.\<close>

definition empty_doc :: "string \<Rightarrow> cstr \<Rightarrow> xml" where
  "empty_doc name description = Elem ''lash_project'' None
     [leaf ''version'' (Some ''1.0''), leaf ''name'' (Some name), leaf ''description'' description]"

lemma empty_doc_written:
  "p_clients (projects w p) = [] \<Longrightarrow> p_name (projects w p) = Some name \<Longrightarrow>
     project_create_xml E p w = Inr (w, empty_doc name (p_description (projects w p)))"
  by (simp add: project_create_xml_def empty_doc_def)

lemma load_notes_frame:
  "links (project_load_notes p w) = links w" "clients (project_load_notes p w) = clients w"
  "p_name (projects (project_load_notes p w) q) = p_name (projects w q)"
  "loaded_projects (project_load_notes p w) = loaded_projects w"
  "p_lost_clients (projects (project_load_notes p w) q) = p_lost_clients (projects w q)"
  by (simp_all add: project_load_notes_def split: option.split)

lemma find_by_str_cong:
  "(\<And>a. a \<in> set as \<Longrightarrow> f a = g a) \<Longrightarrow> find_by_str f s as = find_by_str g s as"
  by (induction "as") (simp_all split: option.split)

text \<open>A project that was saved without clients can be restored, but never saved again: the restore
  counts no clients, so no answer ever ends its task, and requests to save are ignored.\<close>

theorem restored_empty_project_unsavable:
  assumes "p \<notin> set (loaded_projects w)" "p_doc (projects w p) = Some (empty_doc name descr)"
    and "p_lost_clients (projects w p) = []"
    and "server_find_project_by_name w (Some (e_content E name)) = Inr None"
  shows "\<exists>w'. server_project_restore E p w = Inr (w', True) \<and> loaded_projects w' = loaded_projects w @ [p]
    \<and> p_task_type (projects w' p) = Task_load \<and> project_save E p w' = Inr w'"
proof -
  let ?name = "e_content E name"
  define w1 where "w1 = upd_project p (\<lambda>x. x\<lparr>p_name := Some ?name\<rparr>) w"
  define w2 where "w2 = upd_project p (\<lambda>x. x\<lparr>p_modified_status := False\<rparr>) (project_load_notes p w1)"
  have load: "project_load E p w = Inr (w2, True)"
    using assms(2) by (simp add: project_load_def empty_doc_def w2_def w1_def load_notes_frame)
  have w2: "loaded_projects w2 = loaded_projects w" "p_name (projects w2 p) = Some ?name"
      "p_lost_clients (projects w2 p) = []"
    using assms(3) by (simp_all add: w2_def load_notes_frame w1_def)
  have names: "p_name (projects w2 q) = p_name (projects w q)" if "q \<in> set (loaded_projects w)" for q
    using that assms(1) by (auto simp: w2_def load_notes_frame w1_def)
  have "server_find_project_by_name w2 (Some ?name) = Inr None"
    using assms(4) find_by_str_cong [OF names] by (simp add: server_find_project_by_name_def w2(1))
  then have "avoid_name_clash p w2 = Inr w2" by (simp add: avoid_name_clash_def w2)
  then show ?thesis
    using assms(1) load w2 by (simp add: server_project_restore_def project_is_loaded_def Let_def project_save_def)
qed

theorem restored_empty_project_unsavable_witness:
  "\<exists>w'. server_project_restore example_env 1 (upd_project 1 (\<lambda>x. x\<lparr>p_doc := Some (empty_doc ''new'' None),
      p_clients := []\<rparr>) example_world) = Inr (w', True) \<and> loaded_projects w' = [0, 1]
    \<and> p_task_type (projects w' 1) = Task_load \<and> project_save example_env 1 w' = Inr w'"
  using restored_empty_project_unsavable [of 1 "upd_project 1 (\<lambda>x. x\<lparr>p_doc := Some (empty_doc ''new'' None),
      p_clients := []\<rparr>) example_world" "''new''" None example_env]
  by (simp add: server_find_project_by_name_def example_world_def example_env_def project_new_def)

section \<open>Dependencies on clients without state\<close>

lemma completed_stateless:
  assumes "cl_task_type (clients w a) = LASH_Restore_Data_Set"
  shows "\<exists>w'. project_client_task_completed E p a w = Inr w' \<and> childs w' = childs w
    \<and> clients w' = (clients w)(a := (clients w a)\<lparr>cl_task_progress := 100\<rparr>)
    \<and> p_clients (projects w' p) = p_clients (projects w p)"
proof -
  obtain pr where pr: "projects (project_client_progress p a 100 w) = (projects w)(p := (projects w p)\<lparr>p_tasks_progress := pr\<rparr>)"
    using client_progress_frame(2) by blast
  have ch: "childs (project_client_progress p a x w) = childs w" for x
    by (simp add: project_client_progress_def Let_def)
  have "childs (project_loaded p v) = childs v" "clients (project_loaded p v) = clients v" for v
    by (simp_all add: project_loaded_def modified_frame) (simp add: project_set_modified_status_def)
  moreover have "p_clients (projects (project_loaded p v) p) = p_clients (projects v p)" for v
    by (simp add: project_loaded_def modified_frame)
  ultimately show ?thesis
    using assms by (simp add: project_client_task_completed_def Let_def client_progress_frame(1) ch pr)
qed

lemma name_client_effect:
  assumes "cl_class (clients w a) \<noteq> None"
  shows "\<exists>n. project_name_client p a w = Inr (upd_client a (\<lambda>c. c\<lparr>cl_name := n\<rparr>) w)"
proof -
  obtain c where "cl_class (clients w a) = Some c" using assms by blast
  then show ?thesis by (auto simp: project_name_client_def unique_name_exact Let_def)
qed

text \<open>A client that comes back and has no saved state counts as restored at once, but the clients
  that depend on it are not told: their unsatisfied dependencies stay, and none is launched.\<close>

theorem stateless_client_satisfies_nobody:
  assumes "cl_project (clients w a) = Some p" "cl_class (clients w a) \<noteq> None" "\<not> CLIENT_SAVED (clients w a)"
  shows "\<exists>w'. client_resume_project E a w = Inr w' \<and> a \<in> set (p_clients (projects w' p)) \<and> childs w' = childs w
    \<and> (\<forall>b. cl_unsatisfied_deps (clients w' b) = cl_unsatisfied_deps (clients w b))"
proof -
  define w1 where "w1 = (if cl_data_path (clients w a) = None \<or> cl_data_path (clients w a) = Some ''''
                     then upd_client a (\<lambda>c. c\<lparr>cl_data_path :=
                            Some (project_get_client_dir (projects w p) (cl_id_str c))\<rparr>) w else w)"
  define w2 where "w2 = (if CLIENT_CONFIG_FILE (clients w1 a) \<or> CLIENT_CONFIG_DATA_SET (clients w1 a)
                     then w1\<lparr>disk := lash_create_dir (disk w1) (lash_strdup (cl_data_path (clients w1 a)))\<rparr> else w1)"
  define w3 where "w3 = unlink_client p a w2"
  define w5 where "w5 = upd_project p (\<lambda>x. x\<lparr>p_clients := a # p_clients x\<rparr>) w3"
  have w5: "cl_class (clients w5 a) \<noteq> None" "childs w5 = childs w"
      "cl_unsatisfied_deps (clients w5 b) = cl_unsatisfied_deps (clients w b)"
      "\<not> CLIENT_SAVED (clients w3 a)" for b
    using assms by (auto simp: w5_def w3_def w2_def w1_def unlink_client_def CLIENT_SAVED_def)
  obtain n where n: "(if cl_name (clients w5 a) = None \<or> cl_name (clients w5 a) = Some '''' then project_name_client p a w5
      else Inr w5) = Inr (upd_client a (\<lambda>c. c\<lparr>cl_name := n\<rparr>) w5)"
  proof (cases "cl_name (clients w5 a) = None \<or> cl_name (clients w5 a) = Some ''''")
    case True
    then show ?thesis using name_client_effect [OF w5(1), of p] that by auto
  next
    case False
    have "upd_client a (\<lambda>c. c\<lparr>cl_name := cl_name (clients w5 a)\<rparr>) w5 = w5" by (simp add: upd_client_def)
    then show ?thesis using that [of "cl_name (clients w5 a)"] unfolding if_not_P [OF False] by simp
  qed
  define w7 where "w7 = emit (Client_appeared (cl_id_str (clients (upd_client a (\<lambda>c. c\<lparr>cl_name := n\<rparr>) w5) a))
      (p_name (projects (upd_client a (\<lambda>c. c\<lparr>cl_name := n\<rparr>) w5) p))
      (cl_name (clients (upd_client a (\<lambda>c. c\<lparr>cl_name := n\<rparr>) w5) a))) (upd_client a (\<lambda>c. c\<lparr>cl_name := n\<rparr>) w5)"
  let ?w7 = "upd_client a (\<lambda>c. c\<lparr>cl_task_type := LASH_Restore_Data_Set\<rparr>) w7"
  obtain w8 where w8: "project_client_task_completed E p a ?w7 = Inr w8" "childs w8 = childs ?w7"
      "clients w8 = (clients ?w7)(a := (clients ?w7 a)\<lparr>cl_task_progress := 100\<rparr>)"
      "p_clients (projects w8 p) = p_clients (projects ?w7 p)"
    using completed_stateless [of ?w7 a E p] by auto
  let ?w' = "upd_client a (\<lambda>c. c\<lparr>cl_task_type := LASH_Event_Unknown\<rparr>) w8"
  have "client_resume_project E a w =
      bindr (if cl_name (clients w5 a) = None \<or> cl_name (clients w5 a) = Some '''' then project_name_client p a w5
        else Inr w5) (\<lambda>w6.
          let w7 = emit (Client_appeared (cl_id_str (clients w6 a)) (p_name (projects w6 p)) (cl_name (clients w6 a))) w6
          in bindr (project_client_task_completed E p a (upd_client a (\<lambda>c. c\<lparr>cl_task_type := LASH_Restore_Data_Set\<rparr>) w7))
               (\<lambda>w8. Inr (upd_client a (\<lambda>c. c\<lparr>cl_task_type := LASH_Event_Unknown\<rparr>) w8)))"
    by (simp only: client_resume_project_def Let_def option.case assms(1) w1_def [symmetric] w2_def [symmetric]
        w3_def [symmetric] if_not_P [OF w5(4)] prod.case w5_def [symmetric] if_True)
  then have run: "client_resume_project E a w = Inr ?w'"
    unfolding n by (simp only: bindr.simps Let_def w7_def [symmetric] w8(1))
  have "a \<in> set (p_clients (projects w8 p))"
    using w8(4) by (simp add: w7_def w5_def)
  then show ?thesis using run w8(2,3) w5 by (auto simp: w7_def)
qed

theorem stateless_client_satisfies_nobody_witness:
  "\<exists>w'. client_resume_project example_env 0 (upd_client 1 (\<lambda>c. c\<lparr>cl_unsatisfied_deps := [1]\<rparr>) example_world) = Inr w'
    \<and> 0 \<in> set (p_clients (projects w' 0)) \<and> childs w' = [] \<and> cl_unsatisfied_deps (clients w' 1) = [1]"
proof -
  let ?w = "upd_client 1 (\<lambda>c. c\<lparr>cl_unsatisfied_deps := [1]\<rparr>) example_world"
  have "childs ?w = []" "cl_unsatisfied_deps (clients ?w 1) = [1]" "cl_id (clients ?w 0) = 1"
    by (simp_all add: example_world_def)
  moreover have "cl_project (clients ?w 0) = Some 0" "cl_class (clients ?w 0) \<noteq> None" "\<not> CLIENT_SAVED (clients ?w 0)"
    by (simp_all add: example_world_def client_new_def CLIENT_SAVED_def)
  ultimately show ?thesis
    using stateless_client_satisfies_nobody [of ?w 0 0 example_env] by auto
qed

section \<open>A move that fails\<close>

lemma close_stores_closed:
  "a \<in> set as \<Longrightarrow> cl_store (clients (close_stores as w) a) = None"
proof -
  have keep: "cl_store (clients w a) = None \<Longrightarrow> cl_store (clients (close_stores as w) a) = None" for w "as"
    unfolding close_stores_def
    by (induction "as" arbitrary: w) (auto simp: client_store_close_def Let_def split: prod.split option.split)
  show "a \<in> set as \<Longrightarrow> cl_store (clients (close_stores as w) a) = None"
  proof (induction "as" arbitrary: w)
    case (Cons b bs)
    have step: "close_stores (b # bs) w = close_stores bs (fst (client_store_close b w))" by (simp add: close_stores_def)
    have "cl_store (clients (fst (client_store_close b w)) b) = None"
      by (auto simp: client_store_close_def Let_def split: prod.split option.split)
    then show ?case using Cons keep by (cases "a = b") (auto simp: step)
  qed simp
qed

lemma close_stores_frame:
  "cl_task_type (clients (close_stores as w) a) = cl_task_type (clients w a)"
  "cl_project (clients (close_stores as w) a) = cl_project (clients w a)"
proof -
  have "cl_task_type (clients (fst (client_store_close b w)) a) = cl_task_type (clients w a)
      \<and> cl_project (clients (fst (client_store_close b w)) a) = cl_project (clients w a)" for b w
    by (auto simp: client_store_close_def Let_def split: prod.split option.split)
  then have "cl_task_type (clients (close_stores as w) a) = cl_task_type (clients w a)
      \<and> cl_project (clients (close_stores as w) a) = cl_project (clients w a)"
    unfolding close_stores_def by (induction "as" arbitrary: w) auto
  then show "cl_task_type (clients (close_stores as w) a) = cl_task_type (clients w a)"
    "cl_project (clients (close_stores as w) a) = cl_project (clients w a)" by auto
qed



end
