(* ===== verification/AppDb.thy ===== *)
theory AppDb
  imports Files
begin

text \<open>
  The application database (\<^verbatim>\<open>lashd/appdb.c\<close>): the desktop entries of the XDG directories that
  carry the key \<open>X-LASH\<close>, over the model of the file system calls. Memory suffices, so reading a
  file or a directory cannot fail as a whole; only a missing \<open>HOME\<close> makes the database unusable.
\<close>

section \<open>Splitting text\<close>

text \<open>The parts between the separators, as loops with \<open>strchr\<close> cut them: never the empty list.\<close>

fun split_char :: "char \<Rightarrow> string \<Rightarrow> string list" where
  "split_char c [] = [[]]"
| "split_char c (x # xs) =
     (if x = c then [] # split_char c xs
      else (case split_char c xs of [] \<Rightarrow> [[x]] | l # ls \<Rightarrow> (x # l) # ls))"

lemma split_char_nonempty [simp]: "split_char c s \<noteq> []"
  by (induction s) (auto split: list.split)

lemma split_char_append: "c \<notin> set l \<Longrightarrow> split_char c (l @ c # s) = l # split_char c s"
  by (induction l) auto

lemma split_char_last: "c \<notin> set l \<Longrightarrow> split_char c l = [l]"
  by (induction l) auto

definition is_blank :: "char \<Rightarrow> bool" where
  "is_blank c \<longleftrightarrow> c = CHR '' '' \<or> c = CHR 0x09"

definition strlstrip :: "string \<Rightarrow> string" where
  "strlstrip s = dropWhile is_blank s"

text \<open>
  The loop goes through the whole string from its end and cuts it at every blank it meets, so
  that what is left ends before the first one.
\<close>

fun strip_from :: "string \<Rightarrow> nat \<Rightarrow> string" where
  "strip_from s 0 = s"
| "strip_from s (Suc i) = strip_from (if is_blank (s ! i) then take i s else s) i"

definition strrstrip :: "string \<Rightarrow> string" where
  "strrstrip s = strip_from s (length s)"

lemma strip_from_exact:
  "i \<le> length s \<Longrightarrow> strip_from s i = takeWhile (\<lambda>c. \<not> is_blank c) (take i s) @
     (if \<exists>c \<in> set (take i s). is_blank c then [] else drop i s)"
proof (induction i arbitrary: s)
  case (Suc i)
  then have i: "i < length s" by simp
  have snoc: "take (Suc i) s = take i s @ [s ! i]" by (rule take_Suc_conv_app_nth [OF i])
  have drop: "drop i s = s ! i # drop (Suc i) s" by (rule Cons_nth_drop_Suc [OF i, symmetric])
  show ?case
  proof (cases "\<exists>c \<in> set (take i s). is_blank c")
    case True
    then have "takeWhile (\<lambda>c. \<not> is_blank c) (take i s @ [s ! i]) = takeWhile (\<lambda>c. \<not> is_blank c) (take i s)"
      by (auto simp: takeWhile_append)
    then show ?thesis using True Suc.IH [of s] Suc.IH [of "take i s"] i snoc by (auto simp: min_def)
  next
    case False
    then have "takeWhile (\<lambda>c. \<not> is_blank c) (take i s) = take i s" by (auto simp: takeWhile_eq_all_conv)
    then show ?thesis using False Suc.IH [of s] Suc.IH [of "take i s"] i snoc drop by (auto simp: takeWhile_append)
  qed
qed simp

lemma strrstrip_exact: "strrstrip s = takeWhile (\<lambda>c. \<not> is_blank c) s"
  using strip_from_exact [of "length s" s] by (auto simp: strrstrip_def takeWhile_eq_all_conv)

section \<open>Desktop entries\<close>

record lash_appdb_entry =
  ae_name :: cstr
  ae_generic_name :: cstr
  ae_comment :: cstr
  ae_icon :: cstr
  ae_exec :: cstr
  ae_path :: cstr
  ae_terminal :: bool

definition appdb_entry_new :: lash_appdb_entry where
  "appdb_entry_new = \<lparr>ae_name = None, ae_generic_name = None, ae_comment = None, ae_icon = None,
     ae_exec = None, ae_path = None, ae_terminal = False\<rparr>"

text \<open>The type of a mapped key, with the field its offset means.\<close>

datatype map_type =
    MAP_TYPE_STRING "string \<Rightarrow> lash_appdb_entry \<Rightarrow> lash_appdb_entry"
  | MAP_TYPE_BOOL "bool \<Rightarrow> lash_appdb_entry \<Rightarrow> lash_appdb_entry"

definition g_appdb_entry_map :: "(string \<times> map_type) list" where
  "g_appdb_entry_map =
     [(''Name'', MAP_TYPE_STRING (\<lambda>v e. e\<lparr>ae_name := Some v\<rparr>)),
      (''GenericName'', MAP_TYPE_STRING (\<lambda>v e. e\<lparr>ae_generic_name := Some v\<rparr>)),
      (''Comment'', MAP_TYPE_STRING (\<lambda>v e. e\<lparr>ae_comment := Some v\<rparr>)),
      (''Icon'', MAP_TYPE_STRING (\<lambda>v e. e\<lparr>ae_icon := Some v\<rparr>)),
      (''Exec'', MAP_TYPE_STRING (\<lambda>v e. e\<lparr>ae_exec := Some v\<rparr>)),
      (''Path'', MAP_TYPE_STRING (\<lambda>v e. e\<lparr>ae_path := Some v\<rparr>)),
      (''Terminal'', MAP_TYPE_BOOL (\<lambda>b e. e\<lparr>ae_terminal := b\<rparr>))]"

definition MAX_ENTRIES :: nat where
  "MAX_ENTRIES = 1000"

text \<open>
  The loop over the lines; \<open>acc\<close> is the array written so far, \<open>None\<close> the result \<open>false\<close>.
\<close>

fun parse_lines :: "nat \<Rightarrow> bool \<Rightarrow> (string \<times> string) list \<Rightarrow> string list \<Rightarrow> (string \<times> string) list option" where
  "parse_lines max_count group_found acc [] = (if group_found then Some acc else None)"
| "parse_lines max_count group_found acc (line # ls) =
     (if line = [] \<or> hd line = CHR ''#'' then parse_lines max_count group_found acc ls
      else if \<not> group_found then
        (if line \<noteq> ''[Desktop Entry]'' then None else parse_lines max_count True acc ls)
      else if CHR ''='' \<notin> set line then Some acc
      else
        (let key = strrstrip (takeWhile (\<lambda>c. c \<noteq> CHR ''='') line);
             v = strlstrip (tl (dropWhile (\<lambda>c. c \<noteq> CHR ''='') line))
         in if length acc + 1 = max_count then None
            else parse_lines max_count True (acc @ [(key, v)]) ls))"

definition lash_appdb_parse_file_data :: "string \<Rightarrow> nat \<Rightarrow> (string \<times> string) list option" where
  "lash_appdb_parse_file_data data max_count =
     parse_lines max_count False [] (split_char newline (takeWhile (\<lambda>c. c \<noteq> CHR 0x00) data))"

definition lash_appdb_find_key :: "(string \<times> string) list \<Rightarrow> string \<Rightarrow> cstr" where
  "lash_appdb_find_key entries key = map_option snd (List.find (\<lambda>e. fst e = key) entries)"

definition fill_field :: "string \<Rightarrow> map_type \<Rightarrow> lash_appdb_entry \<Rightarrow> lash_appdb_entry" where
  "fill_field v ty e =
     (case ty of
        MAP_TYPE_STRING f \<Rightarrow> f v e
      | MAP_TYPE_BOOL f \<Rightarrow> if v = ''true'' then f True e else if v = ''false'' then f False e else e)"

fun fill_entry :: "(string \<times> string) list \<Rightarrow> (string \<times> map_type) list \<Rightarrow> lash_appdb_entry \<Rightarrow> lash_appdb_entry" where
  "fill_entry entries [] e = e"
| "fill_entry entries ((key, ty) # ms) e =
     fill_entry entries ms (case lash_appdb_find_key entries key of None \<Rightarrow> e | Some v \<Rightarrow> fill_field v ty e)"

text \<open>The data of a file; one that cannot be opened, or is empty, has none.\<close>

definition load_file_data :: "fs \<Rightarrow> string \<Rightarrow> cstr" where
  "load_file_data d file_path =
     (case posix_read_file d file_path of Inl _ \<Rightarrow> None | Inr data \<Rightarrow> if data = [] then None else Some data)"

text \<open>The entry of a file, unless the file is none of an application that uses LASH.\<close>

definition entry_of_file :: "fs \<Rightarrow> string \<Rightarrow> lash_appdb_entry option" where
  "entry_of_file d file_path =
     (case load_file_data d file_path of
        None \<Rightarrow> None
      | Some data \<Rightarrow>
          (case lash_appdb_parse_file_data data MAX_ENTRIES of
              None \<Rightarrow> None
            | Some entries \<Rightarrow>
                if lash_appdb_find_key entries ''Type'' \<noteq> Some ''Application'' then None
                else if lash_appdb_find_key entries ''Name'' = None then None
                else if lash_appdb_find_key entries ''X-LASH'' = None then None
                else Some (fill_entry entries g_appdb_entry_map appdb_entry_new)))"

definition lash_appdb_load_file :: "fs \<Rightarrow> string \<Rightarrow> lash_appdb_entry list \<Rightarrow> lash_appdb_entry list" where
  "lash_appdb_load_file d file_path appdb =
     (case entry_of_file d file_path of
        None \<Rightarrow> appdb
      | Some e \<Rightarrow> if \<exists>x \<in> set appdb. ae_name x = ae_name e then appdb else appdb @ [e])"

section \<open>Directories\<close>

text \<open>How the system resolves a path with doubled and trailing slashes.\<close>

fun squeeze :: "string \<Rightarrow> string" where
  "squeeze (x # y # zs) = (if x = slash \<and> y = slash then squeeze (y # zs) else x # squeeze (y # zs))"
| "squeeze xs = xs"

definition resolve :: "string \<Rightarrow> string" where
  "resolve p = (let q = squeeze p in if length q > 1 \<and> last q = slash then butlast q else q)"

text \<open>Only names longer than the suffix match; the comparison is with the constant.\<close>

definition suffix_match :: "string \<Rightarrow> string \<Rightarrow> bool" where
  "suffix_match s suffix =
     (if length s \<le> length suffix then False
      else take (length suffix) (drop (length s - length suffix) s) = take (length suffix) ''.desktop'')"

definition loads_from :: "fs \<Rightarrow> string \<Rightarrow> string \<Rightarrow> bool" where
  "loads_from d directory_path name \<longleftrightarrow>
     (case posix_stat d (resolve (directory_path @ name)) of Inr (File _) \<Rightarrow> suffix_match name ''.desktop'' | _ \<Rightarrow> False)"

definition lash_appdb_load_dir :: "fs \<Rightarrow> string \<Rightarrow> lash_appdb_entry list \<Rightarrow> lash_appdb_entry list" where
  "lash_appdb_load_dir d base_directory appdb =
     (let directory_path = base_directory @ ''/applications/'' in
      (case posix_opendir d (resolve directory_path) of
         Inl _ \<Rightarrow> appdb
       | Inr _ \<Rightarrow>
           fold (\<lambda>name appdb. if loads_from d directory_path name
                   then lash_appdb_load_file d (resolve (directory_path @ name)) appdb else appdb)
             (posix_readdir d (resolve directory_path)) appdb))"

definition lash_appdb_load_dirs :: "fs \<Rightarrow> string \<Rightarrow> lash_appdb_entry list \<Rightarrow> lash_appdb_entry list" where
  "lash_appdb_load_dirs d base_directories appdb =
     fold (lash_appdb_load_dir d) (split_char (CHR '':'') base_directories) appdb"

definition get_xdg_var :: "(string \<Rightarrow> cstr) \<Rightarrow> string \<Rightarrow> string \<Rightarrow> string" where
  "get_xdg_var getenv var_name default_value =
     (case getenv var_name of None \<Rightarrow> default_value | Some v \<Rightarrow> if v = [] then default_value else v)"

text \<open>The database, or \<open>None\<close> for failure, which leaves it empty.\<close>

definition lash_appdb_load :: "(string \<Rightarrow> cstr) \<Rightarrow> fs \<Rightarrow> lash_appdb_entry list option" where
  "lash_appdb_load getenv d =
     (case getenv ''HOME'' of
        None \<Rightarrow> None
      | Some home \<Rightarrow>
          (let home_db = lash_appdb_load_dir d (get_xdg_var getenv ''XDG_DATA_HOME'' (home @ ''/.local/share'')) []
           in Some (lash_appdb_load_dirs d
                 (get_xdg_var getenv ''XDG_DATA_DIRS'' ''/usr/local/share/:/usr/share/'') home_db)))"

section \<open>What the parser gets back\<close>

text \<open>The array of \<open>max_count\<close> entries is never overrun.\<close>

lemma parse_lines_bound:
  "parse_lines m g acc ls = Some es \<Longrightarrow> length acc < m \<Longrightarrow> length es < m"
proof (induction m g acc ls rule: parse_lines.induct)
  case (2 m g acc line ls)
  then show ?case by (simp add: Let_def split: if_split_asm)
qed (simp split: if_split_asm)

definition clean_entry :: "string \<times> string \<Rightarrow> bool" where
  "clean_entry e \<longleftrightarrow> (case e of (k, v) \<Rightarrow> k \<noteq> [] \<and> hd k \<noteq> CHR ''#''
     \<and> (\<forall>c \<in> set k. \<not> is_blank c \<and> c \<notin> {newline, CHR 0x00, CHR ''=''})
     \<and> (\<forall>c \<in> set v. c \<notin> {newline, CHR 0x00}) \<and> (v = [] \<or> \<not> is_blank (hd v)))"

definition entry_line :: "string \<times> string \<Rightarrow> string" where
  "entry_line e = (case e of (k, v) \<Rightarrow> k @ CHR ''='' # v)"

text \<open>A desktop file made of the entries.\<close>

definition desktop_file :: "(string \<times> string) list \<Rightarrow> string" where
  "desktop_file es = ''[Desktop Entry]'' @ newline # concat (map (\<lambda>e. entry_line e @ [newline]) es)"

lemma split_lines:
  "\<forall>l \<in> set ls. c \<notin> set l \<Longrightarrow> split_char c (concat (map (\<lambda>l. l @ [c]) ls)) = ls @ [[]]"
  by (induction ls) (simp_all add: split_char_append)

lemma parse_entry_line:
  assumes "clean_entry e" "length acc + 1 \<noteq> m"
  shows "parse_lines m True acc (entry_line e # ls) = parse_lines m True (acc @ [e]) ls"
proof -
  obtain k v where e: "e = (k, v)" by fastforce
  have k: "k \<noteq> []" "hd k \<noteq> CHR ''#''" "CHR ''='' \<notin> set k" "\<forall>c \<in> set k. \<not> is_blank c"
    and v: "v = [] \<or> \<not> is_blank (hd v)" using assms(1) by (auto simp: clean_entry_def e)
  have "takeWhile (\<lambda>c. c \<noteq> CHR ''='') (k @ CHR ''='' # v) = k"
    "dropWhile (\<lambda>c. c \<noteq> CHR ''='') (k @ CHR ''='' # v) = CHR ''='' # v"
    using k(3) by (auto simp: takeWhile_append dropWhile_append)
  moreover have "strrstrip k = k" using k(4) by (simp add: strrstrip_exact takeWhile_eq_all_conv)
  moreover have "strlstrip v = v" using v by (cases v) (auto simp: strlstrip_def)
  ultimately show ?thesis using k(1,2) assms(2) by (simp add: e entry_line_def Let_def)
qed

lemma parse_entry_lines:
  "\<forall>e \<in> set es. clean_entry e \<Longrightarrow> length acc + length es < m \<Longrightarrow>
     parse_lines m True acc (map entry_line es @ [[]]) = Some (acc @ es)"
proof (induction es arbitrary: acc)
  case (Cons e es)
  then show ?case by (simp add: parse_entry_line del: parse_lines.simps)
qed simp

lemma desktop_file_parses:
  assumes "\<forall>e \<in> set es. clean_entry e" "length es < MAX_ENTRIES"
  shows "lash_appdb_parse_file_data (desktop_file es) MAX_ENTRIES = Some es"
proof -
  let ?head = "''[Desktop Entry]''"
  have clean: "c \<notin> set (entry_line e)" if "e \<in> set es" "c \<in> {newline, CHR 0x00}" for c e
    using assms(1) that by (fastforce simp: clean_entry_def entry_line_def newline_def)
  have "\<forall>c \<in> set (desktop_file es). c \<noteq> CHR 0x00"
    using clean [of _ "CHR 0x00"] by (auto simp: desktop_file_def newline_def)
  then have all: "takeWhile (\<lambda>c. c \<noteq> CHR 0x00) (desktop_file es) = desktop_file es"
    by (simp add: takeWhile_eq_all_conv)
  have "desktop_file es = ?head @ newline # concat (map (\<lambda>l. l @ [newline]) (map entry_line es))"
    by (simp add: desktop_file_def comp_def)
  moreover have head: "newline \<notin> set ?head" by (simp add: newline_def)
  moreover have "split_char newline (concat (map (\<lambda>l. l @ [newline]) (map entry_line es))) = map entry_line es @ [[]]"
    by (rule split_lines) (use clean [of _ newline] in auto)
  ultimately have "split_char newline (desktop_file es) = ?head # map entry_line es @ [[]]"
    by (simp only: split_char_append [OF head])
  then show ?thesis using parse_entry_lines [OF assms(1), of "[]"] assms(2)
    by (simp add: lash_appdb_parse_file_data_def all)
qed

text \<open>A desktop file of fewer than 1000 clean entries is read back as exactly these entries, in
  their order.\<close>

theorem desktop_entry_roundtrip:
  assumes "\<forall>e \<in> set es. clean_entry e" "length es < MAX_ENTRIES"
  shows "lash_appdb_parse_file_data (desktop_file es) MAX_ENTRIES = Some es"
  by (rule desktop_file_parses [OF assms])

lemma desktop_entry_roundtrip_witness:
  "lash_appdb_parse_file_data (desktop_file [(''Name'', ''a synth''), (''X-LASH'', '''')]) MAX_ENTRIES
     = Some [(''Name'', ''a synth''), (''X-LASH'', '''')]"
  by (rule desktop_entry_roundtrip) (simp_all add: clean_entry_def is_blank_def newline_def MAX_ENTRIES_def)

section \<open>What the database holds\<close>

text \<open>The first element of each key, in order.\<close>

fun first_by :: "('a \<Rightarrow> 'k) \<Rightarrow> 'a list \<Rightarrow> 'a list" where
  "first_by f [] = []"
| "first_by f (x # xs) = x # first_by f (filter (\<lambda>y. f y \<noteq> f x) xs)"

text \<open>The files the search meets, directory after directory.\<close>

definition directory_files :: "fs \<Rightarrow> string \<Rightarrow> string list" where
  "directory_files d base =
     (let directory_path = base @ ''/applications/'' in
      (case posix_opendir d (resolve directory_path) of
         Inl _ \<Rightarrow> []
       | Inr _ \<Rightarrow> map (\<lambda>name. resolve (directory_path @ name))
           (filter (loads_from d directory_path) (posix_readdir d (resolve directory_path)))))"

definition xdg_directories :: "(string \<Rightarrow> cstr) \<Rightarrow> string \<Rightarrow> string list" where
  "xdg_directories getenv home =
     get_xdg_var getenv ''XDG_DATA_HOME'' (home @ ''/.local/share'') #
     split_char (CHR '':'') (get_xdg_var getenv ''XDG_DATA_DIRS'' ''/usr/local/share/:/usr/share/'')"

definition add_entry :: "lash_appdb_entry \<Rightarrow> lash_appdb_entry list \<Rightarrow> lash_appdb_entry list" where
  "add_entry e db = (if \<exists>x \<in> set db. ae_name x = ae_name e then db else db @ [e])"

lemma fold_add_entry:
  "fold add_entry es db = db @ first_by ae_name (filter (\<lambda>e. ae_name e \<notin> ae_name ` set db) es)"
proof (induction es arbitrary: db)
  case (Cons e es)
  show ?case
  proof (cases "ae_name e \<in> ae_name ` set db")
    case True
    then have "\<exists>x \<in> set db. ae_name x = ae_name e" by (metis imageE)
    then have "add_entry e db = db" by (simp add: add_entry_def)
    then show ?thesis using Cons True by simp
  next
    case False
    then have "\<not> (\<exists>x \<in> set db. ae_name x = ae_name e)" by (metis imageI)
    then have add: "add_entry e db = db @ [e]" by (simp add: add_entry_def)
    have "filter (\<lambda>x. ae_name x \<notin> ae_name ` set (db @ [e])) es
        = filter (\<lambda>y. ae_name y \<noteq> ae_name e) (filter (\<lambda>x. ae_name x \<notin> ae_name ` set db) es)"
      by (auto simp: filter_filter intro: filter_cong)
    then show ?thesis using Cons [of "db @ [e]"] add False by simp
  qed
qed simp

lemma load_file_add:
  "lash_appdb_load_file d p db = (case entry_of_file d p of None \<Rightarrow> db | Some e \<Rightarrow> add_entry e db)"
  by (simp add: lash_appdb_load_file_def add_entry_def split: option.split)

lemma fold_load_files:
  "fold (lash_appdb_load_file d) ps db = fold add_entry (List.map_filter (entry_of_file d) ps) db"
  by (induction ps arbitrary: db) (auto simp: load_file_add List.map_filter_simps split: option.split)

lemma fold_files:
  "fold (\<lambda>x db. if P x then lash_appdb_load_file d (g x) db else db) xs db
     = fold (lash_appdb_load_file d) (map g (filter P xs)) db"
  by (induction xs arbitrary: db) simp_all

lemma load_dir_files: "lash_appdb_load_dir d base db = fold (lash_appdb_load_file d) (directory_files d base) db"
  by (simp add: lash_appdb_load_dir_def directory_files_def Let_def fold_files split: sum.split)

lemma load_dirs_files:
  "fold (lash_appdb_load_dir d) bs db = fold (lash_appdb_load_file d) (concat (map (directory_files d) bs)) db"
  by (induction bs arbitrary: db) (simp_all add: load_dir_files)

lemma first_by_distinct: "distinct (map f (first_by f xs))"
proof (induction f xs rule: first_by.induct)
  case (2 f x xs)
  have "set (first_by f ys) \<subseteq> set ys" for ys
    by (induction f ys rule: first_by.induct) auto
  then have "f x \<notin> f ` set (first_by f (filter (\<lambda>y. f y \<noteq> f x) xs))" by fastforce
  then show ?case using 2 by simp
qed simp

text \<open>C30. With \<open>HOME\<close> set, the database holds the entries of the files of all XDG directories in search
  order, of several with one name only the first, so that names are unique.\<close>

theorem lash_appdb_load_exact:
  assumes "getenv ''HOME'' = Some home"
  shows "\<exists>db. lash_appdb_load getenv d = Some db
     \<and> db = first_by ae_name (List.map_filter (entry_of_file d)
          (concat (map (directory_files d) (xdg_directories getenv home))))
     \<and> distinct (map ae_name db)"
proof -
  have "lash_appdb_load getenv d = Some (fold (lash_appdb_load_dir d) (xdg_directories getenv home) [])"
    using assms by (simp add: lash_appdb_load_def lash_appdb_load_dirs_def xdg_directories_def Let_def)
  then show ?thesis
    by (simp add: load_dirs_files fold_load_files fold_add_entry first_by_distinct)
qed

lemma lash_appdb_load_exact_witness:
  "\<exists>db. lash_appdb_load (\<lambda>s. if s = ''HOME'' then Some ''/h'' else None)
       \<lparr>nodes = [(''/'', Dir), (''/h'', Dir)], denied = (\<lambda>_. False)\<rparr> = Some db
     \<and> db = first_by ae_name (List.map_filter
          (entry_of_file \<lparr>nodes = [(''/'', Dir), (''/h'', Dir)], denied = (\<lambda>_. False)\<rparr>)
          (concat (map (directory_files \<lparr>nodes = [(''/'', Dir), (''/h'', Dir)], denied = (\<lambda>_. False)\<rparr>)
             (xdg_directories (\<lambda>s. if s = ''HOME'' then Some ''/h'' else None) ''/h''))))
     \<and> distinct (map ae_name db)"
  by (rule lash_appdb_load_exact) simp

end
