(* ===== verification/Control.thy ===== *)
theory Control
  imports Server AppDb
begin

text \<open>
  The methods controllers call (\<^verbatim>\<open>lashd/dbus_iface_control.c\<close>) and the smaller ones clients call
  (\<^verbatim>\<open>lashd/dbus_iface_server.c\<close>). The arguments of a message are \<open>None\<close> when they are not of
  the types the method asks for. A reply that cannot be built is not sent; appending a NULL
  string fails, memory is taken to suffice. The times of last modification are an argument.
\<close>

section \<open>Replies\<close>

text \<open>The entries appended to an open dictionary.\<close>

definition maybe_add_dict_entry_string :: "string \<Rightarrow> cstr \<Rightarrow> dval list" where
  "maybe_add_dict_entry_string key v = (case v of None \<Rightarrow> [] | Some s \<Rightarrow> [DEntry (DString key) (DVariant (DString s))])"

definition add_dict_entry_uint32 :: "string \<Rightarrow> u32 \<Rightarrow> dval list" where
  "add_dict_entry_uint32 key v = (if v = 0 then [] else [DEntry (DString key) (DVariant (DUint32 v))])"

definition add_dict_entry_bool :: "string \<Rightarrow> bool \<Rightarrow> dval list" where
  "add_dict_entry_bool key v = [DEntry (DString key) (DVariant (DBool v))]"

definition append_string :: "cstr \<Rightarrow> dval option" where
  "append_string s = map_option DString s"

text \<open>An array of what is appended for each element of a list, or no reply.\<close>

definition array_reply :: "string \<Rightarrow> ('a \<Rightarrow> dval option) \<Rightarrow> 'a list \<Rightarrow> reply" where
  "array_reply sig f xs = (case those (map f xs) of None \<Rightarrow> No_reply | Some ds \<Rightarrow> Method_return [DArray sig ds])"

section \<open>Projects\<close>

definition lashd_dbus_projects_get_available :: "(addr \<Rightarrow> u32) \<Rightarrow> world \<Rightarrow> reply" where
  "lashd_dbus_projects_get_available last_modify_time w =
     array_reply ''(sa{sv})'' (\<lambda>p. Option.bind (append_string (p_name (projects w p))) (\<lambda>n.
         Some (DStruct [n, DArray ''{sv}'' (maybe_add_dict_entry_string ''Description'' (p_description (projects w p)) @
                add_dict_entry_uint32 ''Modification Time'' (last_modify_time p))])))
       (all_projects w)"

definition lashd_dbus_project_open :: "env \<Rightarrow> string option \<Rightarrow> world \<Rightarrow> (world \<times> reply) res" where
  "lashd_dbus_project_open E args w =
     (case args of None \<Rightarrow> Inr (w, Error_reply Error_invalid_args)
      | Some name \<Rightarrow> bindr (server_project_restore_by_name E name w) (\<lambda>(w1, ok). Inr (w1, No_reply)))"

definition lashd_dbus_projects_get :: "world \<Rightarrow> reply" where
  "lashd_dbus_projects_get w = array_reply ''s'' (\<lambda>p. append_string (p_name (projects w p))) (loaded_projects w)"

text \<open>The loaded project of a name, or the error reply that there is none.\<close>

definition with_project :: "cstr \<Rightarrow> (addr \<Rightarrow> (world \<times> reply) res) \<Rightarrow> world \<Rightarrow> (world \<times> reply) res" where
  "with_project name k w =
     bindr (server_find_project_by_name w name) (\<lambda>r.
       case r of None \<Rightarrow> Inr (w, Error_reply Error_unknown_project) | Some p \<Rightarrow> k p)"

definition lashd_dbus_project_get_properties :: "string option \<Rightarrow> world \<Rightarrow> (world \<times> reply) res" where
  "lashd_dbus_project_get_properties args w =
     (case args of None \<Rightarrow> Inr (w, Error_reply Error_invalid_args)
      | Some name \<Rightarrow> with_project (Some name) (\<lambda>p.
          let x = projects w p
          in Inr (w, Method_return [DArray ''{sv}'' (maybe_add_dict_entry_string ''Description'' (p_description x) @
               maybe_add_dict_entry_string ''Notes'' (p_notes x) @
               add_dict_entry_bool ''Modified Status'' (p_modified_status x))])) w)"

definition lashd_dbus_project_set_description :: "(string \<times> string) option \<Rightarrow> world \<Rightarrow> (world \<times> reply) res" where
  "lashd_dbus_project_set_description args w =
     (case args of None \<Rightarrow> Inr (w, Error_reply Error_invalid_args)
      | Some (name, description) \<Rightarrow> with_project (Some name) (\<lambda>p.
          Inr (project_set_description p (Some description) w, No_reply)) w)"

definition lashd_dbus_project_set_notes :: "(string \<times> string) option \<Rightarrow> world \<Rightarrow> (world \<times> reply) res" where
  "lashd_dbus_project_set_notes args w =
     (case args of None \<Rightarrow> Inr (w, Error_reply Error_invalid_args)
      | Some (name, notes) \<Rightarrow> with_project (Some name) (\<lambda>p.
          Inr (project_set_notes p (Some notes) w, No_reply)) w)"

definition lashd_dbus_load_project_path :: "env \<Rightarrow> string option \<Rightarrow> world \<Rightarrow> (world \<times> reply) res" where
  "lashd_dbus_load_project_path E args w =
     (case args of None \<Rightarrow> Inr (w, Error_reply Error_invalid_args)
      | Some dir \<Rightarrow> bindr (server_project_restore_by_dir E dir w) (\<lambda>(w1, ok). Inr (w1, No_reply)))"

text \<open>Moving an unknown project is silently ignored.\<close>

definition lashd_dbus_project_move :: "(string \<times> string) option \<Rightarrow> world \<Rightarrow> (world \<times> reply) res" where
  "lashd_dbus_project_move args w =
     (case args of None \<Rightarrow> Inr (w, Error_reply Error_invalid_args)
      | Some (name, path) \<Rightarrow>
          bindr (server_find_project_by_name w (Some name)) (\<lambda>r.
            case r of None \<Rightarrow> Inr (w, No_reply)
            | Some p \<Rightarrow> bindr (project_move p path w) (\<lambda>w1. Inr (w1, No_reply))))"

definition lashd_dbus_project_rename :: "(string \<times> string) option \<Rightarrow> world \<Rightarrow> (world \<times> reply) res" where
  "lashd_dbus_project_rename args w =
     (case args of None \<Rightarrow> Inr (w, Error_reply Error_invalid_args)
      | Some (name, new_name) \<Rightarrow> with_project (Some name) (\<lambda>p.
          bindr (project_rename p new_name w) (\<lambda>w1. Inr (w1, No_reply))) w)"

definition lashd_dbus_project_save :: "env \<Rightarrow> string option \<Rightarrow> world \<Rightarrow> (world \<times> reply) res" where
  "lashd_dbus_project_save E args w =
     (case args of None \<Rightarrow> Inr (w, Error_reply Error_invalid_args)
      | Some name \<Rightarrow> bindr (server_project_save_by_name E name w) (\<lambda>(w1, ok).
          Inr (w1, if ok then No_reply else Error_reply Error_unknown_project)))"

definition lashd_dbus_project_close :: "string option \<Rightarrow> world \<Rightarrow> (world \<times> reply) res" where
  "lashd_dbus_project_close args w =
     (case args of None \<Rightarrow> Inr (w, Error_reply Error_invalid_args)
      | Some name \<Rightarrow> bindr (server_project_close_by_name name w) (\<lambda>(w1, ok).
          Inr (w1, if ok then No_reply else Error_reply Error_unknown_project)))"

definition lashd_dbus_projects_save_all :: "env \<Rightarrow> world \<Rightarrow> (world \<times> reply) res" where
  "lashd_dbus_projects_save_all E w = bindr (server_save_all_projects E w) (\<lambda>w1. Inr (w1, No_reply))"

definition lashd_dbus_projects_close_all :: "world \<Rightarrow> (world \<times> reply) res" where
  "lashd_dbus_projects_close_all w = bindr (server_close_all_projects w) (\<lambda>w1. Inr (w1, No_reply))"

definition lashd_dbus_exit :: "world \<Rightarrow> world" where
  "lashd_dbus_exit w = w\<lparr>quitting := True\<rparr>"

section \<open>Clients\<close>

definition lashd_dbus_create_client_list_return :: "string \<Rightarrow> bool \<Rightarrow> world \<Rightarrow> (world \<times> reply) res" where
  "lashd_dbus_create_client_list_return name want_lost_clients w =
     with_project (Some name) (\<lambda>p.
       Inr (w, array_reply ''(ss)'' (\<lambda>a. Option.bind (append_string (cl_name (clients w a))) (\<lambda>n.
              Some (DStruct [DString (cl_id_str (clients w a)), n])))
            (if want_lost_clients then p_lost_clients (projects w p) else p_clients (projects w p)))) w"

definition lashd_dbus_return_client_list :: "string option \<Rightarrow> bool \<Rightarrow> world \<Rightarrow> (world \<times> reply) res" where
  "lashd_dbus_return_client_list args want_lost_clients w =
     (case args of None \<Rightarrow> Inr (w, Error_reply Error_invalid_args)
      | Some name \<Rightarrow> lashd_dbus_create_client_list_return name want_lost_clients w)"

definition lashd_dbus_project_get_clients :: "string option \<Rightarrow> world \<Rightarrow> (world \<times> reply) res" where
  "lashd_dbus_project_get_clients args w = lashd_dbus_return_client_list args False w"

definition lashd_dbus_project_get_lost_clients :: "string option \<Rightarrow> world \<Rightarrow> (world \<times> reply) res" where
  "lashd_dbus_project_get_lost_clients args w = lashd_dbus_return_client_list args True w"

definition lashd_dbus_client_get_dependencies :: "env \<Rightarrow> string option \<Rightarrow> world \<Rightarrow> (world \<times> reply) res" where
  "lashd_dbus_client_get_dependencies E args w =
     (case args of None \<Rightarrow> Inr (w, Error_reply Error_invalid_args)
      | Some name \<Rightarrow> with_project (Some name) (\<lambda>p.
          Inr (w, array_reply ''(sas)'' (\<lambda>c. Option.bind (append_string (cl_name c)) (\<lambda>n.
                 Some (DStruct [n, DArray ''s'' (map (\<lambda>d. DString (uuid_unparse (e_uuids E) d)) (cl_dependencies c))])))
               (filter (\<lambda>c. cl_dependencies c \<noteq> []) (clients_of w p)))) w)"

text \<open>The project, the client and the other UUID a change of dependencies is about, or the error.\<close>

definition lashd_dbus_get_client_dependency_modify_data ::
  "env \<Rightarrow> (string \<times> string \<times> string) option \<Rightarrow> world \<Rightarrow> (dbus_error + addr \<times> addr \<times> uuid) res" where
  "lashd_dbus_get_client_dependency_modify_data E args w =
     (case args of None \<Rightarrow> Inr (Inl Error_invalid_args)
      | Some (name, client_id_str, dep_id_str) \<Rightarrow>
          (case uuid_parse (e_uuids E) client_id_str of None \<Rightarrow> Inr (Inl Error_invalid_client_id)
           | Some client_id \<Rightarrow>
               (case uuid_parse (e_uuids E) dep_id_str of None \<Rightarrow> Inr (Inl Error_invalid_client_id)
                | Some dep_id \<Rightarrow>
                    bindr (server_find_project_by_name w (Some name)) (\<lambda>r.
                      case r of None \<Rightarrow> Inr (Inl Error_unknown_project)
                      | Some p \<Rightarrow>
                          (case project_get_client_by_id (clients_of w p) client_id of
                             None \<Rightarrow> Inr (Inl Error_unknown_client)
                           | Some i \<Rightarrow> Inr (Inr (p, p_clients (projects w p) ! i, dep_id)))))))"

definition lashd_dbus_client_add_dependency ::
  "env \<Rightarrow> (string \<times> string \<times> string) option \<Rightarrow> world \<Rightarrow> (world \<times> reply) res" where
  "lashd_dbus_client_add_dependency E args w =
     bindr (lashd_dbus_get_client_dependency_modify_data E args w) (\<lambda>r.
       case r of Inl e \<Rightarrow> Inr (w, Error_reply e)
       | Inr (p, a, dep_id) \<Rightarrow>
           bindr (client_dependency_add (clients_of w p) (clients w a) dep_id) (\<lambda>c.
             Inr (upd_client a (\<lambda>_. c) w, No_reply)))"

definition lashd_dbus_client_remove_dependency ::
  "env \<Rightarrow> (string \<times> string \<times> string) option \<Rightarrow> world \<Rightarrow> (world \<times> reply) res" where
  "lashd_dbus_client_remove_dependency E args w =
     bindr (lashd_dbus_get_client_dependency_modify_data E args w) (\<lambda>r.
       case r of Inl e \<Rightarrow> Inr (w, Error_reply e)
       | Inr (p, a, dep_id) \<Rightarrow>
           Inr (upd_client a (\<lambda>c. c\<lparr>cl_dependencies := client_dependency_remove (cl_dependencies c) dep_id\<rparr>) w, No_reply))"

definition lashd_dbus_lost_client_launch :: "env \<Rightarrow> (string \<times> string) option \<Rightarrow> world \<Rightarrow> (world \<times> reply) res" where
  "lashd_dbus_lost_client_launch E args w =
     (case args of None \<Rightarrow> Inr (w, Error_reply Error_invalid_args)
      | Some (name, client_id_str) \<Rightarrow>
          (case uuid_parse (e_uuids E) client_id_str of None \<Rightarrow> Inr (w, Error_reply Error_invalid_client_id)
           | Some client_id \<Rightarrow> with_project (Some name) (\<lambda>p.
               case project_get_client_by_id (lost_clients_of w p) client_id of
                 None \<Rightarrow> Inr (w, Error_reply Error_unknown_client)
               | Some i \<Rightarrow> bindr (project_launch_client (p_lost_clients (projects w p) ! i) w) (\<lambda>w1.
                   Inr (w1, No_reply))) w))"

section \<open>Applications\<close>

definition lashd_dbus_applications_get :: "lash_appdb_entry list \<Rightarrow> reply" where
  "lashd_dbus_applications_get appdb =
     array_reply ''(sa{sv})'' (\<lambda>e. Option.bind (append_string (ae_name e)) (\<lambda>n.
         Some (DStruct [n, DArray ''{sv}'' (maybe_add_dict_entry_string ''GenericName'' (ae_generic_name e) @
           maybe_add_dict_entry_string ''Comment'' (ae_comment e) @ maybe_add_dict_entry_string ''Icon'' (ae_icon e))])))
       appdb"

section \<open>What clients ask for themselves\<close>

definition lashd_dbus_ping :: reply where
  "lashd_dbus_ping = Method_return []"

definition get_message_sender :: "string option \<Rightarrow> world \<Rightarrow> (dbus_error + addr) res" where
  "get_message_sender sender w =
     (case sender of None \<Rightarrow> Inr (Inl Error_generic)
      | Some s \<Rightarrow> bindr (server_find_client_by_dbus_name w s) (\<lambda>r.
          case r of None \<Rightarrow> Inr (Inl Error_unknown_client) | Some a \<Rightarrow> Inr (Inr a)))"

definition from_sender :: "string option \<Rightarrow> (addr \<Rightarrow> (world \<times> reply) res) \<Rightarrow> world \<Rightarrow> (world \<times> reply) res" where
  "from_sender sender k w =
     bindr (get_message_sender sender w) (\<lambda>r. case r of Inl e \<Rightarrow> Inr (w, Error_reply e) | Inr a \<Rightarrow> k a)"

definition lashd_dbus_jack_name :: "string option \<Rightarrow> string option \<Rightarrow> world \<Rightarrow> (world \<times> reply) res" where
  "lashd_dbus_jack_name sender args w =
     from_sender sender (\<lambda>a.
       case args of None \<Rightarrow> Inr (w, Error_reply Error_invalid_args)
       | Some jack_name \<Rightarrow> bindr (client_maybe_fill_class a w) (\<lambda>w1. Inr (w1, No_reply))) w"

definition lashd_dbus_alsa_id :: "string option \<Rightarrow> u8 option \<Rightarrow> world \<Rightarrow> (world \<times> reply) res" where
  "lashd_dbus_alsa_id sender args w =
     from_sender sender (\<lambda>a. Inr (w, if args = None then Error_reply Error_invalid_args else No_reply)) w"

definition lashd_dbus_get_name :: "string option \<Rightarrow> world \<Rightarrow> (world \<times> reply) res" where
  "lashd_dbus_get_name sender w =
     from_sender sender (\<lambda>a. Inr (w, Method_return [DString (case cl_name (clients w a) of Some n \<Rightarrow> n | None \<Rightarrow> '''')])) w"

definition lashd_dbus_get_jack_name :: "string option \<Rightarrow> world \<Rightarrow> (world \<times> reply) res" where
  "lashd_dbus_get_jack_name sender w =
     from_sender sender (\<lambda>a. Inr (w, Method_return
       [DString (case cl_jack_client_name (clients w a) of Some n \<Rightarrow> n | None \<Rightarrow> '''')])) w"

definition lashd_dbus_get_alsa_id :: "string option \<Rightarrow> world \<Rightarrow> (world \<times> reply) res" where
  "lashd_dbus_get_alsa_id sender w =
     from_sender sender (\<lambda>a. Inr (w, Method_return [DByte (cl_alsa_client_id (clients w a))])) w"

definition lashd_dbus_commit_path_change :: "string option \<Rightarrow> world \<Rightarrow> (world \<times> reply) res" where
  "lashd_dbus_commit_path_change sender w = from_sender sender (\<lambda>a. Inr (w, Method_return [DString ''/tmp''])) w"

text \<open>A name left the bus (\<^verbatim>\<open>lashd/dbus_service.c\<close>); the signal without its two strings is dropped.\<close>

definition lashd_client_disconnect_handler :: "(string \<times> string) option \<Rightarrow> world \<Rightarrow> world res" where
  "lashd_client_disconnect_handler args w =
     (case args of None \<Rightarrow> Inr w
      | Some (name, old_name) \<Rightarrow>
          bindr (server_find_client_by_dbus_name w old_name) (\<lambda>r.
            case r of None \<Rightarrow> Inr w | Some a \<Rightarrow> Inr (client_disconnected (Some a) w)))"

end
