(* ===== verification/Links.thy ===== *)
theory Links
  imports Control
begin

text \<open>
  The lists the daemon keeps: which client is in which list of which project, and which projects
  are loaded and known. Most operations leave them alone (\<open>links\<close>); the others keep them well
  formed (\<open>wf_links\<close>): every client is at one place in the lists of one project, which is the
  project it points to, and nothing in a list has not been created.
\<close>

section \<open>Operations that leave the lists alone\<close>

lemma links_start_save [link_simps]: "links (start_save p as w) = links w"
  by (induction p "as" w rule: start_save.induct) simp_all

lemma links_save_clients [link_simps]: "links (project_save_clients p w) = links w"
  by (simp add: project_save_clients_def Let_def links_start_save)

lemma links_jack_patch_xml: "project_create_client_jack_patch_xml E a w = Inr (w', xs) \<Longrightarrow> links w' = links w"
  by (auto simp: project_create_client_jack_patch_xml_def bindr_Inr_iff)

lemma links_clients_xml: "clients_xml E as w = Inr (w', xs) \<Longrightarrow> links w' = links w"
proof (induction E "as" w arbitrary: w' xs rule: clients_xml.induct)
  case (2 E a "as" w)
  obtain w1 jack rest where one: "(if cl_jack_client_name (clients w a) \<noteq> None
      then project_create_client_jack_patch_xml E a w else Inr (w, [])) = Inr (w1, jack)"
      and two: "clients_xml E as w1 = Inr (w', rest)"
    using 2(2) by (auto simp: Let_def bindr_Inr_iff split: prod.split_asm)
  have "links w1 = links w" using one by (auto split: if_split_asm dest: links_jack_patch_xml)
  moreover have "links w' = links w1" using 2(1) [OF refl _ refl] one two by blast
  ultimately show ?case by simp
qed simp

lemma links_write_info: "project_write_info E p w = Inr (w', ok) \<Longrightarrow> links w' = links w"
proof -
  assume run: "project_write_info E p w = Inr (w', ok)"
  then obtain w1 doc where doc: "project_create_xml E p w = Inr (w1, doc)"
    by (auto simp: project_write_info_def bindr_Inr_iff)
  have "links w' = links w1"
    using run doc
    by (cases "posix_write_file (disk w1) (under (p_directory (projects w1 p)) PROJECT_INFO_FILE) (e_xml_save E doc)")
      (auto simp: project_write_info_def Let_def)
  moreover have "links w1 = links w" using doc by (auto simp: project_create_xml_def bindr_Inr_iff dest: links_clients_xml)
  ultimately show "links w' = links w" by simp
qed

lemma links_save_notes [link_simps]: "links (fst (project_save_notes p w)) = links w"
  by (simp add: project_save_notes_def Let_def split: sum.split)

lemma links_save_complete: "project_clients_save_complete E p w = Inr w' \<Longrightarrow> links w' = links w"
  by (auto simp: project_clients_save_complete_def bindr_Inr_iff links_modified dest: links_write_info)

lemma links_loaded [link_simps]: "links (project_loaded p w) = links w"
  by (simp add: project_loaded_def links_modified)

lemma links_progress [link_simps]: "links (project_client_progress p a x w) = links w"
  by (simp add: project_client_progress_def Let_def)

lemma links_task_completed: "project_client_task_completed E p a w = Inr w' \<Longrightarrow> links w' = links w"
  unfolding project_client_task_completed_def Let_def
  by (auto simp: links_progress links_loaded split: if_split_asm event_type.split_asm dest!: links_save_complete)

lemma links_reset [link_simps]: "links (reset_task a w) = links w"
  by (simp add: reset_task_def)

lemma links_mark_saved [link_simps]: "links (mark_saved a w) = links w"
  by (simp add: mark_saved_def)

lemma links_write_store: "write_client_store a w = Inr (w', ok) \<Longrightarrow> links w' = links w"
  by (auto simp: write_client_store_def Let_def split: option.splits prod.split_asm)

lemma links_finish: "finish_task p a s w = Inr (Some w') \<Longrightarrow> links w' = links w"
  unfolding finish_task_def
  by (auto simp: bindr_Inr_iff links_mark_saved split: event_type.split_asm if_split_asm prod.split_asm
      dest: links_write_store links_satisfy)

lemma links_client_task_completed: "client_task_completed E a s w = Inr w' \<Longrightarrow> links w' = links w"
  by (auto simp: client_task_completed_def bindr_Inr_iff links_reset split: option.splits
      dest!: links_finish links_task_completed)

lemma links_client_task_progressed: "client_task_progressed E a x w = Inr w' \<Longrightarrow> links w' = links w"
  by (auto simp: client_task_progressed_def links_progress split: option.splits if_split_asm
      dest: links_client_task_completed)

lemma links_rename: "project_rename p n w = Inr w' \<Longrightarrow> links w' = links w"
  by (auto simp: project_rename_def Let_def links_modified split: option.splits)

lemma links_set_description [link_simps]: "links (project_set_description p d w) = links w"
  by (simp add: project_set_description_def Let_def links_modified)

lemma links_set_notes [link_simps]: "links (project_set_notes p d w) = links w"
  by (simp add: project_set_notes_def Let_def links_modified)

lemma links_rename_client: "project_rename_client a n w = Inr w' \<Longrightarrow> links w' = links w"
  by (auto simp: project_rename_client_def Let_def split: option.splits if_split_asm)

lemma links_clear_id_dir [link_simps]: "links (project_clear_id_dir p w) = links w"
  by (simp add: project_clear_id_dir_def Let_def)

lemma links_fill_class: "client_maybe_fill_class a w = Inr w' \<Longrightarrow> links w' = links w"
  by (auto simp: client_maybe_fill_class_def split: option.splits if_split_asm dest: links_rename_client)

lemma links_emit_all [link_simps]: "links (foldl (\<lambda>w x. emit (f x) w) w xs) = links w"
  by (induction xs arbitrary: w) simp_all

lemma links_bind: "lashd_jackdbus_mgr_bind_client E jc a w = Inr w' \<Longrightarrow> links w' = links w"
  by (auto simp: lashd_jackdbus_mgr_bind_client_def Let_def bindr_Inr_iff links_emit_all split: prod.split_asm
      dest!: links_fill_class)

lemma links_bind_unknown: "bind_unknown E x a w = Inr w' \<Longrightarrow> links w' = links w"
  by (auto simp: bind_unknown_def bindr_Inr_iff split: option.splits dest!: links_bind)

lemma links_load_notes [link_simps]: "links (project_load_notes p w) = links w"
  by (simp add: project_load_notes_def split: option.split)

lemma links_set_configs:
  "cl_project (f (clients w a)) = cl_project (clients w a) \<Longrightarrow> links (upd_client a f w) = links w"
  by (simp add: links_def fun_eq_iff)

lemma links_dbus_progress:
  assumes "lashd_dbus_progress E s t x w = Inr (w', e)"
  shows "links w' = links w"
proof -
  obtain r where r: "server_find_client_by_dbus_name w s = Inr r"
    using assms by (auto simp: lashd_dbus_progress_def bindr_Inr_iff)
  show ?thesis
  proof (cases "\<exists>a y. r = Some a \<and> check_tasks (clients w a) t = None \<and> x = Some y")
    case True
    then show ?thesis using assms r
      by (auto simp: lashd_dbus_progress_def bindr_Inr_iff dest: links_client_task_progressed)
  next
    case False
    then have "w' = w" using assms r
      by (cases r; cases x) (auto simp: lashd_dbus_progress_def split: option.split_asm)
    then show ?thesis by simp
  qed
qed

lemma links_commit:
  assumes "lashd_dbus_commit_data_set E s t cs w = Inr (w', e)"
  shows "links w' = links w"
proof -
  obtain r where r: "server_find_client_by_dbus_name w s = Inr r"
    using assms by (auto simp: lashd_dbus_commit_data_set_def bindr_Inr_iff)
  show ?thesis
  proof (cases "\<exists>a st es. r = Some a \<and> check_tasks (clients w a) t = None \<and> cl_store (clients w a) = Some st \<and>
      cs = Some es \<and> es \<noteq> []")
    case True
    then obtain a st es where a: "r = Some a" "check_tasks (clients w a) t = None" "cl_store (clients w a) = Some st"
      "cs = Some es" "es \<noteq> []" by blast
    then obtain st1 ok where "set_configs st es = Inr (st1, ok)"
      "client_task_completed E a ok (upd_client a (\<lambda>c. c\<lparr>cl_store := Some st1\<rparr>) w) = Inr w'"
      using assms r by (auto simp: lashd_dbus_commit_data_set_def bindr_Inr_iff)
    then show ?thesis using links_client_task_completed by simp
  next
    case False
    then have "w' = w" using assms r
      by (cases r; cases cs; cases "cs = Some []")
        (auto simp: lashd_dbus_commit_data_set_def split: option.split_asm)
    then show ?thesis by simp
  qed
qed

lemma links_mark_dead [link_simps]: "links (loader_child_find_and_mark_dead x w) = links w"
  by (simp add: loader_child_find_and_mark_dead_def split: option.split)

lemma links_sigchld [link_simps]: "links (loader_sigchld_handler ps w) = links w"
  unfolding loader_sigchld_handler_def by (induction ps arbitrary: w) (simp_all add: links_mark_dead)

lemma links_log_child [link_simps]: "links (log_child ch b ls w) = links w"
  unfolding log_child_def by (induction ls arbitrary: w) simp_all

lemma links_read_childs: "read_childs fds chs w = Inr (chs', w') \<Longrightarrow> links w' = links w"
proof (induction fds chs w arbitrary: chs' w' rule: read_childs.induct)
  case (2 fds ch chs w)
  have one: "read_child x c v = Inr (c', v') \<Longrightarrow> links v' = links v" for x c v c' v'
    by (auto simp: read_child_def bindr_Inr_iff Let_def links_log_child split: if_split_asm prod.split_asm)
  obtain ch1 w1 chs1 where "read_child (fds (ch_pid ch)) ch w = Inr (ch1, w1)" "read_childs fds chs w1 = Inr (chs1, w')"
    using 2(2) by (auto simp: bindr_Inr_iff split: prod.split_asm)
  then show ?case using 2(1) [OF _ refl] one by metis
qed simp

lemma links_read_output: "loader_read_childs_output fds w = Inr w' \<Longrightarrow> links w' = links w"
  by (auto simp: loader_read_childs_output_def bindr_Inr_iff split: prod.split_asm dest: links_read_childs)

lemma links_jack_modified [link_simps]: "links (jack_mgr_client_modified u w) = links w"
  by (simp add: jack_mgr_client_modified_def links_modified split: option.split)

lemma links_connected_end: "connected_end k g w = Inr (w', b) \<Longrightarrow> links w' = links w"
  by (auto simp: connected_end_def Let_def bindr_Inr_iff links_jack_modified split: option.splits)

lemma links_jack_signal: "lashd_jackdbus_handler E s w = Inr w' \<Longrightarrow> links w' = links w"
proof (cases s)
  case (Client_appeared_signal name k)
  then show "lashd_jackdbus_handler E s w = Inr w' \<Longrightarrow> links w' = links w"
    by (auto simp: lashd_jackdbus_handler_def lashd_jackdbus_on_client_appeared_def Let_def
        split: if_split_asm option.splits dest: links_bind)
next
  case (Client_disappeared_signal k)
  then show "lashd_jackdbus_handler E s w = Inr w' \<Longrightarrow> links w' = links w"
    by (auto simp: lashd_jackdbus_handler_def lashd_jackdbus_on_client_disappeared_def split: if_split_asm option.splits)
next
  case (Port_appeared_signal k c p)
  then show "lashd_jackdbus_handler E s w = Inr w' \<Longrightarrow> links w' = links w"
    by (auto simp: lashd_jackdbus_handler_def lashd_jackdbus_port_appeared_def Let_def bindr_Inr_iff links_emit_all)
next
  case (Ports_connected_signal g)
  then show "lashd_jackdbus_handler E s w = Inr w' \<Longrightarrow> links w' = links w"
    by (auto simp: lashd_jackdbus_handler_def lashd_jackdbus_mgr_ports_connected_def bindr_Inr_iff
        split: prod.split_asm if_split_asm dest!: links_connected_end)
next
  case (Ports_disconnected_signal g)
  have "links (fst (disconnected_end k v)) = links v" for k v
    by (simp add: disconnected_end_def links_jack_modified split: option.split)
  then show "lashd_jackdbus_handler E s w = Inr w' \<Longrightarrow> links w' = links w"
    using Ports_disconnected_signal
    by (auto simp: lashd_jackdbus_handler_def lashd_jackdbus_mgr_ports_disconnected_def split: prod.split_asm)
      (metis fst_conv)+
next
  case Server_started_signal
  then show "lashd_jackdbus_handler E s w = Inr w' \<Longrightarrow> links w' = links w"
    by (auto simp: lashd_jackdbus_handler_def bindr_Inr_iff)
next
  case Server_stopped_signal
  then show "lashd_jackdbus_handler E s w = Inr w' \<Longrightarrow> links w' = links w"
    by (auto simp: lashd_jackdbus_handler_def bindr_Inr_iff)
next
  case (Name_owner_changed_signal a b)
  then show "lashd_jackdbus_handler E s w = Inr w' \<Longrightarrow> links w' = links w"
    by (auto simp: lashd_jackdbus_handler_def split: if_split_asm)
qed

lemma dependency_add_project: "client_dependency_add cs c u = Inr c' \<Longrightarrow> cl_project c' = cl_project c"
  by (auto simp: client_dependency_add_def split: if_split_asm option.splits bool.split_asm)

end
