(* ===== verification/Lists.thy ===== *)
theory Lists
  imports Links
begin

text \<open>
  The invariant of the daemon's lists and the operations that change them: clients that join,
  are lost, come back or are forgotten, projects that are created, read, loaded and closed.
\<close>

section \<open>Well-formed lists\<close>

definition members :: "world \<Rightarrow> addr \<Rightarrow> addr list" where
  "members w p = p_clients (projects w p) @ p_lost_clients (projects w p)"

definition wf_project :: "world \<Rightarrow> addr \<Rightarrow> bool" where
  "wf_project w p \<longleftrightarrow> distinct (members w p)
     \<and> (\<forall>a \<in> set (members w p). cl_project (clients w a) = Some p \<and> a < next_client w)"

text \<open>
  Every client is in at most one list, at most once, and points to the project that holds it;
  the projects of the daemon's lists exist; a project that is not loaded has no clients.
\<close>

definition wf_lists :: "world \<Rightarrow> bool" where
  "wf_lists w \<longleftrightarrow> distinct (loaded_projects w) \<and> distinct (all_projects w)
     \<and> (\<forall>p \<in> set (loaded_projects w @ all_projects w). p < next_project w)
     \<and> (\<forall>p \<in> set [0..<next_project w]. wf_project w p \<and> (p \<in> set (loaded_projects w) \<or> members w p = []))"

lemma wf_listsI:
  assumes "distinct (loaded_projects w)" "distinct (all_projects w)"
    and "\<And>p. p \<in> set (loaded_projects w) \<Longrightarrow> p < next_project w"
    and "\<And>p. p \<in> set (all_projects w) \<Longrightarrow> p < next_project w"
    and "\<And>p. p < next_project w \<Longrightarrow> wf_project w p"
    and "\<And>p. p < next_project w \<Longrightarrow> p \<notin> set (loaded_projects w) \<Longrightarrow> members w p = []"
  shows "wf_lists w"
  unfolding wf_lists_def using assms by (metis Un_iff atLeastLessThan_iff set_append set_upt)

lemma wf_listsD:
  assumes "wf_lists w"
  shows "distinct (loaded_projects w)" "distinct (all_projects w)"
    and "p \<in> set (loaded_projects w) \<Longrightarrow> p < next_project w"
    and "p \<in> set (all_projects w) \<Longrightarrow> p < next_project w"
    and "p < next_project w \<Longrightarrow> wf_project w p"
    and "p < next_project w \<Longrightarrow> p \<notin> set (loaded_projects w) \<Longrightarrow> members w p = []"
  using assms by (auto simp: wf_lists_def)

lemma links_parts:
  assumes "links w' = links w"
  shows "members w' p = members w p" "cl_project (clients w' a) = cl_project (clients w a)"
    "next_client w' = next_client w" "next_project w' = next_project w"
    "loaded_projects w' = loaded_projects w" "all_projects w' = all_projects w"
    "p_clients (projects w' p) = p_clients (projects w p)"
    "p_lost_clients (projects w' p) = p_lost_clients (projects w p)"
  using assms by (auto simp: links_def members_def fun_eq_iff)

lemma wf_lists_cong:
  assumes "links w' = links w"
  shows "wf_lists w' = wf_lists w"
  by (simp add: wf_lists_def wf_project_def links_parts [OF assms])

text \<open>A client is in the lists of at most one project.\<close>

lemma one_project:
  assumes "wf_lists w" "p < next_project w" "q < next_project w" "a \<in> set (members w p)" "a \<in> set (members w q)"
  shows "p = q"
proof -
  have "cl_project (clients w a) = Some p" "cl_project (clients w a) = Some q"
    using wf_listsD(5) [OF assms(1,2)] wf_listsD(5) [OF assms(1,3)] assms(4,5) by (auto simp: wf_project_def)
  then show ?thesis by simp
qed

lemma member_loaded:
  "wf_lists w \<Longrightarrow> p < next_project w \<Longrightarrow> a \<in> set (members w p) \<Longrightarrow> p \<in> set (loaded_projects w)"
  using wf_listsD(6) by fastforce

section \<open>Clients that leave their list or move in it\<close>

text \<open>
  The general change: the members of one loaded project become others, which are its old ones or
  were in no list; nothing else changes but the project of clients that are in no other list.
\<close>

lemma wf_lists_change:
  assumes wf: "wf_lists w" and p: "p < next_project w" "p \<in> set (loaded_projects w)"
    and others: "\<And>q. q \<noteq> p \<Longrightarrow> members w' q = members w q"
    and proj: "\<And>q a. q \<noteq> p \<Longrightarrow> q < next_project w \<Longrightarrow> a \<in> set (members w q) \<Longrightarrow>
        cl_project (clients w' a) = cl_project (clients w a)"
    and here: "wf_project w' p" and next_c: "next_client w \<le> next_client w'" and next_p: "next_project w' = next_project w"
    and lists: "loaded_projects w' = loaded_projects w" "all_projects w' = all_projects w"
  shows "wf_lists w'"
proof (rule wf_listsI)
  show "wf_project w' q" if "q < next_project w'" for q
  proof (cases "q = p")
    case False
    have "wf_project w q" using that next_p wf by (simp add: wf_listsD)
    then show ?thesis using False others proj [of q] that next_p next_c
      by (auto simp: wf_project_def intro: less_le_trans)
  qed (simp add: here)
  show "members w' q = []" if "q < next_project w'" "q \<notin> set (loaded_projects w')" for q
    using that p others lists next_p wf_listsD(6) [OF wf] by (cases "q = p") auto
qed (use wf lists next_p in \<open>auto dest: wf_listsD\<close>)

lemma members_upd_project:
  "members (upd_project p f w) q = (if q = p then p_clients (f (projects w p)) @ p_lost_clients (f (projects w p)) else members w q)"
  by (simp add: members_def)

lemma members_upd_client [simp]: "members (upd_client a f w) q = members w q"
  by (simp add: members_def)

lemma members_updates [simp]:
  "members (w\<lparr>next_client := i\<rparr>) q = members w q" "members (w\<lparr>next_project := i\<rparr>) q = members w q"
  "members (w\<lparr>loaded_projects := L\<rparr>) q = members w q" "members (w\<lparr>all_projects := L\<rparr>) q = members w q"
  by (simp_all add: members_def)

lemma members_emit [simp]: "members (emit e w) q = members w q"
  by (simp add: members_def)

lemma wf_clear_lost_clients:
  assumes "wf_lists w" "p < next_project w" "p \<in> set (loaded_projects w)"
  shows "wf_lists (project_clear_lost_clients p w)"
proof -
  have "wf_project w p" using assms by (simp add: wf_listsD)
  then have "wf_project (project_clear_lost_clients p w) p"
    by (auto simp: wf_project_def project_clear_lost_clients_def Let_def members_def)
  then show ?thesis
    by (intro wf_lists_change [OF assms]) (auto simp: project_clear_lost_clients_def Let_def members_def)
qed

text \<open>The members of a project change places.\<close>

lemma wf_within:
  assumes wf: "wf_lists w" and p: "p < next_project w" and a: "a \<in> set (members w p)"
    and here: "distinct (members w' p)" "set (members w' p) \<subseteq> set (members w p)"
    and rest: "\<And>q. q \<noteq> p \<Longrightarrow> members w' q = members w q"
      "\<And>b. b \<in> set (members w p) \<Longrightarrow> cl_project (clients w' b) = Some p"
      "\<And>b. b \<notin> set (members w p) \<Longrightarrow> cl_project (clients w' b) = cl_project (clients w b)"
      "next_client w' = next_client w" "next_project w' = next_project w"
      "loaded_projects w' = loaded_projects w" "all_projects w' = all_projects w"
  shows "wf_lists w'"
proof (rule wf_lists_change [OF wf p member_loaded [OF wf p a]])
  have "wf_project w p" using wf p by (simp add: wf_listsD)
  then show "wf_project w' p" using here rest(2,4) by (auto simp: wf_project_def)
  show "cl_project (clients w' b) = cl_project (clients w b)"
    if "q \<noteq> p" "q < next_project w" "b \<in> set (members w q)" for q b
    using that rest(3) one_project [OF wf p that(2) _ that(3)] by blast
qed (use rest in simp_all)

lemma unlinked_distinct:
  assumes "distinct (members w p)" "a \<in> set (members w p)"
  shows "distinct (a # del a (p_clients (projects w p)) @ del a (p_lost_clients (projects w p)))"
    and "insert a (set (del a (p_clients (projects w p))) \<union> set (del a (p_lost_clients (projects w p)))) = set (members w p)"
  using assms by (auto simp: members_def del_def distinct_remove1)

text \<open>A new client joins.\<close>

lemma wf_joined:
  assumes wf: "wf_lists w" and p: "p < next_project w" "p \<in> set (loaded_projects w)"
    and a: "\<And>q. q < next_project w \<Longrightarrow> a \<notin> set (members w q)"
    and here: "members w' p = xs @ a # ys" "members w p = xs @ ys"
    and rest: "\<And>q. q \<noteq> p \<Longrightarrow> members w' q = members w q"
      "cl_project (clients w' a) = Some p" "\<And>b. b \<noteq> a \<Longrightarrow> cl_project (clients w' b) = cl_project (clients w b)"
      "next_client w \<le> next_client w'" "a < next_client w'" "next_project w' = next_project w"
      "loaded_projects w' = loaded_projects w" "all_projects w' = all_projects w"
  shows "wf_lists w'"
proof (rule wf_lists_change [OF wf p])
  have "wf_project w p" using wf p by (simp add: wf_listsD)
  moreover have "cl_project (clients w' b) = cl_project (clients w b)" if "b \<in> set (members w p)" for b
    using that a [OF p(1)] rest(3) by metis
  ultimately show "wf_project w' p" using here a [OF p(1)] rest(2,4,5)
    by (auto simp: wf_project_def intro: less_le_trans)
  show "cl_project (clients w' b) = cl_project (clients w b)"
    if "q \<noteq> p" "q < next_project w" "b \<in> set (members w q)" for q b
    using that a rest(3) by metis
qed (use rest in simp_all)

lemma wf_fresh:
  assumes "wf_lists w" "p < next_project w"
  shows "next_client w \<notin> set (members w p)"
  using wf_listsD(5) [OF assms] by (auto simp: wf_project_def)

section \<open>Losing clients\<close>

lemma links_lose_parts:
  "links (lose_store a w) = links w" "links (lose_dirs p a w) = links w" "links (lose_jack a w) = links w"
  by (simp_all add: lose_store_def lose_dirs_def lose_jack_def Let_def split: option.split prod.split)

lemma lose_client_lists:
  "p_clients (projects (project_lose_client p a w) q) = p_clients (projects w q)"
  "p_lost_clients (projects (project_lose_client p a w) q) = (if q = p then [a] else []) @ p_lost_clients (projects w q)"
  "cl_project (clients (project_lose_client p a w) b) = (if b = a then Some p else cl_project (clients w b))"
  "next_client (project_lose_client p a w) = next_client w" "next_project (project_lose_client p a w) = next_project w"
  "loaded_projects (project_lose_client p a w) = loaded_projects w"
  "all_projects (project_lose_client p a w) = all_projects w"
proof -
  let ?w1 = "lose_jack a (lose_dirs p a (lose_store a w))"
  have links: "links ?w1 = links w" by (simp add: links_lose_parts)
  note parts = links_parts [OF links]
  show "p_clients (projects (project_lose_client p a w) q) = p_clients (projects w q)"
    "p_lost_clients (projects (project_lose_client p a w) q) = (if q = p then [a] else []) @ p_lost_clients (projects w q)"
    "cl_project (clients (project_lose_client p a w) b) = (if b = a then Some p else cl_project (clients w b))"
    "next_client (project_lose_client p a w) = next_client w" "next_project (project_lose_client p a w) = next_project w"
    "loaded_projects (project_lose_client p a w) = loaded_projects w"
    "all_projects (project_lose_client p a w) = all_projects w"
    by (simp_all add: project_lose_client_def Let_def project_set_modified_status_def parts)
qed

lemma wf_disconnected:
  assumes wf: "wf_lists w" and p: "p < next_project w" and a: "a \<in> set (members w p)"
  shows "wf_lists (client_disconnected (Some a) w)"
proof -
  have wfp: "wf_project w p" using wf p by (simp add: wf_listsD)
  then have proj: "cl_project (clients w a) = Some p" using a by (simp add: wf_project_def)
  let ?w' = "project_lose_client p a (unlink_client p a w)"
  have m: "members ?w' p = del a (p_clients (projects w p)) @ a # del a (p_lost_clients (projects w p))"
    by (simp add: members_def lose_client_lists unlink_client_def)
  have "wf_lists ?w'"
  proof (rule wf_within [OF wf p a])
    show "distinct (members ?w' p)" "set (members ?w' p) \<subseteq> set (members w p)"
      unfolding m using unlinked_distinct [of w p a] wfp a by (auto simp: wf_project_def)
    show "cl_project (clients ?w' b) = Some p" if "b \<in> set (members w p)" for b
      using that wfp by (auto simp: lose_client_lists wf_project_def unlink_client_def)
    show "cl_project (clients ?w' b) = cl_project (clients w b)" if "b \<notin> set (members w p)" for b
      using that a by (auto simp: lose_client_lists unlink_client_def)
  qed (simp_all add: lose_client_lists members_def unlink_client_def)
  then show ?thesis by (simp add: client_disconnected_def proj)
qed

text \<open>What the searches find is in a list of a loaded project.\<close>

lemma find_in_lists_member:
  "find_in_lists P (map f ps) = Some a \<Longrightarrow> \<exists>p \<in> set ps. a \<in> set (f p)"
  by (auto simp: find_in_lists_def dest!: find_Some_set)

lemma found_member:
  assumes "wf_lists w"
  shows "server_find_client_by_pid w x = Some a \<Longrightarrow> \<exists>p < next_project w. a \<in> set (members w p)"
    and "server_find_lost_client_by_pid w x = Some a \<Longrightarrow> \<exists>p < next_project w. a \<in> set (members w p)"
    and "server_find_client_by_id w u = Some a \<Longrightarrow> \<exists>p < next_project w. a \<in> set (members w p)"
  using wf_listsD(3) [OF assms]
  by (auto simp: server_find_client_by_pid_def server_find_lost_client_by_pid_def server_find_client_by_id_def
      members_def dest!: find_in_lists_member)

lemma find_by_str_member: "find_by_str f s as = Inr (Some a) \<Longrightarrow> a \<in> set as"
  by (induction f s "as" rule: find_by_str.induct) (auto split: option.splits if_splits)

lemma find_dbus_member:
  "find_client_by_dbus_name w s ps = Inr (Some a) \<Longrightarrow> \<exists>p \<in> set ps. a \<in> set (p_clients (projects w p))"
proof (induction w s ps rule: find_client_by_dbus_name.induct)
  case (2 w s p ps)
  then obtain r where r: "find_by_str (\<lambda>a. cl_dbus_name (clients w a)) s (p_clients (projects w p)) = Inr r"
    by (auto simp: bindr_Inr_iff)
  then show ?case using 2 by (cases r) (auto dest: find_by_str_member)
qed simp

lemma found_sender:
  assumes "wf_lists w" "server_find_client_by_dbus_name w s = Inr (Some a)"
  shows "\<exists>p < next_project w. a \<in> set (members w p)"
  using find_dbus_member assms wf_listsD(3) [OF assms(1)]
  by (fastforce simp: server_find_client_by_dbus_name_def members_def)

lemma found_project:
  assumes "server_find_project_by_name w n = Inr (Some p)"
  shows "p \<in> set (loaded_projects w)"
  using assms by (auto simp: server_find_project_by_name_def split: option.splits dest: find_by_str_member)

lemma wf_disconnected_found:
  assumes "wf_lists w" shows "wf_lists (client_disconnected (server_find_client_by_pid w x) w)"
proof (cases "server_find_client_by_pid w x")
  case None
  then show ?thesis using assms by (simp add: client_disconnected_def)
next
  case (Some a)
  then show ?thesis using found_member(1) [OF assms Some] wf_disconnected [OF assms] by auto
qed

lemma wf_bury: "wf_lists w \<Longrightarrow> wf_lists (bury chs w)"
proof (induction chs w rule: bury.induct)
  case (2 ch chs w)
  show ?case
  proof (cases "ch_dead ch")
    case True
    let ?w1 = "log_child ch False (loader_check_line_repeat_end (rd_count (ch_stdout ch))) w"
    let ?w2 = "log_child ch True (loader_check_line_repeat_end (rd_count (ch_stderr ch))) ?w1"
    let ?w3 = "?w2\<lparr>childs := remove1 ch (childs ?w2)\<rparr>"
    have "links ?w3 = links w" by (simp add: links_log_child)
    then have "wf_lists ?w3" using 2(3) wf_lists_cong by blast
    then have "wf_lists (bury chs (client_disconnected (server_find_client_by_pid ?w3 (ch_pid ch)) ?w3))"
      by (rule 2(1) [OF True refl refl refl wf_disconnected_found])
    then show ?thesis using True by (simp add: Let_def)
  next
    case False
    then show ?thesis using 2 by simp
  qed
qed simp

lemma wf_loader_run: "wf_lists w \<Longrightarrow> loader_run fds w = Inr w' \<Longrightarrow> wf_lists w'"
  by (auto simp: loader_run_def bindr_Inr_iff loader_childs_bury_def intro!: wf_bury
      dest!: links_read_output wf_lists_cong)

section \<open>Clients that come back and clients that join\<close>

lemma links_load_state:
  "(if A then (if B then (project_load_file a w, False) else if C then (project_load_data_set E p a w, False)
      else (w, True)) else (w, True)) = (w', s) \<Longrightarrow> links w' = links w"
  by (auto simp: links_load_file links_load_data_set split: if_split_asm)

lemma wf_resumed:
  assumes wf: "wf_lists w" and p: "p < next_project w" and a: "a \<in> set (members w p)"
    and run: "client_resume_project E a w = Inr w'"
  shows "wf_lists w'"
proof -
  have wfp: "wf_project w p" using wf p by (simp add: wf_listsD)
  then have proj: "cl_project (clients w a) = Some p" using a by (simp add: wf_project_def)
  let ?w1 = "if cl_data_path (clients w a) = None \<or> cl_data_path (clients w a) = Some ''''
    then upd_client a (\<lambda>c. c\<lparr>cl_data_path := Some (project_get_client_dir (projects w p) (cl_id_str c))\<rparr>) w else w"
  let ?c1 = "clients ?w1 a"
  let ?w2 = "if CLIENT_CONFIG_FILE ?c1 \<or> CLIENT_CONFIG_DATA_SET ?c1
    then ?w1\<lparr>disk := lash_create_dir (disk ?w1) (lash_strdup (cl_data_path ?c1))\<rparr> else ?w1"
  let ?w3 = "unlink_client p a ?w2"
  let ?c3 = "clients ?w3 a"
  obtain w4 stateless where four: "(if CLIENT_SAVED ?c3 then
      (if CLIENT_CONFIG_FILE ?c3 then (project_load_file a ?w3, False)
       else if CLIENT_CONFIG_DATA_SET ?c3 then (project_load_data_set E p a ?w3, False)
       else (?w3, True)) else (?w3, True)) = (w4, stateless)" by fastforce
  let ?w5 = "upd_project p (\<lambda>x. x\<lparr>p_clients := a # p_clients x\<rparr>) w4"
  have "links ?w2 = links w" by simp
  then have two: "members (unlink_client p a ?w2) q = (if q = p
      then del a (p_clients (projects w p)) @ del a (p_lost_clients (projects w p)) else members w q)"
    "cl_project (clients ?w3 b) = cl_project (clients w b)" "next_client ?w3 = next_client w"
    "next_project ?w3 = next_project w" "loaded_projects ?w3 = loaded_projects w" "all_projects ?w3 = all_projects w" for q b
    using links_parts [OF \<open>links ?w2 = links w\<close>] by (simp_all add: unlink_client_def members_def)
  have "links w4 = links ?w3"
    by (rule links_load_state [OF four])
  note w4 = links_parts [OF this]
  have five: "members ?w5 q = (if q = p
      then a # del a (p_clients (projects w p)) @ del a (p_lost_clients (projects w p)) else members w q)" for q
  proof -
    have "members ?w5 q = (if q = p then a # members w4 p else members w4 q)" by (simp add: members_def)
    then show ?thesis unfolding w4(1) two(1) by simp
  qed
  obtain w6 where six: "(if cl_name (clients ?w5 a) = None \<or> cl_name (clients ?w5 a) = Some ''''
      then project_name_client p a ?w5 else Inr ?w5) = Inr w6"
    and last: "(let w7 = emit (Client_appeared (cl_id_str (clients w6 a)) (p_name (projects w6 p)) (cl_name (clients w6 a))) w6
      in if stateless then bindr (project_client_task_completed E p a
             (upd_client a (\<lambda>c. c\<lparr>cl_task_type := LASH_Restore_Data_Set\<rparr>) w7)) (\<lambda>w8.
           Inr (upd_client a (\<lambda>c. c\<lparr>cl_task_type := LASH_Event_Unknown\<rparr>) w8)) else Inr w7) = Inr w'"
    using run unfolding client_resume_project_def proj
    by (auto simp only: option.case Let_def four prod.case bindr_Inr_iff)
  have "links w6 = links ?w5" using six links_name_client by (auto split: if_split_asm)
  moreover have "links w' = links w6"
    using last by (cases stateless) (auto simp: bindr_Inr_iff dest!: links_task_completed)
  ultimately have w': "links w' = links ?w5" by simp
  have "wf_lists ?w5"
  proof (rule wf_within [OF wf p a])
    show "distinct (members ?w5 p)" "set (members ?w5 p) \<subseteq> set (members w p)"
      using five [of p] unlinked_distinct [of w p a] wfp a by (auto simp: wf_project_def)
    show "members ?w5 q = members w q" if "q \<noteq> p" for q using that five by simp
    show "cl_project (clients ?w5 b) = Some p" if "b \<in> set (members w p)" for b
      using that wfp w4(2) two(2) by (simp add: wf_project_def)
  qed (use w4 two in simp_all)
  then show ?thesis using wf_lists_cong [OF w'] by simp
qed

lemma wf_new_client:
  assumes wf: "wf_lists w" and p: "p < next_project w" "p \<in> set (loaded_projects w)"
    and a: "\<And>q. q < next_project w \<Longrightarrow> a \<notin> set (members w q)" "a < next_client w"
    and run: "project_new_client E p a w = Inr w'"
  shows "wf_lists w'"
proof -
  let ?id = "uuid_unparse (e_uuids E) (new_uuids w 0)"
  let ?path = "project_get_client_dir (projects w p) ?id"
  let ?w1 = "upd_client a (\<lambda>c. c\<lparr>cl_id := new_uuids w 0, cl_id_str := ?id, cl_data_path := Some ?path\<rparr>)
                 (w\<lparr>new_uuids := (\<lambda>n. new_uuids w (Suc n))\<rparr>)"
  let ?w2 = "if CLIENT_CONFIG_DATA_SET (clients ?w1 a)
      then fst (client_store_open a (project_get_client_config_dir (projects ?w1 p) ?id) ?w1) else ?w1"
  let ?w3 = "upd_project p (\<lambda>x. x\<lparr>p_clients := a # p_clients x\<rparr>) (upd_client a (\<lambda>c. c\<lparr>cl_project := Some p\<rparr>) ?w2)"
  have "links ?w1 = links w" by simp
  then have "links ?w2 = links w" by (simp add: links_store_open del: upd_client_simps)
  note w2 = links_parts [OF this]
  have wf3: "wf_lists ?w3"
    by (rule wf_joined [OF wf p a(1), where xs = "[]"]) (use w2 a(2) in \<open>simp_all add: members_def\<close>)
  obtain w5 where "project_name_client p a (?w3\<lparr>disk := lash_create_dir (disk ?w3) ?path\<rparr>) = Inr w5"
    "w' = (let w6 = project_set_modified_status p True w5
       in emit (Client_appeared (cl_id_str (clients w6 a)) (p_name (projects w6 p)) (cl_name (clients w6 a))) w6)"
    using run unfolding project_new_client_def by (auto simp only: Let_def bindr_Inr_iff)
  then have "links w' = links ?w3" by (auto simp: Let_def links_modified dest!: links_name_client)
  then show ?thesis using wf_lists_cong wf3 by blast
qed

section \<open>New projects\<close>

lemma wf_project_added:
  assumes wf: "wf_lists w" and n: "next_project w = p" "next_project w' = Suc p"
    and here: "members w' p = []" and others: "\<And>q. q \<noteq> p \<Longrightarrow> members w' q = members w q"
      "\<And>a. cl_project (clients w' a) = cl_project (clients w a)" "next_client w' = next_client w"
    and lists: "distinct (loaded_projects w')" "distinct (all_projects w')"
      "set (loaded_projects w) \<subseteq> set (loaded_projects w')"
      "set (loaded_projects w') \<subseteq> insert p (set (loaded_projects w))"
      "set (all_projects w') \<subseteq> insert p (set (all_projects w))"
  shows "wf_lists w'"
proof (rule wf_listsI)
  show "wf_project w' q" if "q < next_project w'" for q
  proof (cases "q = p")
    case False
    then have "wf_project w q" using that n wf_listsD(5) [OF wf, of q] by simp
    then show ?thesis using False others by (simp add: wf_project_def)
  qed (simp add: wf_project_def here)
  show "members w' q = []" if "q < next_project w'" "q \<notin> set (loaded_projects w')" for q
    using that n here others(1) [of q] lists(3) wf_listsD(6) [OF wf, of q] by (cases "q = p") auto
qed (use wf_listsD(3,4) [OF wf] n lists in \<open>fastforce+\<close>)

lemma wf_create_project:
  assumes wf: "wf_lists w" and run: "server_create_new_project name w = Inr (w', p)"
  shows "wf_lists w' \<and> p < next_project w' \<and> p \<in> set (loaded_projects w') \<and> next_client w' = next_client w
     \<and> (\<forall>q < next_project w'. set (members w' q) \<subseteq> \<Union> (set ` members w ` {..<next_project w}))"
proof -
  obtain n where "server_create_new_project_name w name = Inr n"
    using run by (auto simp: server_create_new_project_def bindr_Inr_iff)
  let ?x = "project_new\<lparr>p_name := n, p_directory := Some (fst (lash_get_fqn 48 (Some (projects_dir w)) n))\<rparr>"
  let ?w1 = "upd_project (next_project w) (\<lambda>_. ?x) (w\<lparr>next_project := next_project w + 1\<rparr>)"
  let ?w2 = "project_clear_id_dir (next_project w) ?w1"
  let ?w3 = "?w2\<lparr>loaded_projects := loaded_projects ?w2 @ [next_project w]\<rparr>"
  have w': "w' = emit (Project_appeared (p_name ?x) (p_directory ?x)) ?w3" "p = next_project w"
    using run \<open>server_create_new_project_name w name = Inr n\<close>
    by (auto simp: server_create_new_project_def Let_def)
  have "links ?w2 = links ?w1" by (simp add: links_clear_id_dir)
  note w2 = links_parts [OF this]
  have facts: "next_project w' = Suc p" "members w' q = (if q = p then [] else members w q)"
    "cl_project (clients w' a) = cl_project (clients w a)" "next_client w' = next_client w"
    "loaded_projects w' = loaded_projects w @ [p]" "all_projects w' = all_projects w" for q a
    using w2 w' by (simp_all add: members_def project_new_def)
  moreover have "p \<notin> set (loaded_projects w)" using wf_listsD(3) [OF wf] w'(2) by blast
  ultimately have "wf_lists w'"
    using wf_listsD(1,2) [OF wf] w'(2) by (intro wf_project_added [OF wf, of p]) auto
  moreover have "set (members w' q) \<subseteq> \<Union> (set ` members w ` {..<next_project w})" if "q < next_project w'" for q
    using that facts(1,2) w'(2) by (auto simp: less_Suc_eq)
  ultimately show ?thesis using facts by simp
qed

lemma wf_newborn:
  assumes wf: "wf_lists w" and run: "server_get_newborn_project w = Inr (w', p)"
  shows "wf_lists w' \<and> p < next_project w' \<and> p \<in> set (loaded_projects w') \<and> next_client w' = next_client w
     \<and> (\<forall>q < next_project w'. set (members w' q) \<subseteq> \<Union> (set ` members w ` {..<next_project w}))"
proof (cases "List.find (\<lambda>p. p_doc (projects w p) = None) (loaded_projects w) = None \<and> loaded_projects w = []")
  case True
  then show ?thesis using run wf_create_project [OF wf] by (simp add: server_get_newborn_project_def)
next
  case False
  then have "w' = w \<and> p \<in> set (loaded_projects w)"
    using run by (auto simp: server_get_newborn_project_def split: option.split_asm if_split_asm dest: find_Some_set)
  then show ?thesis using wf wf_listsD(3) [OF wf] by auto
qed

lemma wf_add_client:
  assumes wf: "wf_lists w" and run: "server_add_client E s x class flags wd argv w = Inr (w', a)"
  shows "wf_lists w'"
proof -
  let ?found = "if x \<noteq> 0 then server_find_lost_client_by_pid w x else None"
  obtain w1 where w1: "(case ?found of
          Some a \<Rightarrow>
            bindr (client_resume_project E a (upd_client a (\<lambda>c. c\<lparr>cl_dbus_name := Some s,
                cl_flags := cl_flags c OR LASH_Restored\<rparr>) w)) (\<lambda>w1. Inr (w1, a))
        | None \<Rightarrow>
            (let a = next_client w;
                 c = client_new\<lparr>cl_pid := x, cl_class := Some class, cl_flags := flags, cl_argv := argv,
                       cl_dbus_name := Some s, cl_working_dir := Some wd\<rparr>;
                 w1 = upd_client a (\<lambda>_. c) (w\<lparr>next_client := a + 1\<rparr>)
             in bindr (server_get_newborn_project w1) (\<lambda>(w2, p).
                bindr (project_new_client E p a w2) (\<lambda>w3. Inr (w3, a))))) = Inr (w1, a)"
    and bind: "bind_unknown E x a w1 = Inr w'"
    using run unfolding server_add_client_def by (fastforce simp: bindr_Inr_iff simp del: upd_client_simps)
  have "wf_lists w1"
  proof (cases ?found)
    case (Some b)
    let ?w0 = "upd_client b (\<lambda>c. c\<lparr>cl_dbus_name := Some s, cl_flags := cl_flags c OR LASH_Restored\<rparr>) w"
    obtain p where p: "p < next_project w" "b \<in> set (members w p)"
      using found_member(2) [OF wf] Some by (auto split: if_split_asm)
    have "wf_lists ?w0" using wf wf_lists_cong [of ?w0 w] by simp
    moreover have "client_resume_project E b ?w0 = Inr w1" using w1 Some by (auto simp: bindr_Inr_iff)
    ultimately show ?thesis using wf_resumed [of ?w0 p b] p by simp
  next
    case None
    let ?c = "client_new\<lparr>cl_pid := x, cl_class := Some class, cl_flags := flags, cl_argv := argv,
                       cl_dbus_name := Some s, cl_working_dir := Some wd\<rparr>"
    let ?w0 = "upd_client (next_client w) (\<lambda>_. ?c) (w\<lparr>next_client := next_client w + 1\<rparr>)"
    have m: "members ?w0 q = members w q" for q by simp
    have "wf_project ?w0 q" if "q < next_project w" for q
      using wf_listsD(5) [OF wf that] wf_fresh [OF wf that]
      by (auto simp: wf_project_def m less_Suc_eq)
    then have "wf_lists ?w0"
      using wf_listsD [OF wf] by (intro wf_listsI) (simp_all add: m)
    moreover obtain w2 p where w2: "server_get_newborn_project ?w0 = Inr (w2, p)"
      "project_new_client E p (next_client w) w2 = Inr w1"
      using w1 None by (auto simp: bindr_Inr_iff Let_def)
    ultimately have newborn: "wf_lists w2 \<and> p < next_project w2 \<and> p \<in> set (loaded_projects w2) \<and> next_client w2 = Suc (next_client w)
     \<and> (\<forall>q < next_project w2. set (members w2 q) \<subseteq> \<Union> (set ` members ?w0 ` {..<next_project w}))"
      using wf_newborn [of ?w0 w2 p] by simp
    have "next_client w \<notin> set (members w2 q)" if "q < next_project w2" for q
      using newborn that wf_fresh [OF wf] m by fastforce
    then show ?thesis using newborn by (intro wf_new_client [OF _ _ _ _ _ w2(2)]) auto
  qed
  then show ?thesis using wf_lists_cong [OF links_bind_unknown [OF bind]] by simp
qed

section \<open>Unloading and closing\<close>

lemma links_unload_jack [link_simps]: "links (unload_jack as w) = links w"
proof (induction "as" arbitrary: w)
  case (Cons a "as")
  then show ?case by (simp add: unload_jack_def)
qed (simp add: unload_jack_def)

lemma unload_lists:
  assumes "project_unload p w = Inr w'"
  shows "members w' q = (if q = p then [] else members w q)" "cl_project (clients w' a) = cl_project (clients w a)"
    "next_client w' = next_client w" "next_project w' = next_project w"
    "loaded_projects w' = del p (loaded_projects w)" "all_projects w' = all_projects w"
proof -
  let ?w1 = "w\<lparr>loaded_projects := del p (loaded_projects w)\<rparr>"
  let ?w2 = "emit (Quit_signal (p_name (projects ?w1 p))) ?w1"
  let ?w3 = "unload_jack (p_clients (projects ?w2 p)) ?w2"
  let ?w4 = "upd_project p (\<lambda>x. x\<lparr>p_clients := [], p_lost_clients := []\<rparr>) ?w3"
  obtain w5 where five: "(if p_move_on_close (projects ?w4 p) then
        (case p_name (projects ?w4 p) of None \<Rightarrow> Inl Null_deref
         | Some name \<Rightarrow> project_move p (projects_dir ?w4 @ slash # map (\<lambda>c. if c = slash then CHR '' '' else c) name) ?w4)
      else Inr ?w4) = Inr w5"
    and last: "(if p_doc (projects w5 p) = None \<and> lash_dir_exists (disk w5) (p_directory (projects w5 p))
        then Inr (w5\<lparr>disk := lash_remove_dir (disk w5) (lash_strdup (p_directory (projects w5 p)))\<rparr>)
        else Inr w5) = (Inr w' :: world res)"
    using assms unfolding project_unload_def Let_def bindr_Inr_iff by (elim exE conjE) (rule that)
  have "links w5 = links ?w4" using five by (auto split: if_split_asm option.split_asm dest: links_move)
  moreover have "links w' = links w5" using last by (auto split: if_split_asm)
  ultimately have w': "links w' = links ?w4" by simp
  have "links ?w3 = links ?w2" by (rule links_unload_jack)
  note w3 = links_parts [OF this]
  show "members w' q = (if q = p then [] else members w q)" "cl_project (clients w' a) = cl_project (clients w a)"
    "next_client w' = next_client w" "next_project w' = next_project w"
    "loaded_projects w' = del p (loaded_projects w)" "all_projects w' = all_projects w"
    unfolding links_parts [OF w'] using w3(1) [of q] w3(2-6) by (simp_all add: members_def)
qed

lemma wf_unloaded:
  assumes wf: "wf_lists (w\<lparr>loaded_projects := L\<rparr>)" and L: "del p L = del p (loaded_projects w)"
    and run: "project_unload p w = Inr w'"
  shows "wf_lists w'"
proof (rule wf_listsI)
  note lists = unload_lists [OF run]
  have m: "members (w\<lparr>loaded_projects := L\<rparr>) q = members w q" for q by (simp add: members_def)
  note old = wf_listsD [OF wf, simplified m, simplified]
  have "set (del p L) \<subseteq> set L" by (simp add: del_def set_remove1_subset)
  then show "\<And>q. q \<in> set (loaded_projects w') \<Longrightarrow> q < next_project w'" using old(3) L lists by auto
  show "distinct (loaded_projects w')" using old(1) L lists by (metis del_def distinct_remove1)
  show "wf_project w' q" if "q < next_project w'" for q
    using old(5) [of q] that lists(2-4) lists(1) [of q] by (auto simp: wf_project_def m)
  show "members w' q = []" if "q < next_project w'" "q \<notin> set (loaded_projects w')" for q
  proof (cases "q = p")
    case False
    then have "q \<notin> set L" using that(2) L lists(5) by (metis del_def in_set_remove1)
    then show ?thesis using old(6) [of q] that(1) lists by simp
  qed (simp add: lists)
qed (use unload_lists [OF run] wf_listsD [OF wf] in simp_all)

lemma wf_unload: "wf_lists w \<Longrightarrow> project_unload p w = Inr w' \<Longrightarrow> wf_lists w'"
  by (rule wf_unloaded [where w = w and L = "loaded_projects w"]) simp_all

lemma wf_close: "wf_lists w \<Longrightarrow> server_close_project p w = Inr w' \<Longrightarrow> wf_lists w'"
  by (auto simp: server_close_project_def bindr_Inr_iff wf_lists_cong [OF links_emit] dest: wf_unload)

lemma wf_close_projects: "wf_lists w \<Longrightarrow> close_projects ps w = Inr w' \<Longrightarrow> wf_lists w'"
  by (induction ps w rule: close_projects.induct) (auto simp: bindr_Inr_iff dest: wf_close)

lemma wf_close_by_name: "wf_lists w \<Longrightarrow> server_project_close_by_name n w = Inr (w', ok) \<Longrightarrow> wf_lists w'"
  by (auto simp: server_project_close_by_name_def bindr_Inr_iff split: option.splits dest: wf_close)

section \<open>Loading and restoring\<close>

lemma parse_dependencies_project: "parse_dependencies E cs c ns = Inr c' \<Longrightarrow> cl_project c' = cl_project c"
proof (induction E cs c ns arbitrary: c' rule: parse_dependencies.induct)
  case (2 E cs c n ns)
  show ?case
  proof (cases "xname n = ''id'' \<and> uuid_parse (e_uuids E) (get_content (e_content E) n) \<noteq> None")
    case True
    then obtain u c1 where u: "xname n = ''id''" "uuid_parse (e_uuids E) (get_content (e_content E) n) = Some u"
      and c1: "client_dependency_add cs c u = Inr c1" "parse_dependencies E cs c1 ns = Inr c'"
      using 2(4) by (auto simp: bindr_Inr_iff)
    have "cl_project c' = cl_project c1" by (rule 2(2) [OF u c1])
    then show ?thesis using dependency_add_project [OF c1(1)] by simp
  next
    case False
    then have "parse_dependencies E cs c ns = Inr c'" using 2(4) by (auto split: if_split_asm)
    then show ?thesis using 2(1,3) False by blast
  qed
qed simp

lemma parse_node_project: "client_parse_node E cs c n = Inr c' \<Longrightarrow> cl_project c' = cl_project c"
  unfolding client_parse_node_def Let_def
  by (auto simp: bindr_Inr_iff split: if_split_asm dest: parse_dependencies_project)

lemma client_parse_project: "client_parse_xml E cs c n = Inr c' \<Longrightarrow> cl_project c' = cl_project c"
proof -
  have "client_parse_nodes E cs c ns = Inr c' \<Longrightarrow> cl_project c' = cl_project c" for ns
  proof (induction E cs c ns arbitrary: c' rule: client_parse_nodes.induct)
    case (2 E cs c n ns)
    then obtain c1 where "client_parse_node E cs c n = Inr c1" "client_parse_nodes E cs c1 ns = Inr c'"
      by (auto simp: bindr_Inr_iff)
    then show ?case using 2(1) parse_node_project by metis
  qed simp
  then show "client_parse_xml E cs c n = Inr c' \<Longrightarrow> cl_project c' = cl_project c" by (simp add: client_parse_xml_def)
qed

text \<open>
  While a project is read it is not yet loaded; the invariant is stated for the list of loaded
  projects it is about to join.
\<close>

lemma wf_load_nodes:
  assumes "wf_lists (w\<lparr>loaded_projects := L\<rparr>)" "p \<in> set L" "load_nodes E p ns w = Inr w'"
  shows "wf_lists (w'\<lparr>loaded_projects := L\<rparr>) \<and> loaded_projects w' = loaded_projects w \<and> next_project w' = next_project w"
  using assms
proof (induction E p ns w arbitrary: w' rule: load_nodes.induct)
  case (2 E p n ns w)
  consider (version) "xname n = ''version''" | (name) "xname n = ''name''" | (client) "xname n = ''client''"
    | (other) "xname n \<notin> {''version'', ''name'', ''client''}" by blast
  then show ?case
  proof cases
    case version
    then show ?thesis using 2 by simp
  next
    case name
    let ?w1 = "upd_project p (\<lambda>x. x\<lparr>p_name := Some (get_content (e_content E) n)\<rparr>) w"
    have "links (?w1\<lparr>loaded_projects := L\<rparr>) = links (w\<lparr>loaded_projects := L\<rparr>)" by (simp add: links_def fun_eq_iff)
    then have "wf_lists (?w1\<lparr>loaded_projects := L\<rparr>)" using wf_lists_cong 2(5) by blast
    then show ?thesis using 2(2) [OF _ name, of w'] 2(6,7) name by simp
  next
    case client
    then obtain c where c: "client_parse_xml E (lost_clients_of w p) (client_new\<lparr>cl_project := Some p\<rparr>) n = Inr c"
      using 2(7) by (auto simp: bindr_Inr_iff)
    let ?a = "next_client w"
    let ?w1 = "upd_project p (\<lambda>x. x\<lparr>p_lost_clients := ?a # p_lost_clients x\<rparr>)
              (upd_client ?a (\<lambda>_. c) (w\<lparr>next_client := ?a + 1\<rparr>))"
    have run: "load_nodes E p ns ?w1 = Inr w'" using 2(7) client c by (simp add: Let_def)
    have proj: "cl_project c = Some p"
      using client_parse_project [OF c] by simp
    have "wf_lists (?w1\<lparr>loaded_projects := L\<rparr>)"
    proof (rule wf_joined [OF 2(5)])
      show "p < next_project (w\<lparr>loaded_projects := L\<rparr>)" "p \<in> set (loaded_projects (w\<lparr>loaded_projects := L\<rparr>))"
        using wf_listsD(3) [OF 2(5)] 2(6) by simp_all
      show "?a \<notin> set (members (w\<lparr>loaded_projects := L\<rparr>) q)" if "q < next_project (w\<lparr>loaded_projects := L\<rparr>)" for q
        using wf_fresh [OF 2(5) that] by simp
    qed (simp_all add: members_def proj)
    have names: "xname n \<noteq> ''version''" "xname n \<noteq> ''name''" using client by simp_all
    have "wf_lists (w'\<lparr>loaded_projects := L\<rparr>) \<and> loaded_projects w' = loaded_projects ?w1 \<and> next_project w' = next_project ?w1"
      by (rule 2(3) [OF names client c refl \<open>wf_lists (?w1\<lparr>loaded_projects := L\<rparr>)\<close> 2(6) run])
    then show ?thesis by simp
  next
    case other
    then have names: "xname n \<noteq> ''version''" "xname n \<noteq> ''name''" "xname n \<noteq> ''client''" by simp_all
    then have run: "load_nodes E p ns w = Inr w'" using 2(7) by simp
    show ?thesis by (rule 2(4) [OF names 2(5,6) run])
  qed
qed simp

lemma wf_load:
  assumes wf: "wf_lists w" and p: "p < next_project w" "p \<notin> set (loaded_projects w)"
    and run: "project_load E p w = Inr (w', ok)"
  shows "if ok then wf_lists (w'\<lparr>loaded_projects := loaded_projects w' @ [p]\<rparr>) \<and> p < next_project w'
      else wf_lists w'"
proof -
  obtain root where root: "p_doc (projects w p) = Some root"
    using run by (auto simp: project_load_def split: option.split_asm)
  show ?thesis
  proof (cases "xname root = ''lash_project''")
    case True
    then obtain w1 where w1: "load_nodes E p (xkids root) w = Inr w1"
      using run root by (auto simp: project_load_def bindr_Inr_iff)
    let ?L = "loaded_projects w @ [p]"
    have "links (w\<lparr>loaded_projects := ?L\<rparr>) = links (w\<lparr>loaded_projects := ?L\<rparr>)" ..
    have "wf_lists (w\<lparr>loaded_projects := ?L\<rparr>)"
      using wf_listsD [OF wf] p by (intro wf_listsI) (auto simp: wf_project_def)
    then have wf1: "wf_lists (w1\<lparr>loaded_projects := ?L\<rparr>)" and same: "loaded_projects w1 = loaded_projects w"
        "next_project w1 = next_project w"
      using wf_load_nodes [OF _ _ w1] by auto
    show ?thesis
    proof (cases "p_name (projects w1 p) = None")
      case None: True
      then obtain w2 where "project_unload p w1 = Inr w2" "w' = w2" "\<not> ok"
        using run root True w1 by (auto simp: project_load_def bindr_Inr_iff)
      moreover have "del p ?L = del p (loaded_projects w1)"
        using p(2) same by (simp add: del_def remove1_append remove1_idem)
      ultimately show ?thesis using wf_unloaded [OF wf1] by simp
    next
      case False
      let ?w2 = "upd_project p (\<lambda>x. x\<lparr>p_modified_status := False\<rparr>) (project_load_notes p w1)"
      have w': "w' = ?w2" "ok" using run root True w1 False by (auto simp: project_load_def)
      have "links ?w2 = links w1" by (simp add: links_load_notes)
      then have "links (?w2\<lparr>loaded_projects := ?L\<rparr>) = links (w1\<lparr>loaded_projects := ?L\<rparr>)"
        and "loaded_projects ?w2 = loaded_projects w1" "next_project ?w2 = next_project w1"
        by (auto simp: links_def)
      then show ?thesis using wf1 same w' p wf_lists_cong by metis
    qed
  next
    case False
    then show ?thesis using run root wf by (simp add: project_load_def)
  qed
qed

lemma links_avoid_clash: "avoid_name_clash p w = Inr w' \<Longrightarrow> links w' = links w"
  by (auto simp: avoid_name_clash_def bindr_Inr_iff split: option.split_asm dest: links_rename)

lemma links_restore_clients:
  "\<forall>a \<in> set as. cl_project (clients w a) = Some p \<Longrightarrow> restore_clients p as w = Inr w' \<Longrightarrow> links w' = links w"
proof (induction p "as" w rule: restore_clients.induct)
  case (2 p a "as" w)
  let ?w1 = "upd_client a (\<lambda>c. c\<lparr>cl_project := Some p\<rparr>) w"
  let ?w2 = "upd_project p (\<lambda>x. x\<lparr>p_tasks_total := p_tasks_total x + 1\<rparr>) ?w1"
  let ?w3 = "upd_client a (client_dependency_list_sanity_check (lost_clients_of ?w2 p)) ?w2"
  let ?w4 = "upd_client a client_dependency_init_unsatisfied ?w3"
  have "links ?w1 = links w" using 2(3) by (simp add: links_set_configs)
  moreover have "links ?w4 = links ?w1"
    by (simp add: client_dependency_list_sanity_check_def client_dependency_init_unsatisfied_def del: upd_client_simps upd_project_simps)
  ultimately have four: "links ?w4 = links w" by simp
  show ?case
  proof (cases "cl_unsatisfied_deps (clients ?w4 a) \<noteq> []")
    case True
    have "restore_clients p as ?w4 = Inr w'"
      using 2(4) by (simp only: restore_clients.simps Let_def if_P [OF True])
    moreover have "\<forall>b \<in> set as. cl_project (clients ?w4 b) = Some p"
      using 2(3) links_parts(2) [OF four] by simp
    ultimately show ?thesis using 2(1) [OF refl refl refl refl True] four by simp
  next
    case False
    then obtain w5 where launch: "project_launch_client a ?w4 = Inr w5" and rest: "restore_clients p as w5 = Inr w'"
      using 2(4) unfolding restore_clients.simps Let_def if_not_P [OF False] bindr_Inr_iff
      by (elim exE conjE) (rule that)
    have five: "links w5 = links w" using links_launch [OF launch] four by simp
    have "\<forall>b \<in> set as. cl_project (clients w5 b) = Some p"
      using 2(3) links_parts(2) [OF five] by simp
    then show ?thesis using 2(2) [OF refl refl refl refl False launch _ rest] five by simp
  qed
qed simp

lemma wf_restore:
  assumes wf: "wf_lists w" and p: "p \<in> set (all_projects w)" and run: "server_project_restore E p w = Inr (w', ok)"
  shows "wf_lists w'"
proof (cases "project_is_loaded p w")
  case False
  then have new: "p < next_project w" "p \<notin> set (loaded_projects w)"
    using wf_listsD(4) [OF wf p] by (simp_all add: project_is_loaded_def)
  note new_p = False
  obtain w1 ok1 where load: "project_load E p w = Inr (w1, ok1)"
    using run False by (auto simp: server_project_restore_def bindr_Inr_iff)
  note loaded = wf_load [OF wf new load]
  show ?thesis
  proof (cases ok1)
    case True
    then have ok1: "ok1 = True" by simp
    then obtain w2 where avoid: "avoid_name_clash p w1 = Inr w2"
      using run False load by (auto simp: server_project_restore_def bindr_Inr_iff)
    let ?w3 = "w2\<lparr>loaded_projects := loaded_projects w2 @ [p]\<rparr>"
    let ?w4 = "emit (Project_appeared (p_name (projects ?w3 p)) (p_directory (projects ?w3 p))) ?w3"
    let ?w5 = "upd_project p (\<lambda>x. x\<lparr>p_task_type := Task_load, p_tasks_total := 0, p_tasks_progress := 0\<rparr>) ?w4"
    let ?w6 = "emit (Progress 0) ?w5"
    obtain w7 where rest: "restore_clients p (p_lost_clients (projects ?w6 p)) ?w6 = Inr w7"
      and res: "(Inr (upd_project p (\<lambda>x. x\<lparr>p_tasks_pending := p_tasks_total x\<rparr>) w7, True) :: (world \<times> bool) res) = Inr (w', ok)"
      using run unfolding server_project_restore_def if_not_P [OF new_p] load bindr.simps prod.case Let_def avoid
        ok1 not_True_eq_False if_False bindr_Inr_iff by (elim exE conjE) (rule that)
    have w': "w' = upd_project p (\<lambda>x. x\<lparr>p_tasks_pending := p_tasks_total x\<rparr>) w7" using res by simp
    have "links w2 = links w1" by (rule links_avoid_clash [OF avoid])
    then have "links ?w3 = links (w1\<lparr>loaded_projects := loaded_projects w1 @ [p]\<rparr>)" by (auto simp: links_def)
    from wf_lists_cong [OF this] have wf3: "wf_lists ?w3" using loaded ok1 by simp
    have same: "links ?w6 = links ?w3" by simp
    then have wf6: "wf_lists ?w6" using wf3 wf_lists_cong by blast
    have "p < next_project ?w6" using wf_listsD(3) [OF wf6, of p] by simp
    then have "wf_project ?w6 p" by (rule wf_listsD(5) [OF wf6])
    then have "\<forall>a \<in> set (p_lost_clients (projects ?w6 p)). cl_project (clients ?w6 a) = Some p"
      by (simp add: wf_project_def members_def)
    then have "links w7 = links ?w6" using rest by (rule links_restore_clients)
    then have "wf_lists w7" using wf6 wf_lists_cong by blast
    then show ?thesis unfolding w' by (simp add: wf_lists_cong [OF links_upd_project])
  next
    case False
    then show ?thesis using run \<open>\<not> project_is_loaded p w\<close> load loaded by (simp add: server_project_restore_def)
  qed
qed (use wf run in \<open>simp add: server_project_restore_def\<close>)

lemma wf_restore_by:
  assumes "wf_lists w" "bindr (find_by_str f s (all_projects w)) (\<lambda>r.
       case r of None \<Rightarrow> Inr (w, False) | Some p \<Rightarrow> server_project_restore E p w) = Inr (w', ok)"
  shows "wf_lists w'"
proof -
  obtain r where r: "find_by_str f s (all_projects w) = Inr r" using assms(2) by (auto simp: bindr_Inr_iff)
  show ?thesis
  proof (cases r)
    case None
    then show ?thesis using assms r by simp
  next
    case (Some p)
    then have "p \<in> set (all_projects w)" "server_project_restore E p w = Inr (w', ok)"
      using r assms(2) by (auto dest: find_by_str_member)
    then show ?thesis using wf_restore [OF assms(1)] by blast
  qed
qed

lemma wf_restore_by_name: "wf_lists w \<Longrightarrow> server_project_restore_by_name E n w = Inr (w', ok) \<Longrightarrow> wf_lists w'"
  unfolding server_project_restore_by_name_def by (rule wf_restore_by)

lemma wf_restore_by_dir: "wf_lists w \<Longrightarrow> server_project_restore_by_dir E d w = Inr (w', ok) \<Longrightarrow> wf_lists w'"
  unfolding server_project_restore_by_dir_def by (rule wf_restore_by)

section \<open>Saving\<close>

lemma save_lists:
  assumes "project_save E p w = Inr w'"
  shows "loaded_projects w' = loaded_projects w" "next_project w' = next_project w"
    and "wf_lists w \<Longrightarrow> p \<in> set (loaded_projects w) \<Longrightarrow> wf_lists w'"
proof -
  have "loaded_projects w' = loaded_projects w \<and> next_project w' = next_project w
     \<and> (wf_lists w \<longrightarrow> p \<in> set (loaded_projects w) \<longrightarrow> wf_lists w')"
  proof (cases "p_task_type (projects w p) = No_task")
    case False
    then show ?thesis using assms by (simp add: project_save_def)
  next
    case True
    let ?w1 = "emit (Progress 0) w"
    let ?w2 = "if p \<in> set (all_projects ?w1) then ?w1 else ?w1\<lparr>all_projects := all_projects ?w1 @ [p]\<rparr>"
    let ?w3 = "if lash_dir_exists (disk ?w2) (p_directory (projects ?w2 p)) then ?w2
       else ?w2\<lparr>disk := lash_create_dir (disk ?w2) (lash_strdup (p_directory (projects ?w2 p)))\<rparr>"
    let ?w4 = "project_save_clients p ?w3"
    let ?w5 = "?w4\<lparr>jackdbus := get_graph (e_graph E) (jackdbus ?w4)\<rparr>"
    let ?w6 = "fst (project_save_notes p ?w5)"
    let ?w7 = "project_clear_lost_clients p ?w6"
    have last: "(if p_tasks_total (projects ?w7 p) = 0 then project_clients_save_complete E p ?w7 else Inr ?w7) = Inr w'"
      using assms True unfolding project_save_def Let_def by simp
    then have "links w' = links ?w7" by (auto split: if_split_asm dest: links_save_complete)
    note w' = links_parts [OF this] wf_lists_cong [OF this]
    have "links ?w6 = links ?w2" by (simp add: links_save_notes links_save_clients)
    note six = links_parts [OF this] wf_lists_cong [OF this]
    have seven: "loaded_projects ?w7 = loaded_projects ?w6" "next_project ?w7 = next_project ?w6"
      by (simp_all add: project_clear_lost_clients_def)
    have two: "loaded_projects ?w2 = loaded_projects w" "next_project ?w2 = next_project w" by simp_all
    have "wf_lists ?w2" if "wf_lists w" "p \<in> set (loaded_projects w)"
    proof (cases "p \<in> set (all_projects w)")
      case True
      then show ?thesis using that(1) wf_lists_cong [OF links_emit] by simp
    next
      case False
      have "members ?w2 q = members w q" for q by simp
      then show ?thesis using that False wf_listsD [OF that(1)] by (intro wf_listsI) (auto simp: wf_project_def)
    qed
    then have "wf_lists ?w6" if "wf_lists w" "p \<in> set (loaded_projects w)" using that six(9) by blast
    then have "wf_lists ?w7" if "wf_lists w" "p \<in> set (loaded_projects w)"
      using that six(4,5) two wf_listsD(3) [OF that(1) that(2)] by (intro wf_clear_lost_clients) (metis+)
    then show ?thesis using w'(4,5,9) seven six(4,5) two by metis
  qed
  then show "loaded_projects w' = loaded_projects w" "next_project w' = next_project w"
    and "wf_lists w \<Longrightarrow> p \<in> set (loaded_projects w) \<Longrightarrow> wf_lists w'" by blast+
qed

lemma wf_save_projects:
  "wf_lists w \<Longrightarrow> set ps \<subseteq> set (loaded_projects w) \<Longrightarrow> save_projects E ps w = Inr w' \<Longrightarrow> wf_lists w'"
proof (induction E ps w rule: save_projects.induct)
  case (2 E p ps w)
  then obtain w1 where w1: "project_save E p w = Inr w1" "save_projects E ps w1 = Inr w'" by (auto simp: bindr_Inr_iff)
  then have "wf_lists w1" "loaded_projects w1 = loaded_projects w" using save_lists 2(2,3) by auto
  then show ?case using 2(1) [OF w1(1)] 2(3) w1(2) by simp
qed simp

lemma wf_save_by_name: "wf_lists w \<Longrightarrow> server_project_save_by_name E n w = Inr (w', ok) \<Longrightarrow> wf_lists w'"
proof -
  assume wf: "wf_lists w" and run: "server_project_save_by_name E n w = Inr (w', ok)"
  obtain r where r: "server_find_project_by_name w (Some n) = Inr r"
    using run by (auto simp: server_project_save_by_name_def bindr_Inr_iff)
  show "wf_lists w'"
  proof (cases r)
    case None
    then show ?thesis using wf run r by (simp add: server_project_save_by_name_def)
  next
    case (Some p)
    then have "project_save E p w = Inr w'" "p \<in> set (loaded_projects w)"
      using run r found_project by (auto simp: server_project_save_by_name_def bindr_Inr_iff)
    then show ?thesis using save_lists(3) wf by blast
  qed
qed

section \<open>The projects found at the start\<close>

lemma new_from_disk_empty:
  assumes "project_new_from_disk E d dir s = Some x"
  shows "p_clients x = [] \<and> p_lost_clients x = []"
proof -
  have header: "p_clients (header_nodes E ns y) = p_clients y \<and> p_lost_clients (header_nodes E ns y) = p_lost_clients y" for ns y
    by (induction E ns y rule: header_nodes.induct) simp_all
  show ?thesis
    using assms unfolding project_new_from_disk_def Let_def
    by (auto simp: header project_new_def split: sum.split_asm option.split_asm if_split_asm)
qed

lemma wf_fill_projects: "wf_lists w \<Longrightarrow> wf_lists (fill_projects E ds w)"
proof (induction E ds w rule: fill_projects.induct)
  case (2 E d ds w)
  show ?case
  proof (cases "posix_stat (disk w) (projects_dir w @ slash # d) \<noteq> Inr Dir \<or> (d \<noteq> '''' \<and> hd d = CHR ''.'')
      \<or> project_new_from_disk E (disk w) (projects_dir w) d = None")
    case True
    then show ?thesis using 2 by (auto split: option.split)
  next
    case False
    then have dir: "\<not> (posix_stat (disk w) (projects_dir w @ slash # d) \<noteq> Inr Dir \<or> (d \<noteq> '''' \<and> hd d = CHR ''.''))"
      by blast
    obtain x where x: "project_new_from_disk E (disk w) (projects_dir w) d = Some x" using False by blast
    let ?p = "next_project w"
    let ?w1 = "upd_project ?p (\<lambda>_. x) (w\<lparr>next_project := ?p + 1, all_projects := all_projects w @ [?p]\<rparr>)"
    have "wf_lists ?w1"
      using wf_listsD(1,2) [OF 2(4)] wf_listsD(4) [OF 2(4), of ?p] new_from_disk_empty [OF x]
      by (intro wf_project_added [OF 2(4) refl]) (auto simp: members_def)
    then have "wf_lists (fill_projects E ds ?w1)" using 2(3) [OF dir x refl] by simp
    then show ?thesis unfolding fill_projects.simps if_not_P [OF dir] x option.case Let_def .
  qed
qed simp

lemma wf_server_fill: "wf_lists w \<Longrightarrow> wf_lists (server_fill_projects E w)"
  by (simp add: server_fill_projects_def wf_fill_projects split: sum.split)

end
