(* ===== verification/Klist.thy ===== *)
theory Klist
  imports Prelude
begin

text \<open>
  \<^verbatim>\<open>common/klist.h\<close>: the circular doubly linked lists every structure of the daemon is kept in.
  A heap gives the two links of every \<open>list_head\<close>; an operation is the sequence of its
  assignments. The other theories keep these lists as HOL lists: the theorems here show that
  the operations on the links are the operations on lists used there.
\<close>

section \<open>Links\<close>

type_synonym ptr = nat

record links_heap =
  nxt :: "ptr \<Rightarrow> ptr"
  prv :: "ptr \<Rightarrow> ptr"

definition set_next :: "ptr \<Rightarrow> ptr \<Rightarrow> links_heap \<Rightarrow> links_heap" where
  "set_next a b h = h\<lparr>nxt := (nxt h)(a := b)\<rparr>"

definition set_prev :: "ptr \<Rightarrow> ptr \<Rightarrow> links_heap \<Rightarrow> links_heap" where
  "set_prev a b h = h\<lparr>prv := (prv h)(a := b)\<rparr>"

lemma link_simps [simp]:
  "nxt (set_next a b h) = (nxt h)(a := b)" "prv (set_next a b h) = prv h"
  "nxt (set_prev a b h) = nxt h" "prv (set_prev a b h) = (prv h)(a := b)"
  by (simp_all add: set_next_def set_prev_def)

definition LIST_POISON1 :: ptr where "LIST_POISON1 = 0x00100100"
definition LIST_POISON2 :: ptr where "LIST_POISON2 = 0x00200200"

section \<open>Operations\<close>

definition INIT_LIST_HEAD :: "ptr \<Rightarrow> links_heap \<Rightarrow> links_heap" where
  "INIT_LIST_HEAD l h = set_prev l l (set_next l l h)"

definition list_add_between :: "ptr \<Rightarrow> ptr \<Rightarrow> ptr \<Rightarrow> links_heap \<Rightarrow> links_heap" where
  "list_add_between new prev next h =
     set_next prev new (set_prev new prev (set_next new next (set_prev next new h)))"

definition list_add :: "ptr \<Rightarrow> ptr \<Rightarrow> links_heap \<Rightarrow> links_heap" where
  "list_add new head h = list_add_between new head (nxt h head) h"

definition list_add_tail :: "ptr \<Rightarrow> ptr \<Rightarrow> links_heap \<Rightarrow> links_heap" where
  "list_add_tail new head h = list_add_between new (prv h head) head h"

definition list_add_rcu_between :: "ptr \<Rightarrow> ptr \<Rightarrow> ptr \<Rightarrow> links_heap \<Rightarrow> links_heap" where
  "list_add_rcu_between new prev next h =
     set_next prev new (set_prev next new (set_prev new prev (set_next new next h)))"

definition list_add_rcu :: "ptr \<Rightarrow> ptr \<Rightarrow> links_heap \<Rightarrow> links_heap" where
  "list_add_rcu new head h = list_add_rcu_between new head (nxt h head) h"

definition list_add_tail_rcu :: "ptr \<Rightarrow> ptr \<Rightarrow> links_heap \<Rightarrow> links_heap" where
  "list_add_tail_rcu new head h = list_add_rcu_between new (prv h head) head h"

definition list_del_between :: "ptr \<Rightarrow> ptr \<Rightarrow> links_heap \<Rightarrow> links_heap" where
  "list_del_between prev next h = set_next prev next (set_prev next prev h)"

definition list_del :: "ptr \<Rightarrow> links_heap \<Rightarrow> links_heap" where
  "list_del entry h =
     (let h1 = list_del_between (prv h entry) (nxt h entry) h
      in set_prev entry LIST_POISON2 (set_next entry LIST_POISON1 h1))"

definition list_del_rcu :: "ptr \<Rightarrow> links_heap \<Rightarrow> links_heap" where
  "list_del_rcu entry h = set_prev entry LIST_POISON2 (list_del_between (prv h entry) (nxt h entry) h)"

definition list_replace_rcu :: "ptr \<Rightarrow> ptr \<Rightarrow> links_heap \<Rightarrow> links_heap" where
  "list_replace_rcu old new h =
     (let h1 = set_next new (nxt h old) h;
          h2 = set_prev new (prv h1 old) h1;
          h3 = set_prev (nxt h2 new) new h2;
          h4 = set_next (prv h3 new) new h3
      in set_prev old LIST_POISON2 h4)"

definition list_del_init :: "ptr \<Rightarrow> links_heap \<Rightarrow> links_heap" where
  "list_del_init entry h = INIT_LIST_HEAD entry (list_del_between (prv h entry) (nxt h entry) h)"

definition list_move :: "ptr \<Rightarrow> ptr \<Rightarrow> links_heap \<Rightarrow> links_heap" where
  "list_move l head h = list_add l head (list_del_between (prv h l) (nxt h l) h)"

definition list_move_tail :: "ptr \<Rightarrow> ptr \<Rightarrow> links_heap \<Rightarrow> links_heap" where
  "list_move_tail l head h = list_add_tail l head (list_del_between (prv h l) (nxt h l) h)"

definition list_empty :: "ptr \<Rightarrow> links_heap \<Rightarrow> bool" where
  "list_empty head h \<longleftrightarrow> nxt h head = head"

definition list_empty_careful :: "ptr \<Rightarrow> links_heap \<Rightarrow> bool" where
  "list_empty_careful head h \<longleftrightarrow> (let next = nxt h head in next = head \<and> next = prv h head)"

definition list_splice_links :: "ptr \<Rightarrow> ptr \<Rightarrow> links_heap \<Rightarrow> links_heap" where
  "list_splice_links l head h =
     (let first = nxt h l; last = prv h l; at = nxt h head
      in set_prev at last (set_next last at (set_next head first (set_prev first head h))))"

definition list_splice :: "ptr \<Rightarrow> ptr \<Rightarrow> links_heap \<Rightarrow> links_heap" where
  "list_splice l head h = (if \<not> list_empty l h then list_splice_links l head h else h)"

definition list_splice_init :: "ptr \<Rightarrow> ptr \<Rightarrow> links_heap \<Rightarrow> links_heap" where
  "list_splice_init l head h =
     (if \<not> list_empty l h then INIT_LIST_HEAD l (list_splice_links l head h) else h)"

text \<open>
  The loops. The body may change the heap and a state of its own; \<open>None\<close> is a loop that does
  not end. The safe one reads the next entry before the body runs.
\<close>

partial_function (option) for_each_from ::
  "(ptr \<Rightarrow> links_heap \<times> 's \<Rightarrow> links_heap \<times> 's) \<Rightarrow> ptr \<Rightarrow> ptr \<Rightarrow> links_heap \<times> 's \<Rightarrow> (links_heap \<times> 's) option" where
  "for_each_from body head pos hs =
     (if pos = head then Some hs
      else (let hs' = body pos hs in for_each_from body head (nxt (fst hs') pos) hs'))"

definition list_for_each ::
  "(ptr \<Rightarrow> links_heap \<times> 's \<Rightarrow> links_heap \<times> 's) \<Rightarrow> ptr \<Rightarrow> links_heap \<times> 's \<Rightarrow> (links_heap \<times> 's) option" where
  "list_for_each body head hs = for_each_from body head (nxt (fst hs) head) hs"

partial_function (option) for_each_safe_from ::
  "(ptr \<Rightarrow> links_heap \<times> 's \<Rightarrow> links_heap \<times> 's) \<Rightarrow> ptr \<Rightarrow> ptr \<Rightarrow> ptr \<Rightarrow> links_heap \<times> 's \<Rightarrow> (links_heap \<times> 's) option" where
  "for_each_safe_from body head pos n hs =
     (if pos = head then Some hs
      else (let hs' = body pos hs in for_each_safe_from body head n (nxt (fst hs') n) hs'))"

definition list_for_each_safe ::
  "(ptr \<Rightarrow> links_heap \<times> 's \<Rightarrow> links_heap \<times> 's) \<Rightarrow> ptr \<Rightarrow> links_heap \<times> 's \<Rightarrow> (links_heap \<times> 's) option" where
  "list_for_each_safe body head hs =
     (let pos = nxt (fst hs) head in for_each_safe_from body head pos (nxt (fst hs) pos) hs)"

section \<open>The list a head stands for\<close>

definition linked :: "links_heap \<Rightarrow> ptr \<Rightarrow> ptr \<Rightarrow> bool" where
  "linked h a b \<longleftrightarrow> nxt h a = b \<and> prv h b = a"

text \<open>Neighbours of a path are linked both ways.\<close>

definition path :: "links_heap \<Rightarrow> ptr list \<Rightarrow> bool" where
  "path h zs \<longleftrightarrow> successively (linked h) zs"

definition klist :: "links_heap \<Rightarrow> ptr \<Rightarrow> ptr list \<Rightarrow> bool" where
  "klist h head xs \<longleftrightarrow> path h (head # xs @ [head]) \<and> distinct (head # xs)"

lemma path_simps [simp]: "path h []" "path h [a]" "path h (a # b # zs) \<longleftrightarrow> linked h a b \<and> path h (b # zs)"
  by (simp_all add: path_def)

lemma path_append:
  "ys \<noteq> [] \<Longrightarrow> zs \<noteq> [] \<Longrightarrow> path h (ys @ zs) \<longleftrightarrow> path h ys \<and> path h zs \<and> linked h (last ys) (hd zs)"
  by (auto simp: path_def successively_append_iff)

lemma path_frame:
  "(\<And>y. y \<in> set (butlast zs) \<Longrightarrow> nxt h' y = nxt h y) \<Longrightarrow> (\<And>y. y \<in> set (tl zs) \<Longrightarrow> prv h' y = prv h y) \<Longrightarrow>
     path h' zs = path h zs"
proof (induction zs)
  case (Cons a zs)
  show ?case
  proof (cases zs)
    case (Cons b ys)
    have nb: "nxt h' y = nxt h y" if "y \<in> insert a (set (butlast zs))" for y using that Cons.prems(1) Cons by auto
    have pb: "prv h' y = prv h y" if "y \<in> set zs" for y using that Cons.prems(2) by simp
    have "path h' zs = path h zs" using Cons.IH nb pb by (metis insert_iff list.set_sel(2) tl_Nil)
    then show ?thesis using Cons nb [of a] pb [of b] by (simp add: linked_def)
  qed simp
qed simp

lemma path_other:
  "a \<notin> set (butlast zs) \<Longrightarrow> b \<notin> set (tl zs) \<Longrightarrow> path (set_next a c (set_prev b d h)) zs = path h zs"
  by (intro path_frame) auto

text \<open>Linking the end of one path to the start of another.\<close>

lemma path_relink:
  assumes "path h ps" "path h qs" "ps \<noteq> []" "qs \<noteq> []" "distinct ps" "distinct qs"
    and "last ps \<notin> set (butlast qs)" "hd qs \<notin> set (tl ps)"
  shows "path (set_next (last ps) (hd qs) (set_prev (hd qs) (last ps) h)) (ps @ qs)"
proof -
  have "last ps \<notin> set (butlast ps)" using assms(3,5) by (cases ps rule: rev_cases) auto
  moreover have "hd qs \<notin> set (tl qs)" using assms(4,6) by (cases qs) auto
  ultimately show ?thesis using assms by (simp add: path_append path_other linked_def)
qed

lemma klist_ends:
  assumes "klist h head xs"
  shows "nxt h head = hd (xs @ [head])" "prv h head = last (head # xs)"
proof -
  show "nxt h head = hd (xs @ [head])" using assms by (cases xs) (auto simp: klist_def linked_def)
  have "linked h (last (head # xs)) head" using assms path_append [of "head # xs" "[head]" h] by (simp add: klist_def)
  then show "prv h head = last (head # xs)" by (simp add: linked_def)
qed

lemma path_unique:
  "path h (a # xs @ [b]) \<Longrightarrow> path h (a # ys @ [b]) \<Longrightarrow> b \<notin> set xs \<Longrightarrow> b \<notin> set ys \<Longrightarrow> xs = ys"
proof (induction xs arbitrary: a ys)
  case Nil
  then show ?case by (cases ys) (auto simp: linked_def)
next
  case (Cons x xs)
  then show ?case by (cases ys) (auto simp: linked_def)
qed

lemma klist_unique: "klist h head xs \<Longrightarrow> klist h head ys \<Longrightarrow> xs = ys"
  unfolding klist_def by (auto dest: path_unique)

lemma klist_init: "klist (INIT_LIST_HEAD l h) l []"
  by (simp add: klist_def INIT_LIST_HEAD_def linked_def)

lemma klist_empty_iff: "klist h head xs \<Longrightarrow> list_empty head h \<longleftrightarrow> xs = []"
  by (cases xs) (auto simp: klist_def list_empty_def linked_def)

lemma klist_empty_careful_iff: "klist h head xs \<Longrightarrow> list_empty_careful head h \<longleftrightarrow> xs = []"
  by (cases xs) (auto simp: klist_def list_empty_careful_def Let_def linked_def)

section \<open>Adding and deleting\<close>

lemma add_between_path:
  assumes "path h (ps @ qs)" "ps \<noteq> []" "qs \<noteq> []" "distinct ps" "distinct qs"
    and "last ps \<notin> set (butlast qs)" "hd qs \<notin> set (tl ps)" "new \<notin> set (ps @ qs)"
  shows "path (list_add_between new (last ps) (hd qs) h) (ps @ new # qs)"
proof -
  let ?h1 = "set_next (last ps) new (set_prev new (last ps) h)"
  have new: "hd qs \<noteq> new" "last ps \<noteq> new" "new \<noteq> hd qs" "new \<noteq> last ps" using assms(2,3,8) by auto
  have tls: "x \<in> set (tl ps) \<Longrightarrow> x \<in> set ps" "x \<in> set (tl qs) \<Longrightarrow> x \<in> set qs" for x
    by (meson list.set_sel(2) tl_Nil assms(2,3))+
  have eq: "list_add_between new (last ps) (hd qs) h = set_next new (hd qs) (set_prev (hd qs) new ?h1)"
    using new by (simp add: list_add_between_def set_next_def set_prev_def fun_upd_twist [of new "hd qs"]
        fun_upd_twist [of new "last ps"])
  have parts: "path h ps" "path h qs" using assms(1-3) by (simp_all add: path_append)
  have one: "path ?h1 (ps @ [new])"
    using path_relink [OF parts(1), of "[new]"] assms tls by auto
  have two: "path ?h1 qs" using parts(2) assms(6,8) tls by (subst path_other) auto
  show ?thesis
    unfolding eq using path_relink [OF one two] assms tls new in_set_butlastD [of new qs]
    by auto
qed

lemma klist_add:
  assumes "klist h head xs" "new \<notin> set (head # xs)"
  shows "klist (list_add new head h) head (new # xs)"
proof -
  have "path (list_add_between new (last [head]) (hd (xs @ [head])) h) ([head] @ new # (xs @ [head]))"
    using assms by (intro add_between_path) (auto simp: klist_def)
  then show ?thesis using assms by (simp add: klist_def list_add_def klist_ends [OF assms(1)])
qed

lemma klist_add_tail:
  assumes "klist h head xs" "new \<notin> set (head # xs)"
  shows "klist (list_add_tail new head h) head (xs @ [new])"
proof -
  have "path (list_add_between new (last (head # xs)) (hd [head]) h) ((head # xs) @ new # [head])"
    using assms by (intro add_between_path) (auto simp: klist_def)
  then show ?thesis using assms by (simp add: klist_def list_add_tail_def klist_ends [OF assms(1)])
qed

lemma klist_split:
  assumes "klist h head (as @ x # bs)"
  shows "prv h x = last (head # as)" "nxt h x = hd (bs @ [head])"
    "path h (head # as)" "path h (bs @ [head])"
proof -
  have "path h ((head # as) @ x # (bs @ [head]))" using assms by (simp add: klist_def)
  then have p: "path h (head # as)" "path h (x # (bs @ [head]))" "linked h (last (head # as)) x"
    using path_append [of "head # as" "x # bs @ [head]" h] by auto
  moreover have "path h ([x] @ bs @ [head])" using p(2) by simp
  then have "path h (bs @ [head])" "linked h x (hd (bs @ [head]))"
    using path_append [of "[x]" "bs @ [head]" h] by auto
  ultimately show "prv h x = last (head # as)" "nxt h x = hd (bs @ [head])"
    "path h (head # as)" "path h (bs @ [head])" by (simp_all add: linked_def)
qed

lemma klist_del_between:
  assumes "klist h head (as @ x # bs)"
  shows "klist (list_del_between (prv h x) (nxt h x) h) head (as @ bs)"
proof -
  have "set as \<inter> set bs = {}" using assms by (simp add: klist_def)
  then have "as \<noteq> [] \<Longrightarrow> last as \<notin> set bs" using last_in_set [of "as"] by blast
  then have "path (set_next (last (head # as)) (hd (bs @ [head])) (set_prev (hd (bs @ [head])) (last (head # as)) h))
      ((head # as) @ (bs @ [head]))"
    using assms klist_split(3,4) [OF assms]
    by (intro path_relink) (auto simp: klist_def hd_append split: if_splits)
  then show ?thesis using assms by (simp add: klist_def list_del_between_def klist_split(1,2) [OF assms])
qed

text \<open>Links of entries outside a list may change.\<close>

lemma klist_frame:
  "klist h head xs \<Longrightarrow> (\<And>y. y \<in> set (head # xs) \<Longrightarrow> nxt h' y = nxt h y \<and> prv h' y = prv h y) \<Longrightarrow> klist h' head xs"
proof -
  assume k: "klist h head xs" and same: "\<And>y. y \<in> set (head # xs) \<Longrightarrow> nxt h' y = nxt h y \<and> prv h' y = prv h y"
  have "path h' (head # xs @ [head]) = path h (head # xs @ [head])"
    by (rule path_frame) (use same in \<open>auto dest!: in_set_butlastD\<close>)
  then show "klist h' head xs" using k by (simp add: klist_def)
qed

lemma klist_del:
  assumes "klist h head xs" "x \<in> set xs"
  shows "klist (list_del x h) head (remove1 x xs)"
proof -
  obtain as bs where xs: "xs = as @ x # bs" "x \<notin> set as" using split_list_first [OF assms(2)] by blast
  have "klist (list_del_between (prv h x) (nxt h x) h) head (as @ bs)"
    using assms(1) by (intro klist_del_between) (simp add: xs)
  moreover have "x \<notin> set (head # as @ bs)" using assms(1) by (auto simp: klist_def xs)
  ultimately have "klist (list_del x h) head (as @ bs)"
    by (elim klist_frame) (auto simp: list_del_def Let_def)
  then show ?thesis by (simp add: xs remove1_append)
qed

lemma klist_del_between_remove1:
  assumes "klist h head xs" "x \<in> set xs"
  shows "klist (list_del_between (prv h x) (nxt h x) h) head (remove1 x xs)" "x \<notin> set (head # remove1 x xs)"
proof -
  obtain as bs where xs: "xs = as @ x # bs" "x \<notin> set as" using split_list_first [OF assms(2)] by blast
  show "klist (list_del_between (prv h x) (nxt h x) h) head (remove1 x xs)"
    using klist_del_between [of h head "as" x bs] assms(1) by (simp add: xs remove1_append)
  show "x \<notin> set (head # remove1 x xs)" using assms by (auto simp: klist_def)
qed

lemma klist_del_init:
  assumes "klist h head xs" "x \<in> set xs"
  shows "klist (list_del_init x h) head (remove1 x xs)" "klist (list_del_init x h) x []"
proof -
  note d = klist_del_between_remove1 [OF assms]
  show "klist (list_del_init x h) head (remove1 x xs)"
    using d(1) by (rule klist_frame) (use d(2) in \<open>auto simp: list_del_init_def INIT_LIST_HEAD_def\<close>)
  show "klist (list_del_init x h) x []" by (simp add: list_del_init_def klist_init)
qed

lemma klist_del_rcu:
  assumes "klist h head xs" "x \<in> set xs"
  shows "klist (list_del_rcu x h) head (remove1 x xs)" "nxt (list_del_rcu x h) x = nxt h x"
proof -
  note d = klist_del_between_remove1 [OF assms]
  show "klist (list_del_rcu x h) head (remove1 x xs)"
    using d(1) by (rule klist_frame) (use d(2) in \<open>auto simp: list_del_rcu_def\<close>)
  obtain as bs where xs: "xs = as @ x # bs" using split_list [OF assms(2)] by blast
  have "prv h x \<noteq> x"
    using klist_split(1) [of h head "as" x bs] assms(1) last_in_set [of "as"] by (auto simp: klist_def xs)
  then show "nxt (list_del_rcu x h) x = nxt h x" by (simp add: list_del_rcu_def list_del_between_def)
qed

text \<open>Deleting changes no links outside its list and the deleted entry.\<close>

lemma klist_neighbours:
  assumes "klist h head xs" "x \<in> set (head # xs)"
  shows "prv h x \<in> set (head # xs)" "nxt h x \<in> set (head # xs)"
proof -
  have "prv h x \<in> set (head # xs) \<and> nxt h x \<in> set (head # xs)"
  proof (cases "x = head")
    case True
    have "last (head # xs) \<in> set (head # xs)" by (rule last_in_set) simp
    then show ?thesis using True klist_ends [OF assms(1)] by (cases xs) auto
  next
    case False
    then obtain as bs where xs: "xs = as @ x # bs" using assms(2) split_list [of x xs] by auto
    have "last (head # as) \<in> set (head # as)" by (rule last_in_set) simp
    then show ?thesis using klist_split(1,2) [of h head "as" x bs] assms(1) unfolding xs by (cases bs) auto
  qed
  then show "prv h x \<in> set (head # xs)" "nxt h x \<in> set (head # xs)" by auto
qed

definition unchanged :: "ptr set \<Rightarrow> links_heap \<Rightarrow> links_heap \<Rightarrow> bool" where
  "unchanged P h h' \<longleftrightarrow> (\<forall>y \<in> P. nxt h' y = nxt h y \<and> prv h' y = prv h y)"

lemma klist_unchanged: "klist h head xs \<Longrightarrow> unchanged (set (head # xs)) h h' \<Longrightarrow> klist h' head xs"
  by (erule klist_frame) (auto simp: unchanged_def)

lemma add_unchanged:
  assumes "klist h head xs" "new \<notin> P" "P \<inter> set (head # xs) = {}"
  shows "unchanged P h (list_add new head h)" "unchanged P h (list_add_tail new head h)"
  using klist_neighbours [OF assms(1), of head] assms(2,3)
  by (auto simp: unchanged_def list_add_def list_add_tail_def list_add_between_def)

lemma del_unchanged:
  assumes "klist h head xs" "x \<in> set xs" "P \<inter> set (head # xs) = {}"
  shows "unchanged P h (list_del x h)" "unchanged P h (list_del_init x h)"
    "unchanged P h (list_del_between (prv h x) (nxt h x) h)"
  using klist_neighbours [OF assms(1), of x] assms(2,3)
  by (auto simp: unchanged_def list_del_def list_del_init_def list_del_between_def INIT_LIST_HEAD_def Let_def)

section \<open>Moving and splicing\<close>

lemma klist_move:
  assumes "klist h head xs" "x \<in> set xs" "klist h head' ys" "set (head # xs) \<inter> set (head' # ys) = {}"
  shows "klist (list_move x head' h) head (remove1 x xs)" "klist (list_move x head' h) head' (x # ys)"
    "klist (list_move_tail x head' h) head (remove1 x xs)" "klist (list_move_tail x head' h) head' (ys @ [x])"
proof -
  let ?h = "list_del_between (prv h x) (nxt h x) h"
  have old: "klist ?h head (remove1 x xs)" and x: "x \<notin> set (head # remove1 x xs)"
    using klist_del_between_remove1 [OF assms(1,2)] by auto
  have to: "klist ?h head' ys"
    by (rule klist_unchanged [OF assms(3) del_unchanged(3) [OF assms(1,2)]]) (use assms(4) in auto)
  have new: "x \<notin> set (head' # ys)" using assms(2,4) by auto
  show "klist (list_move x head' h) head' (x # ys)" "klist (list_move_tail x head' h) head' (ys @ [x])"
    unfolding list_move_def list_move_tail_def using klist_add [OF to new] klist_add_tail [OF to new] by auto
  have "set (head # remove1 x xs) \<inter> set (head' # ys) = {}"
    using assms(4) set_remove1_subset [of x xs] by fastforce
  note apart = this
  show "klist (list_move x head' h) head (remove1 x xs)"
    unfolding list_move_def by (rule klist_unchanged [OF old add_unchanged(1) [OF to x apart]])
  show "klist (list_move_tail x head' h) head (remove1 x xs)"
    unfolding list_move_tail_def by (rule klist_unchanged [OF old add_unchanged(2) [OF to x apart]])
qed

lemma klist_move_within:
  assumes "klist h head xs" "x \<in> set xs"
  shows "klist (list_move x head h) head (x # remove1 x xs)"
    "klist (list_move_tail x head h) head (remove1 x xs @ [x])"
  unfolding list_move_def list_move_tail_def
  using klist_add klist_add_tail klist_del_between_remove1 [OF assms] by blast+

lemma splice_links:
  assumes "klist h l ys" "ys \<noteq> []" "klist h head xs" "set (l # ys) \<inter> set (head # xs) = {}"
  shows "klist (list_splice_links l head h) head (ys @ xs)"
proof -
  let ?q = "hd (xs @ [head])"
  let ?h1 = "set_next head (hd ys) (set_prev (hd ys) head h)"
  have dist: "distinct (head # ys @ xs)" using assms by (auto simp: klist_def)
  have ends: "nxt h l = hd ys" "prv h l = last ys" "nxt h head = ?q"
    using klist_ends [OF assms(1)] klist_ends [OF assms(3)] assms(2) by simp_all
  have ys: "path h ys" using assms(1,2) path_append [of "[l]" "ys @ [l]" h] path_append [of ys "[l]" h] by (simp add: klist_def)
  have xs: "path h (xs @ [head])" using assms(3) path_append [of "[head]" "xs @ [head]" h] by (simp add: klist_def)
  have mem: "hd ys \<in> set ys" "last ys \<in> set ys" "last ys \<notin> set xs" "hd ys \<notin> set xs"
    using assms(2) dist hd_in_set [OF assms(2)] last_in_set [OF assms(2)] by (auto simp del: hd_in_set last_in_set)
  have one: "path ?h1 ([head] @ ys)"
    using path_relink [of h "[head]" ys] ys assms(2) dist by (auto dest: in_set_butlastD)
  have "hd ys \<notin> set (tl (xs @ [head]))" using mem dist by (cases xs) auto
  then have two: "path ?h1 (xs @ [head])" using xs dist by (subst path_other) auto
  have "path (set_next (last ([head] @ ys)) ?q (set_prev ?q (last ([head] @ ys)) ?h1)) (([head] @ ys) @ xs @ [head])"
    using dist mem by (intro path_relink [OF one two]) (auto simp: assms(2) hd_append split: if_splits)
  moreover have "set_next (last ([head] @ ys)) ?q (set_prev ?q (last ([head] @ ys)) ?h1) = list_splice_links l head h"
    using assms(2) dist mem
    by (simp add: list_splice_links_def Let_def ends)
  ultimately show ?thesis using dist by (simp add: klist_def)
qed

lemma klist_splice:
  assumes "klist h l ys" "klist h head xs" "set (l # ys) \<inter> set (head # xs) = {}"
  shows "klist (list_splice l head h) head (ys @ xs)"
    "klist (list_splice_init l head h) head (ys @ xs)" "klist (list_splice_init l head h) l []"
proof -
  have empty: "list_empty l h \<longleftrightarrow> ys = []" by (rule klist_empty_iff [OF assms(1)])
  show "klist (list_splice l head h) head (ys @ xs)"
    using splice_links assms empty by (simp add: list_splice_def)
  have "klist (INIT_LIST_HEAD l (list_splice_links l head h)) head (ys @ xs)" if "ys \<noteq> []"
    using splice_links [OF assms(1) that assms(2,3)]
    by (rule klist_frame) (use assms in \<open>auto simp: INIT_LIST_HEAD_def klist_def\<close>)
  then show "klist (list_splice_init l head h) head (ys @ xs)"
    using assms empty by (simp add: list_splice_init_def)
  show "klist (list_splice_init l head h) l []"
    using assms(1) empty by (cases "ys = []") (simp_all add: list_splice_init_def klist_init)
qed

lemma klist_replace:
  assumes "klist h head (as @ old # bs)" "new \<notin> set (head # as @ old # bs)"
  shows "klist (list_replace_rcu old new h) head (as @ new # bs)"
proof -
  let ?p = "last (head # as)" and ?n = "hd (bs @ [head])"
  note split = klist_split [OF assms(1)]
  have dist: "distinct (head # as @ bs)" "old \<notin> set (head # as @ bs)" using assms(1) by (auto simp: klist_def)
  have pn: "?p \<in> set (head # as)" "?n \<in> set (head # bs)" by (rule last_in_set, simp) (cases bs, auto)
  have ne: "?p \<noteq> new" "?n \<noteq> new" "?p \<noteq> old" "?n \<noteq> old" "new \<noteq> old"
    using pn assms(2) dist(2) by auto
  let ?h1 = "set_next ?p new (set_prev new ?p h)"
  have one: "path ?h1 ((head # as) @ [new])"
    using path_relink [of h "head # as" "[new]"] split(3) assms(2) dist by auto
  have mem: "?p \<notin> set bs" using pn(1) dist(1) by auto
  have two: "path ?h1 (bs @ [head])"
    using split(4) mem assms(2) by (subst path_other) (cases bs; auto simp: butlast_append split: if_splits)+
  have three: "path (set_next new ?n (set_prev ?n new ?h1)) (((head # as) @ [new]) @ bs @ [head])"
  proof -
    have "?n \<notin> set (tl ((head # as) @ [new]))" using pn(2) ne(2) dist(1) by auto
    then show ?thesis using path_relink [OF one two] assms(2) dist by simp
  qed
  have "klist (set_next new ?n (set_prev ?n new ?h1)) head (as @ new # bs)"
    using three assms(2) dist by (simp add: klist_def)
  then show ?thesis
  proof (rule klist_frame)
    fix y assume y: "y \<in> set (head # as @ new # bs)"
    then have "y \<noteq> old" using dist(2) ne(5) by auto
    then show "nxt (list_replace_rcu old new h) y = nxt (set_next new ?n (set_prev ?n new ?h1)) y
        \<and> prv (list_replace_rcu old new h) y = prv (set_next new ?n (set_prev ?n new ?h1)) y"
      using ne by (simp add: list_replace_rcu_def Let_def split(1,2))
  qed
qed

section \<open>Loops\<close>

lemma for_each_from_end: "for_each_from body head head hs = Some hs"
  by (simp add: for_each_from.simps)

lemma for_each_from_step:
  "pos \<noteq> head \<Longrightarrow> for_each_from body head pos hs = for_each_from body head (nxt (fst (body pos hs)) pos) (body pos hs)"
  by (subst for_each_from.simps) (simp add: Let_def)

lemma for_each_safe_from_end: "for_each_safe_from body head head n hs = Some hs"
  by (simp add: for_each_safe_from.simps)

lemma for_each_safe_from_step:
  "pos \<noteq> head \<Longrightarrow> for_each_safe_from body head pos n hs =
     for_each_safe_from body head n (nxt (fst (body pos hs)) n) (body pos hs)"
  by (subst for_each_safe_from.simps) (simp add: Let_def)

lemma path_next: "path h (x # xs @ [head]) \<Longrightarrow> nxt h x = hd (xs @ [head]) \<and> path h (xs @ [head])"
  by (cases xs) (auto simp: linked_def)

text \<open>A body that leaves the links alone is run on every entry, in order.\<close>

lemma list_for_each_fold:
  assumes "klist (fst hs) head xs" "\<And>x hs. fst (body x hs) = fst hs"
  shows "list_for_each body head hs = Some (fold body xs hs)"
proof -
  have "for_each_from body head (hd (ys @ [head])) hs = Some (fold body ys hs)"
    if "path (fst hs) (ys @ [head])" "head \<notin> set ys" for ys and hs
    using that
  proof (induction ys arbitrary: hs)
    case (Cons y ys)
    have "nxt (fst (body y hs)) y = hd (ys @ [head])" "path (fst (body y hs)) (ys @ [head])"
      using path_next [of "fst hs" y ys head] Cons.prems(1) assms(2) by simp_all
    then show ?case using Cons.IH [of "body y hs"] Cons.prems(2) by (simp add: for_each_from_step)
  qed (simp add: for_each_from_end)
  moreover have "path (fst hs) (xs @ [head])" "nxt (fst hs) head = hd (xs @ [head])" "head \<notin> set xs"
    using assms(1) path_next [of "fst hs" head xs head] by (simp_all add: klist_def)
  ultimately show ?thesis by (simp add: list_for_each_def)
qed

text \<open>The safe loop may delete the entry it is at.\<close>

definition del_body :: "(ptr \<Rightarrow> bool) \<Rightarrow> (ptr \<Rightarrow> 's \<Rightarrow> 's) \<Rightarrow> ptr \<Rightarrow> links_heap \<times> 's \<Rightarrow> links_heap \<times> 's" where
  "del_body P f pos hs = (if P pos then list_del pos (fst hs) else fst hs, f pos (snd hs))"

lemma safe_loop:
  "klist h head (done @ ys) \<Longrightarrow> \<exists>h'. for_each_safe_from (del_body P f) head (hd (ys @ [head])) (nxt h (hd (ys @ [head]))) (h, s)
     = Some (h', fold f ys s) \<and> klist h' head (done @ filter (\<lambda>x. \<not> P x) ys)"
proof (induction ys arbitrary: h s "done")
  case Nil
  then show ?case by (simp add: for_each_safe_from_end)
next
  case (Cons y ys)
  have k: "klist h head (done @ y # ys)" by (rule Cons.prems)
  then have y: "y \<noteq> head" "nxt h y = hd (ys @ [head])" "remove1 y (done @ y # ys) = done @ ys"
    using klist_split(2) [OF k] by (auto simp: klist_def remove1_append)
  let ?h = "if P y then list_del y h else h"
  have body: "del_body P f y (h, s) = (?h, f y s)" by (simp add: del_body_def)
  have k': "klist ?h head ((if P y then done else done @ [y]) @ ys)"
    using k klist_del [OF k, of y] y(3) by simp
  obtain h' where "for_each_safe_from (del_body P f) head (hd (ys @ [head])) (nxt ?h (hd (ys @ [head]))) (?h, f y s)
      = Some (h', fold f ys (f y s))" "klist h' head ((if P y then done else done @ [y]) @ filter (\<lambda>x. \<not> P x) ys)"
    using Cons.IH [OF k'] by blast
  then show ?case using y(1,2) by (auto simp: for_each_safe_from_step body split: if_splits)
qed

lemma list_for_each_safe_filter:
  assumes "klist h head xs"
  shows "\<exists>h'. list_for_each_safe (del_body P f) head (h, s) = Some (h', fold f xs s)
    \<and> klist h' head (filter (\<lambda>x. \<not> P x) xs)"
  using safe_loop [of h head "[]" xs P f s] assms klist_ends(1) [OF assms] by (simp add: list_for_each_safe_def Let_def)

section \<open>The interface\<close>

text \<open>What the rest of the code relies on: a head stands for a list, and the operations change it.\<close>

locale intrusive_lists =
  fixes stands :: "'h \<Rightarrow> 'p \<Rightarrow> 'p list \<Rightarrow> bool"
    and add :: "'p \<Rightarrow> 'p \<Rightarrow> 'h \<Rightarrow> 'h"
    and add_tail :: "'p \<Rightarrow> 'p \<Rightarrow> 'h \<Rightarrow> 'h"
    and remove :: "'p \<Rightarrow> 'h \<Rightarrow> 'h"
  assumes stands_distinct: "stands h l xs \<Longrightarrow> distinct (l # xs)"
    and stands_add: "stands h l xs \<Longrightarrow> x \<notin> set (l # xs) \<Longrightarrow> stands (add x l h) l (x # xs)"
    and stands_add_tail: "stands h l xs \<Longrightarrow> x \<notin> set (l # xs) \<Longrightarrow> stands (add_tail x l h) l (xs @ [x])"
    and stands_remove: "stands h l xs \<Longrightarrow> x \<in> set xs \<Longrightarrow> stands (remove x h) l (remove1 x xs)"
begin

text \<open>Filling a list at the tail keeps the order, at the head reverses it; removing all empties it.\<close>

lemma add_tail_all:
  "stands h l xs \<Longrightarrow> distinct (xs @ ys) \<Longrightarrow> l \<notin> set ys \<Longrightarrow> stands (fold (\<lambda>x. add_tail x l) ys h) l (xs @ ys)"
proof (induction ys arbitrary: h xs)
  case (Cons y ys)
  have "stands (add_tail y l h) l (xs @ [y])" using Cons.prems by (intro stands_add_tail) auto
  then show ?case using Cons.IH [of "add_tail y l h" "xs @ [y]"] Cons.prems by simp
qed simp

lemma add_all:
  "stands h l xs \<Longrightarrow> distinct (xs @ ys) \<Longrightarrow> l \<notin> set ys \<Longrightarrow> stands (fold (\<lambda>x. add x l) ys h) l (rev ys @ xs)"
proof (induction ys arbitrary: h xs)
  case (Cons y ys)
  have "stands (add y l h) l (y # xs)" using Cons.prems by (intro stands_add) auto
  then show ?case using Cons.IH [of "add y l h" "y # xs"] Cons.prems by simp
qed simp

lemma remove_all: "stands h l xs \<Longrightarrow> stands (fold remove xs h) l []"
proof (induction xs arbitrary: h)
  case (Cons x xs)
  have "stands (remove x h) l xs" using stands_remove [OF Cons.prems, of x] by simp
  then show ?case using Cons.IH by simp
qed simp

lemma first_in_first_out:
  assumes "stands h l []" "distinct (x # ys)" "l \<notin> set (x # ys)"
  shows "stands (remove x (fold (\<lambda>x. add_tail x l) (x # ys) h)) l ys"
  using stands_remove [OF add_tail_all [OF assms(1), of "x # ys"], of x] assms(2,3) by simp

end

lemma klist_distinct: "klist h head xs \<Longrightarrow> distinct (head # xs)"
  by (simp add: klist_def)

interpretation klists: intrusive_lists klist list_add list_add_tail list_del
  by unfold_locales (fact klist_distinct klist_add klist_add_tail klist_del)+

interpretation klists_init: intrusive_lists klist list_add list_add_tail list_del_init
  by unfold_locales (fact klist_distinct klist_add klist_add_tail klist_del_init(1))+

section \<open>Properties\<close>

text \<open>A heap with one list of two entries and one empty list.\<close>

definition example_heap :: links_heap where
  "example_heap = list_add_tail 2 0 (list_add_tail 1 0 (INIT_LIST_HEAD 9 (INIT_LIST_HEAD 0 \<lparr>nxt = (\<lambda>_. 0), prv = (\<lambda>_. 0)\<rparr>)))"

lemma example_heap_lists: "klist example_heap 0 [1, 2]" "klist example_heap 9 []"
  by (simp_all add: klist_def linked_def example_heap_def list_add_tail_def list_add_between_def INIT_LIST_HEAD_def)



text \<open>The loop that is safe against deletion visits every entry of a list exactly once, in order, and
  ends, also when its body deletes entries: the list keeps exactly the others. Deleting from
  within the plain loop is not safe: it goes on at the poison address.\<close>

theorem safe_loop_deletes:
  assumes "klist h head xs"
  shows "(\<exists>h'. list_for_each_safe (del_body P (\<lambda>x s. s @ [x])) head (h, []) = Some (h', xs)
      \<and> klist h' head (filter (\<lambda>x. \<not> P x) xs))
    \<and> (\<forall>x \<in> set xs. nxt (list_del x h) x = LIST_POISON1)"
proof -
  have "fold (\<lambda>x s. s @ [x]) xs s = s @ xs" for s by (induction xs arbitrary: s) simp_all
  moreover have "nxt (list_del x h) x = LIST_POISON1" for x by (simp add: list_del_def Let_def)
  ultimately show ?thesis
    using list_for_each_safe_filter [OF assms, of P "\<lambda>x s. s @ [x]" "[]"] by auto
qed

theorem safe_loop_deletes_witness:
  "\<exists>h'. list_for_each_safe (del_body (\<lambda>x. x = 1) (\<lambda>x s. s @ [x])) 0 (example_heap, []) = Some (h', [1, 2])
     \<and> klist h' 0 [2]"
  using safe_loop_deletes [OF example_heap_lists(1), of "\<lambda>x. x = 1"] by simp

end
