(* ===== verification/Tables.thy ===== *)
theory Tables
  imports Control
begin

text \<open>
  The object the daemon puts on the bus: the tables of methods and signals of
  \<^verbatim>\<open>lashd/dbus_iface_server.c\<close> and \<^verbatim>\<open>lashd/dbus_iface_control.c\<close>, what their handlers read from a
  message, the signals the daemon emits and the introspection document.
\<close>

section \<open>Arguments\<close>

text \<open>What \<open>dbus_message_get_args\<close> gives for one, two and three strings; \<open>None\<close> when it fails.\<close>

definition strings1 :: "message \<Rightarrow> string option" where
  "strings1 m =
     (case method_iter_get_args ''s'' (msg_args m) of Some ([DString a], _) \<Rightarrow> Some a | _ \<Rightarrow> None)"

definition strings2 :: "message \<Rightarrow> (string \<times> string) option" where
  "strings2 m =
     (case method_iter_get_args ''ss'' (msg_args m) of Some ([DString a, DString b], _) \<Rightarrow> Some (a, b) | _ \<Rightarrow> None)"

definition strings3 :: "message \<Rightarrow> (string \<times> string \<times> string) option" where
  "strings3 m =
     (case method_iter_get_args ''sss'' (msg_args m) of
        Some ([DString a, DString b, DString c], _) \<Rightarrow> Some (a, b, c) | _ \<Rightarrow> None)"

definition byte_arg :: "message \<Rightarrow> u8 option" where
  "byte_arg m =
     (case method_iter_get_args ''y'' (msg_args m) of Some ([DByte b], _) \<Rightarrow> Some b | _ \<Rightarrow> None)"

fun strings_of :: "dval list \<Rightarrow> string list" where
  "strings_of (DString s # ds) = s # strings_of ds"
| "strings_of _ = []"

definition connect_args :: "message \<Rightarrow> (pid \<times> string \<times> u32 \<times> string \<times> string list) option" where
  "connect_args m =
     (case method_iter_get_args ''isisa'' (msg_args m) of
        Some ([DInt32 x, DString class, DInt32 flags, DString wd, DArray sig argv], _) \<Rightarrow>
          if sig = ''s'' then Some (x, class, flags, wd, strings_of argv) else None
      | _ \<Rightarrow> None)"

text \<open>The iterator of a task method: the task number, then what follows it.\<close>

definition task_arg :: "message \<Rightarrow> u64 option" where
  "task_arg m = (case msg_args m of DUint64 t # _ \<Rightarrow> Some t | _ \<Rightarrow> None)"

definition percentage_arg :: "message \<Rightarrow> u8 option" where
  "percentage_arg m = (case msg_args m of _ # DByte x # _ \<Rightarrow> Some x | _ \<Rightarrow> None)"

definition configs_arg :: "message \<Rightarrow> dval list option" where
  "configs_arg m = (case msg_args m of _ # DArray _ es # _ \<Rightarrow> Some es | _ \<Rightarrow> None)"

definition task_method :: "(string \<Rightarrow> (world \<times> dbus_error option) res) \<Rightarrow> world handler" where
  "task_method f m w =
     (case msg_sender m of
        None \<Rightarrow> Inr (w, Error_reply Error_generic)
      | Some s \<Rightarrow> bindr (f s) (\<lambda>(w1, e). Inr (w1, case e of None \<Rightarrow> No_reply | Some e \<Rightarrow> Error_reply e)))"

section \<open>The tables\<close>

definition server_methods :: "env \<Rightarrow> world handler method_desc list" where
  "server_methods E =
     [\<lparr>m_name = ''Ping'', m_handler = Some (\<lambda>m w. Inr (w, lashd_dbus_ping)),
       m_args = []\<rparr>,
      \<lparr>m_name = ''Connect'', m_handler = Some (\<lambda>m w. lashd_dbus_connect E (msg_sender m) (connect_args m) w),
       m_args = [(''pid'', ''i'', DIRECTION_IN), (''class'', ''s'', DIRECTION_IN),
         (''flags'', ''i'', DIRECTION_IN), (''working_dir'', ''s'', DIRECTION_IN),
         (''args'', ''as'', DIRECTION_IN), (''uuid'', ''s'', DIRECTION_OUT),
         (''client_name'', ''s'', DIRECTION_OUT), (''project_name'', ''s'', DIRECTION_OUT),
         (''data_path'', ''s'', DIRECTION_OUT), (''final_flags'', ''i'', DIRECTION_OUT),
         (''final_working_dir'', ''s'', DIRECTION_OUT)]\<rparr>,
      \<lparr>m_name = ''JackName'', m_handler = Some (\<lambda>m w. lashd_dbus_jack_name (msg_sender m) (strings1 m) w),
       m_args = [(''jack_name'', ''s'', DIRECTION_IN)]\<rparr>,
      \<lparr>m_name = ''AlsaId'', m_handler = Some (\<lambda>m w. lashd_dbus_alsa_id (msg_sender m) (byte_arg m) w),
       m_args = [(''alsa_id'', ''y'', DIRECTION_IN)]\<rparr>,
      \<lparr>m_name = ''GetName'', m_handler = Some (\<lambda>m w. lashd_dbus_get_name (msg_sender m) w),
       m_args = [(''client_name'', ''s'', DIRECTION_OUT)]\<rparr>,
      \<lparr>m_name = ''GetJackName'', m_handler = Some (\<lambda>m w. lashd_dbus_get_jack_name (msg_sender m) w),
       m_args = [(''jack_name'', ''s'', DIRECTION_OUT)]\<rparr>,
      \<lparr>m_name = ''GetAlsaId'', m_handler = Some (\<lambda>m w. lashd_dbus_get_alsa_id (msg_sender m) w),
       m_args = [(''alsa_id'', ''y'', DIRECTION_OUT)]\<rparr>,
      \<lparr>m_name = ''Progress'', m_handler = Some (\<lambda>m w. task_method (\<lambda>s. lashd_dbus_progress E s (task_arg m) (percentage_arg m) w) m w),
       m_args = [(''task_id'', ''t'', DIRECTION_IN), (''percentage'', ''y'', DIRECTION_IN)]\<rparr>,
      \<lparr>m_name = ''CommitDataSet'', m_handler = Some (\<lambda>m w. task_method (\<lambda>s. lashd_dbus_commit_data_set E s (task_arg m) (configs_arg m) w) m w),
       m_args = [(''task_id'', ''t'', DIRECTION_IN), (''configs'', ''a{sv}'', DIRECTION_IN)]\<rparr>,
      \<lparr>m_name = ''CommitPathChange'', m_handler = Some (\<lambda>m w. lashd_dbus_commit_path_change (msg_sender m) w),
       m_args = []\<rparr>]"

definition server_signals :: "signal_desc list" where
  "server_signals =
     [\<lparr>s_name = ''Save'', s_args = [(''project_name'', ''s''), (''task_id'', ''t'')]\<rparr>,
      \<lparr>s_name = ''Quit'', s_args = [(''project_name'', ''s'')]\<rparr>]"

definition g_lashd_interface_server :: "env \<Rightarrow> world handler interface" where
  "g_lashd_interface_server E =
     \<lparr>i_name = ''org.nongnu.LASH.Server'', i_introspects = False, i_methods = server_methods E, i_signals = server_signals\<rparr>"

text \<open>\<open>appdb\<close> is the application database, \<open>mtimes\<close> gives the modification times of projects.\<close>

definition control_methods :: "env \<Rightarrow> lash_appdb_entry list \<Rightarrow> (addr \<Rightarrow> u32) \<Rightarrow> world handler method_desc list" where
  "control_methods E appdb mtimes =
     [\<lparr>m_name = ''ProjectsGetAvailable'', m_handler = Some (\<lambda>m w. Inr (w, lashd_dbus_projects_get_available mtimes w)),
       m_args = [(''projects_list'', ''a(sa{sv})'', DIRECTION_OUT)]\<rparr>,
      \<lparr>m_name = ''ProjectOpen'', m_handler = Some (\<lambda>m w. lashd_dbus_project_open E (strings1 m) w),
       m_args = [(''project_name'', ''s'', DIRECTION_IN), (''options'', ''a{sv}'', DIRECTION_IN)]\<rparr>,
      \<lparr>m_name = ''ProjectsGet'', m_handler = Some (\<lambda>m w. Inr (w, lashd_dbus_projects_get w)),
       m_args = [(''projects_list'', ''as'', DIRECTION_OUT)]\<rparr>,
      \<lparr>m_name = ''ProjectGetProperties'', m_handler = Some (\<lambda>m w. lashd_dbus_project_get_properties (strings1 m) w),
       m_args = [(''properties'', ''a{sv}'', DIRECTION_OUT)]\<rparr>,
      \<lparr>m_name = ''ProjectSetDescription'', m_handler = Some (\<lambda>m w. lashd_dbus_project_set_description (strings2 m) w),
       m_args = [(''project_name'', ''s'', DIRECTION_IN), (''description'', ''s'', DIRECTION_IN)]\<rparr>,
      \<lparr>m_name = ''ProjectSetNotes'', m_handler = Some (\<lambda>m w. lashd_dbus_project_set_notes (strings2 m) w),
       m_args = [(''project_name'', ''s'', DIRECTION_IN), (''notes'', ''s'', DIRECTION_IN)]\<rparr>,
      \<lparr>m_name = ''ProjectGetClients'', m_handler = Some (\<lambda>m w. lashd_dbus_project_get_clients (strings1 m) w),
       m_args = [(''project_name'', ''s'', DIRECTION_IN), (''client_list'', ''a(ss)'', DIRECTION_OUT)]\<rparr>,
      \<lparr>m_name = ''ProjectGetLostClients'', m_handler = Some (\<lambda>m w. lashd_dbus_project_get_lost_clients (strings1 m) w),
       m_args = [(''project_name'', ''s'', DIRECTION_IN), (''client_list'', ''a(ss)'', DIRECTION_OUT)]\<rparr>,
      \<lparr>m_name = ''ApplicationsGet'', m_handler = Some (\<lambda>m w. Inr (w, lashd_dbus_applications_get appdb)),
       m_args = [(''applications'', ''a(sa{sv})'', DIRECTION_OUT)]\<rparr>,
      \<lparr>m_name = ''ClientGetDependencies'', m_handler = Some (\<lambda>m w. lashd_dbus_client_get_dependencies E (strings1 m) w),
       m_args = [(''project_name'', ''s'', DIRECTION_IN), (''dependencies'', ''a(sas)'', DIRECTION_OUT)]\<rparr>,
      \<lparr>m_name = ''ClientAddDependency'', m_handler = Some (\<lambda>m w. lashd_dbus_client_add_dependency E (strings3 m) w),
       m_args = [(''project_name'', ''s'', DIRECTION_IN), (''client_id'', ''s'', DIRECTION_IN),
         (''dependency_id'', ''s'', DIRECTION_IN)]\<rparr>,
      \<lparr>m_name = ''ClientRemoveDependency'', m_handler = Some (\<lambda>m w. lashd_dbus_client_remove_dependency E (strings3 m) w),
       m_args = [(''project_name'', ''s'', DIRECTION_IN), (''client_id'', ''s'', DIRECTION_IN),
         (''dependency_id'', ''s'', DIRECTION_IN)]\<rparr>,
      \<lparr>m_name = ''LostClientLaunch'', m_handler = Some (\<lambda>m w. lashd_dbus_lost_client_launch E (strings2 m) w),
       m_args = [(''project_name'', ''s'', DIRECTION_IN), (''client_id'', ''s'', DIRECTION_IN)]\<rparr>,
      \<lparr>m_name = ''LoadProjectPath'', m_handler = Some (\<lambda>m w. lashd_dbus_load_project_path E (strings1 m) w),
       m_args = [(''project_path'', ''s'', DIRECTION_IN)]\<rparr>,
      \<lparr>m_name = ''ProjectMove'', m_handler = Some (\<lambda>m w. lashd_dbus_project_move (strings2 m) w),
       m_args = [(''project_name'', ''s'', DIRECTION_IN), (''new_path'', ''s'', DIRECTION_IN)]\<rparr>,
      \<lparr>m_name = ''ProjectRename'', m_handler = Some (\<lambda>m w. lashd_dbus_project_rename (strings2 m) w),
       m_args = [(''old_project_name'', ''s'', DIRECTION_IN), (''new_project_name'', ''s'', DIRECTION_IN)]\<rparr>,
      \<lparr>m_name = ''ProjectSave'', m_handler = Some (\<lambda>m w. lashd_dbus_project_save E (strings1 m) w),
       m_args = [(''project_name'', ''s'', DIRECTION_IN)]\<rparr>,
      \<lparr>m_name = ''ProjectClose'', m_handler = Some (\<lambda>m w. lashd_dbus_project_close (strings1 m) w),
       m_args = [(''project_name'', ''s'', DIRECTION_IN)]\<rparr>,
      \<lparr>m_name = ''ProjectsSaveAll'', m_handler = Some (\<lambda>m w. lashd_dbus_projects_save_all E w),
       m_args = []\<rparr>,
      \<lparr>m_name = ''ProjectsCloseAll'', m_handler = Some (\<lambda>m w. lashd_dbus_projects_close_all w),
       m_args = []\<rparr>,
      \<lparr>m_name = ''Exit'', m_handler = Some (\<lambda>m w. Inr (lashd_dbus_exit w, No_reply)),
       m_args = []\<rparr>]"

definition control_signals :: "signal_desc list" where
  "control_signals =
     [\<lparr>s_name = ''ProjectAppeared'', s_args = [(''project_name'', ''s''), (''project_path'', ''s'')]\<rparr>,
      \<lparr>s_name = ''ProjectDisappeared'', s_args = [(''project_name'', ''s'')]\<rparr>,
      \<lparr>s_name = ''ProjectModifiedStatusChanged'', s_args = [(''project_name'', ''s''), (''modified'', ''b'')]\<rparr>,
      \<lparr>s_name = ''ProjectNameChanged'', s_args = [(''project_name_old'', ''s''), (''project_name_new'', ''s'')]\<rparr>,
      \<lparr>s_name = ''ProjectDescriptionChanged'', s_args = [(''project_name'', ''s''), (''description'', ''s'')]\<rparr>,
      \<lparr>s_name = ''ProjectNotesChanged'', s_args = [(''project_name'', ''s''), (''notes'', ''s'')]\<rparr>,
      \<lparr>s_name = ''ProjectPathChanged'', s_args = [(''project_name'', ''s''), (''new_path'', ''s'')]\<rparr>,
      \<lparr>s_name = ''ProjectSaved'', s_args = [(''project_name'', ''s'')]\<rparr>,
      \<lparr>s_name = ''ProjectLoaded'', s_args = [(''project_name'', ''s'')]\<rparr>,
      \<lparr>s_name = ''ClientAppeared'', s_args = [(''client_id'', ''s''), (''project_name'', ''s''), (''client_name'', ''s'')]\<rparr>,
      \<lparr>s_name = ''ClientDisappeared'', s_args = [(''client_id'', ''s''), (''project_name'', ''s'')]\<rparr>,
      \<lparr>s_name = ''ClientNameChanged'', s_args = [(''client_id'', ''s''), (''new_name'', ''s'')]\<rparr>,
      \<lparr>s_name = ''ClientJackNameChanged'', s_args = [(''client_id'', ''s''), (''jack_name'', ''s'')]\<rparr>,
      \<lparr>s_name = ''ClientAlsaIdChanged'', s_args = [(''client_id'', ''s''), (''alsa_id'', ''y'')]\<rparr>,
      \<lparr>s_name = ''Progress'', s_args = [(''percentage'', ''y'')]\<rparr>]"

definition g_lashd_interface_control :: "env \<Rightarrow> lash_appdb_entry list \<Rightarrow> (addr \<Rightarrow> u32) \<Rightarrow> world handler interface" where
  "g_lashd_interface_control E appdb mtimes =
     \<lparr>i_name = ''org.nongnu.LASH.Control'', i_introspects = False, i_methods = control_methods E appdb mtimes,
      i_signals = control_signals\<rparr>"


text \<open>The object of the daemon, at the path \<open>/\<close>.\<close>

definition lashd_interfaces :: "env \<Rightarrow> lash_appdb_entry list \<Rightarrow> (addr \<Rightarrow> u32) \<Rightarrow> world handler interface list" where
  "lashd_interfaces E appdb mtimes = [g_lashd_interface_server E, g_lashd_interface_control E appdb mtimes]"

definition lashd_object :: "env \<Rightarrow> lash_appdb_entry list \<Rightarrow> (addr \<Rightarrow> u32) \<Rightarrow> world handler object_path option res" where
  "lashd_object E appdb mtimes = object_path_new (Some ''/'') (lashd_interfaces E appdb mtimes)"

section \<open>The introspection document\<close>

lemma table_lengths:
  "methods_length (server_methods E) \<le> 3000" "signals_length server_signals \<le> 500"
  "methods_length (control_methods E appdb mtimes) \<le> 6000" "signals_length control_signals \<le> 2500"
  "methods_length (i_methods (g_dbus_interface_dtor_introspectable :: 'h interface)) \<le> 200"
  by (simp_all add: methods_length_def server_methods_def args_length_def signals_length_def server_signals_def
      sig_args_length_def control_methods_def control_signals_def g_dbus_interface_dtor_introspectable_def)

lemma object_created:
  "\<exists>doc. lashd_object E appdb mtimes = Inr (Some \<lparr>op_name = ''/'',
       op_interfaces = g_dbus_interface_dtor_introspectable # lashd_interfaces E appdb mtimes, op_introspection = doc\<rparr>)
     \<and> length doc < 16384"
proof -
  let ?i = "g_dbus_interface_dtor_introspectable :: world handler interface"
  let ?s = "g_lashd_interface_server E" and ?c = "g_lashd_interface_control E appdb mtimes"
  have "length (interface_xml ?i) \<le> 300"
    using length_interface_xml [of ?i] table_lengths(5) [where 'h = "world handler"]
    by (simp add: g_dbus_interface_dtor_introspectable_def signals_length_def)
  moreover have "length (interface_xml ?s) \<le> 3600"
    using length_interface_xml [of ?s] table_lengths(1) [of E] table_lengths(2) by (simp add: g_lashd_interface_server_def)
  moreover have "length (interface_xml ?c) \<le> 8600"
    using length_interface_xml [of ?c] table_lengths(3) [of E appdb mtimes] table_lengths(4)
    by (simp add: g_lashd_interface_control_def)
  ultimately show ?thesis
    by (simp add: lashd_object_def object_path_new_def lashd_interfaces_def introspection_new_def sprintf_into_def
        quoted_def)
qed

text \<open>The introspection document of the daemon fits into the 16384 bytes it is formatted into, so the
  object is created, with the introspection's interface before the two given.\<close>

theorem lashd_object_created:
  "\<exists>doc. lashd_object E appdb mtimes = Inr (Some \<lparr>op_name = ''/'',
       op_interfaces = g_dbus_interface_dtor_introspectable # lashd_interfaces E appdb mtimes, op_introspection = doc\<rparr>)
     \<and> length doc < 16384"
  by (rule object_created)

section \<open>Signals\<close>

text \<open>
  The signal an event of the trace is: interface, member and arguments. An argument that is
  NULL cannot be appended, and the signal is not sent. Method calls to clients, connection
  requests and log lines are no signals.
\<close>

definition string_args :: "cstr list \<Rightarrow> dval list option" where
  "string_args ss = those (map (map_option DString) ss)"

definition control_signal :: "string \<Rightarrow> dval list option \<Rightarrow> (string \<times> string \<times> dval list) option" where
  "control_signal name args = map_option (\<lambda>ds. (''org.nongnu.LASH.Control'', name, ds)) args"

definition server_signal :: "string \<Rightarrow> dval list option \<Rightarrow> (string \<times> string \<times> dval list) option" where
  "server_signal name args = map_option (\<lambda>ds. (''org.nongnu.LASH.Server'', name, ds)) args"

fun signal_of :: "event \<Rightarrow> (string \<times> string \<times> dval list) option" where
  "signal_of (Project_appeared n d) = control_signal ''ProjectAppeared'' (string_args [n, d])"
| "signal_of (Project_disappeared n) = control_signal ''ProjectDisappeared'' (string_args [n])"
| "signal_of (Project_name_changed a b) = control_signal ''ProjectNameChanged'' (string_args [a, b])"
| "signal_of (Project_path_changed n d) = control_signal ''ProjectPathChanged'' (string_args [n, d])"
| "signal_of (Project_description_changed n d) = control_signal ''ProjectDescriptionChanged'' (string_args [n, d])"
| "signal_of (Project_notes_changed n d) = control_signal ''ProjectNotesChanged'' (string_args [n, d])"
| "signal_of (Project_saved n) = control_signal ''ProjectSaved'' (string_args [n])"
| "signal_of (Project_loaded n) = control_signal ''ProjectLoaded'' (string_args [n])"
| "signal_of (Client_appeared i p n) = control_signal ''ClientAppeared'' (string_args [Some i, p, n])"
| "signal_of (Client_disappeared i p) = control_signal ''ClientDisappeared'' (string_args [Some i, p])"
| "signal_of (Client_name_changed i n) = control_signal ''ClientNameChanged'' (string_args [Some i, n])"
| "signal_of (Progress x) = control_signal ''Progress'' (Some [DByte x])"
| "signal_of (Project_modified_status_changed n b) =
     control_signal ''ProjectModifiedStatusChanged'' (map_option (\<lambda>ds. ds @ [DBool b]) (string_args [n]))"
| "signal_of (Save_signal n t) = server_signal ''Save'' (map_option (\<lambda>ds. ds @ [DUint64 t]) (string_args [n]))"
| "signal_of (Quit_signal n) = server_signal ''Quit'' (string_args [n])"
| "signal_of (Load_call _ _ _) = None"
| "signal_of (Load_data_set_call _ _ _) = None"
| "signal_of (Connect_ports _) = None"
| "signal_of (Child_log _ _ _ _) = None"

text \<open>The signature an interface of the object declares for a signal.\<close>

definition declared_signature :: "env \<Rightarrow> lash_appdb_entry list \<Rightarrow> (addr \<Rightarrow> u32) \<Rightarrow> string \<Rightarrow> string \<Rightarrow> string option" where
  "declared_signature E appdb mtimes iface name =
     (case List.find (\<lambda>i. i_name i = iface) (lashd_interfaces E appdb mtimes) of
        None \<Rightarrow> None
      | Some i \<Rightarrow> map_option (\<lambda>s. concat (map snd (s_args s))) (List.find (\<lambda>s. s_name s = name) (i_signals i)))"

lemma string_args_types: "string_args ss = Some ds \<Longrightarrow> map dbus_type ds = map (\<lambda>_. CHR ''s'') ss"
proof (induction ss arbitrary: ds)
  case (Cons s ss)
  then obtain x xs where "s = Some x" "string_args ss = Some xs" "ds = DString x # xs"
    by (auto simp: string_args_def split: option.split_asm)
  then show ?case using Cons.IH by simp
qed (simp add: string_args_def)

lemma control_declared:
  assumes "List.find (\<lambda>s. s_name s = name) control_signals = Some d"
  shows "declared_signature E appdb mtimes ''org.nongnu.LASH.Control'' name = Some (concat (map snd (s_args d)))"
  using assms by (simp add: declared_signature_def lashd_interfaces_def g_lashd_interface_server_def g_lashd_interface_control_def)

lemma server_declared:
  assumes "List.find (\<lambda>s. s_name s = name) server_signals = Some d"
  shows "declared_signature E appdb mtimes ''org.nongnu.LASH.Server'' name = Some (concat (map snd (s_args d)))"
  using assms by (simp add: declared_signature_def lashd_interfaces_def g_lashd_interface_server_def)

text \<open>C34. Every signal the daemon sends is declared in the introspection data of the interface it comes
  from, and its arguments have the declared types.\<close>

theorem signals_as_declared:
  assumes "signal_of e = Some (iface, name, ds)"
  shows "declared_signature E appdb mtimes iface name = Some (map dbus_type ds)"
  using assms
  by (cases e) (auto simp: control_signal_def server_signal_def string_args_types
      intro!: control_declared [THEN trans] server_declared [THEN trans], auto simp: control_signals_def server_signals_def)

lemma signals_as_declared_witness:
  "\<forall>e. declared_signature e [] (\<lambda>_. 0) ''org.nongnu.LASH.Server'' ''Save'' = Some (map dbus_type [DString ''demo'', DUint64 1])"
  by (rule allI, rule signals_as_declared [of "Save_signal (Some ''demo'') 1"]) (simp add: server_signal_def string_args_def)

end
