(* ===== verification/Daemon.thy ===== *)
theory Daemon
  imports Lists Tables Tasks
begin

text \<open>
  The daemon as a whole (\<open>server_start\<close>, \<open>server_main\<close> and \<open>server_stop\<close> of
  \<^verbatim>\<open>lashd/server.c\<close>): the state it starts in, the iterations of its main loop over what arrives on
  the bus and what its children do, as a step relation, and what holds in every state it reaches.
\<close>

section \<open>Start and stop\<close>

definition no_client :: "addr \<Rightarrow> lash_client" where
  "no_client a = client_new"

definition no_project :: "addr \<Rightarrow> project" where
  "no_project p = project_new"

text \<open>The zeroed server structure with empty lists, for the parts of the state it does not hold.\<close>

definition server_new :: "string \<Rightarrow> fs \<Rightarrow> jackdbus_mgr \<Rightarrow> (nat \<Rightarrow> uuid) \<Rightarrow> (nat \<Rightarrow> pid option) \<Rightarrow> world" where
  "server_new dir d m us fo =
     \<lparr>clients = no_client, projects = no_project, next_client = 0, next_project = 0, loaded_projects = [],
      all_projects = [], projects_dir = dir, task_iter = 0, jackdbus = m, disk = d, childs = [], trace = [],
      new_uuids = us, forks = fo, quitting = False\<rparr>"

text \<open>
  The application database and the state of the running server, or \<open>None\<close>: without \<open>HOME\<close>, or
  when the D-Bus service or the manager of jackdbus (\<open>jack\<close>, its state once it is created) cannot
  be had.
\<close>

definition server_start ::
  "(string \<Rightarrow> cstr) \<Rightarrow> env \<Rightarrow> string \<Rightarrow> fs \<Rightarrow> bool \<Rightarrow> jackdbus_mgr option \<Rightarrow> (nat \<Rightarrow> uuid) \<Rightarrow> (nat \<Rightarrow> pid option) \<Rightarrow>
   (lash_appdb_entry list \<times> world) option" where
  "server_start getenv E default_dir d service jack us fo =
     (case lash_appdb_load getenv d of
        None \<Rightarrow> None
      | Some appdb \<Rightarrow>
          (case (if service then jack else None) of
             None \<Rightarrow> None
           | Some m \<Rightarrow> Some (appdb, server_fill_projects E
                (server_new (lash_dup_fqn (lash_strdup (getenv ''HOME'')) default_dir) d m us fo))))"

text \<open>Each known project leaves the list and is destroyed.\<close>

fun stop_projects :: "addr list \<Rightarrow> world \<Rightarrow> world res" where
  "stop_projects [] w = Inr w"
| "stop_projects (p # ps) w = bindr (project_destroy p (w\<lparr>all_projects := del p (all_projects w)\<rparr>)) (stop_projects ps)"

definition server_stop :: "world \<Rightarrow> world res" where
  "server_stop w = stop_projects (all_projects w) w"

section \<open>The main loop\<close>

text \<open>What one dispatch of the connection handles: nothing, a method call, a signal.\<close>

datatype bus_event =
    Nothing_arrived
  | Method_message message
  | Name_lost_signal "(string \<times> string) option"
  | Jack_signal jack_signal

definition dispatch :: "env \<Rightarrow> world handler object_path \<Rightarrow> bus_event \<Rightarrow> world \<Rightarrow> world res" where
  "dispatch E path ev w =
     (case ev of
        Nothing_arrived \<Rightarrow> Inr w
      | Method_message m \<Rightarrow> bindr (object_path_handler path m w) (\<lambda>(w1, r). Inr w1)
      | Name_lost_signal args \<Rightarrow> lashd_client_disconnect_handler args w
      | Jack_signal s \<Rightarrow> lashd_jackdbus_handler E s w)"

text \<open>One round of the loop; \<open>out1\<close> and \<open>out2\<close> are what the children's pipes hold at the two runs.\<close>

definition main_iteration ::
  "env \<Rightarrow> world handler object_path \<Rightarrow> bus_event \<Rightarrow> (pid \<Rightarrow> string list \<times> string list) \<Rightarrow>
   (pid \<Rightarrow> string list \<times> string list) \<Rightarrow> world \<Rightarrow> world res" where
  "main_iteration E path ev out1 out2 w =
     bindr (dispatch E path ev w) (\<lambda>w1. bindr (loader_run out1 w1) (loader_run out2))"

text \<open>
  The steps of the daemon. The handler of \<open>SIGCHLD\<close> may run between rounds; the environment of a
  round (the answers of the outside) is any.
\<close>

inductive daemon_step :: "lash_appdb_entry list \<Rightarrow> world \<Rightarrow> world \<Rightarrow> bool" for appdb where
  round: "\<not> quitting w \<Longrightarrow> lashd_object E appdb mtimes = Inr (Some path) \<Longrightarrow>
      main_iteration E path ev out1 out2 w = Inr w' \<Longrightarrow> daemon_step appdb w w'"
| child_exit: "daemon_step appdb w (loader_sigchld_handler pids w)"

inductive_simps daemon_step_simps: "daemon_step appdb w w'"

inductive reachable :: "lash_appdb_entry list \<Rightarrow> world \<Rightarrow> bool" where
  start: "server_start getenv E dir d service jack us fo = Some (appdb, w) \<Longrightarrow> reachable appdb w"
| step: "reachable appdb w \<Longrightarrow> daemon_step appdb w w' \<Longrightarrow> reachable appdb w'"

section \<open>The handlers keep the lists well formed\<close>

text \<open>A handler that answers without touching the lists.\<close>

lemma wf_same: "wf_lists w \<Longrightarrow> links w' = links w \<Longrightarrow> wf_lists w'"
  using wf_lists_cong by blast

lemma wf_with_project:
  assumes "with_project n k w = Inr (w', r)" "wf_lists w"
    and "\<And>p. p \<in> set (loaded_projects w) \<Longrightarrow> k p = Inr (w', r) \<Longrightarrow> wf_lists w'"
  shows "wf_lists w'"
proof -
  obtain x where "server_find_project_by_name w n = Inr x" using assms(1) by (auto simp: with_project_def bindr_Inr_iff)
  then show ?thesis using assms found_project by (cases x) (auto simp: with_project_def)
qed

lemma wf_from_sender:
  assumes "from_sender s k w = Inr (w', r)" "wf_lists w" "\<And>a. k a = Inr (w', r) \<Longrightarrow> wf_lists w'"
  shows "wf_lists w'"
proof -
  obtain x where "get_message_sender s w = Inr x" using assms(1) by (auto simp: from_sender_def bindr_Inr_iff)
  then show ?thesis using assms by (cases x) (auto simp: from_sender_def)
qed

lemma wf_restored_reply:
  "wf_lists w \<Longrightarrow> bindr (server_project_restore_by_name E n w) (\<lambda>(w1, ok). Inr (w1, x)) = Inr (w', r) \<Longrightarrow> wf_lists w'"
  "wf_lists w \<Longrightarrow> bindr (server_project_restore_by_dir E n w) (\<lambda>(w1, ok). Inr (w1, x)) = Inr (w', r) \<Longrightarrow> wf_lists w'"
  by (auto simp: bindr_Inr_iff dest: wf_restore_by_name wf_restore_by_dir)

named_theorems keeps_lists \<open>methods that keep the lists well formed\<close>

lemma wf_project_open [keeps_lists]: "wf_lists w \<Longrightarrow> lashd_dbus_project_open E a w = Inr (w', r) \<Longrightarrow> wf_lists w'"
  by (auto simp: lashd_dbus_project_open_def split: option.split_asm dest: wf_restored_reply)

lemma wf_load_path [keeps_lists]: "wf_lists w \<Longrightarrow> lashd_dbus_load_project_path E a w = Inr (w', r) \<Longrightarrow> wf_lists w'"
  by (auto simp: lashd_dbus_load_project_path_def split: option.split_asm dest: wf_restored_reply)

lemma wf_get_properties [keeps_lists]:
  "wf_lists w \<Longrightarrow> lashd_dbus_project_get_properties a w = Inr (w', r) \<Longrightarrow> wf_lists w'"
  by (auto simp: lashd_dbus_project_get_properties_def Let_def split: option.split_asm elim!: wf_with_project)

lemma wf_set_description [keeps_lists]:
  "wf_lists w \<Longrightarrow> lashd_dbus_project_set_description a w = Inr (w', r) \<Longrightarrow> wf_lists w'"
  by (auto simp: lashd_dbus_project_set_description_def split: option.split_asm elim!: wf_with_project
      intro: wf_same [OF _ links_set_description])

lemma wf_set_notes [keeps_lists]: "wf_lists w \<Longrightarrow> lashd_dbus_project_set_notes a w = Inr (w', r) \<Longrightarrow> wf_lists w'"
  by (auto simp: lashd_dbus_project_set_notes_def split: option.split_asm elim!: wf_with_project
      intro: wf_same [OF _ links_set_notes])

lemma wf_project_rename [keeps_lists]: "wf_lists w \<Longrightarrow> lashd_dbus_project_rename a w = Inr (w', r) \<Longrightarrow> wf_lists w'"
  by (auto simp: lashd_dbus_project_rename_def bindr_Inr_iff split: option.split_asm elim!: wf_with_project
      intro: wf_same [OF _ links_rename])

lemma wf_project_move [keeps_lists]:
  assumes "wf_lists w" "lashd_dbus_project_move a w = Inr (w', r)" shows "wf_lists w'"
proof (cases a)
  case (Some x)
  obtain n d where x: "x = (n, d)" by fastforce
  obtain y where "server_find_project_by_name w (Some n) = Inr y"
    using assms(2) Some x by (auto simp: lashd_dbus_project_move_def bindr_Inr_iff)
  then show ?thesis using assms Some x
    by (cases y) (auto simp: lashd_dbus_project_move_def bindr_Inr_iff intro: wf_same [OF _ links_move])
qed (use assms in \<open>simp add: lashd_dbus_project_move_def\<close>)

lemma wf_project_save_method [keeps_lists]: "wf_lists w \<Longrightarrow> lashd_dbus_project_save E a w = Inr (w', r) \<Longrightarrow> wf_lists w'"
  by (auto simp: lashd_dbus_project_save_def bindr_Inr_iff split: option.split_asm dest: wf_save_by_name)

lemma wf_project_close_method [keeps_lists]: "wf_lists w \<Longrightarrow> lashd_dbus_project_close a w = Inr (w', r) \<Longrightarrow> wf_lists w'"
  by (auto simp: lashd_dbus_project_close_def bindr_Inr_iff split: option.split_asm dest: wf_close_by_name)

lemma wf_save_all [keeps_lists]: "wf_lists w \<Longrightarrow> lashd_dbus_projects_save_all E w = Inr (w', r) \<Longrightarrow> wf_lists w'"
  by (auto simp: lashd_dbus_projects_save_all_def server_save_all_projects_def bindr_Inr_iff dest: wf_save_projects [OF _ subset_refl])

lemma wf_close_all [keeps_lists]: "wf_lists w \<Longrightarrow> lashd_dbus_projects_close_all w = Inr (w', r) \<Longrightarrow> wf_lists w'"
  by (auto simp: lashd_dbus_projects_close_all_def server_close_all_projects_def bindr_Inr_iff dest: wf_close_projects)

lemma wf_exit [keeps_lists]: "wf_lists w \<Longrightarrow> wf_lists (lashd_dbus_exit w)"
  by (rule wf_same) (simp_all add: lashd_dbus_exit_def)

lemma wf_client_lists [keeps_lists]:
  "wf_lists w \<Longrightarrow> lashd_dbus_project_get_clients a w = Inr (w', r) \<Longrightarrow> wf_lists w'"
  "wf_lists w \<Longrightarrow> lashd_dbus_project_get_lost_clients a w = Inr (w', r) \<Longrightarrow> wf_lists w'"
  by (auto simp: lashd_dbus_project_get_clients_def lashd_dbus_project_get_lost_clients_def
      lashd_dbus_return_client_list_def lashd_dbus_create_client_list_return_def split: option.split_asm
      elim!: wf_with_project)

lemma wf_get_dependencies [keeps_lists]:
  "wf_lists w \<Longrightarrow> lashd_dbus_client_get_dependencies E a w = Inr (w', r) \<Longrightarrow> wf_lists w'"
  by (auto simp: lashd_dbus_client_get_dependencies_def split: option.split_asm elim!: wf_with_project)

lemma wf_add_dependency [keeps_lists]:
  assumes "wf_lists w" "lashd_dbus_client_add_dependency E a w = Inr (w', r)" shows "wf_lists w'"
proof -
  obtain x where x: "lashd_dbus_get_client_dependency_modify_data E a w = Inr x"
    using assms(2) by (auto simp: lashd_dbus_client_add_dependency_def bindr_Inr_iff)
  show ?thesis
  proof (cases x)
    case (Inr y)
    then obtain p b u c where "y = (p, b, u)" "client_dependency_add (clients_of w p) (clients w b) u = Inr c"
      "w' = upd_client b (\<lambda>_. c) w"
      using assms(2) x by (cases y) (auto simp: lashd_dbus_client_add_dependency_def bindr_Inr_iff)
    then show ?thesis using wf_same [OF assms(1)] dependency_add_project links_set_configs by metis
  qed (use assms x in \<open>simp add: lashd_dbus_client_add_dependency_def\<close>)
qed

lemma wf_remove_dependency [keeps_lists]:
  assumes "wf_lists w" "lashd_dbus_client_remove_dependency E a w = Inr (w', r)" shows "wf_lists w'"
proof -
  obtain x where x: "lashd_dbus_get_client_dependency_modify_data E a w = Inr x"
    using assms(2) by (auto simp: lashd_dbus_client_remove_dependency_def bindr_Inr_iff)
  then show ?thesis using assms
    by (cases x) (auto simp: lashd_dbus_client_remove_dependency_def intro: wf_same [OF _ links_upd_client])
qed

lemma wf_launch: "wf_lists w \<Longrightarrow> project_launch_client a w = Inr w' \<Longrightarrow> wf_lists w'"
  using wf_same links_launch by blast

lemma wf_lost_launch [keeps_lists]: "wf_lists w \<Longrightarrow> lashd_dbus_lost_client_launch E a w = Inr (w', r) \<Longrightarrow> wf_lists w'"
  by (auto simp: lashd_dbus_lost_client_launch_def bindr_Inr_iff split: option.split_asm elim!: wf_with_project)
    (rule wf_launch)

lemma wf_sender_methods [keeps_lists]:
  "wf_lists w \<Longrightarrow> lashd_dbus_alsa_id s b w = Inr (w', r) \<Longrightarrow> wf_lists w'"
  "wf_lists w \<Longrightarrow> lashd_dbus_get_name s w = Inr (w', r) \<Longrightarrow> wf_lists w'"
  "wf_lists w \<Longrightarrow> lashd_dbus_get_jack_name s w = Inr (w', r) \<Longrightarrow> wf_lists w'"
  "wf_lists w \<Longrightarrow> lashd_dbus_get_alsa_id s w = Inr (w', r) \<Longrightarrow> wf_lists w'"
  "wf_lists w \<Longrightarrow> lashd_dbus_commit_path_change s w = Inr (w', r) \<Longrightarrow> wf_lists w'"
  by (auto simp: lashd_dbus_alsa_id_def lashd_dbus_get_name_def lashd_dbus_get_jack_name_def
      lashd_dbus_get_alsa_id_def lashd_dbus_commit_path_change_def elim!: wf_from_sender)

lemma wf_jack_name [keeps_lists]: "wf_lists w \<Longrightarrow> lashd_dbus_jack_name s a w = Inr (w', r) \<Longrightarrow> wf_lists w'"
  by (auto simp: lashd_dbus_jack_name_def bindr_Inr_iff split: option.split_asm elim!: wf_from_sender
      intro: wf_same [OF _ links_fill_class])

lemma wf_task_method:
  "wf_lists w \<Longrightarrow> (\<And>s v e. f s = Inr (v, e) \<Longrightarrow> links v = links w) \<Longrightarrow> task_method f m w = Inr (w', r) \<Longrightarrow> wf_lists w'"
  by (auto simp: task_method_def bindr_Inr_iff split: option.split_asm) (metis wf_same)+

lemma wf_progress [keeps_lists]:
  "wf_lists w \<Longrightarrow> task_method (\<lambda>s. lashd_dbus_progress E s (task_arg m) (percentage_arg m) w) m w = Inr (w', r) \<Longrightarrow> wf_lists w'"
  by (erule wf_task_method [rotated 2]) (auto dest: links_dbus_progress)

lemma wf_commit [keeps_lists]:
  "wf_lists w \<Longrightarrow> task_method (\<lambda>s. lashd_dbus_commit_data_set E s (task_arg m) (configs_arg m) w) m w = Inr (w', r) \<Longrightarrow> wf_lists w'"
  by (erule wf_task_method [rotated 2]) (auto dest: links_commit)

lemma wf_connect [keeps_lists]: "wf_lists w \<Longrightarrow> lashd_dbus_connect E s a w = Inr (w', r) \<Longrightarrow> wf_lists w'"
  by (auto simp: lashd_dbus_connect_def bindr_Inr_iff split: option.split_asm dest: wf_add_client)

text \<open>The object of the daemon serves the invariant.\<close>

lemma object_interfaces:
  "lashd_object E appdb mtimes = Inr (Some path) \<Longrightarrow>
     op_interfaces path = g_dbus_interface_dtor_introspectable # lashd_interfaces E appdb mtimes"
  by (auto simp: lashd_object_def object_path_new_def lashd_interfaces_def bindr_Inr_iff Let_def)

definition keeps_wf :: "world handler \<Rightarrow> bool" where
  "keeps_wf f \<longleftrightarrow> (\<forall>msg w w' r. wf_lists w \<longrightarrow> f msg w = Inr (w', r) \<longrightarrow> wf_lists w')"

lemma keeps_wfI: "(\<And>msg w w' r. wf_lists w \<Longrightarrow> f msg w = Inr (w', r) \<Longrightarrow> wf_lists w') \<Longrightarrow> keeps_wf f"
  unfolding keeps_wf_def by blast

lemma keeps_wf_unchanged: "keeps_wf (\<lambda>m w. Inr (w, k m w))"
  by (rule keeps_wfI) simp

lemma list_all_simps0: "list_all P [] = True" "list_all P (x # xs) = (P x \<and> list_all P xs)"
  by simp_all

lemma server_handlers_keep: "list_all (\<lambda>d. \<forall>f. m_handler d = Some f \<longrightarrow> keeps_wf f) (server_methods E)"
  unfolding server_methods_def list_all_simps0 method_desc.simps option.inject simp_thms
  by (intro conjI; (rule keeps_wf_unchanged | (rule keeps_wfI, erule keeps_lists, assumption)))

lemma control_handlers_keep: "list_all (\<lambda>d. \<forall>f. m_handler d = Some f \<longrightarrow> keeps_wf f) (control_methods E appdb mtimes)"
  unfolding control_methods_def list_all_simps0 method_desc.simps option.inject simp_thms
  by (intro conjI; (rule keeps_wf_unchanged | (rule keeps_wfI, erule keeps_lists, assumption)
      | (rule keeps_wfI, force intro: wf_exit)))

definition lashd_path :: "env \<Rightarrow> lash_appdb_entry list \<Rightarrow> (addr \<Rightarrow> u32) \<Rightarrow> world handler object_path" where
  "lashd_path E appdb mtimes = (case lashd_object E appdb mtimes of Inr (Some path) \<Rightarrow> path
     | _ \<Rightarrow> \<lparr>op_name = '''', op_interfaces = [], op_introspection = ''''\<rparr>)"

interpretation lashd: served_object "lashd_path E appdb mtimes" wf_lists
proof
  fix i m f w msg w' r
  assume i: "i \<in> set (op_interfaces (lashd_path E appdb mtimes))" and m: "m \<in> set (i_methods i)" "m_handler m = Some f"
    and run: "wf_lists w" "f msg w = Inr (w', r)"
  have "i \<in> set (g_dbus_interface_dtor_introspectable # lashd_interfaces E appdb mtimes)"
    using i by (auto simp: lashd_path_def object_interfaces split: sum.split_asm option.split_asm)
  then consider "i = g_dbus_interface_dtor_introspectable" | "i = g_lashd_interface_server E"
    | "i = g_lashd_interface_control E appdb mtimes" by (auto simp: lashd_interfaces_def)
  then show "wf_lists w'"
  proof cases
    case 1
    then show ?thesis using m by (simp add: g_dbus_interface_dtor_introspectable_def)
  next
    case 2
    then have "m \<in> set (server_methods E)" using m by (simp add: g_lashd_interface_server_def)
    then have "keeps_wf f" using server_handlers_keep [of E] m(2) by (auto simp: list_all_iff)
    then show ?thesis using run unfolding keeps_wf_def by blast
  next
    case 3
    then have "m \<in> set (control_methods E appdb mtimes)" using m by (simp add: g_lashd_interface_control_def)
    then have "keeps_wf f" using control_handlers_keep [of E appdb mtimes] m(2) by (auto simp: list_all_iff)
    then show ?thesis using run unfolding keeps_wf_def by blast
  qed
qed

section \<open>Every reachable state\<close>

lemma wf_disconnect_handler:
  assumes "wf_lists w" "lashd_client_disconnect_handler args w = Inr w'"
  shows "wf_lists w'"
proof (cases args)
  case (Some x)
  obtain n old where x: "x = (n, old)" by fastforce
  obtain r where r: "server_find_client_by_dbus_name w old = Inr r"
    using assms(2) Some x by (auto simp: lashd_client_disconnect_handler_def bindr_Inr_iff)
  show ?thesis
  proof (cases r)
    case (Some a)
    then obtain p where "p < next_project w" "a \<in> set (members w p)" using found_sender [OF assms(1)] r by blast
    moreover have "w' = client_disconnected (Some a) w"
      using assms(2) r Some \<open>args = Some x\<close> x by (simp add: lashd_client_disconnect_handler_def)
    ultimately show ?thesis using wf_disconnected [OF assms(1)] by simp
  qed (use assms r Some x in \<open>simp add: lashd_client_disconnect_handler_def\<close>)
qed (use assms in \<open>simp add: lashd_client_disconnect_handler_def\<close>)

lemma wf_dispatch:
  assumes "wf_lists w" "lashd_object E appdb mtimes = Inr (Some path)" "dispatch E path ev w = Inr w'"
  shows "wf_lists w'"
proof (cases ev)
  case (Method_message m)
  have "lashd_path E appdb mtimes = path" using assms(2) by (simp add: lashd_path_def)
  then show ?thesis
    using assms Method_message lashd.handler_keeps [of w E appdb mtimes m w'] by (auto simp: dispatch_def bindr_Inr_iff)
qed (use assms in \<open>auto simp: dispatch_def intro: wf_disconnect_handler wf_same [OF _ links_jack_signal]\<close>)

lemma wf_step: "daemon_step appdb w w' \<Longrightarrow> wf_lists w \<Longrightarrow> wf_lists w'"
proof (induction rule: daemon_step.induct)
  case (round w E mtimes path ev out1 out2 w')
  then obtain w1 w2 where "dispatch E path ev w = Inr w1" "loader_run out1 w1 = Inr w2" "loader_run out2 w2 = Inr w'"
    by (auto simp: main_iteration_def bindr_Inr_iff)
  then show ?case using wf_dispatch [OF round(4,2)] wf_loader_run by blast
next
  case (child_exit w pids)
  then show ?case by (rule wf_same) (rule links_sigchld)
qed

lemma wf_started: "server_start getenv E dir d service jack us fo = Some (appdb, w) \<Longrightarrow> wf_lists w"
proof -
  have "wf_lists (server_new dir' d m us fo)" for dir' m
    by (simp add: wf_lists_def server_new_def)
  then show "server_start getenv E dir d service jack us fo = Some (appdb, w) \<Longrightarrow> wf_lists w"
    by (auto simp: server_start_def split: option.split_asm if_split_asm intro: wf_server_fill)
qed

text \<open>C3. Whatever arrives on the bus, whatever its children do and however the outside answers, in
  every state the daemon reaches each client is at one place in the lists of one project, which
  is loaded and the one the client points to, and no list names a client or project that was
  never created.\<close>

theorem reachable_lists_well_formed:
  assumes "reachable appdb w"
  shows "wf_lists w"
  using assms by (induction rule: reachable.induct) (auto intro: wf_started wf_step)

lemma reachable_lists_well_formed_witness:
  "wf_lists (lashd_dbus_exit (server_new ''/h/projects'' \<lparr>nodes = [], denied = (\<lambda>_. False)\<rparr>
     \<lparr>jm_clients = [], jm_unknown = [], jm_unknown_freed = False, jm_graph = None, jm_version = 0\<rparr> (\<lambda>n. 0) (\<lambda>n. None)))"
proof -
  let ?m = "\<lparr>jm_clients = [], jm_unknown = [], jm_unknown_freed = False, jm_graph = None, jm_version = 0\<rparr>"
  let ?w = "server_new ''/h/projects'' \<lparr>nodes = [], denied = (\<lambda>_. False)\<rparr> ?m (\<lambda>n. 0) (\<lambda>n. None)"
  let ?msg = "\<lparr>msg_type = Message_method_call, msg_interface = Some ''org.nongnu.LASH.Control'',
      msg_member = Some ''Exit'', msg_sender = None, msg_args = []\<rparr>"
  let ?out = "\<lambda>_. ([], [])"
  have "server_start (\<lambda>s. if s = ''HOME'' then Some ''/h'' else None) example_env ''projects'' \<lparr>nodes = [], denied = (\<lambda>_. False)\<rparr>
      True (Some ?m) (\<lambda>n. 0) (\<lambda>n. None) = Some ([], ?w)"
    by (simp add: server_start_def lash_appdb_load_def lash_appdb_load_dir_def lash_appdb_load_dirs_def Let_def
        get_xdg_var_def posix_opendir_def node_at_def server_fill_projects_def server_new_def lash_dup_fqn_def lash_strdup_def)
  then have start: "reachable [] ?w" by (rule reachable.start)
  obtain path where path: "lashd_object example_env [] (\<lambda>_. 0) = Inr (Some path)"
    and ifs: "op_interfaces path = g_dbus_interface_dtor_introspectable # lashd_interfaces example_env [] (\<lambda>_. 0)"
    using object_created [of example_env "[]" "\<lambda>_. 0"] object_interfaces by blast
  have idle: "loader_run ?out v = Inr v" if "childs v = []" for v
    using that by (simp add: loader_run_def loader_read_childs_output_def loader_childs_bury_def)
  have "object_path_handler path ?msg ?w = Inr (lashd_dbus_exit ?w, Some (Method_return []))"
    by (subst handler_target [where name = "''Exit''"])
      (simp_all add: ifs meant_def lashd_interfaces_def g_dbus_interface_dtor_introspectable_def
        g_lashd_interface_server_def g_lashd_interface_control_def offers_def answer_def run_method_def control_methods_def)
  then have "main_iteration example_env path (Method_message ?msg) ?out ?out ?w = Inr (lashd_dbus_exit ?w)"
    by (simp add: main_iteration_def dispatch_def idle lashd_dbus_exit_def server_new_def)
  then have "daemon_step [] ?w (lashd_dbus_exit ?w)"
    using daemon_step.round [OF _ path] by (simp add: server_new_def)
  then have "reachable [] (lashd_dbus_exit ?w)" by (rule reachable.step [OF start])
  then show ?thesis by (rule reachable_lists_well_formed)
qed

end
