(* ===== verification/LibConfig.thy ===== *)
theory LibConfig
  imports Dbus Safety
begin

text \<open>
  Data sets on the client's side (\<^verbatim>\<open>liblash/lash_config.c\<close>): the handle the callbacks write to and
  read from, and the configuration objects of the old programming interface. Values are their
  bytes in memory on a little-endian machine; a string is the characters before its end.
\<close>

section \<open>Handles\<close>

text \<open>What was appended to the message, or what is still to be read from it.\<close>

record lash_config_handle =
  h_entries :: "dval list"
  h_is_read :: bool

text \<open>\<open>xdr_double\<close> and \<open>htonl\<close> turn the bytes around, and so do their inverses.\<close>

definition xdr_double :: "string \<Rightarrow> string" where
  "xdr_double v = rev (take 8 v)"

definition htonl :: "string \<Rightarrow> string" where
  "htonl v = rev (take 4 v)"

definition append_entry :: "lash_config_handle \<Rightarrow> dval option \<Rightarrow> lash_config_handle \<times> bool" where
  "append_entry h e = (case e of None \<Rightarrow> (h, False) | Some d \<Rightarrow> (h\<lparr>h_entries := h_entries h @ [d]\<rparr>, True))"

definition lash_config_write :: "lash_config_handle \<Rightarrow> cstr \<Rightarrow> string option \<Rightarrow> char \<Rightarrow> lash_config_handle \<times> bool" where
  "lash_config_write h key value_ptr ty =
     (case (key, value_ptr) of
        (Some k, Some v) \<Rightarrow>
          if k = [] then (h, False)
          else if h_is_read h then (h, False)
          else if ty = CHR ''d'' then append_entry h (method_iter_append_dict_entry ty k (xdr_double v) 0)
          else if ty = CHR ''u'' then append_entry h (method_iter_append_dict_entry ty k (htonl v) 0)
          else if ty = CHR ''s'' then append_entry h (method_iter_append_dict_entry ty k v 0)
          else (h, False)
      | _ \<Rightarrow> (h, False))"

definition lash_config_write_raw :: "lash_config_handle \<Rightarrow> cstr \<Rightarrow> string option \<Rightarrow> int \<Rightarrow> lash_config_handle \<times> bool" where
  "lash_config_write_raw h key buf sz =
     (case (key, buf) of
        (Some k, Some v) \<Rightarrow>
          if k = [] \<or> sz < 1 then (h, False)
          else if h_is_read h then (h, False)
          else append_entry h (method_iter_append_dict_entry (CHR ''-'') k v (nat sz))
      | _ \<Rightarrow> (h, False))"

text \<open>
  The number returned (the size, 0 at the end, -1 for an error) and what was stored through the
  pointers.
\<close>

definition lash_config_read :: "lash_config_handle \<Rightarrow> lash_config_handle \<times> int \<times> (string \<times> char \<times> string) option" where
  "lash_config_read h =
     (if \<not> h_is_read h then (h, -1, None)
      else (case h_entries h of
          [] \<Rightarrow> (h, 0, None)
        | e # es \<Rightarrow>
            (case method_iter_get_dict_entry (Some e) of
               None \<Rightarrow> (h, -1, None)
             | Some (key, ty, v) \<Rightarrow>
                 (let h1 = h\<lparr>h_entries := es\<rparr> in
                  if ty = CHR ''d'' then (h1, 8, Some (key, ty, xdr_double v))
                  else if ty = CHR ''u'' then (h1, 4, Some (key, ty, htonl v))
                  else if ty = CHR ''s'' then
                    (if length v < 1 then (h1, -1, Some (key, ty, v)) else (h1, int (length v), Some (key, ty, v)))
                  else if ty \<noteq> CHR ''-'' then (h1, -1, Some (key, ty, v))
                  else (h1, int (length v), Some (key, ty, v))))))"

section \<open>Reading back what was written\<close>

text \<open>A client's callbacks: writing a list of configurations, and reading until the end or an error.\<close>

fun write_configs :: "lash_config_handle \<Rightarrow> (string \<times> char \<times> string) list \<Rightarrow> lash_config_handle \<times> bool" where
  "write_configs h [] = (h, True)"
| "write_configs h ((key, ty, v) # cs) =
     (let (h1, ok) = (if ty = CHR ''-'' then lash_config_write_raw h (Some key) (Some v) (int (length v))
                      else lash_config_write h (Some key) (Some v) ty)
      in if ok then write_configs h1 cs else (h1, False))"

text \<open>The loop ends because every round that goes on takes an entry.\<close>

function read_configs :: "lash_config_handle \<Rightarrow> (string \<times> char \<times> string) list \<times> int" where
  "read_configs h =
     (case lash_config_read h of
        (h1, ret, Some c) \<Rightarrow>
          if ret > 0 then (let (cs, r) = read_configs h1 in (c # cs, r)) else ([], ret)
      | (h1, ret, None) \<Rightarrow> ([], ret))"
  by pat_completeness auto
termination
  by (relation "measure (\<lambda>h. length (h_entries h))")
    (auto simp: lash_config_read_def Let_def split: if_split_asm list.split_asm option.split_asm)

declare read_configs.simps [simp del]

definition good_config :: "string \<times> char \<times> string \<Rightarrow> bool" where
  "good_config c \<longleftrightarrow> (case c of (key, ty, v) \<Rightarrow> key \<noteq> [] \<and>
     (ty = CHR ''d'' \<and> length v = 8 \<or> ty = CHR ''u'' \<and> length v = 4 \<or> ty = CHR ''s'' \<and> v \<noteq> [] \<or> ty = CHR ''-'' \<and> v \<noteq> []))"

text \<open>The entry a configuration becomes.\<close>

definition config_entry :: "string \<times> char \<times> string \<Rightarrow> dval" where
  "config_entry c = (case c of (key, ty, v) \<Rightarrow>
     DEntry (DString key) (DVariant
       (if ty = CHR ''d'' then DDouble (rev v)
        else if ty = CHR ''u'' then DUint32 (bytes_u32 (rev v))
        else if ty = CHR ''s'' then DString v else DArray ''y'' (map (\<lambda>c. DByte (of_char c)) v))))"

lemma write_good:
  assumes "good_config (key, ty, v)" "\<not> h_is_read h"
  shows "(if ty = CHR ''-'' then lash_config_write_raw h (Some key) (Some v) (int (length v))
      else lash_config_write h (Some key) (Some v) ty) = (h\<lparr>h_entries := h_entries h @ [config_entry (key, ty, v)]\<rparr>, True)"
proof -
  have "\<not> int (length v) < 1" if "v \<noteq> []" using that by (cases v) auto
  then show ?thesis using assms
    by (auto simp: good_config_def config_entry_def lash_config_write_def lash_config_write_raw_def append_entry_def
        method_iter_append_dict_entry_def method_iter_append_variant_def method_iter_append_variant_raw_def
        basic_value_def xdr_double_def htonl_def)
qed

lemma write_configs_good:
  "\<forall>c \<in> set cs. good_config c \<Longrightarrow> \<not> h_is_read h \<Longrightarrow>
     write_configs h cs = (h\<lparr>h_entries := h_entries h @ map config_entry cs\<rparr>, True)"
proof (induction h cs rule: write_configs.induct)
  case (2 h key ty v cs)
  let ?h1 = "h\<lparr>h_entries := h_entries h @ [config_entry (key, ty, v)]\<rparr>"
  have one: "(if ty = CHR ''-'' then lash_config_write_raw h (Some key) (Some v) (int (length v))
      else lash_config_write h (Some key) (Some v) ty) = (?h1, True)"
    using 2(2,3) by (intro write_good) simp_all
  have "write_configs ?h1 cs = (?h1\<lparr>h_entries := h_entries ?h1 @ map config_entry cs\<rparr>, True)"
    by (rule 2(1) [OF one [symmetric] refl]) (use 2(2,3) in simp_all)
  then show ?case unfolding write_configs.simps one by simp
qed simp

lemma read_good:
  assumes "good_config c" "h_is_read h" "h_entries h = config_entry c # es"
  shows "\<exists>n > 0. lash_config_read h = (h\<lparr>h_entries := es\<rparr>, n, Some c)"
proof -
  obtain key ty v where c: "c = (key, ty, v)" by (cases c)
  have "0 < int (length v)" if "v \<noteq> []" using that by simp
  then show ?thesis using assms
    by (auto simp: c good_config_def config_entry_def lash_config_read_def method_iter_get_dict_entry_def
        xdr_double_def htonl_def u32_bytes_inverse bytes_of_chars Let_def Suc_le_eq)
qed

lemma read_configs_good:
  "\<forall>c \<in> set cs. good_config c \<Longrightarrow> h_is_read h \<Longrightarrow> h_entries h = map config_entry cs \<Longrightarrow> read_configs h = (cs, 0)"
proof (induction cs arbitrary: h)
  case Nil
  then show ?case by (subst read_configs.simps) (simp add: lash_config_read_def)
next
  case (Cons c cs)
  then obtain n where "n > 0" "lash_config_read h = (h\<lparr>h_entries := map config_entry cs\<rparr>, n, Some c)"
    using read_good [of c h "map config_entry cs"] by auto
  then show ?case using Cons by (subst read_configs.simps) simp
qed

text \<open>C15. What a client's save callback writes, its load callback reads: numbers survive the turns
  through network byte order, strings and raw bytes arrive as they were, in their order, and
  then the end is reported. Keys and values must not be empty.\<close>

theorem data_set_roundtrip:
  assumes "\<forall>c \<in> set cs. good_config c"
  shows "\<exists>es. write_configs \<lparr>h_entries = [], h_is_read = False\<rparr> cs = (\<lparr>h_entries = es, h_is_read = False\<rparr>, True)
     \<and> read_configs \<lparr>h_entries = es, h_is_read = True\<rparr> = (cs, 0)"
  using write_configs_good [OF assms, of "\<lparr>h_entries = [], h_is_read = False\<rparr>"]
    read_configs_good [OF assms, of "\<lparr>h_entries = map config_entry cs, h_is_read = True\<rparr>"] by simp

lemma data_set_roundtrip_witness:
  "\<exists>es. write_configs \<lparr>h_entries = [], h_is_read = False\<rparr>
        [(''n'', CHR ''u'', [CHR 0x01, CHR 0x02, CHR 0x03, CHR 0x04]), (''s'', CHR ''s'', ''x''), (''r'', CHR ''-'', [CHR 0x00])]
      = (\<lparr>h_entries = es, h_is_read = False\<rparr>, True)
     \<and> read_configs \<lparr>h_entries = es, h_is_read = True\<rparr>
      = ([(''n'', CHR ''u'', [CHR 0x01, CHR 0x02, CHR 0x03, CHR 0x04]), (''s'', CHR ''s'', ''x''), (''r'', CHR ''-'', [CHR 0x00])], 0)"
  by (rule data_set_roundtrip) (simp add: good_config_def)

text \<open>
  An entry with no bytes is taken for the end: what follows it is never read. (The daemon sends
  such an entry when the file of a key holds an empty value.)
\<close>

lemma empty_value_ends_reading:
  "read_configs \<lparr>h_entries = config_entry (key, CHR ''-'', []) # es, h_is_read = True\<rparr> = ([], 0)"
  by (subst read_configs.simps)
    (simp add: lash_config_read_def config_entry_def method_iter_get_dict_entry_def Let_def)

section \<open>Configuration objects\<close>

record lash_config =
  c_key :: cstr
  c_value :: "string option"
  c_value_size :: u64
  c_value_type :: char

definition lash_config_new :: lash_config where
  "lash_config_new = \<lparr>c_key = None, c_value = None, c_value_size = 0, c_value_type = CHR 0x00\<rparr>"

definition lash_config_new_with_key :: "cstr \<Rightarrow> lash_config" where
  "lash_config_new_with_key key = lash_config_new\<lparr>c_key := map_option (\<lambda>k. lash_strdup (Some k)) key\<rparr>"

text \<open>Copying bytes out of a block that is shorter is a fault.\<close>

definition copy_bytes :: "string \<Rightarrow> u64 \<Rightarrow> string res" where
  "copy_bytes b n = (if unat n \<le> length b then Inr (take (unat n) b) else Inl Out_of_bounds)"

text \<open>A copy does not take over the type.\<close>

definition lash_config_dup :: "lash_config option \<Rightarrow> lash_config option res" where
  "lash_config_dup config =
     (case config of
        None \<Rightarrow> Inr None
      | Some c \<Rightarrow>
          (let d = lash_config_new\<lparr>c_key := Some (lash_strdup (c_key c))\<rparr> in
           (case c_value c of
              Some v \<Rightarrow>
                if c_value_size c > 0 then
                  bindr (copy_bytes v (c_value_size c)) (\<lambda>b. Inr (Some (d\<lparr>c_value := Some b, c_value_size := c_value_size c\<rparr>)))
                else Inr (Some d)
            | None \<Rightarrow> Inr (Some d))))"

definition lash_config_free :: "lash_config \<Rightarrow> lash_config" where
  "lash_config_free c = c\<lparr>c_key := None, c_value := None, c_value_size := 0\<rparr>"

definition lash_config_get_key :: "lash_config option \<Rightarrow> cstr" where
  "lash_config_get_key config = Option.bind config c_key"

definition lash_config_get_value :: "lash_config option \<Rightarrow> string option" where
  "lash_config_get_value config = Option.bind config c_value"

definition lash_config_get_value_size :: "lash_config option \<Rightarrow> u64" where
  "lash_config_get_value_size config = (case config of None \<Rightarrow> 0 | Some c \<Rightarrow> c_value_size c)"

text \<open>The number at the value's address; the size is not looked at.\<close>

definition lash_config_get_value_int :: "lash_config option \<Rightarrow> u32 res" where
  "lash_config_get_value_int config =
     (case lash_config_get_value config of
        None \<Rightarrow> Inr 0
      | Some v \<Rightarrow> bindr (copy_bytes v 4) (\<lambda>b. Inr (bytes_u32 b)))"

definition lash_config_get_value_double :: "lash_config option \<Rightarrow> string res" where
  "lash_config_get_value_double config =
     (case lash_config_get_value config of None \<Rightarrow> Inr (replicate 8 (CHR 0x00)) | Some v \<Rightarrow> copy_bytes v 8)"

definition lash_config_set_key :: "cstr \<Rightarrow> lash_config option \<Rightarrow> lash_config option" where
  "lash_config_set_key key config = map_option (\<lambda>c. c\<lparr>c_key := Some (lash_strdup key)\<rparr>) config"

definition lash_config_set_value :: "string option \<Rightarrow> u64 \<Rightarrow> lash_config option \<Rightarrow> lash_config option res" where
  "lash_config_set_value v value_size config =
     (case config of
        None \<Rightarrow> Inr None
      | Some c \<Rightarrow>
          (case v of
             None \<Rightarrow> Inr (Some (c\<lparr>c_value := None, c_value_size := 0\<rparr>))
           | Some buf \<Rightarrow>
               if value_size < 1 then Inr (Some (c\<lparr>c_value := None, c_value_size := 0\<rparr>))
               else bindr (copy_bytes buf value_size) (\<lambda>b.
                 Inr (Some (c\<lparr>c_value := Some b, c_value_size := value_size, c_value_type := CHR ''-''\<rparr>)))))"

definition lash_config_set_value_int :: "u32 \<Rightarrow> lash_config option \<Rightarrow> lash_config option res" where
  "lash_config_set_value_int v config = lash_config_set_value (Some (u32_bytes v)) 4 config"

definition lash_config_set_value_double :: "string \<Rightarrow> lash_config option \<Rightarrow> lash_config option res" where
  "lash_config_set_value_double v config = lash_config_set_value (Some v) 8 config"

definition lash_config_set_value_string :: "cstr \<Rightarrow> lash_config option \<Rightarrow> lash_config option res" where
  "lash_config_set_value_string v config =
     (case v of
        None \<Rightarrow> Inr config
      | Some s \<Rightarrow> lash_config_set_value (Some (s @ [CHR 0x00])) (word_of_nat (length s + 1)) config)"

lemma set_get_int: "bindr (lash_config_set_value_int v (Some c)) lash_config_get_value_int = Inr v"
  by (simp add: lash_config_set_value_int_def lash_config_set_value_def lash_config_get_value_int_def
      lash_config_get_value_def copy_bytes_def u32_bytes_def bytes_u32_inverse [unfolded u32_bytes_def])

end
