(* ===== verification/LibClient.thy ===== *)
theory LibClient
  imports LibConfig Session
begin

text \<open>
  The client library (\<^verbatim>\<open>liblash/client.c\<close>, \<^verbatim>\<open>dbus_iface_client.c\<close>, \<^verbatim>\<open>dbus_service.c\<close>, \<^verbatim>\<open>event.c\<close>,
  \<^verbatim>\<open>lash.c\<close>), built with the old programming interface: the client structure, the tasks the
  daemon gives it, its signals, and the queue of events an application takes tasks from. Events
  live in a heap, because the library keeps a pointer to one the application owns. What
  the library sends and the callbacks it runs are appended to a trace. A callback is what it
  answers (for a data set, also what it writes), \<open>None\<close> when it is not registered.
\<close>

section \<open>The client structure\<close>

record lash_client_t =
  lc_class :: cstr
  lc_id :: uuid
  lc_name :: cstr
  lc_project_name :: cstr
  lc_is_controller :: u8
  lc_argv :: "string list"
  lc_working_dir :: cstr
  lc_flags :: u32
  lc_dbus_service :: bool
  lc_pending_task :: u64
  lc_task_progress :: u8
  lc_server_connected :: bool
  lc_data_path :: cstr
  cb_trysave :: "bool option"
  cb_save :: "bool option"
  cb_load :: "bool option"
  cb_quit :: "bool option"
  cb_name :: "bool option"
  cb_proj :: "bool option"
  cb_path :: "bool option"
  cb_save_data_set :: "((string \<times> char \<times> string) list \<times> bool) option"
  cb_load_data_set :: "bool option"
  cb_control :: bool
  lc_events_in :: "addr list"
  lc_num_events_in :: u32
  lc_configs_in :: "lash_config list"
  lc_num_configs_in :: u32
  lc_unsent_configs :: "u64 \<times> dval list"

definition lash_client_new :: lash_client_t where
  "lash_client_new = \<lparr>lc_class = None, lc_id = 0, lc_name = None, lc_project_name = None, lc_is_controller = 0,
     lc_argv = [], lc_working_dir = None, lc_flags = 0, lc_dbus_service = False, lc_pending_task = 0,
     lc_task_progress = 0, lc_server_connected = False, lc_data_path = None, cb_trysave = None, cb_save = None,
     cb_load = None, cb_quit = None, cb_name = None, cb_proj = None, cb_path = None, cb_save_data_set = None,
     cb_load_data_set = None, cb_control = False, lc_events_in = [], lc_num_events_in = 0, lc_configs_in = [],
     lc_num_configs_in = 0, lc_unsent_configs = (0, [])\<rparr>"

definition LASH_Server_Interface :: u32 where "LASH_Server_Interface = 0x00000004"
definition LASH_No_Autoresume :: u32 where "LASH_No_Autoresume = 0x00000008"
definition LASH_No_Start_Server :: u32 where "LASH_No_Start_Server = 0x00000020"

section \<open>Events\<close>

datatype event_ctor =
    Ctor_client_name | Ctor_jack_client_name | Ctor_alsa_client_id | Ctor_task_done
  | Ctor_save_data_set | Ctor_save | Ctor_quit

fun g_lash_event_ctors :: "event_type \<Rightarrow> event_ctor option" where
  "g_lash_event_ctors LASH_Client_Name = Some Ctor_client_name"
| "g_lash_event_ctors LASH_Jack_Client_Name = Some Ctor_jack_client_name"
| "g_lash_event_ctors LASH_Alsa_Client_ID = Some Ctor_alsa_client_id"
| "g_lash_event_ctors LASH_Save_File = Some Ctor_task_done"
| "g_lash_event_ctors LASH_Restore_File = Some Ctor_task_done"
| "g_lash_event_ctors LASH_Save_Data_Set = Some Ctor_save_data_set"
| "g_lash_event_ctors LASH_Restore_Data_Set = Some Ctor_task_done"
| "g_lash_event_ctors LASH_Save = Some Ctor_save"
| "g_lash_event_ctors LASH_Quit = Some Ctor_quit"
| "g_lash_event_ctors _ = None"

record lash_event =
  ev_type :: event_type
  ev_string :: cstr
  ev_project :: cstr
  ev_client_id :: uuid
  ev_ctor :: "event_ctor option"

definition lash_event_new :: lash_event where
  "lash_event_new = \<lparr>ev_type = LASH_Event_Unknown, ev_string = None, ev_project = None, ev_client_id = 0, ev_ctor = None\<rparr>"

definition lash_event_new_with_type :: "event_type \<Rightarrow> lash_event option" where
  "lash_event_new_with_type ty =
     (if ty = LASH_Event_Unknown then None
      else Some (lash_event_new\<lparr>ev_type := ty, ev_ctor := g_lash_event_ctors ty\<rparr>))"

definition lash_event_set_string :: "cstr \<Rightarrow> lash_event \<Rightarrow> lash_event" where
  "lash_event_set_string s e = e\<lparr>ev_string := map_option (\<lambda>x. lash_strdup (Some x)) s\<rparr>"

definition lash_event_set_project :: "cstr \<Rightarrow> lash_event \<Rightarrow> lash_event" where
  "lash_event_set_project s e = e\<lparr>ev_project := map_option (\<lambda>x. lash_strdup (Some x)) s\<rparr>"

definition lash_event_new_with_all :: "event_type \<Rightarrow> cstr \<Rightarrow> lash_event option" where
  "lash_event_new_with_all ty s = map_option (lash_event_set_string s) (lash_event_new_with_type ty)"

definition lash_event_set_type :: "event_type \<Rightarrow> lash_event \<Rightarrow> lash_event" where
  "lash_event_set_type ty e =
     (if ty = LASH_Event_Unknown then e else e\<lparr>ev_type := ty, ev_ctor := g_lash_event_ctors ty\<rparr>)"

text \<open>The identifier is a string of one character, or of none.\<close>

definition lash_str_set_alsa_client_id :: "u8 \<Rightarrow> string" where
  "lash_str_set_alsa_client_id i = (if i = 0 then [] else [char_of (unat i)])"

definition lash_str_get_alsa_client_id :: "cstr \<Rightarrow> u8 res" where
  "lash_str_get_alsa_client_id s =
     (case s of None \<Rightarrow> Inl Null_deref | Some [] \<Rightarrow> Inr 0 | Some (c # _) \<Rightarrow> Inr (of_char c))"

text \<open>The type is set, the constructor is not.\<close>

definition lash_event_set_alsa_client_id :: "u8 \<Rightarrow> lash_event \<Rightarrow> lash_event" where
  "lash_event_set_alsa_client_id i e =
     lash_event_set_string (Some (lash_str_set_alsa_client_id i)) (e\<lparr>ev_type := LASH_Alsa_Client_ID\<rparr>)"

definition lash_event_get_alsa_client_id :: "lash_event option \<Rightarrow> u8 res" where
  "lash_event_get_alsa_client_id e = (case e of None \<Rightarrow> Inr 0 | Some e \<Rightarrow> lash_str_get_alsa_client_id (ev_string e))"

section \<open>The state of the library\<close>

datatype lib_out =
    Server_call string "dval list"
  | Control_call string "dval list"
  | Callback string
  | Control_callback event_type string string uuid
  | Void_return

record lib =
  lb_client :: lash_client_t
  lb_events :: "addr \<Rightarrow> lash_event option"
  lb_next :: addr
  lb_pending :: "addr option"
  lb_out :: "lib_out list"

definition out :: "lib_out \<Rightarrow> lib \<Rightarrow> lib" where
  "out x s = s\<lparr>lb_out := lb_out s @ [x]\<rparr>"

definition upd :: "(lash_client_t \<Rightarrow> lash_client_t) \<Rightarrow> lib \<Rightarrow> lib" where
  "upd f s = s\<lparr>lb_client := f (lb_client s)\<rparr>"

text \<open>A new event goes to a fresh address and to the end of the queue.\<close>

definition lash_client_add_event :: "lash_event option \<Rightarrow> lib \<Rightarrow> lib" where
  "lash_client_add_event eo s =
     (case eo of
        None \<Rightarrow> s
      | Some e \<Rightarrow>
          upd (\<lambda>c. c\<lparr>lc_events_in := lc_events_in c @ [lb_next s], lc_num_events_in := lc_num_events_in c + 1\<rparr>)
            (s\<lparr>lb_events := (lb_events s)(lb_next s := Some e), lb_next := lb_next s + 1\<rparr>))"

definition lash_client_add_config :: "lash_config \<Rightarrow> lib \<Rightarrow> lib" where
  "lash_client_add_config cfg s =
     upd (\<lambda>c. c\<lparr>lc_configs_in := lc_configs_in c @ [cfg], lc_num_configs_in := lc_num_configs_in c + 1\<rparr>) s"

section \<open>Tasks\<close>

definition report_success_or_failure :: "bool \<Rightarrow> lib \<Rightarrow> lib" where
  "report_success_or_failure success s =
     (if lc_pending_task (lb_client s) = 0 then s
      else out (Server_call ''Progress'' [DUint64 (lc_pending_task (lb_client s)), DByte (if success then 255 else 0)]) s)"

definition start_task :: "u64 \<Rightarrow> lib \<Rightarrow> lib" where
  "start_task task_id = upd (\<lambda>c. c\<lparr>lc_pending_task := task_id, lc_task_progress := 0\<rparr>)"

definition end_task :: "lib \<Rightarrow> lib" where
  "end_task = upd (\<lambda>c. c\<lparr>lc_pending_task := 0\<rparr>)"

definition lash_new_save_task :: "u64 \<Rightarrow> lib \<Rightarrow> lib" where
  "lash_new_save_task task_id s =
     (let s1 = start_task task_id s in
      (case cb_save (lb_client s1) of
         Some ok \<Rightarrow> end_task (report_success_or_failure ok (out (Callback ''save'') s1))
       | None \<Rightarrow> lash_client_add_event (lash_event_new_with_all LASH_Save_File (lc_data_path (lb_client s1))) s1))"

text \<open>The task number of a method call, if the call may go on, and its other arguments.\<close>

definition get_task_id :: "message \<Rightarrow> lib \<Rightarrow> dbus_error + u64 \<times> dval list" where
  "get_task_id m s =
     (case msg_args m of
        DUint64 t # rest \<Rightarrow>
          if lc_pending_task (lb_client s) \<noteq> 0 then Inl Error_unfinished_task else Inr (t, rest)
      | _ \<Rightarrow> Inl Error_invalid_args)"

definition lash_dbus_save :: "message \<Rightarrow> lib \<Rightarrow> (lib \<times> reply) res" where
  "lash_dbus_save m s =
     (case get_task_id m s of
        Inl e \<Rightarrow> Inr (s, Error_reply e)
      | Inr (t, _) \<Rightarrow> Inr (lash_new_save_task t (out Void_return s), No_reply))"

definition lash_dbus_load :: "message \<Rightarrow> lib \<Rightarrow> (lib \<times> reply) res" where
  "lash_dbus_load m s =
     (case get_task_id m s of
        Inl e \<Rightarrow> Inr (s, Error_reply e)
      | Inr (t, rest) \<Rightarrow>
          (case rest of
             DString data_path # _ \<Rightarrow>
               (let s1 = start_task t (upd (\<lambda>c. c\<lparr>lc_data_path := Some (lash_strdup (Some data_path))\<rparr>) s) in
                (case cb_load (lb_client s1) of
                   Some ok \<Rightarrow>
                     Inr (end_task (report_success_or_failure ok (out (Callback ''load'') (out Void_return s1))), No_reply)
                 | None \<Rightarrow>
                     Inr (lash_client_add_event (lash_event_new_with_all LASH_Restore_File (lc_data_path (lb_client s1))) s1,
                          No_reply)))
           | _ \<Rightarrow> Inr (s, Error_reply Error_invalid_args)))"

definition lash_new_save_data_set_task :: "u64 \<Rightarrow> lib \<Rightarrow> lib" where
  "lash_new_save_data_set_task task_id s =
     (let s1 = start_task task_id (upd (\<lambda>c. c\<lparr>lc_unsent_configs := (task_id, [])\<rparr>) s) in
      (case cb_save_data_set (lb_client s1) of
         Some (cs, ok) \<Rightarrow>
           (let h = fst (write_configs \<lparr>h_entries = [], h_is_read = False\<rparr> cs);
                s2 = out (Callback ''save_data_set'') (upd (\<lambda>c. c\<lparr>lc_unsent_configs := (task_id, h_entries h)\<rparr>) s1)
            in if \<not> ok then end_task (report_success_or_failure False s2)
               else end_task (out (Server_call ''CommitDataSet'' [DUint64 task_id, DArray ''{sv}'' (h_entries h)]) s2))
       | None \<Rightarrow> lash_client_add_event (lash_event_new_with_type LASH_Save_Data_Set) s1))"

text \<open>Every configuration of a data set becomes an object of the queue; the first bad one ends it.\<close>

function queue_configs :: "lash_config_handle \<Rightarrow> lib \<Rightarrow> (lib \<times> reply) res" where
  "queue_configs h s =
     (case lash_config_read h of
        (h1, ret, c) \<Rightarrow>
          if ret = 0 then Inr (s, No_reply)
          else if ret < 0 then Inr (s, Error_reply Error_generic)
          else (case c of
              None \<Rightarrow> Inr (s, No_reply)
            | Some (key, ty, v) \<Rightarrow>
                (let config = Some (lash_config_new_with_key (Some key)) in
                 bindr (if ty = CHR ''d'' then lash_config_set_value_double v config
                        else if ty = CHR ''u'' then lash_config_set_value_int (bytes_u32 v) config
                        else if ty = CHR ''s'' then lash_config_set_value_string (Some v) config
                        else lash_config_set_value (Some v) (word_of_int ret) config) (\<lambda>cfg.
                   queue_configs h1 (case cfg of None \<Rightarrow> s | Some x \<Rightarrow> lash_client_add_config x s)))))"
  by pat_completeness auto
termination
  by (relation "measure (\<lambda>(h, s). length (h_entries h))")
    (auto simp: lash_config_read_def Let_def split: if_split_asm list.split_asm option.split_asm)

declare queue_configs.simps [simp del]

definition lash_dbus_load_data_set :: "message \<Rightarrow> lib \<Rightarrow> (lib \<times> reply) res" where
  "lash_dbus_load_data_set m s =
     (case get_task_id m s of
        Inl e \<Rightarrow> Inr (s, Error_reply e)
      | Inr (t, rest) \<Rightarrow>
          (case rest of
             DArray _ es # _ \<Rightarrow>
               (let s1 = start_task t s in
                (case cb_load_data_set (lb_client s1) of
                   Some ok \<Rightarrow>
                     Inr (end_task (report_success_or_failure ok (out (Callback ''load_data_set'') (out Void_return s1))), No_reply)
                 | None \<Rightarrow>
                     queue_configs \<lparr>h_entries = es, h_is_read = True\<rparr>
                       (lash_client_add_event (lash_event_new_with_type LASH_Restore_Data_Set) s1)))
           | _ \<Rightarrow> Inr (s, Error_reply Error_invalid_args)))"

definition lash_new_quit_task :: "lib \<Rightarrow> lib" where
  "lash_new_quit_task s =
     (case cb_quit (lb_client s) of
        Some _ \<Rightarrow> out (Callback ''quit'') s
      | None \<Rightarrow> lash_client_add_event (lash_event_new_with_type LASH_Quit) s)"

definition lash_dbus_quit :: "message \<Rightarrow> lib \<Rightarrow> (lib \<times> reply) res" where
  "lash_dbus_quit m s = Inr (lash_new_quit_task (out Void_return s), No_reply)"

definition lash_dbus_try_save :: "message \<Rightarrow> lib \<Rightarrow> (lib \<times> reply) res" where
  "lash_dbus_try_save m s =
     (if lc_pending_task (lb_client s) \<noteq> 0 then Inr (s, Error_reply Error_unfinished_task)
      else (case cb_trysave (lb_client s) of
          None \<Rightarrow> Inr (s, Error_reply Error_generic)
        | Some True \<Rightarrow> Inr (out (Server_call ''WaitForSave'' []) (out (Callback ''trysave'') s), Method_return [DBool True])
        | Some False \<Rightarrow> Inr (out (Callback ''trysave'') s, Method_return [DBool False])))"

text \<open>
  The library waits for the answer to \<open>CommitPathChange\<close>: \<open>new_path\<close> is the string it carries,
  \<open>None\<close> an error.
\<close>

definition lash_dbus_path_change_handler :: "string option \<Rightarrow> lib \<Rightarrow> lib" where
  "lash_dbus_path_change_handler new_path s =
     (case new_path of
        None \<Rightarrow> s
      | Some p \<Rightarrow> if p = [] then s else upd (\<lambda>c. c\<lparr>lc_data_path := Some (lash_strdup (Some p))\<rparr>) s)"

definition lash_dbus_try_path_change :: "string option \<Rightarrow> message \<Rightarrow> lib \<Rightarrow> (lib \<times> reply) res" where
  "lash_dbus_try_path_change new_path m s =
     (if lc_pending_task (lb_client s) \<noteq> 0 then Inr (s, Error_reply Error_unfinished_task)
      else (case cb_path (lb_client s) of
          None \<Rightarrow> Inr (s, Error_reply Error_generic)
        | Some True \<Rightarrow>
            Inr (lash_dbus_path_change_handler new_path
                   (out (Server_call ''CommitPathChange'' []) (out (Callback ''path'') s)), Method_return [DBool True])
        | Some False \<Rightarrow> Inr (out (Callback ''path'') s, Method_return [DBool False])))"

definition name_or_null :: "string \<Rightarrow> cstr" where
  "name_or_null n = (if n = [] then None else Some (lash_strdup (Some n)))"

definition lash_dbus_client_name_changed :: "message \<Rightarrow> lib \<Rightarrow> (lib \<times> reply) res" where
  "lash_dbus_client_name_changed m s =
     (case method_iter_get_args ''s'' (msg_args m) of
        Some ([DString new_name], _) \<Rightarrow>
          (let s1 = upd (\<lambda>c. c\<lparr>lc_name := name_or_null new_name\<rparr>) s
           in Inr (if cb_name (lb_client s1) \<noteq> None then out (Callback ''name'') s1 else s1, No_reply))
      | _ \<Rightarrow> Inr (s, Error_reply Error_invalid_args))"

text \<open>The table of the client's interface.\<close>

definition liblash_methods :: "string option \<Rightarrow> lib handler method_desc list" where
  "liblash_methods new_path =
     [\<lparr>m_name = ''Save'', m_handler = Some lash_dbus_save, m_args = [(''task_id'', ''t'', DIRECTION_IN)]\<rparr>,
      \<lparr>m_name = ''Load'', m_handler = Some lash_dbus_load,
       m_args = [(''task_id'', ''t'', DIRECTION_IN), (''data_path'', ''s'', DIRECTION_IN)]\<rparr>,
      \<lparr>m_name = ''LoadDataSet'', m_handler = Some lash_dbus_load_data_set,
       m_args = [(''task_id'', ''t'', DIRECTION_IN), (''configs'', ''a{sv}'', DIRECTION_IN)]\<rparr>,
      \<lparr>m_name = ''Quit'', m_handler = Some lash_dbus_quit, m_args = []\<rparr>,
      \<lparr>m_name = ''TrySave'', m_handler = Some lash_dbus_try_save, m_args = [(''ok_to_save'', ''b'', DIRECTION_OUT)]\<rparr>,
      \<lparr>m_name = ''TryPathChange'', m_handler = Some (lash_dbus_try_path_change new_path),
       m_args = [(''ok_to_change'', ''b'', DIRECTION_OUT)]\<rparr>,
      \<lparr>m_name = ''ClientNameChanged'', m_handler = Some lash_dbus_client_name_changed,
       m_args = [(''new_name'', ''s'', DIRECTION_IN)]\<rparr>]"

definition g_liblash_interface_client :: "string option \<Rightarrow> lib handler interface" where
  "g_liblash_interface_client new_path =
     \<lparr>i_name = ''org.nongnu.LASH.Client'', i_introspects = False, i_methods = liblash_methods new_path, i_signals = []\<rparr>"

section \<open>Signals of the daemon\<close>

text \<open>\<open>args\<close> is what the signal carries.\<close>

definition lash_server_signal_handler :: "string \<Rightarrow> dval list \<Rightarrow> lib \<Rightarrow> lib" where
  "lash_server_signal_handler member args s =
     (let c = lb_client s in
      if member = ''Save'' then
        (case method_iter_get_args ''st'' args of
           Some ([DString project_name, DUint64 task_id], _) \<Rightarrow>
             if lc_project_name c \<noteq> Some project_name then s
             else if lc_pending_task c \<noteq> 0 then s
             else if lc_flags c AND LASH_Config_Data_Set \<noteq> 0 then lash_new_save_data_set_task task_id s
             else if lc_flags c AND LASH_Config_File \<noteq> 0 then lash_new_save_task task_id s
             else s
         | _ \<Rightarrow> s)
      else if member = ''Quit'' then
        (case method_iter_get_args ''s'' args of
           Some ([DString project_name], _) \<Rightarrow>
             if lc_project_name c \<noteq> None \<and> lc_project_name c \<noteq> Some project_name then s
             else lash_new_quit_task s
         | _ \<Rightarrow> s)
      else s)"

definition lash_project_name_changed_handler :: "dval list \<Rightarrow> lib \<Rightarrow> lib" where
  "lash_project_name_changed_handler args s =
     (case method_iter_get_args ''ss'' args of
        Some ([DString old_name, DString new_name], _) \<Rightarrow>
          (if (case lc_project_name (lb_client s) of Some n \<Rightarrow> n \<noteq> old_name | None \<Rightarrow> old_name \<noteq> []) then s
           else (let s1 = upd (\<lambda>c. c\<lparr>lc_project_name := name_or_null new_name\<rparr>) s
                 in if cb_proj (lb_client s1) \<noteq> None then out (Callback ''proj'') s1 else s1))
      | _ \<Rightarrow> s)"

text \<open>The number and the event type of the members a controller knows.\<close>

definition control_members :: "(string \<times> nat \<times> event_type) list" where
  "control_members =
     [(''ProjectDisappeared'', 1, LASH_Project_Remove), (''ProjectAppeared'', 2, LASH_Project_Add),
      (''ProjectNameChanged'', 3, LASH_Project_Name), (''ProjectPathChanged'', 4, LASH_Project_Dir),
      (''ClientAppeared'', 5, LASH_Client_Add), (''ClientDisappeared'', 6, LASH_Client_Remove),
      (''ClientNameChanged'', 7, LASH_Client_Name), (''ClientJackNameChanged'', 8, LASH_Jack_Client_Name),
      (''ClientAlsaIdChanged'', 9, LASH_Alsa_Client_ID), (''Progress'', 10, LASH_Percentage)]"

text \<open>The two strings of the callback; a byte becomes a string of one character, or none for 0.\<close>

definition control_strings :: "nat \<Rightarrow> dval list \<Rightarrow> (string \<times> string) option" where
  "control_strings sig_id args =
     (if sig_id = 1 then
        (case method_iter_get_args ''s'' args of Some ([DString a], _) \<Rightarrow> Some (a, '''') | _ \<Rightarrow> None)
      else if sig_id < 9 then
        (case method_iter_get_args ''ss'' args of Some ([DString a, DString b], _) \<Rightarrow> Some (a, b) | _ \<Rightarrow> None)
      else if sig_id = 9 then
        (case method_iter_get_args ''sy'' args of
           Some ([DString a, DByte b], _) \<Rightarrow> Some (a, lash_str_set_alsa_client_id b) | _ \<Rightarrow> None)
      else
        (case method_iter_get_args ''y'' args of
           Some ([DByte b], _) \<Rightarrow> Some (lash_str_set_alsa_client_id b, '''') | _ \<Rightarrow> None))"

definition lash_control_signal_handler :: "uuid_lib \<Rightarrow> string \<Rightarrow> dval list \<Rightarrow> lib \<Rightarrow> lib" where
  "lash_control_signal_handler U member args s =
     (if \<not> cb_control (lb_client s) then s
      else (case map_of control_members member of
          None \<Rightarrow> s
        | Some (sig_id, ty) \<Rightarrow>
            (case control_strings sig_id args of
               None \<Rightarrow> s
             | Some (str1, str2) \<Rightarrow>
                 if sig_id < 5 \<or> sig_id > 9 then out (Control_callback ty str1 str2 0) s
                 else (case uuid_parse U str1 of
                     None \<Rightarrow> s
                   | Some u \<Rightarrow> out (Control_callback ty str2 str2 u) s))))"

definition lash_dbus_signal_handler :: "uuid_lib \<Rightarrow> message \<Rightarrow> lib \<Rightarrow> lib" where
  "lash_dbus_signal_handler U m s =
     (if msg_type m \<noteq> Message_signal then s
      else (case (msg_member m, msg_interface m) of
          (Some member, Some iface) \<Rightarrow>
            if iface = ''org.nongnu.LASH.Server'' then lash_server_signal_handler member (msg_args m) s
            else if iface = ''org.nongnu.LASH.Control'' then
              (if lc_is_controller (lb_client s) \<noteq> 1 then
                 (let s1 = lash_project_name_changed_handler (msg_args m) s
                  in if lc_is_controller (lb_client s1) \<noteq> 0 then lash_control_signal_handler U member (msg_args m) s1 else s1)
               else lash_control_signal_handler U member (msg_args m) s)
            else s
        | _ \<Rightarrow> s))"

section \<open>Connecting\<close>

text \<open>The answer to \<open>Connect\<close>; \<open>None\<close> an error or no answer.\<close>

definition lash_dbus_service_connect_handler :: "uuid_lib \<Rightarrow> dval list option \<Rightarrow> lash_client_t \<Rightarrow> lash_client_t" where
  "lash_dbus_service_connect_handler U ret c =
     (case ret of
        None \<Rightarrow> c
      | Some args \<Rightarrow>
          (case method_iter_get_args ''ssssis'' args of
             Some ([DString id_str, DString client_name, DString project_name, DString data_path, DInt32 flags, DString wd], _) \<Rightarrow>
               (case uuid_parse U id_str of
                  None \<Rightarrow> c
                | Some u \<Rightarrow>
                    c\<lparr>lc_id := u, lc_name := name_or_null client_name, lc_project_name := name_or_null project_name,
                      lc_data_path := name_or_null data_path, lc_flags := flags,
                      lc_working_dir := (if lc_working_dir c = Some wd then lc_working_dir c else Some (lash_strdup (Some wd))),
                      lc_server_connected := True\<rparr>)
           | _ \<Rightarrow> c))"

text \<open>The arguments of \<open>Connect\<close>; a string that is missing cannot be appended.\<close>

definition connect_call :: "pid \<Rightarrow> lash_client_t \<Rightarrow> dval list option" where
  "connect_call x c =
     (case (lc_class c, lc_working_dir c) of
        (Some class, Some wd) \<Rightarrow>
          Some [DInt32 x, DString class, DInt32 (lc_flags c), DString wd, DArray ''s'' (map DString (lc_argv c))]
      | _ \<Rightarrow> None)"

text \<open>\<open>server\<close> is what the daemon answers to the arguments of the call; the library waits for it.\<close>

definition lash_dbus_service_connect ::
  "uuid_lib \<Rightarrow> pid \<Rightarrow> (dval list \<Rightarrow> dval list option) \<Rightarrow> lash_client_t \<Rightarrow> lash_client_t" where
  "lash_dbus_service_connect U x server c =
     (if lc_server_connected c then c
      else (case connect_call x c of
          None \<Rightarrow> c
        | Some args \<Rightarrow> lash_dbus_service_connect_handler U (server args) c))"

text \<open>
  What \<open>lash_client_open\<close> finds outside: the working directory (\<open>None\<close> for an error), environment
  variables, whether the bus can be reached, whether the name of the daemon has an owner,
  whether match rules and filter can be added.
\<close>

record open_env =
  oe_cwd :: cstr
  oe_getenv :: "string \<Rightarrow> cstr"
  oe_bus_ok :: bool
  oe_has_owner :: bool
  oe_match_ok :: bool
  oe_filter_ok :: bool

definition MAXPATHLEN :: nat where "MAXPATHLEN = 4096"

definition initial_dir :: "open_env \<Rightarrow> string" where
  "initial_dir Q =
     (case oe_cwd Q of
        Some wd \<Rightarrow> wd
      | None \<Rightarrow>
          (case (case oe_getenv Q ''PWD'' of Some d \<Rightarrow> Some d | None \<Rightarrow> oe_getenv Q ''HOME'') of
             None \<Rightarrow> ''''
           | Some d \<Rightarrow> if length d < MAXPATHLEN then d else ''''))"

definition lash_client_open ::
  "uuid_lib \<Rightarrow> open_env \<Rightarrow> pid \<Rightarrow> (dval list \<Rightarrow> dval list option) \<Rightarrow> cstr \<Rightarrow> u32 \<Rightarrow> string list \<Rightarrow> lash_client_t option" where
  "lash_client_open U Q x server class flags argv =
     (case class of
        None \<Rightarrow> None
      | Some cl \<Rightarrow>
          if cl = [] then None
          else if argv = [] \<or> hd argv = [] then None
          else if \<not> oe_bus_ok Q then None
          else
            (let c1 = lash_client_new\<lparr>lc_dbus_service := True, lc_argv := argv,
                        lc_working_dir := Some (lash_strdup (Some (initial_dir Q))), lc_flags := flags,
                        lc_class := Some (lash_strdup (Some cl))\<rparr>
             in if \<not> oe_has_owner Q \<and> oe_getenv Q ''LASH_NO_START_SERVER'' \<noteq> None then None
                else
                  (let c2 = lash_dbus_service_connect U x server c1;
                       c3 = (if lc_flags c2 AND LASH_Server_Interface \<noteq> 0
                             then c2\<lparr>lc_flags := lc_flags c2 XOR LASH_Server_Interface, lc_is_controller := 2\<rparr> else c2)
                   in if \<not> oe_match_ok Q then None
                      else if \<not> oe_filter_ok Q then None else Some c3)))"

definition lash_client_open_controller :: "open_env \<Rightarrow> lash_client_t option" where
  "lash_client_open_controller Q =
     (if \<not> oe_bus_ok Q then None
      else if \<not> oe_match_ok Q then None
      else if \<not> oe_filter_ok Q then None
      else Some (lash_client_new\<lparr>lc_dbus_service := True, lc_is_controller := 1\<rparr>))"

end
