(* ===== verification/LibApi.thy ===== *)
theory LibApi
  imports LibClient
begin

text \<open>
  What applications call (\<^verbatim>\<open>liblash/lash.c\<close>, \<^verbatim>\<open>args.c\<close>, \<^verbatim>\<open>protocol.c\<close>, the constructors of
  \<^verbatim>\<open>event.c\<close>): callbacks, requests to the daemon, the old interface's arguments, and its queue of
  events with the pointer the library keeps to the task event it handed out last.
\<close>

section \<open>Callbacks\<close>

definition lash_set_control_callback :: "bool \<Rightarrow> lib option \<Rightarrow> (lib option \<times> bool)" where
  "lash_set_control_callback given client =
     (case client of
        None \<Rightarrow> (None, False)
      | Some s \<Rightarrow> if \<not> given then (client, False) else (Some (upd (\<lambda>c. c\<lparr>cb_control := True\<rparr>) s), True))"

text \<open>The other callbacks need a connection; \<open>set\<close> stores the callback.\<close>

definition set_callback :: "('a \<Rightarrow> lash_client_t \<Rightarrow> lash_client_t) \<Rightarrow> 'a option \<Rightarrow> lib option \<Rightarrow> (lib option \<times> bool)" where
  "set_callback store callback client =
     (case (client, callback) of
        (Some s, Some f) \<Rightarrow>
          if \<not> lc_server_connected (lb_client s) then (client, False) else (Some (upd (store f) s), True)
      | _ \<Rightarrow> (client, False))"

definition lash_set_save_callback :: "bool option \<Rightarrow> lib option \<Rightarrow> (lib option \<times> bool)" where
  "lash_set_save_callback = set_callback (\<lambda>f c. c\<lparr>cb_save := Some f\<rparr>)"

definition lash_set_load_callback :: "bool option \<Rightarrow> lib option \<Rightarrow> (lib option \<times> bool)" where
  "lash_set_load_callback = set_callback (\<lambda>f c. c\<lparr>cb_load := Some f\<rparr>)"

definition lash_set_save_data_set_callback ::
  "((string \<times> char \<times> string) list \<times> bool) option \<Rightarrow> lib option \<Rightarrow> (lib option \<times> bool)" where
  "lash_set_save_data_set_callback = set_callback (\<lambda>f c. c\<lparr>cb_save_data_set := Some f\<rparr>)"

definition lash_set_load_data_set_callback :: "bool option \<Rightarrow> lib option \<Rightarrow> (lib option \<times> bool)" where
  "lash_set_load_data_set_callback = set_callback (\<lambda>f c. c\<lparr>cb_load_data_set := Some f\<rparr>)"

definition lash_set_quit_callback :: "bool option \<Rightarrow> lib option \<Rightarrow> (lib option \<times> bool)" where
  "lash_set_quit_callback = set_callback (\<lambda>f c. c\<lparr>cb_quit := Some f\<rparr>)"

definition lash_set_name_change_callback :: "bool option \<Rightarrow> lib option \<Rightarrow> (lib option \<times> bool)" where
  "lash_set_name_change_callback = set_callback (\<lambda>f c. c\<lparr>cb_name := Some f\<rparr>)"

definition lash_set_project_change_callback :: "bool option \<Rightarrow> lib option \<Rightarrow> (lib option \<times> bool)" where
  "lash_set_project_change_callback = set_callback (\<lambda>f c. c\<lparr>cb_proj := Some f\<rparr>)"

definition lash_set_path_change_callback :: "bool option \<Rightarrow> lib option \<Rightarrow> (lib option \<times> bool)" where
  "lash_set_path_change_callback = set_callback (\<lambda>f c. c\<lparr>cb_path := Some f\<rparr>)"

section \<open>Requests\<close>

definition lash_server_connected :: "lib option \<Rightarrow> bool" where
  "lash_server_connected client = (case client of None \<Rightarrow> False | Some s \<Rightarrow> lc_server_connected (lb_client s))"

definition lash_notify_progress :: "u8 \<Rightarrow> lib \<Rightarrow> lib" where
  "lash_notify_progress percentage s =
     (let c = lb_client s in
      if \<not> lc_dbus_service c \<or> lc_pending_task c = 0 \<or> percentage = 0 then s
      else out (Server_call ''Progress'' [DUint64 (lc_pending_task c), DByte (if percentage > 99 then 99 else percentage)]) s)"

definition lash_get_client_name :: "lib option \<Rightarrow> cstr" where
  "lash_get_client_name client =
     (case client of None \<Rightarrow> None | Some s \<Rightarrow> if lc_dbus_service (lb_client s) then lc_name (lb_client s) else None)"

definition lash_get_project_name :: "lib option \<Rightarrow> cstr" where
  "lash_get_project_name client =
     (case client of None \<Rightarrow> None | Some s \<Rightarrow> if lc_dbus_service (lb_client s) then lc_project_name (lb_client s) else None)"

definition lash_client_is_being_restored :: "lib option \<Rightarrow> bool" where
  "lash_client_is_being_restored client =
     (case client of None \<Rightarrow> False | Some s \<Rightarrow> lc_flags (lb_client s) AND LASH_Restored \<noteq> 0)"

text \<open>A call is sent when all arguments are there and the library is on the bus.\<close>

definition request :: "(dval list \<Rightarrow> lib_out) \<Rightarrow> cstr list \<Rightarrow> lib \<Rightarrow> lib" where
  "request call args s =
     (case those args of
        None \<Rightarrow> s
      | Some ss \<Rightarrow> if \<not> lc_dbus_service (lb_client s) then s else out (call (map DString ss)) s)"

definition lash_jack_client_name :: "cstr \<Rightarrow> lib \<Rightarrow> lib" where
  "lash_jack_client_name name s = (if name = Some [] then s else request (Server_call ''JackName'') [name] s)"

definition lash_alsa_client_id :: "u8 \<Rightarrow> lib \<Rightarrow> lib" where
  "lash_alsa_client_id i s =
     (if \<not> lc_dbus_service (lb_client s) then s else out (Server_call ''AlsaId'' [DByte i]) s)"

definition lash_control_load_project_path :: "cstr \<Rightarrow> lib \<Rightarrow> lib" where
  "lash_control_load_project_path p = request (Control_call ''LoadProjectPath'') [p]"

definition lash_control_name_project :: "cstr \<Rightarrow> cstr \<Rightarrow> lib \<Rightarrow> lib" where
  "lash_control_name_project n new_name = request (Control_call ''ProjectRename'') [n, new_name]"

definition lash_control_move_project :: "cstr \<Rightarrow> cstr \<Rightarrow> lib \<Rightarrow> lib" where
  "lash_control_move_project n new_path = request (Control_call ''ProjectMove'') [n, new_path]"

definition lash_control_save_project :: "cstr \<Rightarrow> lib \<Rightarrow> lib" where
  "lash_control_save_project n = request (Control_call ''ProjectSave'') [n]"

definition lash_control_close_project :: "cstr \<Rightarrow> lib \<Rightarrow> lib" where
  "lash_control_close_project n = request (Control_call ''ProjectClose'') [n]"

section \<open>Events sent to the library\<close>

text \<open>
  A query is sent with the address of a local structure, which is gone when the answer
  arrives; only the sending is modelled.
\<close>

definition lash_task_done :: "lib \<Rightarrow> lib" where
  "lash_task_done s =
     (if lc_pending_task (lb_client s) \<noteq> 0
      then end_task (out (Server_call ''Progress'' [DUint64 (lc_pending_task (lb_client s)), DByte 255]) s) else s)"

definition lash_save_data_set :: "lib \<Rightarrow> lib" where
  "lash_save_data_set s =
     (if lc_pending_task (lb_client s) = 0 then s
      else (let (task_id, es) = lc_unsent_configs (lb_client s)
            in end_task (out (Server_call ''CommitDataSet'' [DUint64 task_id, DArray ''{sv}'' es]) s)))"

definition run_ctor :: "event_ctor \<Rightarrow> lash_event \<Rightarrow> lib \<Rightarrow> lib" where
  "run_ctor ctor e s =
     (case ctor of
        Ctor_client_name \<Rightarrow> if ev_string e \<noteq> None then s else out (Server_call ''GetName'' []) s
      | Ctor_jack_client_name \<Rightarrow>
          if ev_string e \<noteq> None then lash_jack_client_name (ev_string e) s else out (Server_call ''GetJackName'' []) s
      | Ctor_alsa_client_id \<Rightarrow>
          (case ev_string e of
             Some str \<Rightarrow> lash_alsa_client_id (if str = [] then 0 else of_char (hd str)) s
           | None \<Rightarrow> out (Server_call ''GetAlsaId'' []) s)
      | Ctor_task_done \<Rightarrow> lash_task_done s
      | Ctor_save_data_set \<Rightarrow> lash_save_data_set s
      | Ctor_save \<Rightarrow> out (Server_call ''SaveProject'' []) s
      | Ctor_quit \<Rightarrow> out (Server_call ''CloseProject'' []) s)"

text \<open>An event that was freed cannot be looked at or freed again.\<close>

definition live_event :: "addr \<Rightarrow> lib \<Rightarrow> lash_event res" where
  "live_event a s = (case lb_events s a of None \<Rightarrow> Inl Dangling | Some e \<Rightarrow> Inr e)"

definition lash_event_destroy :: "addr \<Rightarrow> lib \<Rightarrow> lib res" where
  "lash_event_destroy a s = bindr (live_event a s) (\<lambda>_. Inr (s\<lparr>lb_events := (lb_events s)(a := None)\<rparr>))"

definition clear_pending :: "addr \<Rightarrow> lib \<Rightarrow> lib res" where
  "clear_pending a s =
     (case lb_pending s of
        None \<Rightarrow> Inr s
      | Some g \<Rightarrow> bindr (live_event g s) (\<lambda>eg. bindr (live_event a s) (\<lambda>e.
          Inr (if ev_type eg = ev_type e then s\<lparr>lb_pending := None\<rparr> else s))))"

definition lash_send_event :: "addr \<Rightarrow> lib \<Rightarrow> lib res" where
  "lash_send_event a s =
     bindr (clear_pending a s) (\<lambda>s1.
     bindr (live_event a s1) (\<lambda>e.
       lash_event_destroy a
         (if lc_server_connected (lb_client s1) then (case ev_ctor e of None \<Rightarrow> s1 | Some k \<Rightarrow> run_ctor k e s1) else s1)))"

text \<open>The application sends an event it has made itself.\<close>

definition new_event :: "lash_event \<Rightarrow> lib \<Rightarrow> lib \<times> addr" where
  "new_event e s = (s\<lparr>lb_events := (lb_events s)(lb_next s := Some e), lb_next := lb_next s + 1\<rparr>, lb_next s)"

definition lash_handle_pending_event :: "lib \<Rightarrow> lib res" where
  "lash_handle_pending_event s =
     (case lb_pending s of None \<Rightarrow> Inr s | Some g \<Rightarrow> bindr (live_event g s) (\<lambda>_. lash_send_event g s))"

text \<open>What one dispatch handles: \<open>None\<close> when nothing has arrived. The reply goes back by libdbus.\<close>

text \<open>The object the library serves, and what one dispatch does with a message.\<close>

definition lash_dbus_service_new :: "string option \<Rightarrow> lib handler object_path option res" where
  "lash_dbus_service_new new_path =
     object_path_new (Some ''/org/nongnu/LASH/Client'') [g_liblash_interface_client new_path]"

definition lash_dispatch_once :: "uuid_lib \<Rightarrow> string option \<Rightarrow> message option \<Rightarrow> lib \<Rightarrow> lib res" where
  "lash_dispatch_once U new_path m s =
     (case m of
        None \<Rightarrow> Inr s
      | Some msg \<Rightarrow>
          if msg_type msg = Message_signal then Inr (lash_dbus_signal_handler U msg s)
          else bindr (lash_dbus_service_new new_path) (\<lambda>p.
               case p of
                 None \<Rightarrow> Inr s
               | Some path \<Rightarrow> bindr (object_path_handler path msg s) (\<lambda>(s1, r). Inr s1)))"

fun lash_dispatch :: "uuid_lib \<Rightarrow> string option \<Rightarrow> message list \<Rightarrow> lib \<Rightarrow> lib res" where
  "lash_dispatch U new_path [] s = Inr s"
| "lash_dispatch U new_path (m # ms) s =
     bindr (lash_dispatch_once U new_path (Some m) s) (lash_dispatch U new_path ms)"

definition lash_get_pending_event_count :: "uuid_lib \<Rightarrow> string option \<Rightarrow> message list \<Rightarrow> lib \<Rightarrow> (lib \<times> u32) res" where
  "lash_get_pending_event_count U new_path ms s =
     (if \<not> lc_server_connected (lb_client s) then Inr (s, 0)
      else bindr (lash_handle_pending_event s) (\<lambda>s1.
           bindr (lash_dispatch U new_path ms s1) (\<lambda>s2. Inr (s2, lc_num_events_in (lb_client s2)))))"

definition lash_get_pending_config_count :: "uuid_lib \<Rightarrow> string option \<Rightarrow> message list \<Rightarrow> lib \<Rightarrow> (lib \<times> u32) res" where
  "lash_get_pending_config_count U new_path ms s =
     (if \<not> lc_server_connected (lb_client s) then Inr (s, 0)
      else bindr (lash_dispatch U new_path ms s) (\<lambda>s1. Inr (s1, lc_num_configs_in (lb_client s1))))"

definition is_task_type :: "event_type \<Rightarrow> bool" where
  "is_task_type ty \<longleftrightarrow> ty \<in> {LASH_Save_File, LASH_Restore_File, LASH_Save_Data_Set, LASH_Restore_Data_Set}"

definition take_event :: "lib \<Rightarrow> (lib \<times> addr option) res" where
  "take_event s =
     (case lc_events_in (lb_client s) of
        [] \<Rightarrow> Inr (s, None)
      | a # as \<Rightarrow>
          (let s1 = upd (\<lambda>c. c\<lparr>lc_events_in := as, lc_num_events_in := lc_num_events_in c - 1\<rparr>) s
           in bindr (live_event a s1) (\<lambda>e.
                Inr (if is_task_type (ev_type e) then s1\<lparr>lb_pending := Some a\<rparr> else s1, Some a))))"

definition lash_get_event :: "uuid_lib \<Rightarrow> string option \<Rightarrow> message option \<Rightarrow> lib \<Rightarrow> (lib \<times> addr option) res" where
  "lash_get_event U new_path m s =
     (if \<not> lc_server_connected (lb_client s) then Inr (s, None)
      else bindr (lash_handle_pending_event s) (\<lambda>s1.
           bindr (lash_dispatch_once U new_path m s1) take_event))"

definition lash_get_config :: "uuid_lib \<Rightarrow> string option \<Rightarrow> message option \<Rightarrow> lib \<Rightarrow> (lib \<times> lash_config option) res" where
  "lash_get_config U new_path m s =
     bindr (lash_dispatch_once U new_path m s) (\<lambda>s1.
       case lc_configs_in (lb_client s1) of
         [] \<Rightarrow> Inr (s1, None)
       | c # cs \<Rightarrow> Inr (upd (\<lambda>x. x\<lparr>lc_configs_in := cs, lc_num_configs_in := lc_num_configs_in x - 1\<rparr>) s1, Some c))"

text \<open>A configuration is appended, as raw bytes, to the message of the save in progress.\<close>

definition lash_send_config :: "lash_config \<Rightarrow> lib \<Rightarrow> lib" where
  "lash_send_config config s =
     (let (task_id, es) = lc_unsent_configs (lb_client s);
          h = fst (lash_config_write_raw \<lparr>h_entries = es, h_is_read = False\<rparr> (c_key config) (c_value config)
                (sint (ucast (c_value_size config) :: u32)))
      in upd (\<lambda>c. c\<lparr>lc_unsent_configs := (task_id, h_entries h)\<rparr>) s)"

end
