(* ===== verification/LibArgs.thy ===== *)
theory LibArgs
  imports LibApi
begin

text \<open>
  The old programming interface's arguments, start and protocol number
  (\<^verbatim>\<open>liblash/args.c\<close>, \<^verbatim>\<open>protocol.c\<close>, \<^verbatim>\<open>lash_extract_args\<close> and \<^verbatim>\<open>lash_init\<close> of \<^verbatim>\<open>lash.c\<close>). The argument
  vector is the array the program was started with: a \<open>None\<close> is a null pointer in it.
\<close>

unbundle bit_operations_syntax

section \<open>Argument structures\<close>

record lash_args =
  la_project :: cstr
  la_server :: cstr
  la_flags :: u32
  la_argc :: nat
  la_argv :: "string list"

definition lash_args_new :: lash_args where
  "lash_args_new = \<lparr>la_project = None, la_server = None, la_flags = 0, la_argc = 0, la_argv = []\<rparr>"

definition lash_args_set_flag :: "u32 \<Rightarrow> lash_args \<Rightarrow> lash_args" where
  "lash_args_set_flag flag args = args\<lparr>la_flags := la_flags args OR flag\<rparr>"

definition lash_args_set_args :: "cstr list \<Rightarrow> lash_args \<Rightarrow> lash_args" where
  "lash_args_set_args argv args = args\<lparr>la_argc := length argv, la_argv := map lash_strdup argv\<rparr>"

definition lash_args_dup :: "lash_args option \<Rightarrow> lash_args option" where
  "lash_args_dup src =
     (case src of
        None \<Rightarrow> None
      | Some a \<Rightarrow>
          (let r = lash_args_new
                 \<lparr>la_project := map_option (\<lambda>x. lash_strdup (Some x)) (la_project a),
                  la_server := map_option (\<lambda>x. lash_strdup (Some x)) (la_server a),
                  la_flags := la_flags a\<rparr>
           in Some (if 0 < la_argc a \<and> la_argv a \<noteq> [] then lash_args_set_args (map Some (la_argv a)) r else r)))"

section \<open>Taking the library's arguments out\<close>

definition to_lower :: "char \<Rightarrow> char" where
  "to_lower c = (let n = of_char c :: nat in if 65 \<le> n \<and> n \<le> 90 then char_of (n + 32) else c)"

text \<open>Whether the first \<open>n\<close> characters agree, up to the end of a string.\<close>

definition strncmp_eq :: "nat \<Rightarrow> string \<Rightarrow> string \<Rightarrow> bool" where
  "strncmp_eq n a b \<longleftrightarrow> take n a = take n b"

definition strncasecmp_eq :: "nat \<Rightarrow> string \<Rightarrow> string \<Rightarrow> bool" where
  "strncasecmp_eq n a b \<longleftrightarrow> map to_lower (take n a) = map to_lower (take n b)"

text \<open>The flag an argument of the library sets; \<open>None\<close> for an argument of the application.\<close>

definition lash_arg :: "string \<Rightarrow> u32 option" where
  "lash_arg a =
     (if strncasecmp_eq 14 ''--lash-server='' a then Some 0
      else if strncasecmp_eq 15 ''--lash-project='' a then Some 0
      else if strncmp_eq 10 ''--lash-id='' a then Some 0
      else if strncmp_eq 20 ''--lash-no-autoresume'' a then Some LASH_No_Autoresume
      else if strncmp_eq 22 ''--lash-no-start-server'' a then Some LASH_No_Start_Server
      else None)"

text \<open>The first loop sets the library's arguments to null.\<close>

function mark_args :: "nat \<Rightarrow> cstr list \<Rightarrow> lash_args \<Rightarrow> (cstr list \<times> lash_args) res" where
  "mark_args i argv args =
     (if i < length argv then
        (case argv ! i of
           None \<Rightarrow> Inl Null_deref
         | Some a \<Rightarrow>
             (case lash_arg a of
                Some flag \<Rightarrow> mark_args (i + 1) (argv[i := None]) (lash_args_set_flag flag args)
              | None \<Rightarrow> mark_args (i + 1) argv args))
      else Inr (argv, args))"
  by pat_completeness auto
termination by (relation "measure (\<lambda>(i, argv, args). length argv - i)") auto

text \<open>The second closes the gaps: every later pointer moves down by one, to the end of the array.\<close>

function shift_down :: "nat \<Rightarrow> cstr list \<Rightarrow> cstr list" where
  "shift_down j argv = (if j < length argv - 1 then shift_down (j + 1) (argv[j := argv ! (j + 1)]) else argv)"
  by pat_completeness auto
termination by (relation "measure (\<lambda>(j, argv). length argv - j)") auto

function close_gaps :: "nat \<Rightarrow> nat \<Rightarrow> cstr list \<Rightarrow> cstr list \<times> nat" where
  "close_gaps i valid_count argv =
     (if i < valid_count then
        (if argv ! i = None then close_gaps i (valid_count - 1) (shift_down i argv)
         else close_gaps (i + 1) valid_count argv)
      else (argv, valid_count))"
  by pat_completeness auto
termination by (relation "measure (\<lambda>(i, valid_count, argv). valid_count - i)") auto

declare mark_args.simps [simp del] shift_down.simps [simp del] close_gaps.simps [simp del]

text \<open>The array as it is left, the new count, and the arguments kept for \<open>lash_init\<close>.\<close>

definition lash_extract_args :: "cstr list \<Rightarrow> (cstr list \<times> nat \<times> lash_args) res" where
  "lash_extract_args argv =
     bindr (mark_args 1 argv lash_args_new) (\<lambda>(argv1, args).
       case close_gaps 1 (length argv1) argv1 of
         (argv2, argc) \<Rightarrow> Inr (argv2, argc, lash_args_set_args (take argc argv2) args))"

text \<open>The flags of the arguments are not looked at.\<close>

definition lash_init ::
  "uuid_lib \<Rightarrow> open_env \<Rightarrow> pid \<Rightarrow> (dval list \<Rightarrow> dval list option) \<Rightarrow> lash_args \<Rightarrow> cstr \<Rightarrow> u32 \<Rightarrow> lash_client_t option" where
  "lash_init U Q x server args class client_flags = lash_client_open U Q x server class client_flags (la_argv args)"

definition lash_get_server_name :: "lib option \<Rightarrow> cstr" where
  "lash_get_server_name client = (if lash_server_connected client then Some ''localhost'' else None)"

section \<open>Protocol numbers\<close>

definition LASH_PROTOCOL :: "u32 \<Rightarrow> u32 \<Rightarrow> u32" where
  "LASH_PROTOCOL major minor = (push_bit 16 major AND 0xFFFF0000) OR (minor AND 0x0000FFFF)"

definition LASH_PROTOCOL_GET_MAJOR :: "u32 \<Rightarrow> u32" where
  "LASH_PROTOCOL_GET_MAJOR protocol = drop_bit 16 (protocol AND 0xFFFF0000)"

definition LASH_PROTOCOL_GET_MINOR :: "u32 \<Rightarrow> u32" where
  "LASH_PROTOCOL_GET_MINOR protocol = protocol AND 0x0000FFFF"

definition LASH_PROTOCOL_IS_VALID :: "u32 \<Rightarrow> bool" where
  "LASH_PROTOCOL_IS_VALID proto \<longleftrightarrow> LASH_PROTOCOL_GET_MAJOR proto = 2 \<and> LASH_PROTOCOL_GET_MINOR proto \<le> 0"

definition lash_protocol_string :: "u32 \<Rightarrow> string res" where
  "lash_protocol_string protocol =
     sprintf_into 32 (show_nat (unat (LASH_PROTOCOL_GET_MAJOR protocol)) @ ''.'' @ show_nat (unat (LASH_PROTOCOL_GET_MINOR protocol)))"

section \<open>The application's arguments are what remains\<close>

lemma shift_down_eq:
  "j < length argv \<Longrightarrow> shift_down j argv = take j argv @ drop (j + 1) argv @ [last argv]"
proof (induction j argv rule: shift_down.induct)
  case (1 j argv)
  show ?case
  proof (cases "j < length argv - 1")
    case True
    have "shift_down j argv = shift_down (j + 1) (argv[j := argv ! (j + 1)])"
      using True by (subst shift_down.simps) simp
    also have "\<dots> = take (j + 1) (argv[j := argv ! (j + 1)]) @ drop (j + 2) (argv[j := argv ! (j + 1)])
        @ [last (argv[j := argv ! (j + 1)])]"
      using 1 True by simp
    also have "\<dots> = take j argv @ [argv ! (j + 1)] @ drop (j + 2) argv @ [last argv]"
      using True by (cases argv rule: rev_cases) (simp_all add: take_Suc_conv_app_nth list_update_append nth_append)
    finally have "shift_down j argv = take j argv @ [argv ! (j + 1)] @ drop (j + 2) argv @ [last argv]" .
    moreover have "[argv ! (j + 1)] @ drop (j + 2) argv = drop (j + 1) argv"
      using True by (simp add: Cons_nth_drop_Suc)
    ultimately show ?thesis by simp
  next
    case False
    then have "Suc j = length argv" using 1 by simp
    then show ?thesis using False
      by (subst shift_down.simps) (cases argv rule: rev_cases; simp)
  qed
qed

lemma length_shift_down: "length (shift_down j argv) = length argv"
  by (induction j argv rule: shift_down.induct) (subst shift_down.simps, simp)

definition kept :: "cstr list \<Rightarrow> cstr list" where
  "kept xs = filter (\<lambda>x. x \<noteq> None) xs"

lemma close_gaps_eq:
  "i \<le> v \<Longrightarrow> v \<le> length argv \<Longrightarrow>
   take (snd (close_gaps i v argv)) (fst (close_gaps i v argv)) = take i argv @ kept (take (v - i) (drop i argv))
   \<and> snd (close_gaps i v argv) \<le> length (fst (close_gaps i v argv))
   \<and> snd (close_gaps i v argv) = i + length (kept (take (v - i) (drop i argv)))"
proof (induction i v argv rule: close_gaps.induct)
  case (1 i v argv)
  consider "\<not> i < v" | "i < v" "argv ! i = None" | "i < v" "argv ! i \<noteq> None" by auto
  then show ?case
  proof cases
    case 1
    then show ?thesis using \<open>i \<le> v\<close> \<open>v \<le> length argv\<close> by (subst (1 2 3 4 5) close_gaps.simps) (simp add: kept_def)
  next
    case 2
    have i: "i < length argv" using 2 1 by simp
    have s: "shift_down i argv = take i argv @ drop (Suc i) argv @ [last argv]" using shift_down_eq [OF i] by simp
    have d: "drop i argv = None # drop (Suc i) argv" using Cons_nth_drop_Suc [OF i] 2 by simp
    have "take (v - i) (drop i argv) = None # take (v - 1 - i) (drop (Suc i) argv)" using 2 d by (simp add: take_Cons' diff_commute)
    moreover have "take (v - 1 - i) (drop i (shift_down i argv)) = take (v - 1 - i) (drop (Suc i) argv)"
      using i 1(4) 2 by (simp add: s)
    moreover have "take i (shift_down i argv) = take i argv" using i by (simp add: s)
    moreover have "close_gaps i v argv = close_gaps i (v - 1) (shift_down i argv)" using 2 by (subst close_gaps.simps) simp
    moreover have "v - 1 \<le> length (shift_down i argv)" using 1(4) by (simp add: length_shift_down)
    moreover have "i \<le> v - 1" using 2 by simp
    ultimately show ?thesis using 1(1) [OF 2] by (auto simp: kept_def)
  next
    case 3
    have i: "i < length argv" using 3 1 by simp
    have "take (v - i) (drop i argv) = argv ! i # take (v - (i + 1)) (drop (i + 1) argv)"
      using 3 Cons_nth_drop_Suc [OF i, symmetric] by (simp add: take_Cons' diff_commute)
    moreover have "close_gaps i v argv = close_gaps (i + 1) v argv" using 3 by (subst close_gaps.simps) auto
    ultimately show ?thesis using 1(2) [OF 3] 1(3,4) 3 by (auto simp: kept_def take_Suc_conv_app_nth [OF i])
  qed
qed

definition application_args :: "string list \<Rightarrow> string list" where
  "application_args as = filter (\<lambda>a. lash_arg a = None) as"

definition args_flags :: "string list \<Rightarrow> u32 \<Rightarrow> u32" where
  "args_flags as f = fold (\<lambda>a f. case lash_arg a of None \<Rightarrow> f | Some g \<Rightarrow> f OR g) as f"

lemma mark_args_eq:
  "mark_args (length xs) (xs @ map Some as) args =
     Inr (xs @ map (\<lambda>a. if lash_arg a = None then Some a else None) as, args\<lparr>la_flags := args_flags as (la_flags args)\<rparr>)"
proof (induction as arbitrary: xs args)
  case Nil
  show ?case by (subst mark_args.simps) (simp add: args_flags_def)
next
  case (Cons a as)
  show ?case
  proof (cases "lash_arg a")
    case None
    then show ?thesis using Cons.IH [of "xs @ [Some a]" args]
      by (subst mark_args.simps) (simp add: args_flags_def)
  next
    case (Some g)
    then show ?thesis using Cons.IH [of "xs @ [None]" "lash_args_set_flag g args"]
      by (subst mark_args.simps) (simp add: args_flags_def lash_args_set_flag_def list_update_append)
  qed
qed

lemma kept_marks: "kept (map (\<lambda>a. if lash_arg a = None then Some a else None) as) = map Some (application_args as)"
  by (induction as) (simp_all add: kept_def application_args_def)

lemma map_lash_strdup [simp]: "map (lash_strdup \<circ> Some) xs = xs"
  by (induction xs) (simp_all add: lash_strdup_def)


lemma extract_flag: "lash_arg ''--lash-no-autoresume'' = Some LASH_No_Autoresume"
  by (simp add: lash_arg_def strncasecmp_eq_def strncmp_eq_def to_lower_def Let_def)

text \<open>Whatever the command line asked for, the flags the daemon gets are those of the call.\<close>

lemma lash_init_drops_flags: "lash_init U Q x server (args\<lparr>la_flags := f\<rparr>) cls flags = lash_init U Q x server args cls flags"
  by (simp add: lash_init_def)

lemma protocol_masks: "(0xFFFF :: u32) = mask 16" "(0xFFFF0000 :: u32) = push_bit 16 (mask 16)"
  by (simp_all add: mask_eq_exp_minus_1 push_bit_eq_mult)

lemma protocol_numbers:
  assumes "unat major < 2 ^ 16" "unat minor < 2 ^ 16"
  shows "LASH_PROTOCOL_GET_MAJOR (LASH_PROTOCOL major minor) = major"
    and "LASH_PROTOCOL_GET_MINOR (LASH_PROTOCOL major minor) = minor"
proof -
  have t: "take_bit 16 major = major" "take_bit 16 minor = minor"
    using assms by (metis take_bit_nat_eq_self_iff unsigned_take_bit_eq unsigned_word_eqI)+
  have b: "bit major n \<Longrightarrow> n < 16" "bit minor n \<Longrightarrow> n < 16" for n
    using t by (metis bit_take_bit_iff)+
  show "LASH_PROTOCOL_GET_MAJOR (LASH_PROTOCOL major minor) = major"
    unfolding LASH_PROTOCOL_GET_MAJOR_def LASH_PROTOCOL_def protocol_masks
    by (rule bit_word_eqI) (use b in \<open>auto simp: bit_simps\<close>)
  show "LASH_PROTOCOL_GET_MINOR (LASH_PROTOCOL major minor) = minor"
    unfolding LASH_PROTOCOL_GET_MINOR_def LASH_PROTOCOL_def protocol_masks
    by (rule bit_word_eqI) (use b in \<open>auto simp: bit_simps\<close>)
qed

end
