(* ===== verification/LibQueue.thy ===== *)
theory LibQueue
  imports LibArgs
begin

text \<open>
  The old interface's queue of events under every behaviour of the daemon and of an application
  that keeps to the protocol: it sends or destroys only events it was handed or has made, does not
  destroy the task event it was handed last, and forgets that one when it asks for the next.
\<close>

section \<open>The invariant\<close>

text \<open>\<open>outside\<close> holds the events that are not in the queue and not freed.\<close>

definition queue_ok :: "addr set \<Rightarrow> lib \<Rightarrow> bool" where
  "queue_ok outside s \<longleftrightarrow>
     (let c = lb_client s in
      distinct (lc_events_in c) \<and> set (lc_events_in c) \<subseteq> dom (lb_events s) \<and> outside \<subseteq> dom (lb_events s)
      \<and> outside \<inter> set (lc_events_in c) = {} \<and> dom (lb_events s) \<subseteq> {..<lb_next s}
      \<and> lc_num_events_in c = of_nat (length (lc_events_in c))
      \<and> lc_num_configs_in c = of_nat (length (lc_configs_in c))
      \<and> set_option (lb_pending s) \<subseteq> outside)"

named_theorems keeps_queue

lemma queue_ok_out [simp]: "queue_ok outs (out x s) = queue_ok outs s"
  by (simp add: queue_ok_def out_def)

lemma out_sels [simp]: "lb_client (out x s) = lb_client s"
  by (simp add: out_def)

lemma queue_ok_upd:
  "lc_events_in (f (lb_client s)) = lc_events_in (lb_client s) \<Longrightarrow>
   lc_num_events_in (f (lb_client s)) = lc_num_events_in (lb_client s) \<Longrightarrow>
   lc_configs_in (f (lb_client s)) = lc_configs_in (lb_client s) \<Longrightarrow>
   lc_num_configs_in (f (lb_client s)) = lc_num_configs_in (lb_client s) \<Longrightarrow>
   queue_ok outs (upd f s) = queue_ok outs s"
  by (simp add: queue_ok_def upd_def Let_def)

lemma queue_ok_add_event [keeps_queue]:
  "queue_ok outs s \<Longrightarrow> queue_ok outs (lash_client_add_event e s)"
  by (cases e) (force simp: queue_ok_def lash_client_add_event_def upd_def Let_def)+

lemma queue_ok_add_config [keeps_queue]:
  "queue_ok outs s \<Longrightarrow> queue_ok outs (lash_client_add_config c s)"
  by (auto simp: queue_ok_def lash_client_add_config_def upd_def Let_def)

lemma queue_ok_tasks [simp]:
  "queue_ok outs (start_task t s) = queue_ok outs s" "queue_ok outs (end_task s) = queue_ok outs s"
  "queue_ok outs (report_success_or_failure b s) = queue_ok outs s"
  by (simp_all add: start_task_def end_task_def report_success_or_failure_def queue_ok_upd)

lemma queue_ok_new_tasks [keeps_queue]:
  "queue_ok outs s \<Longrightarrow> queue_ok outs (lash_new_save_task t s)"
  "queue_ok outs s \<Longrightarrow> queue_ok outs (lash_new_save_data_set_task t s)"
  "queue_ok outs s \<Longrightarrow> queue_ok outs (lash_new_quit_task s)"
  by (auto simp: lash_new_save_task_def lash_new_save_data_set_task_def lash_new_quit_task_def Let_def queue_ok_upd
      intro!: queue_ok_add_event split: option.split prod.split)

section \<open>Messages\<close>

text \<open>A double has eight bytes, and a method call names a method.\<close>

fun sized :: "dval \<Rightarrow> bool" where
  "sized (DDouble b) = (length b = 8)"
| "sized (DVariant v) = sized v"
| "sized (DArray _ vs) = (\<forall>v \<in> set vs. sized v)"
| "sized (DStruct vs) = (\<forall>v \<in> set vs. sized v)"
| "sized (DEntry k v) = (sized k \<and> sized v)"
| "sized _ = True"

definition good_message :: "message \<Rightarrow> bool" where
  "good_message m \<longleftrightarrow> (msg_type m = Message_method_call \<longrightarrow> msg_member m \<noteq> None) \<and> (\<forall>v \<in> set (msg_args m). sized v)"

lemma sized_entry:
  "sized e \<Longrightarrow> method_iter_get_dict_entry (Some e) = Some (key, CHR ''d'', v) \<Longrightarrow> length v = 8"
  by (auto simp: method_iter_get_dict_entry_def split: dval.split_asm if_split_asm)

lemma length_xdr_double: "length v = 8 \<Longrightarrow> length (xdr_double v) = 8"
  by (simp add: xdr_double_def)

lemma read_config_size:
  assumes "lash_config_read h = (h1, ret, Some (key, ty, v))" "0 < ret" "\<forall>e \<in> set (h_entries h). sized e"
  shows "ty = CHR ''d'' \<Longrightarrow> length v = 8" "ty = CHR ''-'' \<Longrightarrow> ret = int (length v)"
    "ty \<in> {CHR ''d'', CHR ''u'', CHR ''s'', CHR ''-''}" "set (h_entries h1) \<subseteq> set (h_entries h)"
  using assms
  by (auto simp: lash_config_read_def Let_def dest: sized_entry intro!: length_xdr_double
      split: if_split_asm list.split_asm option.split_asm)

lemma set_value_total:
  assumes "unat n \<le> length b"
  shows "\<exists>c'. lash_config_set_value (Some b) n (Some c) = Inr (Some c')"
  using assms by (auto simp: lash_config_set_value_def copy_bytes_def)

lemma unat_le: "unat (word_of_nat n :: u64) \<le> n"
  by (simp add: unsigned_of_nat take_bit_eq_mod)

lemma queued_value:
  assumes "lash_config_read h = (h1, ret, Some (key, ty, v))" "0 < ret" "\<forall>e \<in> set (h_entries h). sized e"
  shows "\<exists>c'. (if ty = CHR ''d'' then lash_config_set_value_double v (Some c)
           else if ty = CHR ''u'' then lash_config_set_value_int (bytes_u32 v) (Some c)
           else if ty = CHR ''s'' then lash_config_set_value_string (Some v) (Some c)
           else lash_config_set_value (Some v) (word_of_int ret) (Some c)) = Inr (Some c')"
proof -
  note r = read_config_size [OF assms]
  consider "ty = CHR ''d''" | "ty = CHR ''u''" | "ty = CHR ''s''" | "ty = CHR ''-''" using r(3) by blast
  then show ?thesis
  proof cases
    case 1
    then show ?thesis using r(1) by (simp add: lash_config_set_value_double_def set_value_total)
  next
    case 2
    then show ?thesis by (simp add: lash_config_set_value_int_def set_value_total u32_bytes_def)
  next
    case 3
    then show ?thesis
      using set_value_total [of "word_of_nat (length v + 1)" "v @ [CHR 0x00]" c] unat_le [of "length v + 1"]
      by (simp add: lash_config_set_value_string_def)
  next
    case 4
    then show ?thesis using r(2) set_value_total [of "word_of_int ret" v c] unat_le [of "length v"] by simp
  qed
qed

lemma queue_configs_safe:
  "queue_ok outs s \<Longrightarrow> \<forall>e \<in> set (h_entries h). sized e \<Longrightarrow>
   \<exists>s' r. queue_configs h s = Inr (s', r) \<and> queue_ok outs s'"
proof (induction h s rule: queue_configs.induct)
  case (1 h s)
  obtain h1 ret c where read: "lash_config_read h = (h1, ret, c)" by (cases "lash_config_read h")
  show ?case
  proof (cases "0 < ret \<and> c \<noteq> None")
    case True
    then obtain key ty v where c: "c = Some (key, ty, v)" by (cases c) auto
    note r = read [unfolded c]
    obtain c' where v: "(if ty = CHR ''d'' then lash_config_set_value_double v (Some (lash_config_new_with_key (Some key)))
           else if ty = CHR ''u'' then lash_config_set_value_int (bytes_u32 v) (Some (lash_config_new_with_key (Some key)))
           else if ty = CHR ''s'' then lash_config_set_value_string (Some v) (Some (lash_config_new_with_key (Some key)))
           else lash_config_set_value (Some v) (word_of_int ret) (Some (lash_config_new_with_key (Some key)))) = Inr (Some c')"
      using queued_value [OF r, of "lash_config_new_with_key (Some key)"] True 1(3) by blast
    have "\<exists>s' r. queue_configs h1 (lash_client_add_config c' s) = Inr (s', r) \<and> queue_ok outs s'"
      using 1(1) [OF read [symmetric] refl _ _ c refl refl refl v] True 1(2,3) read_config_size(4) [OF r]
        queue_ok_add_config [OF 1(2)] by (auto simp: subset_iff)
    then show ?thesis using True v by (subst queue_configs.simps) (simp add: read c Let_def)
  next
    case False
    then show ?thesis using 1(2) by (subst queue_configs.simps) (auto simp: read not_less split: option.split)
  qed
qed


text \<open>Reading the configurations of a data set keeps the queue, whatever the message.\<close>

lemma queue_configs_keeps: "queue_ok outs s \<Longrightarrow> queue_configs h s = Inr (s', r) \<Longrightarrow> queue_ok outs s'"
proof (induction h s arbitrary: s' r rule: queue_configs.induct)
  case (1 h s)
  obtain h1 ret c where read: "lash_config_read h = (h1, ret, c)" by (cases "lash_config_read h")
  show ?case
  proof (cases "0 < ret \<and> c \<noteq> None")
    case True
    then obtain key ty v where c: "c = Some (key, ty, v)" by (cases c) auto
    obtain cfg where v: "(if ty = CHR ''d'' then lash_config_set_value_double v (Some (lash_config_new_with_key (Some key)))
           else if ty = CHR ''u'' then lash_config_set_value_int (bytes_u32 v) (Some (lash_config_new_with_key (Some key)))
           else if ty = CHR ''s'' then lash_config_set_value_string (Some v) (Some (lash_config_new_with_key (Some key)))
           else lash_config_set_value (Some v) (word_of_int ret) (Some (lash_config_new_with_key (Some key)))) = Inr cfg"
      and rest: "queue_configs h1 (case cfg of None \<Rightarrow> s | Some x \<Rightarrow> lash_client_add_config x s) = Inr (s', r)"
      using 1(3) True by (subst (asm) queue_configs.simps) (auto simp: read c Let_def bindr_Inr_iff)
    have "queue_ok outs (case cfg of None \<Rightarrow> s | Some x \<Rightarrow> lash_client_add_config x s)"
      using 1(2) by (auto intro: queue_ok_add_config split: option.split)
    then show ?thesis using 1(1) [OF read [symmetric] refl _ _ c refl refl refl v _ rest] True by simp
  next
    case False
    then show ?thesis using 1(2,3)
      by (subst (asm) queue_configs.simps) (auto simp: read not_less split: option.split_asm if_split_asm)
  qed
qed

section \<open>The library's object\<close>

definition answers :: "addr set \<Rightarrow> lib handler \<Rightarrow> bool" where
  "answers outs f \<longleftrightarrow>
     (\<forall>m s. queue_ok outs s \<longrightarrow> (\<forall>s' r. f m s = Inr (s', r) \<longrightarrow> queue_ok outs s')
        \<and> ((\<forall>v \<in> set (msg_args m). sized v) \<longrightarrow> (\<exists>y. f m s = Inr y)))"

lemma answersI:
  assumes "\<And>m s. queue_ok outs s \<Longrightarrow> \<exists>s' r. f m s = Inr (s', r) \<and> queue_ok outs s'"
  shows "answers outs f"
  unfolding answers_def
proof (intro allI impI)
  fix m s
  assume "queue_ok outs s"
  then obtain s' r where "f m s = Inr (s', r)" "queue_ok outs s'" using assms by blast
  then show "(\<forall>s' r. f m s = Inr (s', r) \<longrightarrow> queue_ok outs s') \<and> ((\<forall>v \<in> set (msg_args m). sized v) \<longrightarrow> (\<exists>y. f m s = Inr y))"
    by simp
qed

lemma get_task_id_rest: "get_task_id m s = Inr (t, rest) \<Longrightarrow> set rest \<subseteq> set (msg_args m)"
  by (auto simp: get_task_id_def split: list.split_asm dval.split_asm if_split_asm)

lemma answers_load_data_set: "answers outs lash_dbus_load_data_set"
proof -
  have shape: "(\<exists>s' r. lash_dbus_load_data_set m s = Inr (s', r) \<and> queue_ok outs s') \<or>
      (\<exists>es s1. queue_ok outs s1 \<and> lash_dbus_load_data_set m s = queue_configs \<lparr>h_entries = es, h_is_read = True\<rparr> s1
         \<and> ((\<forall>v \<in> set (msg_args m). sized v) \<longrightarrow> (\<forall>e \<in> set es. sized e)))"
    if q: "queue_ok outs s" for m s
  proof (cases "get_task_id m s")
    case (Inr tr)
    then obtain t rest where tr: "get_task_id m s = Inr (t, rest)" by (cases tr) auto
    show ?thesis
    proof (cases "\<exists>sg es more. rest = DArray sg es # more")
      case True
      then obtain sg es more where r: "rest = DArray sg es # more" by blast
      then have "(\<forall>v \<in> set (msg_args m). sized v) \<longrightarrow> (\<forall>e \<in> set es. sized e)"
        using get_task_id_rest [OF tr] by force
      moreover have "queue_ok outs (lash_client_add_event e (start_task t s))" for e
        using q by (intro queue_ok_add_event) simp
      moreover have "(\<exists>s' r. lash_dbus_load_data_set m s = Inr (s', r) \<and> queue_ok outs s')
          \<or> lash_dbus_load_data_set m s = queue_configs \<lparr>h_entries = es, h_is_read = True\<rparr>
              (lash_client_add_event (lash_event_new_with_type LASH_Restore_Data_Set) (start_task t s))"
        using q tr r by (cases "cb_load_data_set (lb_client (start_task t s))")
          (auto simp: lash_dbus_load_data_set_def Let_def)
      ultimately show ?thesis by blast
    qed (use q tr in \<open>auto simp: lash_dbus_load_data_set_def split: list.split dval.split\<close>)
  qed (use q in \<open>simp add: lash_dbus_load_data_set_def\<close>)
  show ?thesis
    unfolding answers_def
  proof (intro allI impI conjI)
    fix m s s' r
    assume q: "queue_ok outs s"
    show "queue_ok outs s'" if "lash_dbus_load_data_set m s = Inr (s', r)"
      using shape [OF q, of m]
    proof (elim disjE exE conjE)
      fix s2 r2
      assume "lash_dbus_load_data_set m s = Inr (s2, r2)" "queue_ok outs s2"
      then show ?thesis using that by simp
    next
      fix es s1
      assume "queue_ok outs s1" "lash_dbus_load_data_set m s = queue_configs \<lparr>h_entries = es, h_is_read = True\<rparr> s1"
      then show ?thesis using that by (metis queue_configs_keeps)
    qed
    show "\<exists>y. lash_dbus_load_data_set m s = Inr y" if "\<forall>v \<in> set (msg_args m). sized v"
      using shape [OF q, of m]
    proof (elim disjE exE conjE)
      fix es s1
      assume "queue_ok outs s1" "(\<forall>v \<in> set (msg_args m). sized v) \<longrightarrow> (\<forall>e \<in> set es. sized e)"
        "lash_dbus_load_data_set m s = queue_configs \<lparr>h_entries = es, h_is_read = True\<rparr> s1"
      then show ?thesis using that queue_configs_safe [of outs s1 "\<lparr>h_entries = es, h_is_read = True\<rparr>"] by auto
    qed simp
  qed
qed

lemma answers_methods:
  "answers outs lash_dbus_save" "answers outs lash_dbus_load" "answers outs lash_dbus_quit"
  "answers outs lash_dbus_try_save" "answers outs (lash_dbus_try_path_change p)"
  "answers outs lash_dbus_client_name_changed"
proof -
  show "answers outs lash_dbus_save" 
    by (rule answersI) (auto simp: lash_dbus_save_def intro!: keeps_queue split: sum.split)
  show "answers outs lash_dbus_load"
    by (rule answersI)
      (auto simp: lash_dbus_load_def Let_def queue_ok_upd intro!: keeps_queue split: sum.split list.split dval.split option.split)
  show "answers outs lash_dbus_quit"
    by (rule answersI) (auto simp: lash_dbus_quit_def intro!: keeps_queue)
  show "answers outs lash_dbus_try_save"
    by (rule answersI) (auto simp: lash_dbus_try_save_def split: option.split bool.split)
  show "answers outs (lash_dbus_try_path_change p)"
    by (rule answersI)
      (auto simp: lash_dbus_try_path_change_def lash_dbus_path_change_handler_def queue_ok_upd split: option.split bool.split)
  show "answers outs lash_dbus_client_name_changed"
    by (rule answersI)
      (auto simp: lash_dbus_client_name_changed_def Let_def queue_ok_upd split: option.split list.split dval.split)
qed

definition liblash_path :: "string option \<Rightarrow> lib handler object_path" where
  "liblash_path new_path = (case lash_dbus_service_new new_path of Inr (Some path) \<Rightarrow> path
     | _ \<Rightarrow> \<lparr>op_name = '''', op_interfaces = [], op_introspection = ''''\<rparr>)"

lemma liblash_object_created:
  "\<exists>doc. lash_dbus_service_new new_path = Inr (Some \<lparr>op_name = ''/org/nongnu/LASH/Client'',
       op_interfaces = [g_dbus_interface_dtor_introspectable, g_liblash_interface_client new_path], op_introspection = doc\<rparr>)"
proof -
  let ?i = "g_dbus_interface_dtor_introspectable :: lib handler interface"
  let ?c = "g_liblash_interface_client new_path"
  have "length (interface_xml ?i) \<le> 300"
    using length_interface_xml [of ?i]
    by (simp add: g_dbus_interface_dtor_introspectable_def signals_length_def methods_length_def args_length_def)
  moreover have "length (interface_xml ?c) \<le> 3000"
    using length_interface_xml [of ?c]
    by (simp add: g_liblash_interface_client_def liblash_methods_def signals_length_def methods_length_def args_length_def)
  ultimately show ?thesis
    by (simp add: lash_dbus_service_new_def object_path_new_def introspection_new_def sprintf_into_def Dbus.quoted_def Let_def)
qed

interpretation liblash: answering_object "liblash_path new_path" "queue_ok outs" "\<lambda>m. \<forall>v \<in> set (msg_args m). sized v"
proof -
  have a: "answers outs f"
    if "i \<in> set (op_interfaces (liblash_path new_path))" "m \<in> set (i_methods i)" "m_handler m = Some f" for i m f
    using that liblash_object_created [of new_path] answers_methods answers_load_data_set
    by (auto simp: liblash_path_def g_dbus_interface_dtor_introspectable_def g_liblash_interface_client_def liblash_methods_def)
  show "answering_object (liblash_path new_path) (queue_ok outs) (\<lambda>m. \<forall>v \<in> set (msg_args m). sized v)"
    by unfold_locales (use a in \<open>unfold answers_def, blast\<close>)+
qed


section \<open>Dispatching\<close>

lemma queue_ok_server_signal [keeps_queue]:
  assumes "queue_ok outs s"
  shows "queue_ok outs (lash_server_signal_handler member as s)"
proof -
  note keep = queue_ok_new_tasks [OF assms]
  show ?thesis
    by (simp add: lash_server_signal_handler_def Let_def keep assms split: option.split list.split dval.split prod.split)
qed

lemma queue_ok_project_name [keeps_queue]:
  "queue_ok outs s \<Longrightarrow> queue_ok outs (lash_project_name_changed_handler as s)"
  by (simp add: lash_project_name_changed_handler_def Let_def queue_ok_upd split: option.split list.split dval.split prod.split)

lemma queue_ok_control_signal [keeps_queue]:
  "queue_ok outs s \<Longrightarrow> queue_ok outs (lash_control_signal_handler U member as s)"
  by (simp add: lash_control_signal_handler_def split: option.split prod.split)

lemma queue_ok_signal [keeps_queue]:
  "queue_ok outs s \<Longrightarrow> queue_ok outs (lash_dbus_signal_handler U m s)"
  by (simp add: lash_dbus_signal_handler_def Let_def keeps_queue split: option.split)

lemma dispatch_once_safe:
  assumes "queue_ok outs s" "\<forall>msg. m = Some msg \<longrightarrow> good_message msg"
  shows "\<exists>s'. lash_dispatch_once U p m s = Inr s' \<and> queue_ok outs s'"
proof (cases m)
  case (Some msg)
  show ?thesis
  proof (cases "msg_type msg = Message_signal")
    case False
    obtain path where path: "lash_dbus_service_new p = Inr (Some path)" using liblash_object_created [of p] by blast
    then have "liblash_path p = path" by (simp add: liblash_path_def)
    then obtain s' r where "object_path_handler path msg s = Inr (s', r)" "queue_ok outs s'"
      using liblash.handler_returns [OF assms(1), of msg p] assms(2) Some by (auto simp: good_message_def)
    then show ?thesis using False path Some by (simp add: lash_dispatch_once_def)
  qed (use assms Some in \<open>simp add: lash_dispatch_once_def queue_ok_signal\<close>)
qed (use assms in \<open>simp add: lash_dispatch_once_def\<close>)

lemma dispatch_safe:
  "queue_ok outs s \<Longrightarrow> \<forall>m \<in> set ms. good_message m \<Longrightarrow> \<exists>s'. lash_dispatch U p ms s = Inr s' \<and> queue_ok outs s'"
proof (induction ms arbitrary: s)
  case (Cons m ms)
  obtain s1 where "lash_dispatch_once U p (Some m) s = Inr s1" "queue_ok outs s1"
    using dispatch_once_safe [OF Cons.prems(1), of "Some m" U p] Cons.prems(2) by auto
  then show ?case using Cons by simp
qed simp

section \<open>Sending events back\<close>

lemma run_ctor_queue [simp]:
  "queue_ok outs (run_ctor k e s) = queue_ok outs s"
  by (auto simp: run_ctor_def lash_task_done_def lash_save_data_set_def lash_jack_client_name_def request_def
      lash_alsa_client_id_def split: event_ctor.split option.split prod.split)

lemma run_ctor_fields [simp]:
  "lb_events (run_ctor k e s) = lb_events s" "lb_pending (run_ctor k e s) = lb_pending s"
  by (auto simp: run_ctor_def lash_task_done_def lash_save_data_set_def lash_jack_client_name_def request_def
      lash_alsa_client_id_def out_def end_task_def upd_def split: event_ctor.split option.split prod.split)

lemma queue_ok_live: "queue_ok outs s \<Longrightarrow> a \<in> outs \<Longrightarrow> \<exists>e. lb_events s a = Some e"
  by (auto simp: queue_ok_def Let_def)

text \<open>An event outside can be freed when the library no longer remembers it.\<close>

lemma queue_ok_free:
  "queue_ok outs s \<Longrightarrow> a \<in> outs \<Longrightarrow> lb_pending s \<noteq> Some a \<Longrightarrow>
   queue_ok (outs - {a}) (s\<lparr>lb_events := (lb_events s)(a := None)\<rparr>)"
  by (auto simp: queue_ok_def Let_def)

lemma queue_ok_forget: "queue_ok outs s \<Longrightarrow> queue_ok outs (s\<lparr>lb_pending := None\<rparr>)"
  by (auto simp: queue_ok_def Let_def)

lemma send_safe:
  assumes "queue_ok outs s" "a \<in> outs"
  shows "\<exists>s'. lash_send_event a s = Inr s' \<and> queue_ok (outs - {a}) s'"
proof -
  obtain e where e: "lb_events s a = Some e" using queue_ok_live [OF assms] by blast
  have "\<exists>s1. clear_pending a s = Inr s1 \<and> queue_ok outs s1 \<and> lb_pending s1 \<noteq> Some a \<and> lb_events s1 = lb_events s"
  proof (cases "lb_pending s")
    case (Some g)
    then have "g \<in> outs" using assms(1) by (auto simp: queue_ok_def Let_def)
    then obtain eg where "lb_events s g = Some eg" using queue_ok_live assms(1) by blast
    then show ?thesis using Some e assms queue_ok_forget [OF assms(1)]
      by (cases "ev_type eg = ev_type e") (auto simp: clear_pending_def live_event_def)
  qed (use assms in \<open>simp add: clear_pending_def\<close>)
  then obtain s1 where s1: "clear_pending a s = Inr s1" "queue_ok outs s1" "lb_pending s1 \<noteq> Some a" "lb_events s1 = lb_events s"
    by blast
  let ?s2 = "if lc_server_connected (lb_client s1) then (case ev_ctor e of None \<Rightarrow> s1 | Some k \<Rightarrow> run_ctor k e s1) else s1"
  have "queue_ok outs ?s2" "lb_pending ?s2 \<noteq> Some a" "lb_events ?s2 = lb_events s"
    using s1 by (auto split: option.split)
  then show ?thesis
    using s1 e queue_ok_free [of outs ?s2 a] assms(2)
    by (simp add: lash_send_event_def live_event_def lash_event_destroy_def)
qed

definition given_up :: "lib \<Rightarrow> addr set" where
  "given_up s = (if lc_server_connected (lb_client s) then set_option (lb_pending s) else {})"

lemma handle_pending_safe:
  assumes "queue_ok outs s"
  shows "\<exists>s'. lash_handle_pending_event s = Inr s' \<and> queue_ok (outs - set_option (lb_pending s)) s'"
proof (cases "lb_pending s")
  case (Some g)
  then have "g \<in> outs" using assms by (auto simp: queue_ok_def Let_def)
  then show ?thesis using send_safe [OF assms] queue_ok_live [OF assms] Some
    by (force simp: lash_handle_pending_event_def live_event_def)
qed (use assms in \<open>simp add: lash_handle_pending_event_def\<close>)

lemma of_nat_pred: "0 < n \<Longrightarrow> (of_nat n :: 'a :: ring_1) - 1 = of_nat (n - 1)"
  by (cases n) simp_all

lemma take_event_safe:
  assumes "queue_ok outs s"
  shows "\<exists>s' a. take_event s = Inr (s', a) \<and> queue_ok (outs \<union> set_option a) s'"
proof (cases "lc_events_in (lb_client s)")
  case (Cons a as)
  then obtain e where e: "lb_events s a = Some e" using assms by (auto simp: queue_ok_def Let_def)
  show ?thesis
    using assms Cons e by (auto simp: take_event_def queue_ok_def Let_def live_event_def upd_def)
qed (use assms in \<open>simp add: take_event_def\<close>)

lemma get_event_safe:
  assumes "queue_ok outs s" "\<forall>msg. m = Some msg \<longrightarrow> good_message msg"
  shows "\<exists>s' a. lash_get_event U p m s = Inr (s', a) \<and> queue_ok (outs - given_up s \<union> set_option a) s'"
proof (cases "lc_server_connected (lb_client s)")
  case True
  obtain s1 where s1: "lash_handle_pending_event s = Inr s1" "queue_ok (outs - set_option (lb_pending s)) s1"
    using handle_pending_safe [OF assms(1)] by blast
  obtain s2 where s2: "lash_dispatch_once U p m s1 = Inr s2" "queue_ok (outs - set_option (lb_pending s)) s2"
    using dispatch_once_safe [OF s1(2) assms(2)] by blast
  then show ?thesis using take_event_safe [OF s2(2)] s1 True by (auto simp: lash_get_event_def given_up_def)
qed (use assms in \<open>simp add: lash_get_event_def given_up_def\<close>)


section \<open>An application that keeps to the protocol\<close>

text \<open>Its calls, with the messages that have arrived when the library dispatches.\<close>

datatype app_call =
    Get_event "message option"
  | Count_events "message list"
  | Count_configs "message list"
  | Dispatch "message list"
  | Get_config "message option"
  | Send_config lash_config
  | Send_event addr
  | New_event lash_event
  | Change_event addr lash_event
  | Destroy_event addr

text \<open>What a call does to the library and to the events the application may still use.\<close>

fun perform :: "uuid_lib \<Rightarrow> string option \<Rightarrow> app_call \<Rightarrow> lib \<times> addr set \<Rightarrow> (lib \<times> addr set) res" where
  "perform U p (Get_event m) (s, outs) =
     bindr (lash_get_event U p m s) (\<lambda>(s', a). Inr (s', outs - given_up s \<union> set_option a))"
| "perform U p (Count_events ms) (s, outs) =
     bindr (lash_get_pending_event_count U p ms s) (\<lambda>(s', n). Inr (s', outs - given_up s))"
| "perform U p (Count_configs ms) (s, outs) = bindr (lash_get_pending_config_count U p ms s) (\<lambda>(s', n). Inr (s', outs))"
| "perform U p (Dispatch ms) (s, outs) = bindr (lash_dispatch U p ms s) (\<lambda>s'. Inr (s', outs))"
| "perform U p (Get_config m) (s, outs) = bindr (lash_get_config U p m s) (\<lambda>(s', c). Inr (s', outs))"
| "perform U p (Send_config c) (s, outs) = Inr (lash_send_config c s, outs)"
| "perform U p (Send_event a) (s, outs) = bindr (lash_send_event a s) (\<lambda>s'. Inr (s', outs - {a}))"
| "perform U p (New_event e) (s, outs) = (case new_event e s of (s', a) \<Rightarrow> Inr (s', insert a outs))"
| "perform U p (Change_event a e) (s, outs) =
     bindr (live_event a s) (\<lambda>_. Inr (s\<lparr>lb_events := (lb_events s)(a := Some e)\<rparr>, outs))"
| "perform U p (Destroy_event a) (s, outs) = bindr (lash_event_destroy a s) (\<lambda>s'. Inr (s', outs - {a}))"

fun messages_of :: "app_call \<Rightarrow> message list" where
  "messages_of (Get_event (Some m)) = [m]"
| "messages_of (Get_config (Some m)) = [m]"
| "messages_of (Count_events ms) = ms"
| "messages_of (Count_configs ms) = ms"
| "messages_of (Dispatch ms) = ms"
| "messages_of _ = []"

fun uses_own :: "app_call \<Rightarrow> lib \<times> addr set \<Rightarrow> bool" where
  "uses_own (Send_event a) (s, outs) \<longleftrightarrow> a \<in> outs"
| "uses_own (Change_event a e) (s, outs) \<longleftrightarrow> a \<in> outs"
| "uses_own (Destroy_event a) (s, outs) \<longleftrightarrow> a \<in> outs \<and> lb_pending s \<noteq> Some a"
| "uses_own _ _ \<longleftrightarrow> True"

definition allowed :: "app_call \<Rightarrow> lib \<times> addr set \<Rightarrow> bool" where
  "allowed call so \<longleftrightarrow> (\<forall>m \<in> set (messages_of call). good_message m) \<and> uses_own call so"

definition lib_new :: "lash_client_t \<Rightarrow> lib" where
  "lib_new c = \<lparr>lb_client = c\<lparr>lc_events_in := [], lc_num_events_in := 0, lc_configs_in := [], lc_num_configs_in := 0\<rparr>,
     lb_events = (\<lambda>_. None), lb_next = 0, lb_pending = None, lb_out = []\<rparr>"

inductive app_reachable :: "uuid_lib \<Rightarrow> lib \<times> addr set \<Rightarrow> bool" for U where
  begins: "app_reachable U (lib_new c, {})"
| calls: "app_reachable U so \<Longrightarrow> allowed call so \<Longrightarrow> perform U p call so = Inr so' \<Longrightarrow> app_reachable U so'"

lemma queue_ok_new_event:
  "queue_ok outs s \<Longrightarrow> queue_ok (insert (snd (new_event e s)) outs) (fst (new_event e s))"
  by (force simp: queue_ok_def Let_def new_event_def)

lemma queue_ok_change:
  "queue_ok outs s \<Longrightarrow> a \<in> outs \<Longrightarrow> queue_ok outs (s\<lparr>lb_events := (lb_events s)(a := Some e)\<rparr>)"
  using queue_ok_live [of outs s a] by (auto simp: queue_ok_def Let_def subset_iff domIff)

lemma get_config_safe:
  assumes "queue_ok outs s" "\<forall>msg. m = Some msg \<longrightarrow> good_message msg"
  shows "\<exists>s' c. lash_get_config U p m s = Inr (s', c) \<and> queue_ok outs s'"
proof -
  obtain s1 where s1: "lash_dispatch_once U p m s = Inr s1" "queue_ok outs s1"
    using dispatch_once_safe [OF assms] by blast
  then show ?thesis
    by (cases "lc_configs_in (lb_client s1)") (auto simp: lash_get_config_def queue_ok_def Let_def upd_def)
qed

lemma counts_safe:
  assumes "queue_ok outs s" "\<forall>m \<in> set ms. good_message m"
  shows "\<exists>s' n. lash_get_pending_event_count U p ms s = Inr (s', n) \<and> queue_ok (outs - given_up s) s'"
    "\<exists>s' n. lash_get_pending_config_count U p ms s = Inr (s', n) \<and> queue_ok outs s'"
proof -
  obtain s1 where s1: "lash_handle_pending_event s = Inr s1" "queue_ok (outs - set_option (lb_pending s)) s1"
    using handle_pending_safe [OF assms(1)] by blast
  obtain s2 where "lash_dispatch U p ms s1 = Inr s2" "queue_ok (outs - set_option (lb_pending s)) s2"
    using dispatch_safe [OF s1(2) assms(2)] by blast
  then show "\<exists>s' n. lash_get_pending_event_count U p ms s = Inr (s', n) \<and> queue_ok (outs - given_up s) s'"
    using s1 assms(1) by (simp add: lash_get_pending_event_count_def given_up_def)
  obtain s3 where "lash_dispatch U p ms s = Inr s3" "queue_ok outs s3"
    using dispatch_safe [OF assms] by blast
  then show "\<exists>s' n. lash_get_pending_config_count U p ms s = Inr (s', n) \<and> queue_ok outs s'"
    using assms(1) by (simp add: lash_get_pending_config_count_def)
qed

lemma app_call_safe:
  assumes "queue_ok outs s" "allowed call (s, outs)"
  shows "\<exists>s' outs'. perform U p call (s, outs) = Inr (s', outs') \<and> queue_ok outs' s'"
proof (cases call)
  case (Get_event m)
  then show ?thesis using get_event_safe [OF assms(1), of m U p] assms(2)
    by (cases m) (fastforce simp: allowed_def)+
next
  case (Count_events ms)
  then show ?thesis using counts_safe(1) [OF assms(1), of ms U p] assms(2) by (fastforce simp: allowed_def)
next
  case (Count_configs ms)
  then show ?thesis using counts_safe(2) [OF assms(1), of ms U p] assms(2) by (fastforce simp: allowed_def)
next
  case (Dispatch ms)
  then show ?thesis using dispatch_safe [OF assms(1), of ms U p] assms(2) by (fastforce simp: allowed_def)
next
  case (Get_config m)
  then show ?thesis using get_config_safe [OF assms(1), of m U p] assms(2)
    by (cases m) (fastforce simp: allowed_def)+
next
  case (Send_config c)
  then show ?thesis using assms(1) by (simp add: lash_send_config_def queue_ok_upd split: prod.split)
next
  case (Send_event a)
  then show ?thesis using send_safe [OF assms(1), of a] assms(2) by (fastforce simp: allowed_def)
next
  case (New_event e)
  then show ?thesis using queue_ok_new_event [OF assms(1), of e] by (simp add: split_beta)
next
  case (Change_event a e)
  then show ?thesis using queue_ok_change [OF assms(1), of a e] queue_ok_live [OF assms(1), of a] assms(2)
    by (auto simp: allowed_def live_event_def)
next
  case (Destroy_event a)
  then show ?thesis using queue_ok_free [OF assms(1), of a] queue_ok_live [OF assms(1), of a] assms(2)
    by (auto simp: allowed_def live_event_def lash_event_destroy_def)
qed

lemma app_reachable_ok: "app_reachable U so \<Longrightarrow> queue_ok (snd so) (fst so)"
proof (induction rule: app_reachable.induct)
  case (begins c)
  then show ?case by (simp add: queue_ok_def lib_new_def Let_def)
next
  case (calls so call p so')
  then show ?case using app_call_safe [of "snd so" "fst so" call U p] by (cases so) force
qed


text \<open>A connected client of one project, and a \<open>Save\<close> signal for it.\<close>

definition example_client :: lash_client_t where
  "example_client = lash_client_new\<lparr>lc_project_name := Some ''p'', lc_flags := LASH_Config_File, lc_server_connected := True,
     lc_dbus_service := True\<rparr>"

definition save_signal :: message where
  "save_signal = \<lparr>msg_type = Message_signal, msg_interface = Some ''org.nongnu.LASH.Server'', msg_member = Some ''Save'',
     msg_sender = None, msg_args = [DString ''p'', DUint64 7]\<rparr>"


text \<open>The protocol is needed: an application that itself destroys the task event it was handed makes
  its next request for an event, or for their number, read freed memory.\<close>

theorem destroyed_task_event_dangles:
  assumes "app_reachable U (s, outs)" "lc_server_connected (lb_client s)" "lb_pending s = Some a"
  shows "\<exists>s1. lash_event_destroy a s = Inr s1 \<and> lash_get_event U p m s1 = Inl Dangling
     \<and> lash_get_pending_event_count U p ms s1 = Inl Dangling"
proof -
  have "a \<in> outs" using app_reachable_ok [OF assms(1)] assms(3) by (auto simp: queue_ok_def Let_def)
  then obtain e where "lb_events s a = Some e" using app_reachable_ok [OF assms(1)] queue_ok_live by force
  then show ?thesis using assms
    by (simp add: lash_event_destroy_def live_event_def lash_get_event_def lash_get_pending_event_count_def
        lash_handle_pending_event_def)
qed

lemma example_task_event:
  "perform example_uuids None (Get_event (Some save_signal)) (lib_new example_client, {}) =
     Inr ((lib_new (example_client\<lparr>lc_pending_task := 7\<rparr>))
            \<lparr>lb_events := [0 \<mapsto> lash_event_set_string None (lash_event_new\<lparr>ev_type := LASH_Save_File,
               ev_ctor := Some Ctor_task_done\<rparr>)], lb_next := 1, lb_pending := Some 0\<rparr>, {0})"
  by (simp add: lash_get_event_def lib_new_def example_client_def save_signal_def lash_handle_pending_event_def
      lash_dispatch_once_def lash_dbus_signal_handler_def lash_server_signal_handler_def lash_new_save_task_def
      start_task_def upd_def lash_client_add_event_def lash_event_new_with_all_def lash_event_new_with_type_def
      take_event_def live_event_def is_task_type_def given_up_def lash_client_new_def LASH_Config_File_def
      LASH_Config_Data_Set_def lash_event_new_def lash_event_set_string_def)

lemma destroyed_task_event_dangles_witness:
  "\<exists>s0 s1. perform example_uuids None (Get_event (Some save_signal)) (lib_new example_client, {}) = Inr (s0, {0})
     \<and> lash_event_destroy 0 s0 = Inr s1 \<and> lash_get_event example_uuids None None s1 = Inl Dangling"
proof -
  let ?w = "(lib_new example_client, {}) :: lib \<times> addr set"
  obtain s0 where s0: "perform example_uuids None (Get_event (Some save_signal)) ?w = Inr (s0, {0})"
    and live: "lc_server_connected (lb_client s0)" "lb_pending s0 = Some 0"
    using example_task_event by (simp add: lib_new_def example_client_def)
  have "app_reachable example_uuids (s0, {0})"
    by (rule app_reachable.calls [OF app_reachable.begins _ s0]) (simp add: allowed_def good_message_def save_signal_def)
  then show ?thesis using destroyed_task_event_dangles [OF _ live, of example_uuids "{0}" None None "[]"] s0 by blast
qed

end
