(* ===== verification/LibDaemon.thy ===== *)
theory LibDaemon
  imports LibQueue Daemon
begin

text \<open>
  The client library and the daemon together: what the library asks for against the tables of
  the daemon, and the handshake of a new client.
\<close>

section \<open>The calls of the library\<close>

text \<open>The interface, member and arguments of a call the library sends.\<close>

fun call_of :: "lib_out \<Rightarrow> (string \<times> string \<times> dval list) option" where
  "call_of (Server_call member as) = Some (''org.nongnu.LASH.Server'', member, as)"
| "call_of (Control_call member as) = Some (''org.nongnu.LASH.Control'', member, as)"
| "call_of _ = None"

text \<open>The type characters of the arguments a method takes, of an interface's table.\<close>

definition input_types :: "'h method_desc \<Rightarrow> char list" where
  "input_types m = map (\<lambda>(n, ty, d). hd ty) (filter (\<lambda>(n, ty, d). d = DIRECTION_IN) (m_args m))"

definition declared :: "'h interface list \<Rightarrow> string \<times> string \<times> dval list \<Rightarrow> bool" where
  "declared is call \<longleftrightarrow>
     (case call of (iface, member, as) \<Rightarrow>
        \<exists>i \<in> set is. i_name i = iface \<and> (\<exists>m \<in> set (i_methods i). m_name m = member \<and> input_types m = map dbus_type as))"

definition unserved :: "string \<times> string \<times> dval list \<Rightarrow> bool" where
  "unserved call \<longleftrightarrow> call \<in> {(''org.nongnu.LASH.Server'', ''SaveProject'', []),
     (''org.nongnu.LASH.Server'', ''CloseProject'', []), (''org.nongnu.LASH.Server'', ''WaitForSave'', [])}"

definition calls_ok :: "lash_appdb_entry list \<Rightarrow> lib \<Rightarrow> bool" where
  "calls_ok appdb s \<longleftrightarrow> (\<forall>x \<in> set (lb_out s). \<forall>c E mtimes. call_of x = Some c \<longrightarrow>
     declared (lashd_interfaces E appdb mtimes) c \<or> unserved c)"

definition method_types :: "'h method_desc list \<Rightarrow> (string \<times> char list) list" where
  "method_types ms = map (\<lambda>m. (m_name m, input_types m)) ms"

lemma server_types:
  "method_types (server_methods E) =
     [(''Ping'', []), (''Connect'', ''isisa''), (''JackName'', ''s''), (''AlsaId'', ''y''), (''GetName'', []), (''GetJackName'', []),
      (''GetAlsaId'', []), (''Progress'', ''ty''), (''CommitDataSet'', ''ta''), (''CommitPathChange'', [])]"
  by (simp add: method_types_def server_methods_def input_types_def)

lemma control_types:
  "method_types (control_methods E appdb mtimes) =
     [(''ProjectsGetAvailable'', []), (''ProjectOpen'', ''sa''), (''ProjectsGet'', []), (''ProjectGetProperties'', []),
      (''ProjectSetDescription'', ''ss''), (''ProjectSetNotes'', ''ss''), (''ProjectGetClients'', ''s''),
      (''ProjectGetLostClients'', ''s''), (''ApplicationsGet'', []), (''ClientGetDependencies'', ''s''),
      (''ClientAddDependency'', ''sss''), (''ClientRemoveDependency'', ''sss''), (''LostClientLaunch'', ''ss''),
      (''LoadProjectPath'', ''s''), (''ProjectMove'', ''ss''), (''ProjectRename'', ''ss''), (''ProjectSave'', ''s''),
      (''ProjectClose'', ''s''), (''ProjectsSaveAll'', []), (''ProjectsCloseAll'', []), (''Exit'', [])]"
  by (simp add: method_types_def control_methods_def input_types_def)

lemma declared_in:
  "declared (lashd_interfaces E appdb mtimes) (iface, member, as) \<longleftrightarrow>
     iface = ''org.nongnu.LASH.Server'' \<and> (member, map dbus_type as) \<in> set (method_types (server_methods E))
     \<or> iface = ''org.nongnu.LASH.Control'' \<and> (member, map dbus_type as) \<in> set (method_types (control_methods E appdb mtimes))"
  by (auto simp: declared_def lashd_interfaces_def g_lashd_interface_server_def g_lashd_interface_control_def
      method_types_def)

lemma declared_calls:
  "declared (lashd_interfaces E appdb mtimes) (''org.nongnu.LASH.Server'', ''Progress'', [DUint64 t, DByte b])"
  "declared (lashd_interfaces E appdb mtimes) (''org.nongnu.LASH.Server'', ''CommitDataSet'', [DUint64 t, DArray sg es])"
  "declared (lashd_interfaces E appdb mtimes) (''org.nongnu.LASH.Server'', ''CommitPathChange'', [])"
  "declared (lashd_interfaces E appdb mtimes) (''org.nongnu.LASH.Server'', ''JackName'', [DString n])"
  "declared (lashd_interfaces E appdb mtimes) (''org.nongnu.LASH.Server'', ''AlsaId'', [DByte b])"
  "declared (lashd_interfaces E appdb mtimes) (''org.nongnu.LASH.Server'', ''GetName'', [])"
  "declared (lashd_interfaces E appdb mtimes) (''org.nongnu.LASH.Server'', ''GetJackName'', [])"
  "declared (lashd_interfaces E appdb mtimes) (''org.nongnu.LASH.Server'', ''GetAlsaId'', [])"
  "declared (lashd_interfaces E appdb mtimes) (''org.nongnu.LASH.Control'', ''LoadProjectPath'', [DString n])"
  "declared (lashd_interfaces E appdb mtimes) (''org.nongnu.LASH.Control'', ''ProjectRename'', [DString n, DString n2])"
  "declared (lashd_interfaces E appdb mtimes) (''org.nongnu.LASH.Control'', ''ProjectMove'', [DString n, DString n2])"
  "declared (lashd_interfaces E appdb mtimes) (''org.nongnu.LASH.Control'', ''ProjectSave'', [DString n])"
  "declared (lashd_interfaces E appdb mtimes) (''org.nongnu.LASH.Control'', ''ProjectClose'', [DString n])"
  by (simp_all add: declared_in server_types control_types)

lemma calls_ok_out:
  "calls_ok appdb (out x s) \<longleftrightarrow> calls_ok appdb s \<and>
     (\<forall>c E mtimes. call_of x = Some c \<longrightarrow> declared (lashd_interfaces E appdb mtimes) c \<or> unserved c)"
  by (auto simp: calls_ok_def out_def)


lemma calls_ok_upd [simp]: "calls_ok appdb (upd f s) = calls_ok appdb s"
  by (simp add: calls_ok_def upd_def)

lemma calls_ok_fields [simp]:
  "calls_ok appdb (s\<lparr>lb_events := h\<rparr>) = calls_ok appdb s" "calls_ok appdb (s\<lparr>lb_next := n\<rparr>) = calls_ok appdb s"
  "calls_ok appdb (s\<lparr>lb_pending := g\<rparr>) = calls_ok appdb s"
  by (simp_all add: calls_ok_def)

lemmas calls_ok_simps = calls_ok_out declared_calls

lemma calls_ok_add [simp]:
  "calls_ok appdb (lash_client_add_event e s) = calls_ok appdb s" "calls_ok appdb (lash_client_add_config c s) = calls_ok appdb s"
  by (simp_all add: lash_client_add_event_def lash_client_add_config_def split: option.split)

lemma calls_ok_tasks [simp]:
  "calls_ok appdb (start_task t s) = calls_ok appdb s" "calls_ok appdb (end_task s) = calls_ok appdb s"
  "calls_ok appdb (report_success_or_failure b s) = calls_ok appdb s"
  by (simp_all add: start_task_def end_task_def report_success_or_failure_def calls_ok_simps)

lemma calls_ok_new_tasks [simp]:
  "calls_ok appdb (lash_new_save_task t s) = calls_ok appdb s"
  "calls_ok appdb (lash_new_save_data_set_task t s) = calls_ok appdb s"
  "calls_ok appdb (lash_new_quit_task s) = calls_ok appdb s"
  by (simp_all add: lash_new_save_task_def lash_new_save_data_set_task_def lash_new_quit_task_def Let_def calls_ok_simps
      split: option.split prod.split)

lemma calls_ok_configs: "queue_configs h s = Inr (s', r) \<Longrightarrow> calls_ok appdb s' = calls_ok appdb s"
proof (induction h s arbitrary: s' r rule: queue_configs.induct)
  case (1 h s)
  obtain h1 ret c where read: "lash_config_read h = (h1, ret, c)" by (cases "lash_config_read h")
  show ?case
  proof (cases "0 < ret \<and> c \<noteq> None")
    case True
    then obtain key ty v where c: "c = Some (key, ty, v)" by (cases c) auto
    obtain cfg where v: "(if ty = CHR ''d'' then lash_config_set_value_double v (Some (lash_config_new_with_key (Some key)))
           else if ty = CHR ''u'' then lash_config_set_value_int (bytes_u32 v) (Some (lash_config_new_with_key (Some key)))
           else if ty = CHR ''s'' then lash_config_set_value_string (Some v) (Some (lash_config_new_with_key (Some key)))
           else lash_config_set_value (Some v) (word_of_int ret) (Some (lash_config_new_with_key (Some key)))) = Inr cfg"
      and rest: "queue_configs h1 (case cfg of None \<Rightarrow> s | Some x \<Rightarrow> lash_client_add_config x s) = Inr (s', r)"
      using 1(2) True by (subst (asm) queue_configs.simps) (auto simp: read c Let_def bindr_Inr_iff)
    have "calls_ok appdb (case cfg of None \<Rightarrow> s | Some x \<Rightarrow> lash_client_add_config x s) = calls_ok appdb s"
      by (simp split: option.split)
    then show ?thesis using 1(1) [OF read [symmetric] refl _ _ c refl refl refl v rest] True by simp
  next
    case False
    then show ?thesis using 1(2)
      by (subst (asm) queue_configs.simps) (auto simp: read not_less split: option.split_asm if_split_asm)
  qed
qed

definition keeps_calls :: "lash_appdb_entry list \<Rightarrow> lib handler \<Rightarrow> bool" where
  "keeps_calls appdb f \<longleftrightarrow> (\<forall>m s s' r. calls_ok appdb s \<longrightarrow> f m s = Inr (s', r) \<longrightarrow> calls_ok appdb s')"

lemma keeps_calls_methods:
  "keeps_calls appdb lash_dbus_save" "keeps_calls appdb lash_dbus_load" "keeps_calls appdb lash_dbus_load_data_set"
  "keeps_calls appdb lash_dbus_quit" "keeps_calls appdb lash_dbus_try_save"
  "keeps_calls appdb (lash_dbus_try_path_change p)" "keeps_calls appdb lash_dbus_client_name_changed"
proof -
  show "keeps_calls appdb lash_dbus_save"
    by (auto simp: keeps_calls_def lash_dbus_save_def calls_ok_simps split: sum.split_asm)
  show "keeps_calls appdb lash_dbus_load"
    by (auto simp: keeps_calls_def lash_dbus_load_def Let_def calls_ok_simps
        split: sum.split_asm list.split_asm dval.split_asm option.split_asm)
  show "keeps_calls appdb lash_dbus_load_data_set"
    by (auto simp: keeps_calls_def lash_dbus_load_data_set_def Let_def calls_ok_simps dest!: calls_ok_configs [where appdb = appdb]
        split: sum.split_asm list.split_asm dval.split_asm option.split_asm)
  show "keeps_calls appdb lash_dbus_quit"
    by (auto simp: keeps_calls_def lash_dbus_quit_def calls_ok_simps)
  show "keeps_calls appdb lash_dbus_try_save"
    by (auto simp: keeps_calls_def lash_dbus_try_save_def calls_ok_simps unserved_def split: if_split_asm option.split_asm bool.split_asm)
  show "keeps_calls appdb (lash_dbus_try_path_change p)"
    by (auto simp: keeps_calls_def lash_dbus_try_path_change_def lash_dbus_path_change_handler_def calls_ok_simps
        split: if_split_asm option.split_asm bool.split_asm)
  show "keeps_calls appdb lash_dbus_client_name_changed"
    by (auto simp: keeps_calls_def lash_dbus_client_name_changed_def Let_def calls_ok_simps
        split: option.split_asm list.split_asm dval.split_asm if_split_asm)
qed

interpretation liblash_calls: served_object "liblash_path new_path" "calls_ok appdb"
proof
  fix i m f s msg s' r
  assume "i \<in> set (op_interfaces (liblash_path new_path))" "m \<in> set (i_methods i)" "m_handler m = Some f"
    and run: "calls_ok appdb s" "f msg s = Inr (s', r)"
  then have "keeps_calls appdb f"
    using liblash_object_created [of new_path] keeps_calls_methods
    by (auto simp: liblash_path_def g_dbus_interface_dtor_introspectable_def g_liblash_interface_client_def liblash_methods_def)
  then show "calls_ok appdb s'" using run unfolding keeps_calls_def by blast
qed

lemma calls_ok_signal: "calls_ok appdb s \<Longrightarrow> calls_ok appdb (lash_dbus_signal_handler U m s)"
proof -
  assume s: "calls_ok appdb s"
  have server: "calls_ok appdb (lash_server_signal_handler member as t) = calls_ok appdb t" for member as t
    by (simp add: lash_server_signal_handler_def Let_def split: option.split list.split dval.split prod.split)
  have project: "calls_ok appdb (lash_project_name_changed_handler as t) = calls_ok appdb t" for as t
    by (simp add: lash_project_name_changed_handler_def Let_def calls_ok_simps split: option.split list.split dval.split prod.split)
  have control: "calls_ok appdb (lash_control_signal_handler U member as t) = calls_ok appdb t" for member as t
    by (simp add: lash_control_signal_handler_def calls_ok_simps split: option.split prod.split)
  show ?thesis using s by (simp add: lash_dbus_signal_handler_def Let_def server project control split: option.split)
qed

lemma calls_ok_dispatch_once:
  assumes "calls_ok appdb s" "lash_dispatch_once U p m s = Inr s'"
  shows "calls_ok appdb s'"
proof -
  obtain path where path: "lash_dbus_service_new p = Inr (Some path)" using liblash_object_created [of p] by blast
  then have eq: "liblash_path p = path" by (simp add: liblash_path_def)
  have "calls_ok appdb s1" if "object_path_handler path msg s = Inr (s1, r)" for msg s1 r
    using liblash_calls.handler_keeps [OF assms(1), of p msg s1 r] that eq by simp
  then show ?thesis using assms path
    by (auto simp: lash_dispatch_once_def calls_ok_signal bindr_Inr_iff split: option.split_asm if_split_asm)
qed

lemma calls_ok_dispatch: "calls_ok appdb s \<Longrightarrow> lash_dispatch U p ms s = Inr s' \<Longrightarrow> calls_ok appdb s'"
  by (induction ms arbitrary: s) (auto simp: bindr_Inr_iff dest: calls_ok_dispatch_once)


lemma run_ctor_calls [simp]: "calls_ok appdb (run_ctor k e s) = calls_ok appdb s"
  by (auto simp: run_ctor_def lash_task_done_def lash_save_data_set_def lash_jack_client_name_def request_def
      lash_alsa_client_id_def calls_ok_simps unserved_def split: event_ctor.split option.split prod.split)

lemma calls_ok_send:
  assumes "calls_ok appdb s" "lash_send_event a s = Inr s'"
  shows "calls_ok appdb s'"
proof -
  obtain s1 e where s1: "clear_pending a s = Inr s1"
    and s': "lash_event_destroy a (if lc_server_connected (lb_client s1)
        then (case ev_ctor e of None \<Rightarrow> s1 | Some k \<Rightarrow> run_ctor k e s1) else s1) = Inr s'"
    using assms(2) by (auto simp: lash_send_event_def bindr_Inr_iff)
  have "calls_ok appdb s1" using s1 assms(1) by (auto simp: clear_pending_def bindr_Inr_iff split: option.split_asm if_split_asm)
  then have "calls_ok appdb (if lc_server_connected (lb_client s1)
        then (case ev_ctor e of None \<Rightarrow> s1 | Some k \<Rightarrow> run_ctor k e s1) else s1)" by (simp split: option.split)
  then show ?thesis using s' by (auto simp: lash_event_destroy_def bindr_Inr_iff)
qed

lemma calls_ok_pending: "calls_ok appdb s \<Longrightarrow> lash_handle_pending_event s = Inr s' \<Longrightarrow> calls_ok appdb s'"
  by (auto simp: lash_handle_pending_event_def bindr_Inr_iff dest: calls_ok_send split: option.split_asm)

lemma calls_ok_take: "calls_ok appdb s \<Longrightarrow> take_event s = Inr (s', a) \<Longrightarrow> calls_ok appdb s'"
  by (auto simp: take_event_def Let_def bindr_Inr_iff split: list.split_asm)

lemma calls_ok_perform:
  assumes "calls_ok appdb s" "perform U p call (s, outs) = Inr (s', outs')"
  shows "calls_ok appdb s'"
proof (cases call)
  case (Get_event m)
  then show ?thesis using assms
    by (auto simp: lash_get_event_def bindr_Inr_iff split: if_split_asm)
      (metis calls_ok_pending calls_ok_dispatch_once calls_ok_take)
next
  case (Count_events ms)
  then show ?thesis using assms
    by (auto simp: lash_get_pending_event_count_def bindr_Inr_iff split: if_split_asm
        dest: calls_ok_pending calls_ok_dispatch)
next
  case (Count_configs ms)
  then show ?thesis using assms
    by (auto simp: lash_get_pending_config_count_def bindr_Inr_iff split: if_split_asm dest: calls_ok_dispatch)
next
  case (Dispatch ms)
  then show ?thesis using assms by (auto simp: bindr_Inr_iff dest: calls_ok_dispatch)
next
  case (Get_config m)
  obtain c where run: "lash_get_config U p m s = Inr (s', c)" using assms(2) Get_config by (auto simp: bindr_Inr_iff)
  then obtain s1 where s1: "lash_dispatch_once U p m s = Inr s1" by (auto simp: lash_get_config_def bindr_Inr_iff)
  then show ?thesis using run calls_ok_dispatch_once [OF assms(1) s1]
    by (cases "lc_configs_in (lb_client s1)") (auto simp: lash_get_config_def)
next
  case (Send_config c)
  then show ?thesis using assms by (auto simp: lash_send_config_def split: prod.split_asm)
next
  case (Send_event a)
  then show ?thesis using assms by (auto simp: bindr_Inr_iff dest: calls_ok_send)
next
  case (New_event e)
  then show ?thesis using assms by (auto simp: new_event_def)
next
  case (Change_event a e)
  then show ?thesis using assms by (auto simp: bindr_Inr_iff)
next
  case (Destroy_event a)
  then show ?thesis using assms by (auto simp: bindr_Inr_iff lash_event_destroy_def)
qed

section \<open>Every call of the library\<close>

text \<open>The requests of the new interface and of controllers.\<close>

datatype lib_request =
    Notify_progress u8
  | Give_jack_name cstr
  | Give_alsa_id u8
  | Load_project_path cstr
  | Name_project cstr cstr
  | Move_project cstr cstr
  | Save_project cstr
  | Close_project cstr

fun make_request :: "lib_request \<Rightarrow> lib \<Rightarrow> lib" where
  "make_request (Notify_progress x) s = lash_notify_progress x s"
| "make_request (Give_jack_name n) s = lash_jack_client_name n s"
| "make_request (Give_alsa_id i) s = lash_alsa_client_id i s"
| "make_request (Load_project_path p) s = lash_control_load_project_path p s"
| "make_request (Name_project n n') s = lash_control_name_project n n' s"
| "make_request (Move_project n p) s = lash_control_move_project n p s"
| "make_request (Save_project n) s = lash_control_save_project n s"
| "make_request (Close_project n) s = lash_control_close_project n s"

text \<open>The states of the library under any application.\<close>

inductive lib_reachable :: "uuid_lib \<Rightarrow> lib \<Rightarrow> bool" for U where
  lib_begins: "lib_reachable U (lib_new c)"
| lib_call: "lib_reachable U s \<Longrightarrow> perform U p call (s, outs) = Inr (s', outs') \<Longrightarrow> lib_reachable U s'"
| lib_requests: "lib_reachable U s \<Longrightarrow> lib_reachable U (make_request r s)"

inductive_cases lib_reachable_cases: "lib_reachable U s"

lemma calls_ok_request: "calls_ok appdb s \<Longrightarrow> calls_ok appdb (make_request r s)"
  by (cases r) (auto simp: lash_notify_progress_def Let_def lash_jack_client_name_def lash_alsa_client_id_def
      lash_control_load_project_path_def lash_control_name_project_def lash_control_move_project_def
      lash_control_save_project_def lash_control_close_project_def request_def calls_ok_simps split: option.split)

lemma lib_reachable_calls: "lib_reachable U s \<Longrightarrow> calls_ok appdb s"
proof (induction rule: lib_reachable.induct)
  case (lib_begins c)
  then show ?case by (simp add: calls_ok_def lib_new_def)
qed (auto intro: calls_ok_perform calls_ok_request)

lemma unserved_answer:
  assumes "unserved (iface, member, as)" "lashd_object E appdb mtimes = Inr (Some path)"
    "msg_type m = Message_method_call" "msg_interface m = Some iface" "msg_member m = Some member"
  shows "object_path_handler path m w = Inr (w, Some (Error_reply Error_unknown_method))"
proof -
  have iface: "iface = ''org.nongnu.LASH.Server''"
    and member: "member = ''SaveProject'' \<or> member = ''CloseProject'' \<or> member = ''WaitForSave''"
    using assms(1) by (auto simp: unserved_def)
  have "meant (op_interfaces path) m = [g_lashd_interface_server E]"
    by (simp add: meant_def assms(4) iface object_interfaces [OF assms(2)] lashd_interfaces_def
        g_dbus_interface_dtor_introspectable_def g_lashd_interface_server_def)
  moreover have "\<not> offers member (g_lashd_interface_server E)"
    using member by (elim disjE) (simp_all add: offers_def g_lashd_interface_server_def server_methods_def)
  ultimately have "List.find (offers member) (meant (op_interfaces path) m) = None" by simp
  then show ?thesis using assms by (simp add: handler_target [OF assms(3,5)])
qed



text \<open>The event that asks for a save, sent by a connected client.\<close>

definition save_event :: lash_event where
  "save_event = lash_event_new\<lparr>ev_type := LASH_Save, ev_ctor := Some Ctor_save\<rparr>"

definition after_save_event :: lib where
  "after_save_event = (lib_new example_client)\<lparr>lb_next := 1, lb_out := [Server_call ''SaveProject'' []]\<rparr>"

lemma save_event_sent: "lib_reachable example_uuids after_save_event"
proof -
  let ?s1 = "(lib_new example_client)\<lparr>lb_events := [0 \<mapsto> save_event], lb_next := 1\<rparr>"
  have "perform example_uuids None (New_event save_event) (lib_new example_client, {}) = Inr (?s1, {0})"
    by (simp add: new_event_def lib_new_def)
  then have one: "lib_reachable example_uuids ?s1" by (rule lib_call [OF lib_begins])
  have "perform example_uuids None (Send_event 0) (?s1, {0}) = Inr (after_save_event, {})"
    by (simp add: lash_send_event_def clear_pending_def live_event_def lib_new_def example_client_def lash_client_new_def
        save_event_def run_ctor_def lash_event_destroy_def out_def after_save_event_def fun_eq_iff)
  then show ?thesis by (rule lib_call [OF one])
qed


section \<open>The handshake\<close>

lemma strings_of_map [simp]: "strings_of (map DString ss) = ss"
  by (induction ss) simp_all

text \<open>The message the library sends to connect.\<close>

definition connect_message :: "string \<Rightarrow> dval list \<Rightarrow> message" where
  "connect_message sender as = \<lparr>msg_type = Message_method_call, msg_interface = Some ''org.nongnu.LASH.Server'',
     msg_member = Some ''Connect'', msg_sender = Some sender, msg_args = as\<rparr>"

lemma connect_args_call:
  assumes "connect_call x c = Some as"
  obtains cls wd where "lc_class c = Some cls" "lc_working_dir c = Some wd"
    "connect_args (connect_message sender as) = Some (x, cls, lc_flags c, wd, lc_argv c)"
  using assms by (auto simp: connect_call_def connect_args_def connect_message_def split: option.split_asm)

lemma connect_answer:
  assumes "lashd_object E appdb mtimes = Inr (Some path)"
  shows "object_path_handler path (connect_message sender as) w =
    bindr (lashd_dbus_connect E (Some sender) (connect_args (connect_message sender as)) w)
      (\<lambda>(w1, r). Inr (w1, Some (if r = No_reply then Method_return [] else r)))"
proof -
  let ?m = "connect_message sender as"
  have "meant (op_interfaces path) ?m = [g_lashd_interface_server E]"
    by (simp add: meant_def object_interfaces [OF assms(1)] lashd_interfaces_def connect_message_def
        g_dbus_interface_dtor_introspectable_def g_lashd_interface_server_def)
  moreover have "offers ''Connect'' (g_lashd_interface_server E)"
    by (simp add: offers_def g_lashd_interface_server_def server_methods_def)
  moreover have "answer doc (g_lashd_interface_server E) ''Connect'' ?m w =
      run_method (Some (\<lambda>m w. lashd_dbus_connect E (msg_sender m) (connect_args m) w)) ?m w" for doc
    by (simp add: answer_def g_lashd_interface_server_def server_methods_def)
  ultimately have "object_path_handler path ?m w =
      bindr (run_method (Some (\<lambda>m w. lashd_dbus_connect E (msg_sender m) (connect_args m) w)) ?m w)
        (\<lambda>(s1, r). Inr (s1, Some r))"
    using handler_target [of ?m "''Connect''" path w] by (simp add: connect_message_def)
  then show ?thesis
    by (cases "lashd_dbus_connect E (Some sender) (connect_args ?m) w") (auto simp: run_method_def connect_message_def)
qed

lemma connect_dispatched:
  assumes "lashd_object E appdb mtimes = Inr (Some path)" "ret \<noteq> []"
    and "object_path_handler path (connect_message sender as) w = Inr (w', Some (Method_return ret))"
  shows "lashd_dbus_connect E (Some sender) (connect_args (connect_message sender as)) w = Inr (w', Method_return ret)"
  using assms(2,3) by (auto simp: connect_answer [OF assms(1)] bindr_Inr_iff split: if_split_asm)

text \<open>What stays of a client through the rest of the connection.\<close>

definition identity :: "lash_client \<Rightarrow> uuid \<times> string \<times> pid \<times> u32 \<times> cstr \<times> cstr \<times> string list \<times> cstr" where
  "identity c = (cl_id c, cl_id_str c, cl_pid c, cl_flags c, cl_class c, cl_working_dir c, cl_argv c, cl_dbus_name c)"

lemma identity_emit_all [simp]: "clients (foldl (\<lambda>w x. emit (f x) w) w xs) = clients w"
  by (induction xs arbitrary: w) (simp_all add: emit_def)

lemma identity_bind:
  assumes "lashd_jackdbus_mgr_bind_client E jc b w = Inr w'" "cl_class (clients w b) \<noteq> None"
  shows "identity (clients w' a) = identity (clients w a)"
  using assms by (auto simp: lashd_jackdbus_mgr_bind_client_def Let_def bindr_Inr_iff client_maybe_fill_class_def
      identity_def upd_client_def split: prod.split_asm option.split_asm if_split_asm)

lemma identity_bind_unknown:
  "bind_unknown E x b w = Inr w' \<Longrightarrow> cl_class (clients w b) \<noteq> None \<Longrightarrow> identity (clients w' a) = identity (clients w a)"
  by (auto simp: bind_unknown_def bindr_Inr_iff identity_bind split: option.split_asm)

lemma identity_name_client:
  "project_name_client p b w = Inr w' \<Longrightarrow> identity (clients w' a) = identity (clients w a)"
  by (auto simp: project_name_client_def Let_def bindr_Inr_iff upd_client_def identity_def)

lemma identity_modified: "clients (project_set_modified_status p s w) = clients w"
  by (simp add: project_set_modified_status_def emit_def upd_project_def)

lemma clients_store_open:
  "\<exists>st. clients (fst (client_store_open a dir w)) = (clients w)(a := (clients w a)\<lparr>cl_store := Some st\<rparr>)"
  by (auto simp: client_store_open_def Let_def upd_client_def split: prod.split)

lemma new_client_identity:
  assumes "project_new_client E p a w = Inr w'"
  shows "identity (clients w' a) = identity ((clients w a)\<lparr>cl_id := new_uuids w 0,
     cl_id_str := uuid_unparse (e_uuids E) (new_uuids w 0)\<rparr>)"
proof -
  let ?id = "uuid_unparse (e_uuids E) (new_uuids w 0)"
  let ?path = "project_get_client_dir (projects w p) ?id"
  let ?w1 = "upd_client a (\<lambda>c. c\<lparr>cl_id := new_uuids w 0, cl_id_str := ?id, cl_data_path := Some ?path\<rparr>)
                 (w\<lparr>new_uuids := (\<lambda>n. new_uuids w (Suc n))\<rparr>)"
  let ?w2 = "if CLIENT_CONFIG_DATA_SET (clients ?w1 a)
      then fst (client_store_open a (project_get_client_config_dir (projects ?w1 p) ?id) ?w1) else ?w1"
  let ?w3 = "upd_project p (\<lambda>x. x\<lparr>p_clients := a # p_clients x\<rparr>) (upd_client a (\<lambda>c. c\<lparr>cl_project := Some p\<rparr>) ?w2)"
  have "identity (clients ?w2 a) = identity (clients ?w1 a)"
    using clients_store_open [of a "project_get_client_config_dir (projects ?w1 p) ?id" ?w1] by (auto simp: identity_def)
  then have "identity (clients ?w3 a) = identity (clients ?w1 a)" by (auto simp: identity_def upd_project_def upd_client_def)
  moreover obtain w5 where "project_name_client p a (?w3\<lparr>disk := lash_create_dir (disk ?w3) ?path\<rparr>) = Inr w5"
    "w' = (let w6 = project_set_modified_status p True w5
       in emit (Client_appeared (cl_id_str (clients w6 a)) (p_name (projects w6 p)) (cl_name (clients w6 a))) w6)"
    using assms unfolding project_new_client_def by (auto simp only: Let_def bindr_Inr_iff)
  ultimately show ?thesis
    by (auto simp: Let_def emit_def identity_modified upd_client_def identity_def dest: identity_name_client [of p a _ _ a])
qed


lemma create_project_clients:
  assumes "server_create_new_project name w = Inr (w', p)"
  shows "clients w' = clients w \<and> new_uuids w' = new_uuids w"
  using assms by (auto simp: server_create_new_project_def Let_def bindr_Inr_iff project_clear_id_dir_def emit_def upd_project_def)

lemma newborn_clients:
  assumes "server_get_newborn_project w = Inr (w', p)"
  shows "clients w' = clients w \<and> new_uuids w' = new_uuids w"
  using assms by (auto simp: server_get_newborn_project_def dest: create_project_clients
      split: option.split_asm if_split_asm)

lemma added_client_identity:
  assumes "server_add_client E sender x cls flags wd argv w = Inr (w', a)"
    and "x = 0 \<or> server_find_lost_client_by_pid w x = None"
  shows "a = next_client w \<and> identity (clients w' a) =
     (new_uuids w 0, uuid_unparse (e_uuids E) (new_uuids w 0), x, flags, Some cls, Some wd, argv, Some sender)"
proof -
  let ?c = "client_new\<lparr>cl_pid := x, cl_class := Some cls, cl_flags := flags, cl_argv := argv,
       cl_dbus_name := Some sender, cl_working_dir := Some wd\<rparr>"
  let ?w1 = "upd_client (next_client w) (\<lambda>_. ?c) (w\<lparr>next_client := next_client w + 1\<rparr>)"
  obtain w2 p w3 where a: "a = next_client w" and w2: "server_get_newborn_project ?w1 = Inr (w2, p)"
    and w3: "project_new_client E p (next_client w) w2 = Inr w3" and w': "bind_unknown E x (next_client w) w3 = Inr w'"
    using assms by (auto simp: server_add_client_def Let_def bindr_Inr_iff split: if_split_asm)
  have id3: "identity (clients w3 (next_client w)) =
     (new_uuids w 0, uuid_unparse (e_uuids E) (new_uuids w 0), x, flags, Some cls, Some wd, argv, Some sender)"
    using new_client_identity [OF w3] newborn_clients [OF w2] by (simp add: identity_def upd_client_def)
  then have "cl_class (clients w3 (next_client w)) \<noteq> None" by (simp add: identity_def)
  then show ?thesis using a id3 identity_bind_unknown [OF w', of "next_client w"] by simp
qed

definition known_as :: "lash_client_t \<Rightarrow> string \<Rightarrow> pid \<Rightarrow> lash_client \<Rightarrow> bool" where
  "known_as c sender x d \<longleftrightarrow> cl_dbus_name d = Some sender \<and> cl_pid d = x \<and> cl_class d = lc_class c
     \<and> cl_argv d = lc_argv c \<and> cl_flags d = lc_flags c \<and> cl_working_dir d = lc_working_dir c"

text \<open>C1. A client that is not a lost one and that the daemon answers ends up, on both sides, with the same
  record: the daemon knows it under its bus name, process, class, arguments, flags and directory, and
  the library has the identifier the daemon gave it and its names for the client, the project and the
  data directory (none for an empty string), and counts as connected.\<close>

theorem connect_handshake:
  assumes "uuid_lib_ok (e_uuids E)" "lashd_object E appdb mtimes = Inr (Some path)"
    and "\<not> lc_server_connected c" "connect_call x c = Some as" "x = 0 \<or> server_find_lost_client_by_pid w x = None"
    and "object_path_handler path (connect_message sender as) w = Inr (w', Some (Method_return ret))" "ret \<noteq> []"
  defines "c' \<equiv> lash_dbus_service_connect (e_uuids E) x (\<lambda>_. Some ret) c" and "d \<equiv> clients w' (next_client w)"
  shows "lc_server_connected c' \<and> known_as c' sender x d \<and> known_as c sender x d \<and> lc_id c' = cl_id d
     \<and> lc_name c' = Option.bind (cl_name d) name_or_null \<and> lc_data_path c' = Option.bind (cl_data_path d) name_or_null
     \<and> lc_project_name c' = Option.bind (cl_project d) (\<lambda>p. Option.bind (p_name (projects w' p)) name_or_null)"
proof -
  obtain cls wd where c: "lc_class c = Some cls" "lc_working_dir c = Some wd"
    and args: "connect_args (connect_message sender as) = Some (x, cls, lc_flags c, wd, lc_argv c)"
    using connect_args_call [OF assms(4)] by metis
  have "lashd_dbus_connect E (Some sender) (Some (x, cls, lc_flags c, wd, lc_argv c)) w = Inr (w', Method_return ret)"
    using connect_dispatched [OF assms(2,7,6)] args by simp
  then obtain a where add: "server_add_client E sender x cls (lc_flags c) wd (lc_argv c) w = Inr (w', a)"
    and ret: "connect_reply w' (clients w' a) = Method_return ret"
    by (auto simp: lashd_dbus_connect_def bindr_Inr_iff)
  note ident = added_client_identity [OF add assms(5)]
  then have d: "d = clients w' a" by (simp add: d_def)
  have id: "cl_id d = new_uuids w 0" "cl_id_str d = uuid_unparse (e_uuids E) (new_uuids w 0)" "cl_pid d = x"
    "cl_flags d = lc_flags c" "cl_class d = Some cls" "cl_working_dir d = Some wd" "cl_argv d = lc_argv c"
    "cl_dbus_name d = Some sender"
    using ident by (auto simp: d identity_def)
  obtain pn where pn: "(case cl_project d of None \<Rightarrow> Some '''' | Some p \<Rightarrow> p_name (projects w' p)) = Some pn"
    and r: "ret = [DString (cl_id_str d), DString (case cl_name d of Some n \<Rightarrow> n | None \<Rightarrow> ''''), DString pn,
           DString (case cl_data_path d of Some d \<Rightarrow> d | None \<Rightarrow> ''''), DInt32 (cl_flags d),
           DString (case cl_working_dir d of Some d \<Rightarrow> d | None \<Rightarrow> '''')]"
    using ret by (auto simp: connect_reply_def d split: option.split_asm)
  have "c' = c\<lparr>lc_id := cl_id d, lc_name := Option.bind (cl_name d) name_or_null, lc_project_name := name_or_null pn,
      lc_data_path := Option.bind (cl_data_path d) name_or_null, lc_server_connected := True\<rparr>"
    using assms(3,4) c id uuid_lib_okD(1) [OF assms(1)]
    by (simp add: c'_def lash_dbus_service_connect_def lash_dbus_service_connect_handler_def r name_or_null_def
        split: option.split)
  moreover have "name_or_null pn = Option.bind (cl_project d) (\<lambda>p. Option.bind (p_name (projects w' p)) name_or_null)"
    using pn by (auto simp: name_or_null_def split: option.split_asm)
  ultimately show ?thesis using c id by (simp add: known_as_def)
qed

definition piano :: lash_client_t where
  "piano = lash_client_new\<lparr>lc_class := Some ''piano'', lc_working_dir := Some ''/d'', lc_argv := [''piano'']\<rparr>"

lemma piano_connects:
  "\<exists>w' ret. lashd_dbus_connect example_env (Some '':9'') (Some (0, ''piano'', 0, ''/d'', [''piano''])) example_world
     = Inr (w', Method_return ret) \<and> ret \<noteq> []"
proof -
  let ?c = "client_new\<lparr>cl_class := Some ''piano'', cl_argv := [''piano''], cl_dbus_name := Some '':9'', cl_working_dir := Some ''/d''\<rparr>"
  let ?w1 = "upd_client 3 (\<lambda>_. ?c) (example_world\<lparr>next_client := 4\<rparr>)"
  have newborn: "server_get_newborn_project ?w1 = Inr (?w1, 0)"
    by (simp add: server_get_newborn_project_def example_world_def upd_client_def project_new_def)
  obtain w3 where w3: "project_new_client example_env 0 3 ?w1 = Inr w3"
    "jackdbus w3 = jackdbus example_world" "p_name (projects w3 0) = Some ''demo''" "cl_project (clients w3 3) = Some 0"
    by (simp add: project_new_client_def Let_def example_world_def upd_client_def upd_project_def client_new_def
        CLIENT_CONFIG_DATA_SET_def flag_defs project_name_client_def project_get_unique_client_name_def
        project_get_client_by_name_def client_find_by_name_def clients_of_def lost_clients_of_def project_new_def
        project_set_modified_status_def emit_def)
  then have "server_add_client example_env '':9'' 0 ''piano'' 0 ''/d'' [''piano''] example_world = Inr (w3, 3)"
    using newborn by (simp add: server_add_client_def Let_def example_world_def client_new_def bind_unknown_def
        unknown_by_pid_def jack_mgr_client_find_by_pid_def)
  then show ?thesis using w3 by (simp add: lashd_dbus_connect_def connect_reply_def)
qed

lemma connect_handshake_witness:
  "\<exists>(w' :: world) ret. lc_server_connected (lash_dbus_service_connect example_uuids 0 (\<lambda>_. Some ret) piano)
     \<and> lc_id (lash_dbus_service_connect example_uuids 0 (\<lambda>_. Some ret) piano) = cl_id (clients w' 3)"
proof -
  obtain path where path: "lashd_object example_env [] (\<lambda>_. 0) = Inr (Some path)" using object_created by blast
  have as: "connect_call 0 piano = Some [DInt32 0, DString ''piano'', DInt32 0, DString ''/d'', DArray ''s'' [DString ''piano'']]"
    by (simp add: connect_call_def piano_def lash_client_new_def)
  obtain w' ret where ret: "ret \<noteq> []"
    "lashd_dbus_connect example_env (Some '':9'') (Some (0, ''piano'', 0, ''/d'', [''piano''])) example_world = Inr (w', Method_return ret)"
    using piano_connects by blast
  have "object_path_handler path (connect_message '':9'' [DInt32 0, DString ''piano'', DInt32 0, DString ''/d'',
      DArray ''s'' [DString ''piano'']]) example_world = Inr (w', Some (Method_return ret))"
    using ret unfolding connect_answer [OF path] by (simp add: connect_args_def connect_message_def)
  moreover have "\<not> lc_server_connected piano" by (simp add: piano_def lash_client_new_def)
  moreover have "uuid_lib_ok (e_uuids example_env)" "e_uuids example_env = example_uuids"
    by (simp_all add: example_env_def example_uuids_ok)
  moreover have "next_client example_world = 3" by (simp add: example_world_def)
  ultimately have "lc_server_connected (lash_dbus_service_connect example_uuids 0 (\<lambda>_. Some ret) piano)
     \<and> lc_id (lash_dbus_service_connect example_uuids 0 (\<lambda>_. Some ret) piano) = cl_id (clients w' 3)"
    using connect_handshake [OF _ path _ as _ _ ret(1), where w = example_world and sender = "'':9''" and w' = w'] by auto
  then show ?thesis by blast
qed

end
