(* ===== verification/LibSignals.thy ===== *)
theory LibSignals
  imports LibDaemon
begin

text \<open>
  The daemon's signals at the client: a save from the signal to the answer, and what a
  client that is also a controller makes of the other signals.
\<close>

definition signal_message :: "string \<times> string \<times> dval list \<Rightarrow> message" where
  "signal_message sig = (case sig of (iface, member, as) \<Rightarrow>
     \<lparr>msg_type = Message_signal, msg_interface = Some iface, msg_member = Some member, msg_sender = None, msg_args = as\<rparr>)"

lemma save_signal_of:
  "signal_of (Save_signal (Some p) t) = Some (''org.nongnu.LASH.Server'', ''Save'', [DString p, DUint64 t])"
  by (simp add: server_signal_def string_args_def)

section \<open>A save, from the signal to the answer\<close>

definition idle_saver :: "string \<Rightarrow> lib \<Rightarrow> bool" where
  "idle_saver p s \<longleftrightarrow> (let c = lb_client s in lc_server_connected c \<and> lc_project_name c = Some p \<and> lc_pending_task c = 0
     \<and> lc_flags c AND LASH_Config_Data_Set = 0 \<and> lc_flags c AND LASH_Config_File \<noteq> 0 \<and> cb_save c = None
     \<and> lc_events_in c = [] \<and> lb_pending s = None)"

definition task_event :: "event_type \<Rightarrow> cstr \<Rightarrow> lash_event" where
  "task_event ty str = lash_event_set_string str (lash_event_new\<lparr>ev_type := ty, ev_ctor := Some Ctor_task_done\<rparr>)"

lemma task_event_type [simp]: "ev_type (task_event ty str) = ty" "ev_ctor (task_event ty str) = Some Ctor_task_done"
  by (simp_all add: task_event_def lash_event_set_string_def)

lemma save_received:
  assumes "idle_saver p s" "queue_ok outs s"
  shows "lash_get_event U x (Some (signal_message (''org.nongnu.LASH.Server'', ''Save'', [DString p, DUint64 t]))) s =
     Inr (s\<lparr>lb_client := (lb_client s)\<lparr>lc_pending_task := t, lc_task_progress := 0, lc_events_in := [], lc_num_events_in := 0\<rparr>,
            lb_events := (lb_events s)(lb_next s \<mapsto> task_event LASH_Save_File (lc_data_path (lb_client s))),
            lb_next := lb_next s + 1, lb_pending := Some (lb_next s)\<rparr>, Some (lb_next s))"
proof -
  have "lc_num_events_in (lb_client s) = 0"
    using assms by (simp add: queue_ok_def idle_saver_def Let_def)
  then show ?thesis
    using assms(1)
    by (simp add: idle_saver_def Let_def lash_get_event_def lash_handle_pending_event_def lash_dispatch_once_def
        signal_message_def lash_dbus_signal_handler_def lash_server_signal_handler_def lash_new_save_task_def
        start_task_def upd_def lash_client_add_event_def lash_event_new_with_all_def lash_event_new_with_type_def
        task_event_def [symmetric] take_event_def live_event_def is_task_type_def)
qed

text \<open>C9. A save goes round: the daemon's signal for a client's project becomes one event with the client's
  path in its queue, and when the application sends the event back, the only thing the library sends is
  the progress call that completes exactly this task, which the daemon hands to the client's
  task with 255 per cent; afterwards the client is idle again and no event is left.\<close>

theorem save_goes_round:
  assumes "signal_of ev = Some sig" "ev = Save_signal (Some p) t" "t \<noteq> 0"
    and "idle_saver p s" "queue_ok outs s"
    and "lashd_object E appdb mtimes = Inr (Some path)"
  shows "\<exists>s1 s2 a.
      lash_get_event U x (Some (signal_message sig)) s = Inr (s1, Some a)
    \<and> lb_events s1 a = Some (task_event LASH_Save_File (lc_data_path (lb_client s)))
    \<and> lash_send_event a s1 = Inr s2
    \<and> lb_out s2 = lb_out s @ [Server_call ''Progress'' [DUint64 t, DByte 255]]
    \<and> idle_saver p s2 \<and> lb_events s2 = (lb_events s)(a := None)
    \<and> object_path_handler path \<lparr>msg_type = Message_method_call, msg_interface = Some ''org.nongnu.LASH.Server'',
         msg_member = Some ''Progress'', msg_sender = Some sender, msg_args = [DUint64 t, DByte 255]\<rparr> w
      = bindr (lashd_dbus_progress E sender (Some t) (Some 255) w)
          (\<lambda>(w1, e). Inr (w1, Some (case e of None \<Rightarrow> Method_return [] | Some e \<Rightarrow> Error_reply e)))"
proof -
  let ?m = "\<lparr>msg_type = Message_method_call, msg_interface = Some ''org.nongnu.LASH.Server'',
         msg_member = Some ''Progress'', msg_sender = Some sender, msg_args = [DUint64 t, DByte 255]\<rparr>"
  let ?a = "lb_next s"
  let ?s1 = "s\<lparr>lb_client := (lb_client s)\<lparr>lc_pending_task := t, lc_task_progress := 0, lc_events_in := [], lc_num_events_in := 0\<rparr>,
            lb_events := (lb_events s)(?a \<mapsto> task_event LASH_Save_File (lc_data_path (lb_client s))),
            lb_next := lb_next s + 1, lb_pending := Some ?a\<rparr>"
  let ?s2 = "s\<lparr>lb_client := (lb_client s)\<lparr>lc_pending_task := 0, lc_task_progress := 0, lc_events_in := [], lc_num_events_in := 0\<rparr>,
            lb_events := (lb_events s)(?a := None), lb_next := lb_next s + 1, lb_pending := None,
            lb_out := lb_out s @ [Server_call ''Progress'' [DUint64 t, DByte 255]]\<rparr>"
  have sig: "sig = (''org.nongnu.LASH.Server'', ''Save'', [DString p, DUint64 t])"
    using assms(1,2) save_signal_of by simp
  have got: "lash_get_event U x (Some (signal_message sig)) s = Inr (?s1, Some ?a)"
    unfolding sig by (rule save_received [OF assms(4,5)])
  have sent: "lash_send_event ?a ?s1 = Inr ?s2"
    using assms(3,4)
    by (simp add: lash_send_event_def clear_pending_def live_event_def run_ctor_def lash_task_done_def lash_event_destroy_def out_def end_task_def upd_def
        idle_saver_def Let_def)
  have idle: "idle_saver p ?s2" using assms(4) by (simp add: idle_saver_def Let_def)
  have meant: "meant (op_interfaces path) ?m = [g_lashd_interface_server E]"
    by (simp add: meant_def object_interfaces [OF assms(6)] lashd_interfaces_def g_dbus_interface_dtor_introspectable_def
        g_lashd_interface_server_def)
  have offers: "offers ''Progress'' (g_lashd_interface_server E)"
    by (simp add: offers_def g_lashd_interface_server_def server_methods_def)
  have answer: "answer doc (g_lashd_interface_server E) ''Progress'' ?m w =
      run_method (Some (\<lambda>m w. task_method (\<lambda>s. lashd_dbus_progress E s (task_arg m) (percentage_arg m) w) m w)) ?m w" for doc
    by (simp add: answer_def g_lashd_interface_server_def server_methods_def)
  have "object_path_handler path ?m w = bindr (lashd_dbus_progress E sender (Some t) (Some 255) w)
      (\<lambda>(w1, e). Inr (w1, Some (case e of None \<Rightarrow> Method_return [] | Some e \<Rightarrow> Error_reply e)))"
    using handler_target [of ?m "''Progress''" path w] offers
    by (cases "lashd_dbus_progress E sender (Some t) (Some 255) w")
      (auto simp: meant answer run_method_def task_method_def task_arg_def percentage_arg_def split: option.split)
  then show ?thesis using got sent idle by (intro exI [of _ ?s1] exI [of _ ?s2] exI [of _ ?a]) simp
qed

lemma save_goes_round_witness:
  "\<exists>s1 s2 a. lash_get_event example_uuids None (Some (signal_message (''org.nongnu.LASH.Server'', ''Save'',
        [DString ''p'', DUint64 7]))) (lib_new example_client) = Inr (s1, Some a)
     \<and> lash_send_event a s1 = Inr s2 \<and> lb_out s2 = [Server_call ''Progress'' [DUint64 7, DByte 255]]"
proof -
  obtain path where path: "lashd_object example_env [] (\<lambda>_. 0) = Inr (Some path)" using object_created by blast
  have idle: "idle_saver ''p'' (lib_new example_client)"
    by (simp add: idle_saver_def lib_new_def example_client_def lash_client_new_def LASH_Config_File_def
        LASH_Config_Data_Set_def Let_def)
  have ok: "queue_ok {} (lib_new example_client)" by (simp add: queue_ok_def lib_new_def Let_def)
  have out: "lb_out (lib_new example_client) = []" by (simp add: lib_new_def)
  have seven: "(7 :: u64) \<noteq> 0" by simp
  show ?thesis
    using save_goes_round [OF save_signal_of refl seven idle ok path, of example_uuids None] unfolding out append_Nil by blast
qed

section \<open>A client that is also a controller\<close>

lemma save_ignored:
  "lc_project_name (lb_client s) \<noteq> Some p \<Longrightarrow>
     lash_dbus_signal_handler U (signal_message (''org.nongnu.LASH.Server'', ''Save'', [DString p, DUint64 t])) s = s"
  by (simp add: lash_dbus_signal_handler_def signal_message_def lash_server_signal_handler_def)

text \<open>C39. A client opened as a controller takes every control signal that carries its project's name and another
  string (a new path, description or notes of the project) for a new name of the project: from then on
  it ignores the project's saves.\<close>

theorem controller_misreads_signals:
  assumes "signal_of ev = Some (''org.nongnu.LASH.Control'', member, [DString p, DString q])"
    and "lc_is_controller (lb_client s) = 2" "lc_project_name (lb_client s) = Some p" "p \<noteq> q"
    and "signal_of (Save_signal (Some p) t) = Some save"
  shows "let s' = lash_dbus_signal_handler U (signal_message (''org.nongnu.LASH.Control'', member, [DString p, DString q])) s
     in lc_project_name (lb_client s') = name_or_null q
      \<and> lash_dbus_signal_handler U (signal_message save) s' = s'"
proof -
  let ?as = "[DString p, DString q]"
  have project: "lc_project_name (lb_client (lash_control_signal_handler U member ?as t)) = lc_project_name (lb_client t)" for t
    by (simp add: lash_control_signal_handler_def split: option.split prod.split)
  have renamed: "lc_project_name (lb_client (lash_project_name_changed_handler ?as s)) = name_or_null q"
    "lc_is_controller (lb_client (lash_project_name_changed_handler ?as s)) = 2"
    using assms(2,3) by (simp_all add: lash_project_name_changed_handler_def upd_def Let_def)
  let ?s = "lash_dbus_signal_handler U (signal_message (''org.nongnu.LASH.Control'', member, ?as)) s"
  have name: "lc_project_name (lb_client ?s) = name_or_null q"
    using assms(2) renamed project by (simp add: lash_dbus_signal_handler_def signal_message_def Let_def)
  have "save = (''org.nongnu.LASH.Server'', ''Save'', [DString p, DUint64 t])"
    using assms(5) save_signal_of by simp
  moreover have "name_or_null q \<noteq> Some p" using assms(4) by (simp add: name_or_null_def lash_strdup_def)
  ultimately have "lash_dbus_signal_handler U (signal_message save) ?s = ?s"
    using name save_ignored [of ?s p U t] by simp
  then show ?thesis using name by (simp add: Let_def)
qed

lemma controller_misreads_signals_witness:
  "lc_project_name (lb_client (lash_dbus_signal_handler example_uuids
      (signal_message (''org.nongnu.LASH.Control'', ''ProjectDescriptionChanged'', [DString ''p'', DString ''my song'']))
      (lib_new (example_client\<lparr>lc_is_controller := 2\<rparr>)))) = name_or_null ''my song''"
  using controller_misreads_signals [of "Project_description_changed (Some ''p'') (Some ''my song'')" "''ProjectDescriptionChanged''"
      "''p''" "''my song''" "lib_new (example_client\<lparr>lc_is_controller := 2\<rparr>)" 7 _ example_uuids, OF _ _ _ _ save_signal_of]
  by (simp add: control_signal_def string_args_def lib_new_def example_client_def Let_def)

end
