(* ===== verification/Naming.thy ===== *)
theory Naming
  imports Control
begin

text \<open>
  The names of projects: the daemon finds projects by name, so new ones get a free one, and
  what a rename makes of that.
\<close>

section \<open>Candidates\<close>

text \<open>The names tried, in order.\<close>

definition candidate :: "string \<Rightarrow> nat \<Rightarrow> string" where
  "candidate s k = (if k < 2 then s else s @ '' '' @ show_nat k)"

definition info_path :: "world \<Rightarrow> string \<Rightarrow> string" where
  "info_path w name = projects_dir w @ slash # name @ slash # PROJECT_INFO_FILE"

text \<open>Every loaded project has a name.\<close>

definition all_named :: "world \<Rightarrow> bool" where
  "all_named w \<longleftrightarrow> (\<forall>p \<in> set (loaded_projects w). p_name (projects w p) \<noteq> None)"

definition taken :: "world \<Rightarrow> string \<Rightarrow> bool" where
  "taken w name \<longleftrightarrow> Some name \<in> (\<lambda>p. p_name (projects w p)) ` set (loaded_projects w)
     \<or> lash_file_exists (disk w) (info_path w name)"

lemma find_by_str_total:
  "\<forall>a \<in> set as. f a \<noteq> None \<Longrightarrow> find_by_str f s as = Inr (List.find (\<lambda>a. f a = Some s) as)"
  by (induction as) auto

lemma name_is_free_iff:
  assumes "all_named w"
  shows "name_is_free w name = Inr (\<not> taken w name)"
proof -
  have "(List.find (\<lambda>p. p_name (projects w p) = Some name) (loaded_projects w) = None) =
      (Some name \<notin> (\<lambda>p. p_name (projects w p)) ` set (loaded_projects w))"
    by (auto simp: find_None_iff image_iff)
  then show ?thesis using assms
    by (auto simp: name_is_free_def server_find_project_by_name_def find_by_str_total all_named_def taken_def info_path_def)
qed

lemma candidate_inj: "0 < j \<Longrightarrow> 0 < k \<Longrightarrow> candidate s j = candidate s k \<Longrightarrow> j = k"
  by (auto simp: candidate_def show_nat_inj split: if_split_asm)

lemma info_path_inj: "info_path w a = info_path w b \<Longrightarrow> a = b"
  by (simp add: info_path_def)

text \<open>Fewer names are taken than there are loaded projects and files.\<close>

lemma some_candidate_free:
  assumes "n = length (loaded_projects w) + length (nodes (disk w))"
  shows "\<exists>k. 0 < k \<and> k \<le> Suc n \<and> \<not> taken w (candidate s k)"
proof (rule ccontr)
  assume "\<not> ?thesis"
  then have all: "\<forall>k \<in> {1..Suc n}. taken w (candidate s k)" by auto
  let ?names = "the ` (\<lambda>p. p_name (projects w p)) ` set (loaded_projects w)"
  let ?files = "fst ` set (nodes (disk w))"
  let ?cs = "candidate s ` {1..Suc n}"
  have "?cs \<subseteq> ?names \<union> {x. info_path w x \<in> ?files}"
  proof
    fix x assume "x \<in> ?cs"
    then have "taken w x" using all by auto
    then show "x \<in> ?names \<union> {x. info_path w x \<in> ?files}"
    proof (cases "lash_file_exists (disk w) (info_path w x)")
      case True
      then have "info_path w x \<in> ?files"
        by (force simp: lash_file_exists_def posix_stat_def node_at_def split: option.split_asm dest!: map_of_SomeD)
      then show ?thesis by simp
    next
      case False
      then have "Some x \<in> (\<lambda>p. p_name (projects w p)) ` set (loaded_projects w)" using \<open>taken w x\<close> by (simp add: taken_def)
      then show ?thesis by (metis UnI1 image_eqI option.sel)
    qed
  qed
  moreover have fin: "finite {x. info_path w x \<in> ?files}" and card_files: "card {x. info_path w x \<in> ?files} \<le> length (nodes (disk w))"
  proof -
    have inj: "inj_on (info_path w) {x. info_path w x \<in> ?files}" by (auto simp: inj_on_def dest: info_path_inj)
    have sub: "info_path w ` {x. info_path w x \<in> ?files} \<subseteq> ?files" by auto
    show "finite {x. info_path w x \<in> ?files}" using inj sub by (meson List.finite_set finite_imageI inj_on_finite)
    have "card {x. info_path w x \<in> ?files} \<le> card ?files" using inj sub by (meson List.finite_set card_inj_on_le finite_imageI)
    also have "\<dots> \<le> length (nodes (disk w))" by (metis card_length length_map list.set_map)
    finally show "card {x. info_path w x \<in> ?files} \<le> length (nodes (disk w))" .
  qed
  moreover have "card ?names \<le> length (loaded_projects w)"
    by (metis card_length length_map list.set_map)
  ultimately have "card ?cs \<le> n" using assms
    by (meson List.finite_set add_mono card_Un_le card_mono finite_UnI finite_imageI order_trans)
  moreover have "card ?cs = Suc n"
    by (subst card_image) (auto simp: inj_on_def intro: candidate_inj)
  ultimately show False by simp
qed

section \<open>New names are free\<close>

lemma candidate_fits:
  assumes "length s \<le> 1023" "k < 10 ^ 9"
  shows "sprintf_into 1034 (s @ '' '' @ show_nat k) = Inr (s @ '' '' @ show_nat k)"
  using assms length_show_nat_le [of k 9] by simp

text \<open>The loop that has come to the candidate \<open>j\<close> returns the first free one.\<close>

lemma new_name_loop_first:
  assumes "all_named w" "length s \<le> 1023"
  shows "0 < j \<Longrightarrow> j \<le> k \<Longrightarrow> k < 10 ^ 9 \<Longrightarrow> \<not> taken w (candidate s k) \<Longrightarrow> (\<forall>i. j \<le> i \<and> i < k \<longrightarrow> taken w (candidate s i)) \<Longrightarrow>
     new_name_loop w s (candidate s j) (j + 1) = Inr (Some (candidate s k))"
proof (induction "k - j" arbitrary: j)
  case 0
  then have "j = k" by simp
  then show ?case using 0 assms(1) by (subst new_name_loop.simps) (simp add: name_is_free_iff)
next
  case (Suc d)
  then have t: "taken w (candidate s j)" and next_j: "candidate s (j + 1) = s @ '' '' @ show_nat (j + 1)"
    by (auto simp: candidate_def)
  have "sprintf_into 1034 (s @ '' '' @ show_nat (j + 1)) = Inr (s @ '' '' @ show_nat (j + 1))"
    by (rule candidate_fits [OF assms(2)]) (use Suc in simp)
  moreover have "new_name_loop w s (candidate s (j + 1)) (j + 1 + 1) = Inr (Some (candidate s k))"
    using Suc by (intro Suc.hyps(1)) auto
  ultimately show ?case using t next_j Suc.prems assms(1)
    by (subst new_name_loop.simps) (simp add: name_is_free_iff)
qed

definition base_name :: "cstr \<Rightarrow> string" where
  "base_name suggestion = (case suggestion of Some (c # cs) \<Rightarrow> c # cs | _ \<Rightarrow> ''New Project'')"

lemma new_name_first:
  assumes "all_named w" "length (base_name suggestion) \<le> 1023"
    and "length (loaded_projects w) + length (nodes (disk w)) < 999999999"
  shows "\<exists>k. server_create_new_project_name w suggestion = Inr (Some (candidate (base_name suggestion) k))
     \<and> \<not> taken w (candidate (base_name suggestion) k) \<and> 0 < k \<and> (\<forall>i. 0 < i \<and> i < k \<longrightarrow> taken w (candidate (base_name suggestion) i))"
proof -
  let ?free = "\<lambda>k. 0 < k \<and> \<not> taken w (candidate (base_name suggestion) k)"
  obtain k0 where k0: "?free k0" "k0 \<le> Suc (length (loaded_projects w) + length (nodes (disk w)))"
    using some_candidate_free [OF refl, of w "base_name suggestion"] by blast
  obtain k where k: "?free k" "k \<le> k0" and before: "\<forall>i. 0 < i \<and> i < k \<longrightarrow> taken w (candidate (base_name suggestion) i)"
  proof (rule that)
    show "?free (LEAST k. ?free k)" "(LEAST k. ?free k) \<le> k0" using k0(1) by (rule LeastI, rule Least_le)
    show "\<forall>i. 0 < i \<and> i < (LEAST k. ?free k) \<longrightarrow> taken w (candidate (base_name suggestion) i)"
      using not_less_Least [of _ ?free] by blast
  qed
  have "k < 10 ^ 9" using k(2) k0(2) assms(3) by simp
  then have "new_name_loop w (base_name suggestion) (candidate (base_name suggestion) 1) (1 + 1)
      = Inr (Some (candidate (base_name suggestion) k))"
    by (intro new_name_loop_first [OF assms(1,2)]) (use k before in auto)
  then have "new_name_loop w (base_name suggestion) (base_name suggestion) 2 = Inr (Some (candidate (base_name suggestion) k))"
    by (simp only: one_add_one) (simp add: candidate_def)
  moreover have "server_create_new_project_name w suggestion = new_name_loop w (base_name suggestion) (base_name suggestion) 2"
    using assms(2) unfolding server_create_new_project_name_def base_name_def
    by (cases suggestion; cases "the suggestion") simp_all
  ultimately show ?thesis using k(1) before by metis
qed



section \<open>A rename need not keep names apart\<close>

text \<open>Nothing keeps a project from being renamed to another loaded project's name; from then on requests
  by that name reach only the one loaded first.\<close>

theorem rename_makes_duplicates:
  assumes "loaded_projects w = p # ps" "q \<in> set ps" "p \<noteq> q"
    and "p_name (projects w p) = Some a" "p_name (projects w q) = Some b" "a \<noteq> b"
  shows "\<exists>w'. lashd_dbus_project_rename (Some (a, b)) w = Inr (w', No_reply)
     \<and> p_name (projects w' p) = Some b \<and> p_name (projects w' q) = Some b
     \<and> server_find_project_by_name w' (Some b) = Inr (Some p)"
  using assms
  by (auto simp: lashd_dbus_project_rename_def with_project_def server_find_project_by_name_def project_rename_def Let_def
      project_set_modified_status_def emit_def upd_project_def lash_strdup_def)

definition two_projects :: world where
  "two_projects = example_world\<lparr>projects := (\<lambda>p. project_new\<lparr>p_name := Some (if p = 0 then ''one'' else ''two'')\<rparr>),
     loaded_projects := [0, 1], next_project := 2\<rparr>"

lemma rename_makes_duplicates_witness:
  "\<exists>w'. lashd_dbus_project_rename (Some (''one'', ''two'')) two_projects = Inr (w', No_reply)
     \<and> p_name (projects w' 0) = Some ''two'' \<and> p_name (projects w' 1) = Some ''two''
     \<and> server_find_project_by_name w' (Some ''two'') = Inr (Some 0)"
  by (rule rename_makes_duplicates [where ps = "[1]"]) (simp_all add: two_projects_def example_world_def project_new_def)

end
