(* ===== verification/JackLib.thy ===== *)
theory JackLib
  imports JackPatch Dbus
begin

text \<open>
  The manager of JACK connections over libjack (\<^verbatim>\<open>lashd/jack_mgr.c\<close>, \<^verbatim>\<open>jack_fport.c\<close>, and
  \<^verbatim>\<open>jack_mgr_client_dup_uniq_patches\<close> of \<^verbatim>\<open>jack_mgr_client.c\<close>), of the build without the JACK D-Bus
  service: managed clients, ports of other programs (\<open>foreign\<close> ports), and the notices that JACK's
  callbacks send over a socket to the manager's thread.
\<close>

section \<open>State\<close>

record jl_client =
  jl_name :: string
  jl_id :: uuid
  jl_old_patches :: "jack_patch list"
  jl_backup_patches :: "jack_patch list"
  jl_patches :: "jack_patch list"

record jack_fport =
  fp_id :: u32
  fp_name :: string
  fp_client_name :: string
  fp_port_name :: string

text \<open>The successful connections the manager has asked JACK for are kept as a trace.\<close>

record jack_mgr =
  jl_clients :: "jl_client list"
  jl_foreign_ports :: "jack_fport list"
  jl_connected :: "(string \<times> string) list"
  jl_last_backup :: int

text \<open>
  What libjack answers: the name of a port, the ports whose name matches a regular expression
  (\<open>True\<close> for input ports), the ports connected to one, whether a connection can be made.
\<close>

record jack_lib =
  jk_port_by_id :: "u32 \<Rightarrow> cstr"
  jk_get_ports :: "string \<Rightarrow> bool \<Rightarrow> string list option"
  jk_all_connections :: "string \<Rightarrow> string list option"
  jk_connect :: "string \<Rightarrow> string \<Rightarrow> bool"

definition jack_mgr_new :: jack_mgr where
  "jack_mgr_new = \<lparr>jl_clients = [], jl_foreign_ports = [], jl_connected = [], jl_last_backup = 0\<rparr>"

definition jl_client_new :: jl_client where
  "jl_client_new = \<lparr>jl_name = '''', jl_id = 0, jl_old_patches = [], jl_backup_patches = [], jl_patches = []\<rparr>"

text \<open>The part of the clients that patches look at.\<close>

definition names_ids :: "jl_client list \<Rightarrow> mgr_client list" where
  "names_ids cs = map (\<lambda>c. (jl_name c, jl_id c)) cs"

section \<open>Foreign ports\<close>

definition jack_fport_new :: "u32 \<Rightarrow> string \<Rightarrow> jack_fport" where
  "jack_fport_new i name =
     (if CHR '':'' \<in> set name then
        \<lparr>fp_id = i, fp_name = name, fp_client_name = takeWhile (\<lambda>c. c \<noteq> CHR '':'') name,
         fp_port_name = tl (dropWhile (\<lambda>c. c \<noteq> CHR '':'') name)\<rparr>
      else \<lparr>fp_id = i, fp_name = name, fp_client_name = name, fp_port_name = name\<rparr>)"

fun remove_first :: "('a \<Rightarrow> bool) \<Rightarrow> 'a list \<Rightarrow> 'a list" where
  "remove_first P [] = []"
| "remove_first P (x # xs) = (if P x then xs else x # remove_first P xs)"

definition jack_mgr_remove_foreign_port :: "u32 \<Rightarrow> jack_mgr \<Rightarrow> jack_mgr" where
  "jack_mgr_remove_foreign_port i m = m\<lparr>jl_foreign_ports := remove_first (\<lambda>p. fp_id p = i) (jl_foreign_ports m)\<rparr>"

definition jack_mgr_check_foreign_ports :: "jack_lib \<Rightarrow> jack_mgr \<Rightarrow> jack_mgr" where
  "jack_mgr_check_foreign_ports L m =
     m\<lparr>jl_foreign_ports := filter (\<lambda>p. jk_port_by_id L (fp_id p) \<noteq> None) (jl_foreign_ports m)\<rparr>"

section \<open>Resuming connections\<close>

definition resume_patch :: "jack_lib \<Rightarrow> jack_patch \<Rightarrow> (string \<times> string) list \<Rightarrow> ((string \<times> string) list \<times> bool) res" where
  "resume_patch L p done =
     (case (src_desc p, dest_desc p) of
        (Some s, Some d) \<Rightarrow> Inr (if jk_connect L s d then (done @ [(s, d)], True) else (done, False))
      | _ \<Rightarrow> Inl Null_deref)"

text \<open>\<open>strcmp (client, a) == 0 && strcmp (port, b) == 0\<close>.\<close>

definition is_end :: "string \<Rightarrow> string \<Rightarrow> cstr \<Rightarrow> cstr \<Rightarrow> bool res" where
  "is_end client port a b =
     bindr (strcmp_ne a client) (\<lambda>ne. if ne then Inr False else bindr (strcmp_ne b port) (\<lambda>ne2. Inr (\<not> ne2)))"

text \<open>The loop over the old patches of a client: the patches that stay, and the connections made.\<close>

fun resume_patches ::
  "uuid_lib \<Rightarrow> jack_lib \<Rightarrow> mgr_client list \<Rightarrow> string \<Rightarrow> string \<Rightarrow> jack_patch list \<Rightarrow> (string \<times> string) list \<Rightarrow>
   (jack_patch list \<times> (string \<times> string) list) res" where
  "resume_patches U L cs client port [] done = Inr ([], done)"
| "resume_patches U L cs client port (p # ps) done =
     bindr (jack_patch_dup U p) (\<lambda>q.
     bindr (jack_patch_unset U cs q) (\<lambda>(u, ok).
       if \<not> ok then resume_patches U L cs client port ps done
       else bindr (is_end client port (src_client u) (src_port u)) (\<lambda>is_src.
            bindr (if is_src then Inr True else is_end client port (dest_client u) (dest_port u)) (\<lambda>hit.
            bindr (if hit then resume_patch L u done else Inr (done, False)) (\<lambda>(done1, made).
            bindr (resume_patches U L cs client port ps done1) (\<lambda>(rest, done2).
              Inr (if made then rest else p # rest, done2)))))))"

definition jack_mgr_new_client_port :: "uuid_lib \<Rightarrow> jack_lib \<Rightarrow> string \<Rightarrow> nat \<Rightarrow> jack_mgr \<Rightarrow> jack_mgr res" where
  "jack_mgr_new_client_port U L port i m =
     bindr (resume_patches U L (names_ids (jl_clients m)) (jl_name (jl_clients m ! i)) port
              (jl_old_patches (jl_clients m ! i)) (jl_connected m)) (\<lambda>(rest, done).
       Inr (m\<lparr>jl_clients := (jl_clients m)[i := (jl_clients m ! i)\<lparr>jl_old_patches := rest\<rparr>], jl_connected := done\<rparr>))"

text \<open>The ports of a new client that are already there stop being foreign.\<close>

fun check_ports :: "uuid_lib \<Rightarrow> jack_lib \<Rightarrow> nat \<Rightarrow> jack_fport list \<Rightarrow> jack_mgr \<Rightarrow> jack_mgr res" where
  "check_ports U L i [] m = Inr m"
| "check_ports U L i (p # ps) m =
     (if jl_name (jl_clients m ! i) = fp_client_name p then
        bindr (jack_mgr_new_client_port U L (fp_port_name p) i m) (\<lambda>m1.
          check_ports U L i ps (m1\<lparr>jl_foreign_ports := remove1 p (jl_foreign_ports m1)\<rparr>))
      else check_ports U L i ps m)"

definition jack_mgr_check_client_ports :: "uuid_lib \<Rightarrow> jack_lib \<Rightarrow> nat \<Rightarrow> jack_mgr \<Rightarrow> jack_mgr res" where
  "jack_mgr_check_client_ports U L i m = check_ports U L i (jl_foreign_ports m) m"

section \<open>Clients\<close>

definition jack_mgr_add_client :: "uuid_lib \<Rightarrow> jack_lib \<Rightarrow> uuid \<Rightarrow> string \<Rightarrow> jack_patch list \<Rightarrow> jack_mgr \<Rightarrow> jack_mgr res" where
  "jack_mgr_add_client U L i name patches m =
     (let c = jl_client_new\<lparr>jl_id := i, jl_name := name, jl_old_patches := patches\<rparr>
      in jack_mgr_check_client_ports U L (length (jl_clients m)) (m\<lparr>jl_clients := jl_clients m @ [c]\<rparr>))"

text \<open>The patches of the last backup go to the front of the list given.\<close>

definition jack_mgr_remove_client :: "uuid \<Rightarrow> jack_patch list option \<Rightarrow> jack_mgr \<Rightarrow> jack_mgr \<times> jack_patch list option" where
  "jack_mgr_remove_client i backup_patches m =
     (case List.find (\<lambda>c. jl_id c = i) (jl_clients m) of
        None \<Rightarrow> (m, backup_patches)
      | Some c \<Rightarrow> (m\<lparr>jl_clients := remove_first (\<lambda>c. jl_id c = i) (jl_clients m)\<rparr>,
          map_option (\<lambda>ps. jl_backup_patches c @ ps) backup_patches))"

fun dup_patches :: "uuid_lib \<Rightarrow> jack_patch list \<Rightarrow> jack_patch list res" where
  "dup_patches U [] = Inr []"
| "dup_patches U (p # ps) = bindr (jack_patch_dup U p) (\<lambda>q. bindr (dup_patches U ps) (\<lambda>qs. Inr (q # qs)))"

text \<open>\<open>strcmp\<close> of two pointers that may be null, for equality.\<close>

definition strcmp_eq :: "cstr \<Rightarrow> cstr \<Rightarrow> bool res" where
  "strcmp_eq a b = (case (a, b) of (Some x, Some y) \<Rightarrow> Inr (x = y) | _ \<Rightarrow> Inl Null_deref)"

definition andr :: "bool res \<Rightarrow> bool res \<Rightarrow> bool res" where
  "andr a b = bindr a (\<lambda>x. if x then b else Inr False)"

definition same_patch :: "jack_patch \<Rightarrow> jack_patch \<Rightarrow> bool res" where
  "same_patch p q =
     andr (strcmp_eq (src_client p) (src_client q)) (andr (strcmp_eq (src_port p) (src_port q))
       (andr (strcmp_eq (dest_client p) (dest_client q)) (strcmp_eq (dest_port p) (dest_port q))))"

fun is_known :: "jack_patch \<Rightarrow> jack_patch list \<Rightarrow> bool res" where
  "is_known p [] = Inr False"
| "is_known p (q # qs) = bindr (same_patch p q) (\<lambda>eq. if eq then Inr True else is_known p qs)"

fun add_uniq :: "mgr_client list \<Rightarrow> jack_patch list \<Rightarrow> jack_patch list \<Rightarrow> jack_patch list res" where
  "add_uniq cs [] dest = Inr dest"
| "add_uniq cs (p # ps) dest =
     bindr (jack_patch_set cs p) (\<lambda>q. bindr (is_known q dest) (\<lambda>known.
       add_uniq cs ps (if known then dest else dest @ [q])))"

definition jack_mgr_client_dup_uniq_patches :: "uuid_lib \<Rightarrow> jl_client list \<Rightarrow> uuid \<Rightarrow> jack_patch list \<Rightarrow> jack_patch list res" where
  "jack_mgr_client_dup_uniq_patches U cs i dest =
     (case List.find (\<lambda>c. jl_id c = i) cs of
        None \<Rightarrow> Inr dest
      | Some c \<Rightarrow> bindr (dup_patches U (jl_patches c)) (\<lambda>ps. add_uniq (names_ids cs) ps dest))"

definition jack_mgr_get_client_patches :: "uuid_lib \<Rightarrow> uuid \<Rightarrow> jack_mgr \<Rightarrow> jack_patch list \<Rightarrow> jack_patch list res" where
  "jack_mgr_get_client_patches U i m dest = jack_mgr_client_dup_uniq_patches U (jl_clients m) i dest"


section \<open>The graph\<close>

fun patches_of_port :: "uuid_lib \<Rightarrow> bool \<Rightarrow> string \<Rightarrow> string list \<Rightarrow> jack_patch list res" where
  "patches_of_port U is_input port [] = Inr []"
| "patches_of_port U is_input port (other # os) =
     bindr (jack_patch_set_src U jack_patch_new port) (\<lambda>p1.
     bindr (jack_patch_set_dest U p1 other) (\<lambda>p2.
     bindr (patches_of_port U is_input port os) (\<lambda>ps.
       Inr ((if is_input then jack_patch_switch_clients p2 else p2) # ps))))"

fun patches_of_ports :: "uuid_lib \<Rightarrow> jack_lib \<Rightarrow> bool \<Rightarrow> string list \<Rightarrow> jack_patch list res" where
  "patches_of_ports U L is_input [] = Inr []"
| "patches_of_ports U L is_input (port # ports) =
     bindr (case jk_all_connections L port of None \<Rightarrow> Inr [] | Some os \<Rightarrow> patches_of_port U is_input port os) (\<lambda>ps.
     bindr (patches_of_ports U L is_input ports) (\<lambda>qs. Inr (ps @ qs)))"

definition jack_mgr_get_patches_with_type :: "uuid_lib \<Rightarrow> jack_lib \<Rightarrow> string \<Rightarrow> bool \<Rightarrow> jack_patch list res" where
  "jack_mgr_get_patches_with_type U L client_name is_input =
     bindr (sprintf_into (length client_name + 4) (client_name @ '':.*'')) (\<lambda>regex.
       case jk_get_ports L regex is_input of None \<Rightarrow> Inr [] | Some ports \<Rightarrow> patches_of_ports U L is_input ports)"

text \<open>The patches into a client come before those out of it.\<close>

definition jack_mgr_get_patches :: "uuid_lib \<Rightarrow> jack_lib \<Rightarrow> jl_client \<Rightarrow> jl_client res" where
  "jack_mgr_get_patches U L c =
     bindr (jack_mgr_get_patches_with_type U L (jl_name c) False) (\<lambda>outs.
     bindr (jack_mgr_get_patches_with_type U L (jl_name c) True) (\<lambda>ins.
       Inr (c\<lparr>jl_patches := ins @ outs\<rparr>)))"

fun map_res :: "('a \<Rightarrow> 'b res) \<Rightarrow> 'a list \<Rightarrow> 'b list res" where
  "map_res f [] = Inr []"
| "map_res f (x # xs) = bindr (f x) (\<lambda>y. bindr (map_res f xs) (\<lambda>ys. Inr (y # ys)))"

definition jack_mgr_graph_reorder_notification :: "uuid_lib \<Rightarrow> jack_lib \<Rightarrow> jack_mgr \<Rightarrow> jack_mgr res" where
  "jack_mgr_graph_reorder_notification U L m =
     bindr (map_res (jack_mgr_get_patches U L) (jl_clients m)) (\<lambda>cs.
       Inr (jack_mgr_check_foreign_ports L (m\<lparr>jl_clients := cs\<rparr>)))"

definition jack_mgr_port_notification :: "uuid_lib \<Rightarrow> jack_lib \<Rightarrow> u32 \<Rightarrow> jack_mgr \<Rightarrow> jack_mgr res" where
  "jack_mgr_port_notification U L port_id m =
     (case jk_port_by_id L port_id of
        None \<Rightarrow> Inr m
      | Some full \<Rightarrow>
          if CHR '':'' \<notin> set full then Inr m
          else
            (case first_index (\<lambda>c. jl_name c = takeWhile (\<lambda>c. c \<noteq> CHR '':'') full) (jl_clients m) of
               Some i \<Rightarrow> jack_mgr_new_client_port U L (tl (dropWhile (\<lambda>c. c \<noteq> CHR '':'') full)) i m
             | None \<Rightarrow> Inr (m\<lparr>jl_foreign_ports := jl_foreign_ports m @ [jack_fport_new port_id full]\<rparr>)))"

definition BACKUP_INTERVAL :: int where "BACKUP_INTERVAL = 30"

definition backup_client :: "uuid_lib \<Rightarrow> mgr_client list \<Rightarrow> jl_client \<Rightarrow> jl_client res" where
  "backup_client U cs c =
     bindr (dup_patches U (jl_patches c)) (\<lambda>ps. bindr (map_res (jack_patch_set cs) ps) (\<lambda>qs.
       Inr (c\<lparr>jl_backup_patches := qs\<rparr>)))"

definition jack_mgr_backup_patches :: "uuid_lib \<Rightarrow> int \<Rightarrow> jack_mgr \<Rightarrow> jack_mgr res" where
  "jack_mgr_backup_patches U now m =
     (if now - jl_last_backup m < BACKUP_INTERVAL then Inr m
      else bindr (map_res (backup_client U (names_ids (jl_clients m))) (jl_clients m)) (\<lambda>cs.
        Inr (m\<lparr>jl_clients := cs, jl_last_backup := now\<rparr>)))"

section \<open>The manager's thread\<close>

text \<open>
  What JACK's callbacks write to the socket: a mark, and for a port its number (four bytes in memory
  order) and whether it was registered, cut to one byte.
\<close>

datatype jack_notice = Port_registration u32 u32 | Graph_reorder

fun jack_mgr_callback :: "jack_notice \<Rightarrow> string" where
  "jack_mgr_callback (Port_registration port_id registered) =
     [CHR 0x01] @ u32_bytes port_id @ [char_of (unat registered)]"
| "jack_mgr_callback Graph_reorder = [CHR 0x00]"

text \<open>Reading one notice: the bytes of it, and the rest of the stream; \<open>None\<close> when a byte is missing.\<close>

definition read_notice :: "string \<Rightarrow> ((u32 \<times> bool) option \<times> string) option" where
  "read_notice bytes =
     (case bytes of
        [] \<Rightarrow> None
      | port_notify # rest \<Rightarrow>
          if port_notify = CHR 0x00 then Some (None, rest)
          else if length rest < 5 then None
          else Some (Some (bytes_u32 (take 4 rest), rest ! 4 \<noteq> CHR 0x00), drop 5 rest))"

definition jack_mgr_read_callback :: "uuid_lib \<Rightarrow> jack_lib \<Rightarrow> string \<Rightarrow> jack_mgr \<Rightarrow> (jack_mgr \<times> string) res" where
  "jack_mgr_read_callback U L bytes m =
     (case read_notice bytes of
        None \<Rightarrow> Inl Abort
      | Some (notice, rest) \<Rightarrow>
          bindr (case notice of
              Some (port_id, registered) \<Rightarrow>
                if registered then jack_mgr_port_notification U L port_id m
                else Inr (jack_mgr_remove_foreign_port port_id m)
            | None \<Rightarrow> jack_mgr_graph_reorder_notification U L m) (\<lambda>m1. Inr (m1, rest)))"

text \<open>One round of the thread, after \<open>select\<close>.\<close>

definition jack_mgr_callback_round ::
  "uuid_lib \<Rightarrow> jack_lib \<Rightarrow> int \<Rightarrow> bool \<Rightarrow> string \<Rightarrow> jack_mgr \<Rightarrow> (jack_mgr \<times> string) res" where
  "jack_mgr_callback_round U L now readable bytes m =
     bindr (if readable then jack_mgr_read_callback U L bytes m else Inr (m, bytes)) (\<lambda>(m1, rest).
     bindr (jack_mgr_backup_patches U now m1) (\<lambda>m2. Inr (m2, rest)))"

section \<open>Notices are read as they were written\<close>

text \<open>Whatever follows, one notice is read as it was sent, and the rest is left.\<close>

lemma read_notice_callback:
  "read_notice (jack_mgr_callback n @ rest) =
     Some (case n of Graph_reorder \<Rightarrow> None | Port_registration i r \<Rightarrow> Some (i, unat r mod 256 \<noteq> 0), rest)"
proof (cases n)
  case (Port_registration i r)
  have "(char_of (unat r) = CHR 0x00) = (unat r mod 256 = 0)"
  proof
    assume "char_of (unat r) = CHR 0x00"
    then have "of_char (char_of (unat r) :: char) = (of_char (CHR 0x00) :: nat)" by simp
    then show "unat r mod 256 = 0" by simp
  next
    assume z: "unat r mod 256 = 0"
    have "char_of (unat r) = (char_of (unat r mod 256) :: char)" by simp
    then show "char_of (unat r) = CHR 0x00" by (simp only: z) (simp add: char_of_def)
  qed
  then show ?thesis using Port_registration
    by (simp add: read_notice_def bytes_u32_inverse nth_append)
qed (simp add: read_notice_def)

section \<open>No port of a managed client is foreign\<close>

definition ports_ok :: "jack_mgr \<Rightarrow> bool" where
  "ports_ok m \<longleftrightarrow> (\<forall>p \<in> set (jl_foreign_ports m). \<forall>c \<in> set (jl_clients m). jl_name c \<noteq> fp_client_name p)"

lemma new_client_port_names:
  assumes "jack_mgr_new_client_port U L port i m = Inr m'" "i < length (jl_clients m)"
  shows "map jl_name (jl_clients m') = map jl_name (jl_clients m)" "jl_foreign_ports m' = jl_foreign_ports m"
  using assms by (auto simp: jack_mgr_new_client_port_def bindr_Inr_iff map_update list_update_id
      list_update_same_conv)

lemma ports_ok_names:
  "ports_ok m \<longleftrightarrow> fp_client_name ` set (jl_foreign_ports m) \<inter> set (map jl_name (jl_clients m)) = {}"
  by (force simp: ports_ok_def)

lemma check_ports_names:
  "check_ports U L i ps m = Inr m' \<Longrightarrow> i < length (jl_clients m) \<Longrightarrow>
     map jl_name (jl_clients m') = map jl_name (jl_clients m)
     \<and> jl_foreign_ports m' =
         fold remove1 (filter (\<lambda>p. fp_client_name p = jl_name (jl_clients m ! i)) ps) (jl_foreign_ports m)"
proof (induction ps arbitrary: m)
  case (Cons p ps)
  show ?case
  proof (cases "jl_name (jl_clients m ! i) = fp_client_name p")
    case True
    then obtain m1 where m1: "jack_mgr_new_client_port U L (fp_port_name p) i m = Inr m1"
      and rest: "check_ports U L i ps (m1\<lparr>jl_foreign_ports := remove1 p (jl_foreign_ports m1)\<rparr>) = Inr m'"
      using Cons.prems(1) by (auto simp: bindr_Inr_iff)
    note names = new_client_port_names [OF m1 Cons.prems(2)]
    have len: "length (jl_clients m1) = length (jl_clients m)" using names(1) by (metis length_map)
    have nth: "jl_name (jl_clients m1 ! i) = jl_name (jl_clients m ! i)"
      using names(1) Cons.prems(2) len by (metis nth_map)
    show ?thesis using Cons.IH [OF rest] Cons.prems(2) True names len nth by simp
  next
    case False
    then show ?thesis using Cons by auto
  qed
qed simp

lemma ports_ok_add:
  assumes "ports_ok m" "jack_mgr_add_client U L u name ps m = Inr m'"
  shows "ports_ok m'"
proof -
  let ?c = "jl_client_new\<lparr>jl_id := u, jl_name := name, jl_old_patches := ps\<rparr>"
  have run: "check_ports U L (length (jl_clients m)) (jl_foreign_ports m) (m\<lparr>jl_clients := jl_clients m @ [?c]\<rparr>) = Inr m'"
    using assms(2) by (simp add: jack_mgr_add_client_def jack_mgr_check_client_ports_def Let_def)
  have names: "map jl_name (jl_clients m') = map jl_name (jl_clients m) @ [name]"
    "jl_foreign_ports m' = fold remove1 (filter (\<lambda>p. fp_client_name p = name) (jl_foreign_ports m)) (jl_foreign_ports m)"
    using check_ports_names [OF run] by simp_all
  have "jl_foreign_ports m' = filter (\<lambda>p. fp_client_name p \<noteq> name) (jl_foreign_ports m)"
    using fold_remove1_filter [of "[]" "\<lambda>p. fp_client_name p = name" "jl_foreign_ports m"] names(2) by simp
  then show ?thesis using assms(1) names(1) by (auto simp: ports_ok_names)
qed

lemma set_remove_first: "set (remove_first P xs) \<subseteq> set xs"
  by (induction xs) auto

lemma ports_ok_fewer:
  "ports_ok m \<Longrightarrow> set (jl_foreign_ports m') \<subseteq> set (jl_foreign_ports m) \<Longrightarrow>
     set (map jl_name (jl_clients m')) \<subseteq> set (map jl_name (jl_clients m)) \<Longrightarrow> ports_ok m'"
  by (force simp: ports_ok_names)

lemma map_res_names:
  assumes "\<And>x y. f x = Inr y \<Longrightarrow> g y = g x"
  shows "map_res f xs = Inr ys \<Longrightarrow> map g ys = map g xs"
  using assms by (induction xs arbitrary: ys) (auto simp: bindr_Inr_iff)

lemma ports_ok_reorder:
  assumes "ports_ok m" "jack_mgr_graph_reorder_notification U L m = Inr m'"
  shows "ports_ok m'"
proof -
  obtain cs where cs: "map_res (jack_mgr_get_patches U L) (jl_clients m) = Inr cs"
    and m': "m' = jack_mgr_check_foreign_ports L (m\<lparr>jl_clients := cs\<rparr>)"
    using assms(2) by (auto simp: jack_mgr_graph_reorder_notification_def bindr_Inr_iff)
  have "map jl_name cs = map jl_name (jl_clients m)"
    by (rule map_res_names [OF _ cs]) (auto simp: jack_mgr_get_patches_def bindr_Inr_iff)
  then show ?thesis by (intro ports_ok_fewer [OF assms(1)]) (auto simp: m' jack_mgr_check_foreign_ports_def simp del: set_map)
qed

lemma ports_ok_backup:
  assumes "ports_ok m" "jack_mgr_backup_patches U now m = Inr m'"
  shows "ports_ok m'"
proof (cases "now - jl_last_backup m < BACKUP_INTERVAL")
  case False
  then obtain cs where cs: "map_res (backup_client U (names_ids (jl_clients m))) (jl_clients m) = Inr cs"
    and m': "m' = m\<lparr>jl_clients := cs, jl_last_backup := now\<rparr>"
    using assms(2) by (auto simp: jack_mgr_backup_patches_def bindr_Inr_iff)
  have "map jl_name cs = map jl_name (jl_clients m)"
    by (rule map_res_names [OF _ cs]) (auto simp: backup_client_def bindr_Inr_iff)
  then show ?thesis by (intro ports_ok_fewer [OF assms(1)]) (auto simp: m' simp del: set_map)
qed (use assms in \<open>simp add: jack_mgr_backup_patches_def\<close>)

lemma ports_ok_port_notification:
  assumes "ports_ok m" "jack_mgr_port_notification U L i m = Inr m'"
  shows "ports_ok m'"
proof (cases "jk_port_by_id L i")
  case full: (Some full)
  show ?thesis
  proof (cases "CHR '':'' \<in> set full")
    case colon: True
    show ?thesis
    proof (cases "first_index (\<lambda>c. jl_name c = takeWhile (\<lambda>c. c \<noteq> CHR '':'') full) (jl_clients m)")
      case None
      then have "m' = m\<lparr>jl_foreign_ports := jl_foreign_ports m @ [jack_fport_new i full]\<rparr>"
        using assms(2) full colon by (simp add: jack_mgr_port_notification_def del: first_index_None)
      moreover have "\<forall>c \<in> set (jl_clients m). jl_name c \<noteq> takeWhile (\<lambda>c. c \<noteq> CHR '':'') full"
        using None by (simp add: first_index_None)
      ultimately show ?thesis using assms(1) colon by (simp add: ports_ok_def jack_fport_new_def)
    next
      case k: (Some k)
      then have "k < length (jl_clients m)" by (auto dest: first_index_Some)
      moreover have "jack_mgr_new_client_port U L (tl (dropWhile (\<lambda>c. c \<noteq> CHR '':'') full)) k m = Inr m'"
        using assms(2) full colon k by (simp add: jack_mgr_port_notification_def)
      ultimately show ?thesis using new_client_port_names assms(1) by (simp add: ports_ok_names)
    qed
  qed (use assms full in \<open>simp add: jack_mgr_port_notification_def\<close>)
qed (use assms in \<open>simp add: jack_mgr_port_notification_def\<close>)

lemma ports_ok_remove_foreign: "ports_ok m \<Longrightarrow> ports_ok (jack_mgr_remove_foreign_port i m)"
  by (erule ports_ok_fewer) (simp_all add: jack_mgr_remove_foreign_port_def set_remove_first)

lemma ports_ok_read_callback:
  assumes "ports_ok m" "jack_mgr_read_callback U L bytes m = Inr (m', rest)"
  shows "ports_ok m'"
proof -
  obtain notice left where n: "read_notice bytes = Some (notice, left)"
    using assms(2) by (auto simp: jack_mgr_read_callback_def split: option.split_asm)
  consider "jack_mgr_graph_reorder_notification U L m = Inr m'"
    | i where "jack_mgr_port_notification U L i m = Inr m'"
    | i where "m' = jack_mgr_remove_foreign_port i m"
  proof (cases notice)
    case None
    then show ?thesis using assms(2) n that(1) by (auto simp: jack_mgr_read_callback_def bindr_Inr_iff)
  next
    case (Some ir)
    obtain i r where "ir = (i, r)" by (cases ir)
    then show ?thesis using assms(2) n that(2,3) Some
      by (cases r) (auto simp: jack_mgr_read_callback_def bindr_Inr_iff)
  qed
  then show ?thesis
    using ports_ok_reorder [OF assms(1)] ports_ok_port_notification [OF assms(1)]
      ports_ok_remove_foreign [OF assms(1)] by cases simp_all
qed

lemma ports_ok_round:
  assumes "ports_ok m" "jack_mgr_callback_round U L now readable bytes m = Inr (m', rest)"
  shows "ports_ok m'"
proof -
  obtain m1 r1 where m1: "(if readable then jack_mgr_read_callback U L bytes m else Inr (m, bytes)) = Inr (m1, r1)"
    and b: "jack_mgr_backup_patches U now m1 = Inr m'"
    using assms(2) by (auto simp: jack_mgr_callback_round_def bindr_Inr_iff)
  have "ports_ok m1"
    using m1 assms(1) ports_ok_read_callback by (cases readable) auto
  then show ?thesis using ports_ok_backup b by blast
qed

text \<open>What happens to the manager: rounds of its thread, and the calls of the daemon.\<close>

inductive jack_reachable :: "uuid_lib \<Rightarrow> jack_mgr \<Rightarrow> bool" for U where
  starts: "jack_reachable U jack_mgr_new"
| runs: "jack_reachable U m \<Longrightarrow> jack_mgr_callback_round U L now readable bytes m = Inr (m', rest) \<Longrightarrow> jack_reachable U m'"
| adds: "jack_reachable U m \<Longrightarrow> jack_mgr_add_client U L u name ps m = Inr m' \<Longrightarrow> jack_reachable U m'"
| removes: "jack_reachable U m \<Longrightarrow> jack_mgr_remove_client u backup m = (m', left) \<Longrightarrow> jack_reachable U m'"

lemma reachable_ports_ok: "jack_reachable U m \<Longrightarrow> ports_ok m"
proof (induction rule: jack_reachable.induct)
  case starts
  then show ?case by (simp add: ports_ok_def jack_mgr_new_def)
next
  case (removes m u backup m' left)
  then have "m' = m \<or> m' = m\<lparr>jl_clients := remove_first (\<lambda>c. jl_id c = u) (jl_clients m)\<rparr>"
    by (auto simp: jack_mgr_remove_client_def split: option.split_asm)
  then show ?case using removes(3) set_remove_first by (fastforce simp: ports_ok_def)
qed (auto intro: ports_ok_round ports_ok_add)



section \<open>A patch of a client that is not there\<close>

lemma find_names_ids:
  assumes "distinct (map jl_id cs)" "i < length cs"
  shows "List.find (\<lambda>c. snd c = jl_id (cs ! i)) (names_ids cs) = Some (jl_name (cs ! i), jl_id (cs ! i))"
  using assms
proof (induction cs arbitrary: i)
  case (Cons c cs)
  then show ?case
    by (cases i) (auto simp: names_ids_def)
qed simp

lemma find_unknown_id: "u \<notin> jl_id ` set cs \<Longrightarrow> List.find (\<lambda>c. snd c = u) (names_ids cs) = None"
  by (auto simp: find_None_iff names_ids_def)

text \<open>C40. The manager over libjack waits for the other end of a saved connection when that end's client has
  not registered yet, says its debug message; the code does not wait. When the saved source is the UUID of no
  client, \<open>jack_patch_unset\<close> takes the client at the end of the list instead: the port of that client with the
  same port name is connected to the new port, and the saved connection is forgotten.\<close>

theorem absent_client_resumed_as_last:
  assumes "uuid_lib_ok U" "distinct (map jl_id (jl_clients m))" "i < length (jl_clients m)"
    and "jl_id (jl_clients m ! i) \<noteq> 0" "jl_old_patches (jl_clients m ! i) = [p]"
    and "src_client_id p \<noteq> 0" "src_client_id p \<notin> jl_id ` set (jl_clients m)" "src_port p = Some sp"
    and "dest_client_id p = jl_id (jl_clients m ! i)" "dest_port p = Some port"
    and "\<And>a b. jk_connect L a b"
  shows "jack_mgr_new_client_port U L port i m =
    Inr (m\<lparr>jl_clients := (jl_clients m)[i := (jl_clients m ! i)\<lparr>jl_old_patches := []\<rparr>],
           jl_connected := jl_connected m
             @ [(jl_name (last (jl_clients m)) @ '':'' @ sp, jl_name (jl_clients m ! i) @ '':'' @ port)]\<rparr>)"
proof -
  let ?cs = "names_ids (jl_clients m)"
  let ?self = "jl_name (jl_clients m ! i)"
  have ne: "jl_clients m \<noteq> []" using assms(3) by auto
  have last: "fst (last ?cs) = jl_name (last (jl_clients m))" "?cs \<noteq> []"
    using ne by (simp_all add: names_ids_def last_map)
  obtain q where q: "jack_patch_dup U p = Inr q" "src_client_id q = src_client_id p" "src_port q = Some sp"
    "dest_client_id q = jl_id (jl_clients m ! i)" "dest_port q = Some port"
    using assms(1,8,9,10) by (auto simp: jack_patch_dup_def set_descs_ok)
  have "\<exists>u. jack_patch_unset U ?cs q = Inr (u, True) \<and> dest_client u = Some ?self \<and> dest_port u = Some port
      \<and> src_client u = Some (fst (last ?cs)) \<and> src_port u = Some sp
      \<and> src_desc u = Some (fst (last ?cs) @ '':'' @ sp) \<and> dest_desc u = Some (?self @ '':'' @ port)"
    using assms(1,4,6,7) q last(2) find_unknown_id [OF assms(7)] find_names_ids [OF assms(2,3)]
    by (simp add: jack_patch_unset_def jack_patch_unset_client_id_def uuid_is_null_def set_src_desc_ok
        set_dest_desc_ok end_desc_def)
  then show ?thesis using assms(5,11) q(1) last(1)
    by (auto simp: jack_mgr_new_client_port_def is_end_def strcmp_ne_def resume_patch_def)
qed

theorem absent_client_resumed_as_last_witness:
  "jack_mgr_new_client_port example_uuids
      \<lparr>jk_port_by_id = \<lambda>_. None, jk_get_ports = \<lambda>_ _. None, jk_all_connections = \<lambda>_. None,
        jk_connect = \<lambda>_ _. True\<rparr> ''in'' 0
      (jack_mgr_new\<lparr>jl_clients :=
        [jl_client_new\<lparr>jl_name := ''synth'', jl_id := 7,
           jl_old_patches := [jack_patch_new\<lparr>src_client_id := 9, src_port := Some ''out'',
             dest_client_id := 7, dest_port := Some ''in''\<rparr>]\<rparr>,
         jl_client_new\<lparr>jl_name := ''drums'', jl_id := 8\<rparr>]\<rparr>) =
    Inr (jack_mgr_new\<lparr>jl_clients :=
        [jl_client_new\<lparr>jl_name := ''synth'', jl_id := 7\<rparr>, jl_client_new\<lparr>jl_name := ''drums'', jl_id := 8\<rparr>],
        jl_connected := [(''drums:out'', ''synth:in'')]\<rparr>)"
  (is "jack_mgr_new_client_port _ ?L _ _ ?m = _")
  using absent_client_resumed_as_last [of example_uuids ?m 0 _ "''out''" "''in''" ?L]
  by (simp add: example_uuids_ok jl_client_new_def jack_mgr_new_def)

end
