(* ===== verification/AlsaMgr.thy ===== *)
theory AlsaMgr
  imports AlsaPatch
begin

text \<open>
  The manager of ALSA sequencer connections (\<^verbatim>\<open>lashd/alsa_mgr.c\<close>): managed clients with the
  subscriptions they have, had and last saved, the ports of other programs (\<open>foreign\<close> ports), and
  the announcements of the sequencer that drive the manager's thread. The allocations of libasound's
  containers are taken to succeed (the error argument \<open>0\<close> of the functions of \<open>AlsaPatch\<close>).
\<close>

section \<open>State\<close>

text \<open>The subscriptions the manager has made successfully are kept as a trace.\<close>

record alsa_mgr =
  am_clients :: "alsa_client list"
  am_foreign_ports :: "alsa_fport list"
  am_subscribed :: "subscription list"
  am_last_backup :: int

text \<open>
  What libasound answers: the result of a subscription request, the ports of a client in the order
  they are queried, the subscribers of a port (\<open>True\<close> for those that write to it), and how it
  narrows a queue number.
\<close>

record seq_lib =
  sq_subscribe :: "subscription \<Rightarrow> int"
  sq_ports :: "u8 \<Rightarrow> u8 list"
  sq_subscribers :: "seq_addr \<Rightarrow> bool \<Rightarrow> query list"
  sq_narrow :: "u32 \<Rightarrow> u32"

definition alsa_mgr_new :: alsa_mgr where
  "alsa_mgr_new = \<lparr>am_clients = [], am_foreign_ports = [], am_subscribed = [], am_last_backup = 0\<rparr>"

text \<open>The index of the first client with a UUID.\<close>

definition alsa_mgr_get_client :: "alsa_mgr \<Rightarrow> uuid \<Rightarrow> nat option" where
  "alsa_mgr_get_client m i = first_index (\<lambda>c. alsa_id c = i) (am_clients m)"

section \<open>Resuming subscriptions\<close>

definition alsa_mgr_resume_patch :: "seq_lib \<Rightarrow> alsa_patch \<Rightarrow> alsa_mgr \<Rightarrow> alsa_mgr \<times> int" where
  "alsa_mgr_resume_patch S p m =
     (let err = sq_subscribe S (sub p)
      in (if err = 0 then m\<lparr>am_subscribed := am_subscribed m @ [sub p]\<rparr> else m, err))"

definition touches :: "u8 \<Rightarrow> u8 \<Rightarrow> alsa_patch \<Rightarrow> bool" where
  "touches n port p \<longleftrightarrow>
     (n = alsa_patch_get_src_client p \<and> port = alsa_patch_get_src_port p)
     \<or> (n = alsa_patch_get_dest_client p \<and> port = alsa_patch_get_dest_port p)"

text \<open>The loop over the old patches of a client with number \<open>n\<close>: those that stay.\<close>

fun resume_old :: "seq_lib \<Rightarrow> u8 \<Rightarrow> u8 \<Rightarrow> alsa_patch list \<Rightarrow> alsa_mgr \<Rightarrow> (alsa_patch list \<times> alsa_mgr) res" where
  "resume_old S n port [] m = Inr ([], m)"
| "resume_old S n port (p # ps) m =
     bindr (alsa_patch_dup 0 p) (\<lambda>q.
       let (u, err) = alsa_patch_unset q (am_clients m) in
       if err \<noteq> 0 then resume_old S n port ps m
       else
         let (m1, made) = (if touches n port u then
             (let (m1, e) = alsa_mgr_resume_patch S u m in (m1, e = 0)) else (m, False))
         in bindr (resume_old S n port ps m1) (\<lambda>(rest, m2). Inr (if made then rest else p # rest, m2)))"

definition alsa_mgr_new_client_port :: "seq_lib \<Rightarrow> uuid \<Rightarrow> u8 \<Rightarrow> alsa_mgr \<Rightarrow> alsa_mgr res" where
  "alsa_mgr_new_client_port S i port m =
     (case alsa_mgr_get_client m i of
        None \<Rightarrow> Inr m
      | Some k \<Rightarrow>
          bindr (resume_old S (alsa_client_id (am_clients m ! k)) port (alsa_old_patches (am_clients m ! k)) m) (\<lambda>(rest, m1).
            Inr (m1\<lparr>am_clients := (am_clients m1)[k := (am_clients m1 ! k)\<lparr>alsa_old_patches := rest\<rparr>]\<rparr>)))"

fun check_fports :: "seq_lib \<Rightarrow> uuid \<Rightarrow> u8 \<Rightarrow> alsa_fport list \<Rightarrow> alsa_mgr \<Rightarrow> alsa_mgr res" where
  "check_fports S i n [] m = Inr m"
| "check_fports S i n (f # fs) m =
     (if fport_client f = n then
        bindr (alsa_mgr_new_client_port S i (fport_port f) m) (\<lambda>m1.
          check_fports S i n fs (m1\<lparr>am_foreign_ports := remove1 f (am_foreign_ports m1)\<rparr>))
      else check_fports S i n fs m)"

definition alsa_mgr_check_client_fports :: "seq_lib \<Rightarrow> uuid \<Rightarrow> alsa_mgr \<Rightarrow> alsa_mgr res" where
  "alsa_mgr_check_client_fports S i m =
     (case alsa_mgr_get_client m i of
        None \<Rightarrow> Inr m
      | Some k \<Rightarrow> check_fports S i (alsa_client_id (am_clients m ! k)) (am_foreign_ports m) m)"

section \<open>Clients\<close>

definition alsa_mgr_add_client :: "seq_lib \<Rightarrow> uuid \<Rightarrow> u8 \<Rightarrow> alsa_patch list \<Rightarrow> alsa_mgr \<Rightarrow> alsa_mgr res" where
  "alsa_mgr_add_client S i n patches m =
     (let c = (alsa_client_set_id (alsa_client_set_client_id alsa_client_init n) i)\<lparr>alsa_old_patches := patches\<rparr>
      in alsa_mgr_check_client_fports S i (m\<lparr>am_clients := am_clients m @ [c]\<rparr>))"

definition alsa_mgr_remove_client :: "uuid \<Rightarrow> alsa_patch list option \<Rightarrow> alsa_mgr \<Rightarrow> alsa_mgr \<times> alsa_patch list option" where
  "alsa_mgr_remove_client i backup_patches m =
     (case alsa_mgr_get_client m i of
        None \<Rightarrow> (m, backup_patches)
      | Some k \<Rightarrow> (m\<lparr>am_clients := take k (am_clients m) @ drop (Suc k) (am_clients m)\<rparr>,
          map_option (\<lambda>ps. alsa_backup_patches (am_clients m ! k) @ ps) backup_patches))"

text \<open>The patches that no patch of the destination equals are appended to it, with UUIDs for known clients.\<close>

fun add_new :: "alsa_client list \<Rightarrow> alsa_patch list \<Rightarrow> alsa_patch list \<Rightarrow> alsa_patch list" where
  "add_new cs [] dest = dest"
| "add_new cs (p # ps) dest =
     (let q = alsa_patch_set p cs
      in add_new cs ps (if \<exists>d \<in> set dest. alsa_patch_compare q d = 0 then dest else dest @ [q]))"

definition alsa_mgr_get_client_patches :: "uuid \<Rightarrow> alsa_mgr \<Rightarrow> alsa_patch list \<Rightarrow> alsa_patch list res" where
  "alsa_mgr_get_client_patches i m dest =
     (case alsa_mgr_get_client m i of
        None \<Rightarrow> Inr dest
      | Some k \<Rightarrow>
          (let c = am_clients m ! k
           in bindr (alsa_client_dup_patches (replicate (length (alsa_patches c)) 0) c []) (\<lambda>ps.
                Inr (add_new (am_clients m) ps dest))))"

section \<open>The sequencer's graph\<close>

fun patches_with_port :: "seq_lib \<Rightarrow> bool \<Rightarrow> query list \<Rightarrow> alsa_patch list res" where
  "patches_with_port S is_write [] = Inr []"
| "patches_with_port S is_write (q # qs) =
     bindr (alsa_patch_new_with_query (sq_narrow S) 0 (Some q)) (\<lambda>p.
     bindr (patches_with_port S is_write qs) (\<lambda>ps.
       Inr ((if is_write then alsa_patch_switch_clients p else p) # ps)))"

definition alsa_mgr_get_alsa_patches_with_port :: "seq_lib \<Rightarrow> seq_addr \<Rightarrow> bool \<Rightarrow> alsa_client \<Rightarrow> alsa_client res" where
  "alsa_mgr_get_alsa_patches_with_port S a is_write c =
     bindr (patches_with_port S is_write (sq_subscribers S a is_write)) (\<lambda>ps.
       Inr (c\<lparr>alsa_patches := alsa_patches c @ ps\<rparr>))"

fun redo_ports :: "seq_lib \<Rightarrow> u8 list \<Rightarrow> alsa_client \<Rightarrow> alsa_client res" where
  "redo_ports S [] c = Inr c"
| "redo_ports S (port # ports) c =
     (let a = \<lparr>addr_client = alsa_client_id c, addr_port = port\<rparr> in
      bindr (alsa_mgr_get_alsa_patches_with_port S a False c) (\<lambda>c1.
      bindr (alsa_mgr_get_alsa_patches_with_port S a True c1) (\<lambda>c2. redo_ports S ports c2)))"

definition alsa_mgr_redo_client_patches :: "seq_lib \<Rightarrow> alsa_client \<Rightarrow> alsa_client res" where
  "alsa_mgr_redo_client_patches S c = redo_ports S (sq_ports S (alsa_client_id c)) c"

fun redo_clients :: "seq_lib \<Rightarrow> alsa_client list \<Rightarrow> alsa_client list res" where
  "redo_clients S [] = Inr []"
| "redo_clients S (c # cs) =
     bindr (alsa_mgr_redo_client_patches S (c\<lparr>alsa_patches := []\<rparr>)) (\<lambda>d.
     bindr (redo_clients S cs) (\<lambda>ds. Inr (d # ds)))"

definition alsa_mgr_redo_patches :: "seq_lib \<Rightarrow> alsa_mgr \<Rightarrow> alsa_mgr res" where
  "alsa_mgr_redo_patches S m =
     bindr (redo_clients S (am_clients m)) (\<lambda>cs. Inr (m\<lparr>am_clients := cs\<rparr>))"

section \<open>The manager's thread\<close>

definition alsa_mgr_new_port :: "seq_lib \<Rightarrow> u8 \<Rightarrow> u8 \<Rightarrow> alsa_mgr \<Rightarrow> alsa_mgr res" where
  "alsa_mgr_new_port S n port m =
     (case List.find (\<lambda>c. alsa_client_id c = n) (am_clients m) of
        Some c \<Rightarrow> alsa_mgr_new_client_port S (alsa_id c) port m
      | None \<Rightarrow> Inr (m\<lparr>am_foreign_ports := am_foreign_ports m @ [alsa_fport_new_with_all n port]\<rparr>))"

definition alsa_mgr_port_removed :: "u8 \<Rightarrow> u8 \<Rightarrow> alsa_mgr \<Rightarrow> alsa_mgr" where
  "alsa_mgr_port_removed n port m =
     (case List.find (\<lambda>f. fport_client f = n \<and> fport_port f = port) (am_foreign_ports m) of
        Some f \<Rightarrow> m\<lparr>am_foreign_ports := remove1 f (am_foreign_ports m)\<rparr>
      | None \<Rightarrow> m)"

definition BACKUP_TIMEOUT :: int where "BACKUP_TIMEOUT = 30"

definition backup_client :: "alsa_client list \<Rightarrow> alsa_client \<Rightarrow> alsa_client res" where
  "backup_client cs c =
     bindr (alsa_client_dup_patches (replicate (length (alsa_patches c)) 0) c []) (\<lambda>ps.
       Inr (c\<lparr>alsa_backup_patches := map (\<lambda>p. alsa_patch_set p cs) ps\<rparr>))"

fun backup_clients :: "alsa_client list \<Rightarrow> alsa_client list \<Rightarrow> alsa_client list res" where
  "backup_clients all [] = Inr []"
| "backup_clients all (c # cs) =
     bindr (backup_client all c) (\<lambda>d. bindr (backup_clients all cs) (\<lambda>ds. Inr (d # ds)))"

definition alsa_mgr_backup_patches :: "int \<Rightarrow> alsa_mgr \<Rightarrow> alsa_mgr res" where
  "alsa_mgr_backup_patches now m =
     (if now - am_last_backup m < BACKUP_TIMEOUT then Inr m
      else bindr (backup_clients (am_clients m) (am_clients m)) (\<lambda>cs.
        Inr (m\<lparr>am_clients := cs, am_last_backup := now\<rparr>)))"

text \<open>The announcements of the sequencer; the others are ignored.\<close>

datatype seq_event =
    Port_start u8 u8
  | Port_exit u8 u8
  | Port_subscribed
  | Port_unsubscribed
  | Other_event

text \<open>\<open>None\<close> is an error of \<open>snd_seq_event_input\<close>.\<close>

definition alsa_mgr_receive_event :: "seq_lib \<Rightarrow> int \<Rightarrow> seq_event option \<Rightarrow> alsa_mgr \<Rightarrow> alsa_mgr res" where
  "alsa_mgr_receive_event S now ev m =
     (case ev of
        None \<Rightarrow> Inr m
      | Some (Port_start n port) \<Rightarrow> bindr (alsa_mgr_new_port S n port m) (alsa_mgr_backup_patches now)
      | Some (Port_exit n port) \<Rightarrow> alsa_mgr_backup_patches now (alsa_mgr_port_removed n port m)
      | Some Port_subscribed \<Rightarrow> bindr (alsa_mgr_redo_patches S m) (alsa_mgr_backup_patches now)
      | Some Port_unsubscribed \<Rightarrow> bindr (alsa_mgr_redo_patches S m) (alsa_mgr_backup_patches now)
      | Some Other_event \<Rightarrow> Inr m)"

section \<open>Resuming, as a whole\<close>

definition unset_now :: "alsa_client list \<Rightarrow> alsa_patch \<Rightarrow> alsa_patch" where
  "unset_now cs p = fst (alsa_patch_unset p cs)"

definition ends_known :: "alsa_client list \<Rightarrow> alsa_patch \<Rightarrow> bool" where
  "ends_known cs p \<longleftrightarrow> snd (alsa_patch_unset p cs) = 0"

definition resumed :: "seq_lib \<Rightarrow> alsa_client list \<Rightarrow> u8 \<Rightarrow> u8 \<Rightarrow> alsa_patch \<Rightarrow> bool" where
  "resumed S cs n port p \<longleftrightarrow> touches n port (unset_now cs p) \<and> sq_subscribe S (sub (unset_now cs p)) = 0"

text \<open>
  The loop makes the subscriptions of the patches at the port whose other end is known, in their
  order, and keeps the patches with known ends that it could not resume.
\<close>

lemma resume_old_eq:
  "resume_old S n port ps m =
     Inr (filter (\<lambda>p. ends_known (am_clients m) p \<and> \<not> resumed S (am_clients m) n port p) ps,
       m\<lparr>am_subscribed := am_subscribed m @ map (\<lambda>p. sub (unset_now (am_clients m) p))
          (filter (\<lambda>p. ends_known (am_clients m) p \<and> resumed S (am_clients m) n port p) ps)\<rparr>)"
proof (induction ps arbitrary: m)
  case (Cons p ps)
  show ?case
    by (simp add: Cons.IH alsa_patch_dup_ok alsa_mgr_resume_patch_def unset_now_def ends_known_def resumed_def
        Let_def split_beta)
qed simp

lemma get_client_index: "alsa_mgr_get_client m i = Some k \<Longrightarrow> k < length (am_clients m) \<and> alsa_id (am_clients m ! k) = i"
  unfolding alsa_mgr_get_client_def by (auto dest: first_index_Some)

lemma get_client_ids:
  "map alsa_id (am_clients m) = map alsa_id (am_clients m') \<Longrightarrow> alsa_mgr_get_client m i = alsa_mgr_get_client m' i"
proof -
  have "first_index (\<lambda>c. alsa_id c = i) cs = first_index (\<lambda>u. u = i) (map alsa_id cs)" for cs
    by (induction cs) auto
  then show "map alsa_id (am_clients m) = map alsa_id (am_clients m') \<Longrightarrow> alsa_mgr_get_client m i = alsa_mgr_get_client m' i"
    by (metis alsa_mgr_get_client_def)
qed

lemma new_client_port_eq:
  assumes "alsa_mgr_get_client m i = Some k"
  shows "alsa_mgr_new_client_port S i port m =
    (let cs = am_clients m; c = cs ! k; n = alsa_client_id c in
     Inr (m\<lparr>am_clients := cs[k := c\<lparr>alsa_old_patches :=
              filter (\<lambda>p. ends_known cs p \<and> \<not> resumed S cs n port p) (alsa_old_patches c)\<rparr>],
            am_subscribed := am_subscribed m @ map (\<lambda>p. sub (unset_now cs p))
              (filter (\<lambda>p. ends_known cs p \<and> resumed S cs n port p) (alsa_old_patches c))\<rparr>))"
  using assms by (simp add: alsa_mgr_new_client_port_def resume_old_eq Let_def)

section \<open>No port of a managed client is foreign\<close>

text \<open>What the invariant looks at.\<close>

definition face :: "alsa_client list \<Rightarrow> (uuid \<times> u8) list" where
  "face cs = map (\<lambda>c. (alsa_id c, alsa_client_id c)) cs"

lemma face_update: "k < length cs \<Longrightarrow> alsa_id d = alsa_id (cs ! k) \<Longrightarrow> alsa_client_id d = alsa_client_id (cs ! k) \<Longrightarrow>
  face (cs[k := d]) = face cs"
  by (simp add: face_def map_update list_update_same_conv)

lemma face_ids: "face cs = face ds \<Longrightarrow> map alsa_id cs = map alsa_id ds"
  by (drule arg_cong [where f = "map fst"]) (simp add: face_def comp_def)

lemma new_client_port_face:
  assumes "alsa_mgr_new_client_port S i port m = Inr m'"
  shows "face (am_clients m') = face (am_clients m) \<and> am_foreign_ports m' = am_foreign_ports m"
proof (cases "alsa_mgr_get_client m i")
  case None
  then show ?thesis using assms by (simp add: alsa_mgr_new_client_port_def)
next
  case (Some k)
  then show ?thesis using assms get_client_index [OF Some]
    by (auto simp: new_client_port_eq Let_def face_update)
qed

definition fports_ok :: "alsa_mgr \<Rightarrow> bool" where
  "fports_ok m \<longleftrightarrow> distinct (map alsa_id (am_clients m))
     \<and> fport_client ` set (am_foreign_ports m) \<inter> alsa_client_id ` set (am_clients m) = {}"

lemma fports_ok_face:
  "fports_ok m \<longleftrightarrow> distinct (map fst (face (am_clients m)))
     \<and> fport_client ` set (am_foreign_ports m) \<inter> set (map snd (face (am_clients m))) = {}"
  by (simp add: fports_ok_def face_def comp_def)

lemma fports_ok_same_face:
  "fports_ok m \<Longrightarrow> face (am_clients m') = face (am_clients m) \<Longrightarrow>
     set (am_foreign_ports m') \<subseteq> set (am_foreign_ports m) \<Longrightarrow> fports_ok m'"
  by (auto simp: fports_ok_face)

lemma fports_ok_new_client_port:
  "fports_ok m \<Longrightarrow> alsa_mgr_new_client_port S i port m = Inr m' \<Longrightarrow> fports_ok m'"
  using new_client_port_face by (metis fports_ok_same_face order_refl)

lemma check_fports_face:
  "check_fports S i n fs m = Inr m' \<Longrightarrow> face (am_clients m') = face (am_clients m)
     \<and> am_foreign_ports m' = fold remove1 (filter (\<lambda>f. fport_client f = n) fs) (am_foreign_ports m)"
proof (induction fs arbitrary: m)
  case (Cons f fs)
  show ?case
  proof (cases "fport_client f = n")
    case True
    then obtain m1 where m1: "alsa_mgr_new_client_port S i (fport_port f) m = Inr m1"
      and rest: "check_fports S i n fs (m1\<lparr>am_foreign_ports := remove1 f (am_foreign_ports m1)\<rparr>) = Inr m'"
      using Cons.prems by (auto simp: bindr_Inr_iff)
    show ?thesis using Cons.IH [OF rest] new_client_port_face [OF m1] True by simp
  qed (use Cons in auto)
qed simp

lemma first_index_last: "\<forall>y \<in> set xs. \<not> P y \<Longrightarrow> P x \<Longrightarrow> first_index P (xs @ [x]) = Some (length xs)"
  by (induction xs) auto

lemma get_client_last:
  assumes "i \<notin> alsa_id ` set (am_clients m)" "alsa_id c = i"
  shows "alsa_mgr_get_client (m\<lparr>am_clients := am_clients m @ [c]\<rparr>) i = Some (length (am_clients m))"
proof -
  have "\<forall>y \<in> set (am_clients m). alsa_id y \<noteq> i" using assms(1) by auto
  from first_index_last [of _ "\<lambda>x. alsa_id x = i", OF this assms(2)] show ?thesis
    by (simp add: alsa_mgr_get_client_def)
qed

lemma fports_ok_add:
  assumes "fports_ok m" "i \<notin> alsa_id ` set (am_clients m)" "alsa_mgr_add_client S i n ps m = Inr m'"
  shows "fports_ok m'"
proof -
  let ?c = "(alsa_client_set_id (alsa_client_set_client_id alsa_client_init n) i)\<lparr>alsa_old_patches := ps\<rparr>"
  let ?m = "m\<lparr>am_clients := am_clients m @ [?c]\<rparr>"
  have c: "alsa_id ?c = i" "alsa_client_id ?c = n"
    by (simp_all add: alsa_client_set_id_def alsa_client_set_client_id_def alsa_client_init_def)
  have run: "check_fports S i n (am_foreign_ports m) ?m = Inr m'"
    using assms(3) get_client_last [OF assms(2) c(1)] c(2)
    by (simp add: alsa_mgr_add_client_def alsa_mgr_check_client_fports_def Let_def)
  then have "face (am_clients m') = face (am_clients m) @ [(i, n)]"
    and "am_foreign_ports m' = fold remove1 (filter (\<lambda>f. fport_client f = n) (am_foreign_ports m)) (am_foreign_ports m)"
    using check_fports_face [OF run] c by (simp_all add: face_def)
  moreover have "fold remove1 (filter (\<lambda>f. fport_client f = n) (am_foreign_ports m)) (am_foreign_ports m)
      = filter (\<lambda>f. fport_client f \<noteq> n) (am_foreign_ports m)"
    using fold_remove1_filter [of "[]" "\<lambda>f. fport_client f = n" "am_foreign_ports m"] by simp
  ultimately show ?thesis using assms(1,2) by (auto simp: fports_ok_face face_def comp_def image_iff)
qed

lemma fports_ok_remove:
  assumes "fports_ok m" "alsa_mgr_remove_client i b m = (m', left)"
  shows "fports_ok m'"
proof (cases "alsa_mgr_get_client m i")
  case (Some k)
  then have m': "m' = m\<lparr>am_clients := take k (am_clients m) @ drop (Suc k) (am_clients m)\<rparr>"
    using assms(2) by (auto simp: alsa_mgr_remove_client_def)
  have split: "am_clients m = take k (am_clients m) @ am_clients m ! k # drop (Suc k) (am_clients m)"
    using get_client_index [OF Some] by (simp add: id_take_nth_drop)
  have d: "distinct (map alsa_id (take k (am_clients m) @ am_clients m ! k # drop (Suc k) (am_clients m)))"
    using assms(1) split by (simp add: fports_ok_def)
  have "set (take k (am_clients m) @ drop (Suc k) (am_clients m)) \<subseteq> set (am_clients m)"
    using set_take_subset set_drop_subset by fastforce
  then show ?thesis using assms(1) d by (auto simp: fports_ok_def m')
qed (use assms in \<open>simp add: alsa_mgr_remove_client_def\<close>)

lemma redo_clients_face: "redo_clients S cs = Inr ds \<Longrightarrow> face ds = face cs"
proof (induction cs arbitrary: ds)
  case (Cons c cs)
  have ports: "redo_ports S ports x = Inr y \<Longrightarrow> alsa_id y = alsa_id x \<and> alsa_client_id y = alsa_client_id x" for ports x y
    by (induction ports arbitrary: x)
      (auto simp: Let_def bindr_Inr_iff alsa_mgr_get_alsa_patches_with_port_def)
  show ?case using Cons by (auto simp: bindr_Inr_iff alsa_mgr_redo_client_patches_def face_def dest!: ports)
qed simp

lemma backup_clients_face: "backup_clients all cs = Inr ds \<Longrightarrow> face ds = face cs"
  by (induction cs arbitrary: ds) (auto simp: bindr_Inr_iff backup_client_def face_def)

lemma fports_ok_redo: "fports_ok m \<Longrightarrow> alsa_mgr_redo_patches S m = Inr m' \<Longrightarrow> fports_ok m'"
  by (erule fports_ok_same_face) (auto simp: alsa_mgr_redo_patches_def bindr_Inr_iff redo_clients_face)

lemma fports_ok_backup: "fports_ok m \<Longrightarrow> alsa_mgr_backup_patches now m = Inr m' \<Longrightarrow> fports_ok m'"
  by (erule fports_ok_same_face)
    (auto simp: alsa_mgr_backup_patches_def bindr_Inr_iff backup_clients_face split: if_split_asm)

lemma fports_ok_new_port: 
  assumes "fports_ok m" "alsa_mgr_new_port S n port m = Inr m'"
  shows "fports_ok m'"
proof (cases "List.find (\<lambda>c. alsa_client_id c = n) (am_clients m)")
  case None
  then have "n \<notin> alsa_client_id ` set (am_clients m)" by (auto simp: find_None_iff)
  moreover have "m' = m\<lparr>am_foreign_ports := am_foreign_ports m @ [alsa_fport_new_with_all n port]\<rparr>"
    using assms(2) None by (simp add: alsa_mgr_new_port_def)
  ultimately show ?thesis using assms(1)
    by (auto simp: fports_ok_def alsa_fport_new_with_all_def alsa_fport_set_port_def alsa_fport_set_client_def)
next
  case (Some c)
  then show ?thesis using assms fports_ok_new_client_port by (auto simp: alsa_mgr_new_port_def)
qed

lemma fports_ok_port_removed: "fports_ok m \<Longrightarrow> fports_ok (alsa_mgr_port_removed n port m)"
  by (erule fports_ok_same_face) (simp_all add: alsa_mgr_port_removed_def remove1_subset split: option.split)

lemma fports_ok_event:
  assumes "fports_ok m" "alsa_mgr_receive_event S now ev m = Inr m'"
  shows "fports_ok m'"
proof -
  show ?thesis
  proof (cases ev)
    case (Some e)
    note run = assms(2) [unfolded Some alsa_mgr_receive_event_def option.case]
    show ?thesis
    proof (cases e)
      case (Port_start n port)
      then obtain m1 where "alsa_mgr_new_port S n port m = Inr m1" "alsa_mgr_backup_patches now m1 = Inr m'"
        using run by (auto simp: bindr_Inr_iff)
      then show ?thesis using fports_ok_backup [OF fports_ok_new_port [OF assms(1)]] by blast
    next
      case (Port_exit n port)
      then show ?thesis using run fports_ok_backup [OF fports_ok_port_removed [OF assms(1)]] by simp
    qed (use run fports_ok_backup [OF fports_ok_redo [OF assms(1)]] assms(1) in \<open>auto simp: bindr_Inr_iff\<close>)
  qed (use assms in \<open>simp add: alsa_mgr_receive_event_def\<close>)
qed

text \<open>What happens to the manager: announcements, and the calls of the daemon, which adds a client once.\<close>

inductive alsa_reachable :: "alsa_mgr \<Rightarrow> bool" where
  starts: "alsa_reachable alsa_mgr_new"
| announces: "alsa_reachable m \<Longrightarrow> alsa_mgr_receive_event S now ev m = Inr m' \<Longrightarrow> alsa_reachable m'"
| adds: "alsa_reachable m \<Longrightarrow> i \<notin> alsa_id ` set (am_clients m) \<Longrightarrow>
    alsa_mgr_add_client S i n ps m = Inr m' \<Longrightarrow> alsa_reachable m'"
| removes: "alsa_reachable m \<Longrightarrow> alsa_mgr_remove_client i b m = (m', left) \<Longrightarrow> alsa_reachable m'"

lemma reachable_fports_ok: "alsa_reachable m \<Longrightarrow> fports_ok m"
proof (induction rule: alsa_reachable.induct)
  case starts
  then show ?case by (simp add: fports_ok_def alsa_mgr_new_def)
qed (auto intro: fports_ok_event fports_ok_add fports_ok_remove)

section \<open>Saved subscriptions come back\<close>

text \<open>The patches read from the sequencer name no client by UUID; only saving puts UUIDs in.\<close>

definition unnamed :: "alsa_patch \<Rightarrow> bool" where
  "unnamed p \<longleftrightarrow> src_id p = 0 \<and> dest_id p = 0"

definition unnamed_patches :: "alsa_mgr \<Rightarrow> bool" where
  "unnamed_patches m \<longleftrightarrow> (\<forall>ps \<in> alsa_patches ` set (am_clients m). \<forall>p \<in> set ps. unnamed p)"

lemma patches_with_port_unnamed: "patches_with_port S w qs = Inr ps \<Longrightarrow> \<forall>p \<in> set ps. unnamed p"
  by (induction qs arbitrary: ps)
    (auto simp: bindr_Inr_iff alsa_patch_new_with_query_def alsa_patch_init_def alsa_patch_set_sub_from_query_def
      alsa_patch_set_sub_def query_to_sub_def unnamed_def alsa_patch_switch_clients_def Let_def)

lemma with_port_unnamed:
  "alsa_mgr_get_alsa_patches_with_port S a w c = Inr d \<Longrightarrow> \<forall>p \<in> set (alsa_patches c). unnamed p \<Longrightarrow>
     \<forall>p \<in> set (alsa_patches d). unnamed p"
  using patches_with_port_unnamed by (fastforce simp: alsa_mgr_get_alsa_patches_with_port_def bindr_Inr_iff)

lemma redo_ports_unnamed:
  "redo_ports S ports c = Inr d \<Longrightarrow> \<forall>p \<in> set (alsa_patches c). unnamed p \<Longrightarrow> \<forall>p \<in> set (alsa_patches d). unnamed p"
proof (induction ports arbitrary: c)
  case (Cons port ports)
  let ?a = "\<lparr>addr_client = alsa_client_id c, addr_port = port\<rparr>"
  obtain c1 c2 where c1: "alsa_mgr_get_alsa_patches_with_port S ?a False c = Inr c1"
    and c2: "alsa_mgr_get_alsa_patches_with_port S ?a True c1 = Inr c2" and rest: "redo_ports S ports c2 = Inr d"
    using Cons.prems(1) by (auto simp: Let_def bindr_Inr_iff)
  show ?case
    by (rule Cons.IH [OF rest]) (rule with_port_unnamed [OF c2 with_port_unnamed [OF c1 Cons.prems(2)]])
qed simp

lemma redo_clients_unnamed:
  "redo_clients S cs = Inr ds \<Longrightarrow> \<forall>c \<in> set ds. \<forall>p \<in> set (alsa_patches c). unnamed p"
proof (induction cs arbitrary: ds)
  case (Cons c cs)
  obtain d ds' where d: "redo_ports S (sq_ports S (alsa_client_id c)) (c\<lparr>alsa_patches := []\<rparr>) = Inr d"
    and ds': "redo_clients S cs = Inr ds'" and "ds = d # ds'"
    using Cons.prems by (auto simp: bindr_Inr_iff alsa_mgr_redo_client_patches_def)
  then show ?case using Cons.IH [OF ds'] redo_ports_unnamed [OF d] by simp
qed simp

text \<open>Everything but a new reading of the graph keeps the lists of patches, up to clients that come and go.\<close>

lemma unnamed_fewer:
  "unnamed_patches m \<Longrightarrow> alsa_patches ` set (am_clients m') \<subseteq> insert [] (alsa_patches ` set (am_clients m)) \<Longrightarrow>
     unnamed_patches m'"
  unfolding unnamed_patches_def by (metis (no_types) empty_iff insertE list.set(1) subsetD)

lemma new_client_port_patches:
  assumes "alsa_mgr_new_client_port S i port m = Inr m'"
  shows "map alsa_patches (am_clients m') = map alsa_patches (am_clients m)"
proof (cases "alsa_mgr_get_client m i")
  case (Some k)
  then show ?thesis using assms get_client_index [OF Some]
    by (auto simp: new_client_port_eq Let_def map_update list_update_same_conv)
qed (use assms in \<open>simp add: alsa_mgr_new_client_port_def\<close>)

lemma check_fports_patches:
  "check_fports S i n fs m = Inr m' \<Longrightarrow> map alsa_patches (am_clients m') = map alsa_patches (am_clients m)"
proof (induction fs arbitrary: m)
  case (Cons f fs)
  then show ?case
    by (cases "fport_client f = n") (auto simp: bindr_Inr_iff dest!: new_client_port_patches Cons.IH)
qed simp

lemma unnamed_same:
  "unnamed_patches m \<Longrightarrow> map alsa_patches (am_clients m') = map alsa_patches (am_clients m) \<Longrightarrow> unnamed_patches m'"
proof (erule unnamed_fewer)
  assume "map alsa_patches (am_clients m') = map alsa_patches (am_clients m)"
  then have "set (map alsa_patches (am_clients m')) = set (map alsa_patches (am_clients m))" by (simp only:)
  then show "alsa_patches ` set (am_clients m') \<subseteq> insert [] (alsa_patches ` set (am_clients m))" by auto
qed

lemma unnamed_add:
  assumes "unnamed_patches m" "alsa_mgr_add_client S i n ps m = Inr m'"
  shows "unnamed_patches m'"
proof -
  let ?c = "(alsa_client_set_id (alsa_client_set_client_id alsa_client_init n) i)\<lparr>alsa_old_patches := ps\<rparr>"
  let ?m = "m\<lparr>am_clients := am_clients m @ [?c]\<rparr>"
  have "unnamed_patches ?m"
    by (rule unnamed_fewer [OF assms(1)]) (auto simp: alsa_client_set_id_def alsa_client_set_client_id_def alsa_client_init_def)
  moreover have "map alsa_patches (am_clients m') = map alsa_patches (am_clients ?m)"
    using assms(2) check_fports_patches
    by (auto simp: alsa_mgr_add_client_def alsa_mgr_check_client_fports_def Let_def split: option.split_asm)
  ultimately show ?thesis by (rule unnamed_same)
qed

lemma unnamed_backup: "unnamed_patches m \<Longrightarrow> alsa_mgr_backup_patches now m = Inr m' \<Longrightarrow> unnamed_patches m'"
proof (erule unnamed_same)
  have "backup_clients all cs = Inr ds \<Longrightarrow> map alsa_patches ds = map alsa_patches cs" for all cs ds
    by (induction cs arbitrary: ds) (auto simp: bindr_Inr_iff backup_client_def)
  then show "alsa_mgr_backup_patches now m = Inr m' \<Longrightarrow> map alsa_patches (am_clients m') = map alsa_patches (am_clients m)"
    by (auto simp: alsa_mgr_backup_patches_def bindr_Inr_iff split: if_split_asm)
qed

lemma unnamed_redo: "alsa_mgr_redo_patches S m = Inr m' \<Longrightarrow> unnamed_patches m'"
  using redo_clients_unnamed by (auto simp: alsa_mgr_redo_patches_def bindr_Inr_iff unnamed_patches_def)

lemma unnamed_new_port: "unnamed_patches m \<Longrightarrow> alsa_mgr_new_port S n port m = Inr m' \<Longrightarrow> unnamed_patches m'"
  by (auto simp: alsa_mgr_new_port_def split: option.split_asm intro: unnamed_same new_client_port_patches)

lemma unnamed_event:
  assumes "unnamed_patches m" "alsa_mgr_receive_event S now ev m = Inr m'"
  shows "unnamed_patches m'"
proof (cases ev)
  case (Some e)
  note run = assms(2) [unfolded Some alsa_mgr_receive_event_def option.case]
  show ?thesis
  proof (cases e)
    case (Port_start n port)
    then obtain m1 where "alsa_mgr_new_port S n port m = Inr m1" "alsa_mgr_backup_patches now m1 = Inr m'"
      using run by (auto simp: bindr_Inr_iff)
    then show ?thesis using unnamed_backup [OF unnamed_new_port [OF assms(1)]] by blast
  next
    case (Port_exit n port)
    have "am_clients (alsa_mgr_port_removed n port m) = am_clients m"
      by (simp add: alsa_mgr_port_removed_def split: option.split)
    then have "unnamed_patches (alsa_mgr_port_removed n port m)" by (intro unnamed_same [OF assms(1)]) simp
    then show ?thesis using run Port_exit unnamed_backup by simp
  qed (use run unnamed_backup [OF unnamed_redo] assms(1) in \<open>auto simp: bindr_Inr_iff\<close>)
qed (use assms in \<open>simp add: alsa_mgr_receive_event_def\<close>)

lemma unnamed_remove:
  assumes "unnamed_patches m" "alsa_mgr_remove_client i b m = (m', left)"
  shows "unnamed_patches m'"
proof (rule unnamed_fewer [OF assms(1)])
  have "set (am_clients m') \<subseteq> set (am_clients m)"
    using assms(2) by (auto simp: alsa_mgr_remove_client_def dest: in_set_takeD in_set_dropD split: option.split_asm)
  then show "alsa_patches ` set (am_clients m') \<subseteq> insert [] (alsa_patches ` set (am_clients m))" by blast
qed

lemma reachable_unnamed: "alsa_reachable m \<Longrightarrow> unnamed_patches m"
proof (induction rule: alsa_reachable.induct)
  case starts
  then show ?case by (simp add: unnamed_patches_def alsa_mgr_new_def)
qed (auto intro: unnamed_event unnamed_add unnamed_remove)

text \<open>Saving: each patch once, its ends named by the UUIDs of the clients that have their numbers.\<close>

lemma set_add_new:
  "\<forall>p \<in> set ps. unnamed p \<Longrightarrow> set dest \<subseteq> (\<lambda>p. alsa_patch_set p cs) ` {p. unnamed p} \<Longrightarrow>
     set (add_new cs ps dest) = set dest \<union> (\<lambda>p. alsa_patch_set p cs) ` set ps"
proof (induction ps arbitrary: dest)
  case (Cons p ps)
  let ?q = "alsa_patch_set p cs"
  have same: "d = ?q" if d: "d \<in> set dest" "sub ?q = sub d" for d
  proof -
    obtain p' where p': "d = alsa_patch_set p' cs" "unnamed p'" using subsetD [OF Cons.prems(2) d(1)] by auto
    then have "sub p = sub p'" using d(2) by (simp add: alsa_patch_set_def Let_def)
    then have "p = p'" using Cons.prems(1) p'(2) by (auto simp: unnamed_def intro: alsa_patch.equality)
    then show ?thesis using p'(1) by simp
  qed
  show ?case
  proof (cases "\<exists>d \<in> set dest. alsa_patch_compare ?q d = 0")
    case True
    then have "?q \<in> set dest" using same by (auto simp: alsa_patch_compare_eq)
    moreover have "add_new cs (p # ps) dest = add_new cs ps dest" using True by (simp add: Let_def)
    ultimately show ?thesis using Cons.IH [of dest] Cons.prems by auto
  next
    case False
    then have "add_new cs (p # ps) dest = add_new cs ps (dest @ [?q])" by (auto simp: Let_def)
    then show ?thesis using Cons.IH [of "dest @ [?q]"] Cons.prems by auto
  qed
qed simp

text \<open>
  The number that the client with number \<open>n\<close> among \<open>cs\<close> has among \<open>cs2\<close>, where clients are told
  apart by UUID; the numbers of other programs stay.
\<close>

definition renumber :: "alsa_client list \<Rightarrow> alsa_client list \<Rightarrow> u8 \<Rightarrow> u8" where
  "renumber cs cs2 n =
     (case List.find (\<lambda>c. alsa_client_id c = n) cs of
        None \<Rightarrow> n
      | Some c \<Rightarrow> (case current_number cs2 (alsa_id c) of None \<Rightarrow> n | Some k \<Rightarrow> k))"

definition move_sub :: "(u8 \<Rightarrow> u8) \<Rightarrow> subscription \<Rightarrow> subscription" where
  "move_sub f s = s\<lparr>sub_sender := (sub_sender s)\<lparr>addr_client := f (addr_client (sub_sender s))\<rparr>,
     sub_dest := (sub_dest s)\<lparr>addr_client := f (addr_client (sub_dest s))\<rparr>\<rparr>"

text \<open>Every client of \<open>cs\<close> has a UUID and runs among \<open>cs2\<close>.\<close>

definition all_back :: "alsa_client list \<Rightarrow> alsa_client list \<Rightarrow> bool" where
  "all_back cs cs2 \<longleftrightarrow> (\<forall>c \<in> set cs. alsa_id c \<noteq> 0 \<and> alsa_id c \<in> alsa_id ` set cs2)"

lemma current_number_known: "u \<in> alsa_id ` set cs \<Longrightarrow> \<exists>n. current_number cs u = Some n"
  by (auto simp: current_number_def find_None_iff simp flip: not_None_eq)

lemma unset_saved:
  assumes "all_back cs cs2" "unnamed p"
  shows "ends_known cs2 (saved_part (alsa_patch_set p cs))"
    and "sub (unset_now cs2 (saved_part (alsa_patch_set p cs))) = move_sub (renumber cs cs2) (sub p)"
proof -
  have named: "alsa_id c \<noteq> 0 \<and> (\<exists>n. current_number cs2 (alsa_id c) = Some n)"
    if "List.find (\<lambda>c. alsa_client_id c = n) cs = Some c" for c n
    using that assms(1) find_Some_set current_number_known unfolding all_back_def by metis
  show "ends_known cs2 (saved_part (alsa_patch_set p cs))"
    using assms(2) named [of "addr_client (sub_sender (sub p))"] named [of "addr_client (sub_dest (sub p))"]
    by (auto simp: ends_known_def alsa_patch_unset_exact missing_end_def saved_part_def alsa_patch_set_def
        alsa_patch_set_client_id_def unnamed_def uuid_is_null_def Let_def split: option.split)
  show "sub (unset_now cs2 (saved_part (alsa_patch_set p cs))) = move_sub (renumber cs cs2) (sub p)"
    using assms(2) named [of "addr_client (sub_sender (sub p))"] named [of "addr_client (sub_dest (sub p))"]
    by (cases "List.find (\<lambda>c. alsa_client_id c = addr_client (sub_sender (sub p))) cs";
        cases "List.find (\<lambda>c. alsa_client_id c = addr_client (sub_dest (sub p))) cs")
      (auto simp: unset_now_def alsa_patch_unset_exact renumber_end_def saved_part_def alsa_patch_set_def
        alsa_patch_set_client_id_def unnamed_def uuid_is_null_def move_sub_def renumber_def Let_def)
qed

lemma image_filter_image:
  "(\<And>p. p \<in> A \<Longrightarrow> P (h p) \<longleftrightarrow> Q (f p)) \<Longrightarrow> (\<And>p. p \<in> A \<Longrightarrow> g (h p) = f p) \<Longrightarrow>
     g ` {q \<in> h ` A. P q} = {s \<in> f ` A. Q s}"
proof -
  assume a: "\<And>p. p \<in> A \<Longrightarrow> P (h p) \<longleftrightarrow> Q (f p)" "\<And>p. p \<in> A \<Longrightarrow> g (h p) = f p"
  have "{q \<in> h ` A. P q} = h ` {p \<in> A. Q (f p)}" using a(1) by auto
  then have "g ` {q \<in> h ` A. P q} = (\<lambda>p. g (h p)) ` {p \<in> A. Q (f p)}" by (simp add: image_image)
  also have "\<dots> = f ` {p \<in> A. Q (f p)}" using a(2) by (intro image_cong) auto
  finally show ?thesis by auto
qed

lemma saved_patches_eq:
  "alsa_mgr_get_client m i = Some k \<Longrightarrow>
     alsa_mgr_get_client_patches i m dest = Inr (add_new (am_clients m) (alsa_patches (am_clients m ! k)) dest)"
  by (simp add: alsa_mgr_get_client_patches_def Let_def alsa_client_dup_patches_ok set_replicate_conv_if)


definition example_seq :: seq_lib where
  "example_seq = \<lparr>sq_subscribe = (\<lambda>_. 0), sq_ports = (\<lambda>n. if n = 20 then [0] else []),
     sq_subscribers = (\<lambda>a w. if w then [] else
       [\<lparr>query_root = a, query_addr = \<lparr>addr_client = 21, addr_port = 1\<rparr>, query_queue = 0,
         query_exclusive = False, query_time_update = False, query_time_real = False\<rparr>]),
     sq_narrow = (\<lambda>w. w)\<rparr>"

definition client_of :: "uuid \<Rightarrow> u8 \<Rightarrow> alsa_client" where
  "client_of i n = (alsa_client_set_id (alsa_client_set_client_id alsa_client_init n) i)"

lemma add_plain:
  assumes "alsa_reachable m" "am_foreign_ports m = []" "i \<notin> alsa_id ` set (am_clients m)"
  shows "alsa_reachable (m\<lparr>am_clients := am_clients m @ [(client_of i n)\<lparr>alsa_old_patches := ps\<rparr>]\<rparr>)"
proof (rule alsa_reachable.adds [OF assms(1,3)])
  show "alsa_mgr_add_client S i n ps m =
      Inr (m\<lparr>am_clients := am_clients m @ [(client_of i n)\<lparr>alsa_old_patches := ps\<rparr>]\<rparr>)" for S
    by (simp add: alsa_mgr_add_client_def alsa_mgr_check_client_fports_def client_of_def assms(2) Let_def split: option.split)
qed

definition link_sub :: "u8 \<Rightarrow> u8 \<Rightarrow> subscription" where
  "link_sub a b = empty_subscription\<lparr>sub_sender := \<lparr>addr_client = a, addr_port = 0\<rparr>,
     sub_dest := \<lparr>addr_client = b, addr_port = 1\<rparr>\<rparr>"

definition first_session :: alsa_mgr where
  "first_session = alsa_mgr_new\<lparr>am_clients :=
     [(client_of 7 20)\<lparr>alsa_patches := [\<lparr>src_id = 0, dest_id = 0, sub = link_sub 20 21\<rparr>]\<rparr>, client_of 8 21]\<rparr>"

definition later_session :: alsa_mgr where
  "later_session = alsa_mgr_new\<lparr>am_clients :=
     [client_of 8 30, (client_of 7 31)\<lparr>alsa_old_patches :=
        [saved_part \<lparr>src_id = 7, dest_id = 8, sub = link_sub 20 21\<rparr>]\<rparr>]\<rparr>"

lemmas client_of_simps = client_of_def alsa_client_set_id_def alsa_client_set_client_id_def alsa_client_init_def

lemma first_session_reachable: "alsa_reachable first_session"
proof -
  have "alsa_reachable (alsa_mgr_new\<lparr>am_clients := [client_of 7 20]\<rparr>)"
    using add_plain [OF alsa_reachable.starts, of 7 "[]" 20] by (simp add: alsa_mgr_new_def client_of_simps)
  from add_plain [OF this, of 8 "[]" 21]
  have two: "alsa_reachable (alsa_mgr_new\<lparr>am_clients := [client_of 7 20, client_of 8 21]\<rparr>)"
    by (simp add: alsa_mgr_new_def client_of_simps)
  show ?thesis
    by (rule alsa_reachable.announces [OF two, of example_seq 0 "Some Port_subscribed"])
      (simp add: alsa_mgr_receive_event_def alsa_mgr_redo_patches_def alsa_mgr_redo_client_patches_def
        alsa_mgr_get_alsa_patches_with_port_def alsa_patch_new_with_query_def alsa_patch_init_def
        alsa_patch_set_sub_from_query_def alsa_patch_set_sub_def query_to_sub_def example_seq_def Let_def
        alsa_mgr_backup_patches_def BACKUP_TIMEOUT_def first_session_def alsa_mgr_new_def client_of_simps
        link_sub_def empty_subscription_def)
qed

lemma later_session_reachable: "alsa_reachable later_session"
proof -
  have "alsa_reachable (alsa_mgr_new\<lparr>am_clients := [client_of 8 30]\<rparr>)"
    using add_plain [OF alsa_reachable.starts, of 8 "[]" 30] by (simp add: alsa_mgr_new_def client_of_simps)
  from add_plain [OF this, of 7 "[saved_part \<lparr>src_id = 7, dest_id = 8, sub = link_sub 20 21\<rparr>]" 31]
  show ?thesis by (simp add: later_session_def alsa_mgr_new_def client_of_simps)
qed


end
