(* ===== verification/Messages.thy ===== *)
theory Messages
  imports Dbus
begin

text \<open>
  The messages of \<^verbatim>\<open>dbus/method.c\<close>, \<^verbatim>\<open>signal.c\<close> and \<^verbatim>\<open>error.c\<close> as objects with reference counts, and
  the service of \<^verbatim>\<open>service.c\<close>. What the process holds is a heap of messages and of pending calls;
  libdbus is what the code relies on: constructors return a message with one reference or, out of
  memory, none; sending keeps a reference of its own; a pending call belongs to whoever asked for
  it. Touching a message that has been released is the fault \<open>Dangling\<close>. Whether the next
  operation of libdbus finds memory is given by \<open>b_memory\<close>.
\<close>

section \<open>libdbus\<close>

record wire =
  w_type :: message_type
  w_args :: "dval list"
  w_no_reply :: bool

record bus =
  b_heap :: "nat \<Rightarrow> (wire \<times> nat) option"
  b_next :: nat
  b_pending :: "nat \<Rightarrow> nat option option"
  b_next_pending :: nat
  b_sent :: "wire list"
  b_memory :: "nat \<Rightarrow> bool"
  b_clock :: nat
  b_connected :: bool

definition memory_ok :: "bus \<Rightarrow> bool" where
  "memory_ok b = b_memory b (b_clock b)"

definition tick :: "bus \<Rightarrow> bus" where
  "tick b = b\<lparr>b_clock := Suc (b_clock b)\<rparr>"

definition new_wire :: "wire \<Rightarrow> bus \<Rightarrow> bus" where
  "new_wire w b = b\<lparr>b_heap := (b_heap b)(b_next b \<mapsto> (w, 1)), b_next := Suc (b_next b)\<rparr>"

definition dbus_message_new :: "message_type \<Rightarrow> bus \<Rightarrow> bus \<times> nat option" where
  "dbus_message_new ty b =
     (if memory_ok b then (new_wire \<lparr>w_type = ty, w_args = [], w_no_reply = False\<rparr> (tick b), Some (b_next b))
      else (tick b, None))"

definition dbus_message_append :: "nat \<Rightarrow> dval list \<Rightarrow> bus \<Rightarrow> (bus \<times> bool) res" where
  "dbus_message_append i vs b =
     (case b_heap b i of
        None \<Rightarrow> Inl Dangling
      | Some (w, n) \<Rightarrow>
          Inr (if memory_ok b then ((tick b)\<lparr>b_heap := (b_heap b)(i \<mapsto> (w\<lparr>w_args := w_args w @ vs\<rparr>, n))\<rparr>, True)
               else (tick b, False)))"

definition dbus_message_set_no_reply :: "nat \<Rightarrow> bus \<Rightarrow> bus res" where
  "dbus_message_set_no_reply i b =
     (case b_heap b i of
        None \<Rightarrow> Inl Dangling
      | Some (w, n) \<Rightarrow> Inr (b\<lparr>b_heap := (b_heap b)(i \<mapsto> (w\<lparr>w_no_reply := True\<rparr>, n))\<rparr>))"

definition dbus_message_unref :: "nat \<Rightarrow> bus \<Rightarrow> bus res" where
  "dbus_message_unref i b =
     (case b_heap b i of
        None \<Rightarrow> Inl Dangling
      | Some (w, n) \<Rightarrow> Inr (b\<lparr>b_heap := (b_heap b)(i := if n = 1 then None else Some (w, n - 1))\<rparr>))"

definition dbus_connection_send :: "nat \<Rightarrow> bus \<Rightarrow> (bus \<times> bool) res" where
  "dbus_connection_send i b =
     (case b_heap b i of
        None \<Rightarrow> Inl Dangling
      | Some (w, _) \<Rightarrow> Inr (if memory_ok b then ((tick b)\<lparr>b_sent := b_sent b @ [w]\<rparr>, True) else (tick b, False)))"

text \<open>A pending call, unless the connection is gone.\<close>

definition dbus_connection_send_with_reply :: "nat \<Rightarrow> bus \<Rightarrow> (bus \<times> nat option \<times> bool) res" where
  "dbus_connection_send_with_reply i b =
     bindr (dbus_connection_send i b) (\<lambda>(b1, ok).
       if ok \<and> b_connected b then
         Inr (b1\<lparr>b_pending := (b_pending b1)(b_next_pending b1 \<mapsto> None), b_next_pending := Suc (b_next_pending b1)\<rparr>,
           Some (b_next_pending b1), True)
       else Inr (b1, None, ok))"

text \<open>The answer to a pending call comes in; the pending call holds the reference.\<close>

definition reply_arrives :: "nat \<Rightarrow> wire \<Rightarrow> bus \<Rightarrow> bus" where
  "reply_arrives p w b = (new_wire w b)\<lparr>b_pending := (b_pending b)(p \<mapsto> Some (b_next b))\<rparr>"

definition dbus_pending_call_steal_reply :: "nat \<Rightarrow> bus \<Rightarrow> (bus \<times> nat option) res" where
  "dbus_pending_call_steal_reply p b =
     (case b_pending b p of
        None \<Rightarrow> Inl Dangling
      | Some r \<Rightarrow> Inr (b\<lparr>b_pending := (b_pending b)(p \<mapsto> None)\<rparr>, r))"

definition dbus_pending_call_unref :: "nat \<Rightarrow> bus \<Rightarrow> bus res" where
  "dbus_pending_call_unref p b =
     (case b_pending b p of None \<Rightarrow> Inl Dangling | Some _ \<Rightarrow> Inr (b\<lparr>b_pending := (b_pending b)(p := None)\<rparr>))"

section \<open>Replies\<close>

text \<open>The parts of \<open>method_call_t\<close> that matter: the call itself and the reply, if there is one.\<close>

record method_call =
  mc_message :: nat
  mc_reply :: "nat option"

definition dbus_message_new_reply :: "message_type \<Rightarrow> method_call \<Rightarrow> bus \<Rightarrow> (bus \<times> nat option) res" where
  "dbus_message_new_reply ty c b =
     (case b_heap b (mc_message c) of None \<Rightarrow> Inl Dangling | Some _ \<Rightarrow> Inr (dbus_message_new ty b))"

definition method_return_new_void :: "method_call \<Rightarrow> bus \<Rightarrow> (method_call \<times> bus) res" where
  "method_return_new_void c b =
     bindr (dbus_message_new_reply Message_method_return c b) (\<lambda>(b1, r). Inr (c\<lparr>mc_reply := r\<rparr>, b1))"

text \<open>The argument of a single-valued return: no type at all, a null string or a value.\<close>

datatype single_arg = Invalid_type | Null_string | Single dval

text \<open>What the three constructors share: the arguments go into the new reply, or there is no reply.\<close>

definition append_reply :: "dval list \<Rightarrow> method_call \<Rightarrow> bus \<Rightarrow> (method_call \<times> bus) res" where
  "append_reply vs c b =
     (case mc_reply c of
        None \<Rightarrow> Inr (c, b)
      | Some r \<Rightarrow>
          bindr (dbus_message_append r vs b) (\<lambda>(b1, ok).
            if ok then Inr (c, b1)
            else bindr (dbus_message_unref r b1) (\<lambda>b2. Inr (c\<lparr>mc_reply := None\<rparr>, b2))))"

definition method_return_new_single :: "single_arg option \<Rightarrow> method_call \<Rightarrow> bus \<Rightarrow> (method_call \<times> bus) res" where
  "method_return_new_single arg c b =
     (case arg of
        None \<Rightarrow> Inr (c, b)
      | Some a \<Rightarrow>
          bindr (method_return_new_void c b) (\<lambda>(c1, b1).
            case a of
              Invalid_type \<Rightarrow> Inr (c1, b1)
            | Null_string \<Rightarrow> append_reply [DString ''''] c1 b1
            | Single v \<Rightarrow> append_reply [v] c1 b1))"

text \<open>The arguments are an option: without a first type nothing is constructed.\<close>

definition method_return_new_valist :: "dval list option \<Rightarrow> method_call \<Rightarrow> bus \<Rightarrow> (method_call \<times> bus) res" where
  "method_return_new_valist args c b =
     (case args of
        None \<Rightarrow> Inr (c, b)
      | Some vs \<Rightarrow> bindr (method_return_new_void c b) (\<lambda>(c1, b1). append_reply vs c1 b1))"

text \<open>The text of an error is cut to the buffer of 1024 bytes.\<close>

definition lash_dbus_error :: "string \<Rightarrow> method_call \<Rightarrow> bus \<Rightarrow> (method_call \<times> bus) res" where
  "lash_dbus_error text c b =
     bindr (dbus_message_new_reply Message_error c b) (\<lambda>(b1, r).
       case r of
         None \<Rightarrow> Inr (c\<lparr>mc_reply := None\<rparr>, b1)
       | Some i \<Rightarrow> Inr (c\<lparr>mc_reply := r\<rparr>,
           b1\<lparr>b_heap := (b_heap b1)(i \<mapsto>
             (\<lparr>w_type = Message_error, w_args = [DString (take 1023 text)], w_no_reply = False\<rparr>, 1))\<rparr>))"

definition queue_reply :: "nat \<Rightarrow> bus \<Rightarrow> bus res" where
  "queue_reply r b = bindr (dbus_connection_send r b) (\<lambda>(b1, _). dbus_message_unref r b1)"

definition method_return_send :: "method_call \<Rightarrow> bus \<Rightarrow> (method_call \<times> bus) res" where
  "method_return_send c b =
     (case mc_reply c of
        Some r \<Rightarrow> bindr (queue_reply r b) (\<lambda>b1. Inr (c\<lparr>mc_reply := None\<rparr>, b1))
      | None \<Rightarrow>
          bindr (dbus_message_new_reply Message_method_return c b) (\<lambda>(b1, r).
            case r of
              None \<Rightarrow> Inr (c, b1)
            | Some i \<Rightarrow> bindr (queue_reply i b1) (\<lambda>b2. Inr (c\<lparr>mc_reply := None\<rparr>, b2))))"

text \<open>Whether a message is not an error, and otherwise its description if it can be read.\<close>

definition method_return_verify :: "wire option \<Rightarrow> bool \<times> cstr" where
  "method_return_verify msg =
     (case msg of
        None \<Rightarrow> (True, None)
      | Some w \<Rightarrow>
          if w_type w \<noteq> Message_error then (True, None)
          else (False, case w_args w of DString s # _ \<Rightarrow> Some s | _ \<Rightarrow> None))"

section \<open>Calls\<close>

type_synonym return_handler = "nat \<Rightarrow> bus \<Rightarrow> bus res"

text \<open>
  Every handler of a return has this shape: it takes the reply out of the pending call, looks at it,
  and releases both. \<open>method_default_handler\<close> only logs.
\<close>

definition method_default_handler :: return_handler where
  "method_default_handler p b =
     bindr (dbus_pending_call_steal_reply p b) (\<lambda>(b1, msg).
     bindr (case msg of None \<Rightarrow> Inr b1 | Some i \<Rightarrow> dbus_message_unref i b1) (\<lambda>b2.
       dbus_pending_call_unref p b2))"

definition method_call_init :: "bool \<Rightarrow> return_handler option \<Rightarrow> bus \<Rightarrow> (bus \<times> nat option) res" where
  "method_call_init valid handler b =
     (if \<not> valid then Inr (b, None)
      else
        (let (b1, m) = dbus_message_new Message_method_call b in
         case m of
           None \<Rightarrow> Inr (b1, None)
         | Some i \<Rightarrow>
             (case handler of
                None \<Rightarrow> bindr (dbus_message_set_no_reply i b1) (\<lambda>b2. Inr (b2, Some i))
              | Some _ \<Rightarrow> Inr (b1, Some i))))"

text \<open>\<open>ans\<close> is what arrives while the caller blocks.\<close>

definition method_send :: "wire \<Rightarrow> nat \<Rightarrow> return_handler option \<Rightarrow> bool \<Rightarrow> bus \<Rightarrow> (bus \<times> bool) res" where
  "method_send ans i handler will_block b =
     bindr (dbus_connection_send_with_reply i b) (\<lambda>(b1, pending, ok).
     bindr (dbus_message_unref i b1) (\<lambda>b2.
       case (will_block \<and> ok, pending, handler) of
         (True, Some p, Some h) \<Rightarrow> bindr (h p (reply_arrives p ans b2)) (\<lambda>b3. Inr (b3, ok))
       | (True, Some p, None) \<Rightarrow> Inr (reply_arrives p ans b2, ok)
       | _ \<Rightarrow> Inr (b2, ok)))"

definition method_call_new_void :: "wire \<Rightarrow> bool \<Rightarrow> return_handler option \<Rightarrow> bool \<Rightarrow> bus \<Rightarrow> (bus \<times> bool) res" where
  "method_call_new_void ans valid handler will_block b =
     bindr (method_call_init valid handler b) (\<lambda>(b1, m).
       case m of None \<Rightarrow> Inr (b1, False) | Some i \<Rightarrow> method_send ans i handler will_block b1)"

definition send_with_args ::
  "dval list \<Rightarrow> wire \<Rightarrow> bool \<Rightarrow> return_handler option \<Rightarrow> bool \<Rightarrow> bus \<Rightarrow> (bus \<times> bool) res" where
  "send_with_args vs ans valid handler will_block b =
     bindr (method_call_init valid handler b) (\<lambda>(b1, m).
       case m of
         None \<Rightarrow> Inr (b1, False)
       | Some i \<Rightarrow>
           bindr (dbus_message_append i vs b1) (\<lambda>(b2, ok).
             if ok then method_send ans i handler will_block b2
             else bindr (dbus_message_unref i b2) (\<lambda>b3. Inr (b3, False))))"

definition method_call_new_single ::
  "dval option \<Rightarrow> wire \<Rightarrow> bool \<Rightarrow> return_handler option \<Rightarrow> bool \<Rightarrow> bus \<Rightarrow> (bus \<times> bool) res" where
  "method_call_new_single arg ans valid handler will_block b =
     (case arg of None \<Rightarrow> Inr (b, False) | Some v \<Rightarrow> send_with_args [v] ans valid handler will_block b)"

definition method_call_new_valist ::
  "dval list option \<Rightarrow> wire \<Rightarrow> bool \<Rightarrow> return_handler option \<Rightarrow> bool \<Rightarrow> bus \<Rightarrow> (bus \<times> bool) res" where
  "method_call_new_valist args ans valid handler will_block b =
     (case args of None \<Rightarrow> Inr (b, False) | Some vs \<Rightarrow> send_with_args vs ans valid handler will_block b)"

section \<open>Signals\<close>

definition signal_send :: "nat \<Rightarrow> bus \<Rightarrow> bus res" where
  "signal_send i b = bindr (dbus_connection_send i b) (\<lambda>(b1, _). Inr b1)"

definition signal_new_valist :: "dval list \<Rightarrow> bus \<Rightarrow> bus res" where
  "signal_new_valist vs b =
     (let (b1, m) = dbus_message_new Message_signal b in
      case m of
        None \<Rightarrow> Inr b1
      | Some i \<Rightarrow>
          bindr (dbus_message_append i vs b1) (\<lambda>(b2, ok).
          bindr (if ok then signal_send i b2 else Inr b2) (\<lambda>b3. dbus_message_unref i b3)))"

definition signal_new_single :: "dval \<Rightarrow> bus \<Rightarrow> bus res" where
  "signal_new_single v b = signal_new_valist [v] b"

section \<open>No message is lost or used after its release\<close>

text \<open>Numbers not given out yet are not in use.\<close>

definition bus_ok :: "bus \<Rightarrow> bool" where
  "bus_ok b \<longleftrightarrow> (\<forall>i \<ge> b_next b. b_heap b i = None) \<and> (\<forall>p \<ge> b_next_pending b. b_pending b p = None)"

lemma bus_okD [simp]: "bus_ok b \<Longrightarrow> (b_heap b)(b_next b := None) = b_heap b"
  "bus_ok b \<Longrightarrow> (b_pending b)(b_next_pending b := None) = b_pending b"
  by (auto simp: bus_ok_def fun_eq_iff)

text \<open>What a handler of returns has to do with the reply and the pending call.\<close>

locale return_handling =
  fixes h :: return_handler
  assumes releases: "\<And>b p i w. b_pending b p = Some (Some i) \<Longrightarrow> b_heap b i = Some (w, 1) \<Longrightarrow>
    \<exists>b'. h p b = Inr b' \<and> b_heap b' = (b_heap b)(i := None) \<and> b_pending b' = (b_pending b)(p := None)
      \<and> b_sent b' = b_sent b"
begin

text \<open>The reply that arrives is gone after the handler, and so is the pending call.\<close>

lemma answered:
  assumes "\<And>i. i \<ge> b_next b \<Longrightarrow> b_heap b i = None" "b_pending b p \<noteq> None"
  shows "\<exists>b'. h p (reply_arrives p w b) = Inr b' \<and> b_heap b' = b_heap b
    \<and> b_pending b' = (b_pending b)(p := None) \<and> b_sent b' = b_sent b"
proof -
  have "(b_heap b)(b_next b := None) = b_heap b" using assms(1) by (auto simp: fun_eq_iff)
  then show ?thesis using releases [of "reply_arrives p w b" p "b_next b" w]
    by (auto simp: reply_arrives_def new_wire_def)
qed

text \<open>Sending the only reference to a message.\<close>

lemma sent_and_released:
  assumes b: "bus_ok b" and i: "i \<ge> b_next b" "i < b_next b1"
    and b1: "b_heap b1 = (b_heap b)(i \<mapsto> (w, 1))" "b_pending b1 = b_pending b" "b_next_pending b1 = b_next_pending b"
  shows "\<exists>b' r. method_send ans i (Some h) block b1 = Inr (b', r) \<and> b_heap b' = b_heap b
    \<and> b_sent b' = b_sent b1 @ (if r then [w] else [])
    \<and> b_pending b' = (if r \<and> b_connected b1 \<and> \<not> block then (b_pending b)(b_next_pending b \<mapsto> None) else b_pending b)
    \<and> (\<not> block \<longrightarrow> b_next b' = b_next b1)"
proof -
  have fresh: "(b_heap b)(i := None) = b_heap b" "b_pending b (b_next_pending b) = None"
    using b i by (auto simp: bus_ok_def fun_eq_iff)
  let ?p = "b_next_pending b"
  let ?b2 = "(tick b1)\<lparr>b_sent := b_sent b1 @ [w], b_pending := (b_pending b)(?p \<mapsto> None),
    b_next_pending := Suc ?p, b_heap := b_heap b\<rparr>"
  have run: "method_send ans i (Some h) block b1 =
      (if \<not> memory_ok b1 then Inr ((tick b1)\<lparr>b_heap := b_heap b\<rparr>, False)
       else if \<not> b_connected b1 then Inr ((tick b1)\<lparr>b_sent := b_sent b1 @ [w], b_heap := b_heap b\<rparr>, True)
       else if \<not> block then Inr (?b2, True)
       else bindr (h ?p (reply_arrives ?p ans ?b2)) (\<lambda>b3. Inr (b3, True)))"
    using b1 fresh
    by (simp add: method_send_def dbus_connection_send_with_reply_def dbus_connection_send_def
        dbus_message_unref_def tick_def)
  have "\<And>j. j \<ge> b_next ?b2 \<Longrightarrow> b_heap ?b2 j = None" using b i by (auto simp: bus_ok_def tick_def)
  from answered [of ?b2 ?p ans, OF this] obtain b' where b': "h ?p (reply_arrives ?p ans ?b2) = Inr b'"
    "b_heap b' = b_heap b" "b_pending b' = ((b_pending b)(?p \<mapsto> None))(?p := None)" "b_sent b' = b_sent b1 @ [w]"
    by auto
  consider "\<not> memory_ok b1" | "memory_ok b1" "\<not> b_connected b1" | "memory_ok b1" "b_connected b1" "\<not> block"
    | "memory_ok b1" "b_connected b1" block by blast
  then show ?thesis
  proof cases
    case 1
    show ?thesis
      by (rule exI [of _ "(tick b1)\<lparr>b_heap := b_heap b\<rparr>"], rule exI [of _ False])
        (use 1 run b1 in \<open>simp add: tick_def\<close>)
  next
    case 2
    show ?thesis
      by (rule exI [of _ "(tick b1)\<lparr>b_sent := b_sent b1 @ [w], b_heap := b_heap b\<rparr>"], rule exI [of _ True])
        (use 2 run b1 in \<open>simp add: tick_def\<close>)
  next
    case 3
    show ?thesis by (rule exI [of _ ?b2], rule exI [of _ True]) (use 3 run b1 in \<open>simp add: tick_def\<close>)
  next
    case 4
    show ?thesis by (rule exI [of _ b'], rule exI [of _ True]) (use 4 run b' fresh in \<open>simp add: fun_upd_idem\<close>)
  qed
qed

text \<open>A call with arguments, from its construction to the end of the function.\<close>

lemma call_released:
  assumes "bus_ok b"
  shows "\<exists>b' r. send_with_args vs ans valid (Some h) block b = Inr (b', r) \<and> b_heap b' = b_heap b
    \<and> b_sent b' = b_sent b @ (if r then [\<lparr>w_type = Message_method_call, w_args = vs, w_no_reply = False\<rparr>] else [])
    \<and> b_pending b' = (if r \<and> b_connected b \<and> \<not> block then (b_pending b)(b_next_pending b \<mapsto> None) else b_pending b)
    \<and> (\<not> block \<longrightarrow> b_next b \<le> b_next b')"
proof (cases "valid \<and> memory_ok b \<and> memory_ok (tick b)")
  case True
  let ?w = "\<lparr>w_type = Message_method_call, w_args = vs, w_no_reply = False\<rparr>"
  obtain b2 where run: "send_with_args vs ans valid (Some h) block b = method_send ans (b_next b) (Some h) block b2"
    and b2: "b_heap b2 = (b_heap b)(b_next b \<mapsto> (?w, 1))" "b_pending b2 = b_pending b"
    "b_next_pending b2 = b_next_pending b" "b_next b2 = Suc (b_next b)" "b_connected b2 = b_connected b"
    "b_sent b2 = b_sent b"
    using True by (simp add: send_with_args_def method_call_init_def dbus_message_new_def dbus_message_append_def
        new_wire_def tick_def memory_ok_def)
  have "b_next b < b_next b2" by (simp add: b2(4))
  from sent_and_released [OF assms order_refl this b2(1-3), of ans block]
  obtain b' r where "method_send ans (b_next b) (Some h) block b2 = Inr (b', r)" "b_heap b' = b_heap b"
    "b_sent b' = b_sent b2 @ (if r then [?w] else [])"
    "b_pending b' = (if r \<and> b_connected b2 \<and> \<not> block then (b_pending b)(b_next_pending b \<mapsto> None) else b_pending b)"
    "\<not> block \<longrightarrow> b_next b' = b_next b2" by blast
  then show ?thesis unfolding run by (intro exI [of _ b'] exI [of _ r]) (simp add: b2)
next
  case False
  then show ?thesis using assms
    by (auto simp: send_with_args_def method_call_init_def dbus_message_new_def dbus_message_append_def
        dbus_message_unref_def new_wire_def tick_def memory_ok_def)
qed

lemma void_released:
  assumes "bus_ok b"
  shows "\<exists>b' r. method_call_new_void ans valid (Some h) block b = Inr (b', r) \<and> b_heap b' = b_heap b
    \<and> b_sent b' = b_sent b @ (if r then [\<lparr>w_type = Message_method_call, w_args = [], w_no_reply = False\<rparr>] else [])
    \<and> b_pending b' = (if r \<and> b_connected b \<and> \<not> block then (b_pending b)(b_next_pending b \<mapsto> None) else b_pending b)
    \<and> (\<not> block \<longrightarrow> b_next b \<le> b_next b')"
proof (cases "valid \<and> memory_ok b")
  case True
  let ?w = "\<lparr>w_type = Message_method_call, w_args = [], w_no_reply = False\<rparr>"
  obtain b2 where run: "method_call_new_void ans valid (Some h) block b = method_send ans (b_next b) (Some h) block b2"
    and b2: "b_heap b2 = (b_heap b)(b_next b \<mapsto> (?w, 1))" "b_pending b2 = b_pending b"
    "b_next_pending b2 = b_next_pending b" "b_next b2 = Suc (b_next b)" "b_connected b2 = b_connected b"
    "b_sent b2 = b_sent b"
    using True by (simp add: method_call_new_void_def method_call_init_def dbus_message_new_def new_wire_def tick_def)
  have "b_next b < b_next b2" by (simp add: b2(4))
  from sent_and_released [OF assms order_refl this b2(1-3), of ans block]
  obtain b' r where "method_send ans (b_next b) (Some h) block b2 = Inr (b', r)" "b_heap b' = b_heap b"
    "b_sent b' = b_sent b2 @ (if r then [?w] else [])"
    "b_pending b' = (if r \<and> b_connected b2 \<and> \<not> block then (b_pending b)(b_next_pending b \<mapsto> None) else b_pending b)"
    "\<not> block \<longrightarrow> b_next b' = b_next b2" by blast
  then show ?thesis unfolding run by (intro exI [of _ b'] exI [of _ r]) (simp add: b2)
next
  case False
  then show ?thesis
    by (auto simp: method_call_new_void_def method_call_init_def dbus_message_new_def tick_def)
qed

end

interpretation default_handler: return_handling method_default_handler
  by unfold_locales
    (auto simp: method_default_handler_def dbus_pending_call_steal_reply_def dbus_message_unref_def
      dbus_pending_call_unref_def)


definition example_bus :: bus where
  "example_bus = \<lparr>b_heap = (\<lambda>_. None), b_next = 0, b_pending = (\<lambda>_. None), b_next_pending = 0, b_sent = [],
     b_memory = (\<lambda>n. n < 2), b_clock = 0, b_connected = True\<rparr>"

lemma example_bus_ok: "bus_ok example_bus"
  by (simp add: bus_ok_def example_bus_def)


section \<open>One reply\<close>

text \<open>What a handler of a method may do to the reply.\<close>

datatype reply_step =
    Return_void
  | Return_single "single_arg option"
  | Return_valist "dval list option"
  | Return_error string

fun run_step :: "reply_step \<Rightarrow> method_call \<Rightarrow> bus \<Rightarrow> (method_call \<times> bus) res" where
  "run_step Return_void c b = method_return_new_void c b"
| "run_step (Return_single a) c b = method_return_new_single a c b"
| "run_step (Return_valist a) c b = method_return_new_valist a c b"
| "run_step (Return_error text) c b = lash_dbus_error text c b"

fun run_steps :: "reply_step list \<Rightarrow> method_call \<Rightarrow> bus \<Rightarrow> (method_call \<times> bus) res" where
  "run_steps [] c b = Inr (c, b)"
| "run_steps (s # ss) c b = bindr (run_step s c b) (\<lambda>(c1, b1). run_steps ss c1 b1)"

text \<open>The reply a step asks for, when there is memory; \<open>None\<close> when it leaves the reply as it was.\<close>

fun step_reply :: "reply_step \<Rightarrow> wire option" where
  "step_reply Return_void = Some \<lparr>w_type = Message_method_return, w_args = [], w_no_reply = False\<rparr>"
| "step_reply (Return_single a) =
     map_option (\<lambda>x. \<lparr>w_type = Message_method_return,
       w_args = (case x of Invalid_type \<Rightarrow> [] | Null_string \<Rightarrow> [DString ''''] | Single v \<Rightarrow> [v]), w_no_reply = False\<rparr>) a"
| "step_reply (Return_valist a) = map_option (\<lambda>vs. \<lparr>w_type = Message_method_return, w_args = vs, w_no_reply = False\<rparr>) a"
| "step_reply (Return_error text) = Some \<lparr>w_type = Message_error, w_args = [DString (take 1023 text)], w_no_reply = False\<rparr>"

text \<open>The state in which a call has its reply, or none, and nothing else was added.\<close>

definition holds_reply :: "bus \<Rightarrow> method_call \<Rightarrow> wire option \<Rightarrow> bus \<Rightarrow> bool" where
  "holds_reply b c w b' \<longleftrightarrow>
     (case (mc_reply c, w) of
        (None, None) \<Rightarrow> b_heap b' = b_heap b
      | (Some r, Some x) \<Rightarrow> r \<ge> b_next b \<and> r < b_next b' \<and> b_heap b' = (b_heap b)(r \<mapsto> (x, 1))
      | _ \<Rightarrow> False)
     \<and> b_pending b' = b_pending b \<and> b_sent b' = b_sent b \<and> b_memory b' = b_memory b \<and> b_next b \<le> b_next b'"

lemmas dbus_simps = dbus_message_new_reply_def dbus_message_new_def dbus_message_append_def dbus_message_unref_def
  new_wire_def tick_def memory_ok_def

definition step_ok :: "bus \<Rightarrow> method_call \<Rightarrow> wire option \<Rightarrow> (method_call \<times> bus) res \<Rightarrow> bool" where
  "step_ok b c w r =
     (case r of
        Inl _ \<Rightarrow> False
      | Inr (c', b') \<Rightarrow> mc_message c' = mc_message c
          \<and> holds_reply b c' (if mc_reply c' = None then None else w) b'
          \<and> ((\<forall>n. b_memory b n) \<longrightarrow> mc_reply c' = None \<longrightarrow> w = None))"

lemma void_ok:
  assumes "bus_ok b" "b_heap b (mc_message c) \<noteq> None"
  shows "step_ok b c (Some \<lparr>w_type = Message_method_return, w_args = [], w_no_reply = False\<rparr>)
    (method_return_new_void c b)"
  using assms by (auto simp: step_ok_def method_return_new_void_def dbus_simps holds_reply_def)

lemma append_ok:
  assumes "bus_ok b" "step_ok b c (Some w) (Inr (c1, b1))"
  shows "step_ok b c (Some (w\<lparr>w_args := w_args w @ vs\<rparr>)) (append_reply vs c1 b1)"
proof (cases "mc_reply c1")
  case None
  then show ?thesis using assms(2) by (simp add: step_ok_def append_reply_def)
next
  case (Some r)
  then have "b_next b \<le> r" "b_heap b1 = (b_heap b)(r \<mapsto> (w, 1))"
    using assms(2) by (simp_all add: step_ok_def holds_reply_def)
  moreover have "(b_heap b)(r := None) = b_heap b" using assms(1) \<open>b_next b \<le> r\<close> by (auto simp: bus_ok_def fun_eq_iff)
  ultimately show ?thesis using assms(2) Some
    by (auto simp: step_ok_def append_reply_def dbus_simps holds_reply_def)
qed

lemma step_okE:
  assumes "step_ok b c w r"
  obtains c' b' where "r = Inr (c', b')" "step_ok b c w (Inr (c', b'))"
  using assms by (cases r) (auto simp: step_ok_def)

lemma step_holds:
  assumes "bus_ok b" "b_heap b (mc_message c) \<noteq> None" "mc_reply c = None"
  shows "step_ok b c (step_reply s) (run_step s c b)"
proof -
  have kept: "step_ok b c None (Inr (c, b))" using assms(3) by (simp add: step_ok_def holds_reply_def)
  obtain c1 b1 where void: "method_return_new_void c b = Inr (c1, b1)"
    and v: "step_ok b c (Some \<lparr>w_type = Message_method_return, w_args = [], w_no_reply = False\<rparr>) (Inr (c1, b1))"
    using void_ok [OF assms(1,2)] by (rule step_okE)
  show ?thesis
  proof (cases s)
    case (Return_single a)
    show ?thesis
    proof (cases a)
      case None
      then show ?thesis using kept Return_single by (simp add: method_return_new_single_def)
    next
      case (Some x)
      then show ?thesis using Return_single void v append_ok [OF assms(1) v]
        by (cases x) (simp_all add: method_return_new_single_def)
    qed
  next
    case (Return_valist a)
    then show ?thesis using kept void append_ok [OF assms(1) v]
      by (cases a) (simp_all add: method_return_new_valist_def)
  next
    case (Return_error e)
    then show ?thesis using assms
      by (auto simp: lash_dbus_error_def dbus_simps holds_reply_def step_ok_def)
  qed (use void v in \<open>simp\<close>)
qed

text \<open>Sending the reply, or a void one, releases it.\<close>

lemma queue_reply_ok:
  assumes "b_heap b r = Some (w, 1)"
  shows "\<exists>b'. queue_reply r b = Inr b' \<and> b_heap b' = (b_heap b)(r := None) \<and> b_pending b' = b_pending b
    \<and> (b_sent b' = b_sent b @ [w] \<or> \<not> (\<forall>n. b_memory b n) \<and> b_sent b' = b_sent b)"
  using assms by (auto simp: queue_reply_def dbus_connection_send_def dbus_simps)

lemma return_send_ok:
  assumes "bus_ok b" "b_heap b (mc_message c) \<noteq> None" "mc_message c1 = mc_message c"
    and "holds_reply b c1 w b1"
  shows "\<exists>c' b'. method_return_send c1 b1 = Inr (c', b') \<and> b_heap b' = b_heap b \<and> b_pending b' = b_pending b
    \<and> (let x = (case w of Some x \<Rightarrow> x | None \<Rightarrow> \<lparr>w_type = Message_method_return, w_args = [], w_no_reply = False\<rparr>)
       in b_sent b' = b_sent b @ [x] \<or> \<not> (\<forall>n. b_memory b n) \<and> b_sent b' = b_sent b)"
proof (cases "mc_reply c1")
  case (Some r)
  then obtain x where w: "w = Some x" and r: "b_next b \<le> r" "b_heap b1 = (b_heap b)(r \<mapsto> (x, 1))"
    and same: "b_pending b1 = b_pending b" "b_sent b1 = b_sent b" "b_memory b1 = b_memory b"
    using assms(4) by (auto simp: holds_reply_def split: option.split_asm)
  have "(b_heap b)(r := None) = b_heap b" using assms(1) r(1) by (auto simp: bus_ok_def fun_eq_iff)
  moreover obtain b' where b': "queue_reply r b1 = Inr b'" "b_heap b' = (b_heap b1)(r := None)"
    "b_pending b' = b_pending b1"
    "b_sent b' = b_sent b1 @ [x] \<or> \<not> (\<forall>n. b_memory b1 n) \<and> b_sent b' = b_sent b1"
    using queue_reply_ok [of b1 r x] r by auto
  ultimately show ?thesis using Some r same by (simp add: method_return_send_def w)
next
  case None
  let ?x = "\<lparr>w_type = Message_method_return, w_args = [], w_no_reply = False\<rparr>"
  have w: "w = None" and same: "b_heap b1 = b_heap b" "b_pending b1 = b_pending b" "b_sent b1 = b_sent b"
    "b_memory b1 = b_memory b" "b_next b \<le> b_next b1"
    using assms(4) None by (auto simp: holds_reply_def split: option.split_asm)
  have live: "b_heap b1 (mc_message c1) \<noteq> None" using assms(2,3) same by simp
  show ?thesis
  proof (cases "memory_ok b1")
    case False
    then show ?thesis using None live same w by (auto simp: method_return_send_def dbus_simps)
  next
    case True
    let ?b2 = "new_wire ?x (tick b1)"
    have fresh: "(b_heap b)(b_next b1 := None) = b_heap b" using assms(1) same(5) by (auto simp: bus_ok_def fun_eq_iff)
    obtain b' where b': "queue_reply (b_next b1) ?b2 = Inr b'" "b_heap b' = (b_heap ?b2)(b_next b1 := None)"
      "b_pending b' = b_pending ?b2"
      "b_sent b' = b_sent ?b2 @ [?x] \<or> \<not> (\<forall>n. b_memory ?b2 n) \<and> b_sent b' = b_sent ?b2"
      using queue_reply_ok [of ?b2 "b_next b1" ?x] by (auto simp: new_wire_def tick_def)
    moreover have "b_heap ?b2 = (b_heap b)(b_next b1 \<mapsto> (?x, 1))" "b_pending ?b2 = b_pending b" "b_sent ?b2 = b_sent b"
      "b_memory ?b2 = b_memory b" using same by (simp_all add: new_wire_def tick_def)
    ultimately show ?thesis using None live True w fresh
      by (simp add: method_return_send_def dbus_message_new_reply_def dbus_message_new_def split: option.split)
  qed
qed

text \<open>C14. A method call that is answered in at most one way, whatever that is, gets at most one reply: the one that
  was constructed, or a void one. No message is left behind and none is touched after its release, however memory
  runs out; with memory the reply is sent.\<close>

theorem reply_released:
  assumes "bus_ok b" "b_heap b (mc_message c) \<noteq> None" "mc_reply c = None" "length steps \<le> 1"
  shows "\<exists>c1 b1 c' b'. run_steps steps c b = Inr (c1, b1) \<and> method_return_send c1 b1 = Inr (c', b')
    \<and> b_heap b' = b_heap b \<and> b_pending b' = b_pending b
    \<and> (\<exists>x. (b_sent b' = b_sent b @ [x] \<or> \<not> (\<forall>n. b_memory b n) \<and> b_sent b' = b_sent b)
       \<and> (x = \<lparr>w_type = Message_method_return, w_args = [], w_no_reply = False\<rparr> \<or> Some x \<in> step_reply ` set steps)
       \<and> ((\<forall>n. b_memory b n) \<longrightarrow> steps \<noteq> [] \<longrightarrow> step_reply (hd steps) \<noteq> None \<longrightarrow> Some x = step_reply (hd steps)))"
proof (cases steps)
  case Nil
  have "holds_reply b c None b" using assms(3) by (simp add: holds_reply_def)
  from return_send_ok [OF assms(1,2) refl this] show ?thesis using Nil by (auto simp: Let_def)
next
  case (Cons s ss)
  then have ss: "steps = [s]" using assms(4) by simp
  obtain c1 b1 where run: "run_step s c b = Inr (c1, b1)" and ok: "step_ok b c (step_reply s) (Inr (c1, b1))"
    using step_holds [OF assms(1-3)] by (rule step_okE)
  let ?w = "if mc_reply c1 = None then None else step_reply s"
  have held: "mc_message c1 = mc_message c" "holds_reply b c1 ?w b1"
    and mem: "(\<forall>n. b_memory b n) \<longrightarrow> mc_reply c1 = None \<longrightarrow> step_reply s = None"
    using ok by (simp_all add: step_ok_def)
  from return_send_ok [OF assms(1,2) held] show ?thesis
    using ss run mem by (auto simp: Let_def split: option.split_asm if_split_asm)
qed

definition called_bus :: bus where
  "called_bus = \<lparr>b_heap = [0 \<mapsto> (\<lparr>w_type = Message_method_call, w_args = [], w_no_reply = False\<rparr>, 1)],
     b_next = 1, b_pending = (\<lambda>_. None), b_next_pending = 0, b_sent = [], b_memory = (\<lambda>_. True), b_clock = 0,
     b_connected = True\<rparr>"

theorem reply_released_witness:
  "\<exists>c1 b1 c' b'. run_steps [Return_single (Some Null_string)] \<lparr>mc_message = 0, mc_reply = None\<rparr> called_bus = Inr (c1, b1)
    \<and> method_return_send c1 b1 = Inr (c', b') \<and> b_heap b' = b_heap called_bus
    \<and> b_sent b' = [\<lparr>w_type = Message_method_return, w_args = [DString ''''], w_no_reply = False\<rparr>]"
proof -
  have ok: "bus_ok called_bus" by (simp add: bus_ok_def called_bus_def)
  show ?thesis
    using reply_released [OF ok, of "\<lparr>mc_message = 0, mc_reply = None\<rparr>" "[Return_single (Some Null_string)]"]
    by (simp add: called_bus_def) blast
qed

text \<open>A handler that constructs a second reply loses the first: nothing releases it any more.\<close>

lemma second_reply_leaks:
  assumes "bus_ok b" "b_heap b (mc_message c) \<noteq> None" "\<And>n. b_memory b n"
  shows "\<exists>c1 b1 c' b'. run_steps [Return_void, Return_void] c b = Inr (c1, b1) \<and> method_return_send c1 b1 = Inr (c', b')
    \<and> b_heap b' (b_next b) \<noteq> None \<and> b_heap b (b_next b) = None"
proof -
  have "mc_message c < b_next b" using assms(1,2) unfolding bus_ok_def by (meson not_less)
  then show ?thesis using assms
    by (auto simp: method_return_new_void_def method_return_send_def queue_reply_def dbus_connection_send_def dbus_simps
        bus_ok_def)
qed

section \<open>The service\<close>

text \<open>
  What setting up a service depends on: the answers of the bus (\<open>-1\<close> is an error and \<open>3\<close> that
  the name exists), and for each path whether it can be registered. Object paths are numbers here.
\<close>

record bus_answers =
  ba_bus_get :: bool
  ba_unique_name :: cstr
  ba_request_name :: int
  ba_register :: "nat \<Rightarrow> bool"

definition DBUS_REQUEST_NAME_REPLY_EXISTS :: int where "DBUS_REQUEST_NAME_REPLY_EXISTS = 3"

record service =
  sv_name :: string
  sv_unique_name :: string
  sv_object_paths :: "nat list"

text \<open>The paths registered before the first that cannot be, and whether all could.\<close>

fun register_paths :: "(nat \<Rightarrow> bool) \<Rightarrow> nat list \<Rightarrow> nat list \<times> bool" where
  "register_paths reg [] = ([], True)"
| "register_paths reg (p # ps) =
     (if reg p then (let (done, ok) = register_paths reg ps in (p # done, ok)) else ([], False))"

text \<open>
  The service, the paths registered with the connection and the paths freed. The array holds
  \<open>num_paths + 1\<close> pointers, the last a null pointer.
\<close>

definition service_new ::
  "bus_answers \<Rightarrow> cstr \<Rightarrow> bool \<Rightarrow> int \<Rightarrow> nat list \<Rightarrow> (service option \<times> nat list \<times> nat list) res" where
  "service_new B service_name quit num_paths paths =
     (if \<not> quit \<or> num_paths < 1 then Inr (None, [], [])
      else if \<not> ba_bus_get B then Inr (None, [], paths)
      else
        (case ba_unique_name B of
           None \<Rightarrow> Inr (None, [], paths)
         | Some unique \<Rightarrow>
             if service_name \<noteq> None \<and> (ba_request_name B = -1 \<or> ba_request_name B = DBUS_REQUEST_NAME_REPLY_EXISTS)
             then Inr (None, [], paths)
             else if int (length paths) > num_paths then Inl Out_of_bounds
             else
               (let (done, ok) = register_paths (ba_register B) paths
                in if ok then Inr (Some \<lparr>sv_name = (case service_name of Some n \<Rightarrow> n | None \<Rightarrow> ''''),
                     sv_unique_name = unique, sv_object_paths = paths\<rparr>, done, [])
                   else Inr (None, done, paths))))"

text \<open>The paths that destroying a service destroys.\<close>

definition service_destroy :: "service option \<Rightarrow> nat list" where
  "service_destroy s = (case s of None \<Rightarrow> [] | Some x \<Rightarrow> sv_object_paths x)"

lemma register_paths_all: "register_paths reg ps = (done, ok) \<Longrightarrow> (ok \<longrightarrow> done = ps) \<and> (\<exists>rest. ps = done @ rest)"
  by (induction ps arbitrary: "done") (auto simp: Let_def split: prod.splits if_split_asm)

text \<open>
  Every path given is owned by the service or freed, and a service has registered all of its paths.
  A failed one frees a path that stays registered only when another path was registered before
  the failing one; the daemon and the library give one path each.
\<close>

lemma service_new_owns:
  assumes "service_new B name True n ps = Inr (s, registered, freed)" "n \<ge> 1"
  shows "service_destroy s @ freed = ps" "s \<noteq> None \<Longrightarrow> registered = ps"
    "length ps \<le> 1 \<Longrightarrow> set registered \<inter> set freed = {}"
proof -
  obtain ds ok where r: "register_paths (ba_register B) ps = (ds, ok)" by fastforce
  have "length ps \<le> 1 \<Longrightarrow> \<not> ok \<Longrightarrow> ds = []"
    using r by (cases ps) (auto split: if_split_asm prod.splits)
  then show "service_destroy s @ freed = ps" "s \<noteq> None \<Longrightarrow> registered = ps"
    "length ps \<le> 1 \<Longrightarrow> set registered \<inter> set freed = {}"
    using assms r register_paths_all [OF r]
    by (auto simp: service_new_def service_destroy_def split: option.splits if_split_asm)
qed

end
