(* ===== verification/JackBus.thy ===== *)
theory JackBus
  imports Server Messages
begin

text \<open>
  The D-Bus side of \<^verbatim>\<open>lashd/jackdbus_mgr.c\<close>: the match rules that starting the manager adds, the filter
  that picks the signals out of all messages and reads their arguments, and the calls to jackdbus
  whose answers it waits for. The handlers the signals lead to are those of \<open>Server\<close>.
\<close>

section \<open>Signals\<close>

definition JACKDBUS_SERVICE :: string where "JACKDBUS_SERVICE = ''org.jackaudio.service''"
definition JACKDBUS_OBJECT :: string where "JACKDBUS_OBJECT = ''/org/jackaudio/Controller''"
definition JACKDBUS_IFACE_CONTROL :: string where "JACKDBUS_IFACE_CONTROL = ''org.jackaudio.JackControl''"
definition JACKDBUS_IFACE_PATCHBAY :: string where "JACKDBUS_IFACE_PATCHBAY = ''org.jackaudio.JackPatchbay''"
definition DBUS_INTERFACE_DBUS :: string where "DBUS_INTERFACE_DBUS = ''org.freedesktop.DBus''"

record raw_message =
  rm_type :: message_type
  rm_path :: cstr
  rm_interface :: cstr
  rm_member :: cstr
  rm_args :: "dval list"

text \<open>What the filter returns, and for a handled message the signal its handler gets, if any.\<close>

datatype filtered = Not_yet_handled | Handled "jack_signal option"

definition lashd_jackdbus_handle_patchbay_signal :: "raw_message \<Rightarrow> jack_signal option" where
  "lashd_jackdbus_handle_patchbay_signal m =
     (case rm_member m of
        None \<Rightarrow> None
      | Some name \<Rightarrow>
          if name = ''ClientAppeared'' then
            (case rm_args m of
               DUint64 _ # DUint64 k # DString n # _ \<Rightarrow> Some (Client_appeared_signal n k) | _ \<Rightarrow> None)
          else if name = ''ClientDisappeared'' then
            (case rm_args m of
               DUint64 _ # DUint64 k # DString n # _ \<Rightarrow> Some (Client_disappeared_signal k) | _ \<Rightarrow> None)
          else if name = ''PortAppeared'' then
            (case rm_args m of
               DUint64 _ # DUint64 k # DString n # DUint64 _ # DString p # _ \<Rightarrow> Some (Port_appeared_signal k n p)
             | _ \<Rightarrow> None)
          else if name = ''PortsConnected'' then
            (case rm_args m of
               DUint64 _ # DUint64 k1 # DString n1 # DUint64 _ # DString p1 #
               DUint64 k2 # DString n2 # DUint64 _ # DString p2 # _ \<Rightarrow>
                 Some (Ports_connected_signal \<lparr>gp_src_id = k1, gp_src_name = n1, gp_src_port = p1,
                   gp_dest_id = k2, gp_dest_name = n2, gp_dest_port = p2\<rparr>)
             | _ \<Rightarrow> None)
          else if name = ''PortsDisconnected'' then
            (case rm_args m of
               DUint64 _ # DUint64 k1 # DString n1 # DUint64 _ # DString p1 #
               DUint64 k2 # DString n2 # DUint64 _ # DString p2 # _ \<Rightarrow>
                 Some (Ports_disconnected_signal \<lparr>gp_src_id = k1, gp_src_name = n1, gp_src_port = p1,
                   gp_dest_id = k2, gp_dest_name = n2, gp_dest_port = p2\<rparr>)
             | _ \<Rightarrow> None)
          else None)"

definition lashd_jackdbus_handle_control_signal :: "raw_message \<Rightarrow> jack_signal option" where
  "lashd_jackdbus_handle_control_signal m =
     (case rm_member m of
        None \<Rightarrow> None
      | Some name \<Rightarrow>
          if name = ''ServerStarted'' then Some Server_started_signal
          else if name = ''ServerStopped'' then Some Server_stopped_signal
          else None)"

definition lashd_jackdbus_handle_bus_signal :: "raw_message \<Rightarrow> filtered" where
  "lashd_jackdbus_handle_bus_signal m =
     (if rm_member m = Some ''NameOwnerChanged'' then
        (case rm_args m of
           DString object_name # DString old_owner # DString new_owner # _ \<Rightarrow>
             if object_name \<noteq> JACKDBUS_SERVICE then Not_yet_handled
             else Handled (Some (Name_owner_changed_signal old_owner new_owner))
         | _ \<Rightarrow> Handled None)
      else Not_yet_handled)"

definition filter_message :: "raw_message \<Rightarrow> filtered" where
  "filter_message m =
     (if rm_type m \<noteq> Message_signal \<or> rm_interface m = None then Not_yet_handled
      else if rm_path m = Some JACKDBUS_OBJECT \<and> rm_interface m = Some JACKDBUS_IFACE_PATCHBAY
        then Handled (lashd_jackdbus_handle_patchbay_signal m)
      else if rm_path m = Some JACKDBUS_OBJECT \<and> rm_interface m = Some JACKDBUS_IFACE_CONTROL
        then Handled (lashd_jackdbus_handle_control_signal m)
      else if rm_interface m = Some DBUS_INTERFACE_DBUS then lashd_jackdbus_handle_bus_signal m
      else Not_yet_handled)"

text \<open>The filter, as the connection runs it.\<close>

definition run_filter :: "env \<Rightarrow> raw_message \<Rightarrow> world \<Rightarrow> (world \<times> bool) res" where
  "run_filter E m w =
     (case filter_message m of
        Not_yet_handled \<Rightarrow> Inr (w, False)
      | Handled None \<Rightarrow> Inr (w, True)
      | Handled (Some s) \<Rightarrow> bindr (lashd_jackdbus_handler E s w) (\<lambda>w1. Inr (w1, True)))"

section \<open>Match rules\<close>

text \<open>A rule by the fields it asks for; the sender is not a field of the messages here.\<close>

record match_rule =
  mr_path :: cstr
  mr_interface :: string
  mr_member :: string
  mr_arg0 :: cstr

definition jack_rule :: "string \<Rightarrow> string \<Rightarrow> match_rule" where
  "jack_rule interface member =
     \<lparr>mr_path = Some JACKDBUS_OBJECT, mr_interface = interface, mr_member = member, mr_arg0 = None\<rparr>"

definition match_rules :: "match_rule list" where
  "match_rules =
     [jack_rule JACKDBUS_IFACE_PATCHBAY ''ClientAppeared'',
      jack_rule JACKDBUS_IFACE_PATCHBAY ''ClientDisappeared'',
      jack_rule JACKDBUS_IFACE_PATCHBAY ''PortAppeared'',
      jack_rule JACKDBUS_IFACE_PATCHBAY ''PortsConnected'',
      jack_rule JACKDBUS_IFACE_PATCHBAY ''PortsDisconnected'',
      \<lparr>mr_path = None, mr_interface = DBUS_INTERFACE_DBUS, mr_member = ''NameOwnerChanged'', mr_arg0 = Some JACKDBUS_SERVICE\<rparr>,
      jack_rule JACKDBUS_IFACE_CONTROL ''ServerStarted'',
      jack_rule JACKDBUS_IFACE_CONTROL ''ServerStopped'']"

definition rule_matches :: "match_rule \<Rightarrow> raw_message \<Rightarrow> bool" where
  "rule_matches r m \<longleftrightarrow> rm_type m = Message_signal
     \<and> (mr_path r = None \<or> rm_path m = mr_path r)
     \<and> rm_interface m = Some (mr_interface r) \<and> rm_member m = Some (mr_member r)
     \<and> (case mr_arg0 r of None \<Rightarrow> True | Some a \<Rightarrow> (case rm_args m of DString s # _ \<Rightarrow> s = a | _ \<Rightarrow> False))"

text \<open>
  Starting: the rules are added one after the other (\<open>added\<close> tells whether the bus took a rule), then
  the filter; without a connection, or when one of them fails, there is no manager.
\<close>

definition lashd_jackdbus_mgr_new ::
  "bool \<Rightarrow> (match_rule \<Rightarrow> bool) \<Rightarrow> bool \<Rightarrow> bool \<Rightarrow> (u64 \<Rightarrow> graph_reply) \<Rightarrow> (u64 \<Rightarrow> u64) \<Rightarrow> jackdbus_mgr option res" where
  "lashd_jackdbus_mgr_new connection added filter_added server_started ask pid_of =
     (if \<not> connection \<or> \<not> list_all added match_rules \<or> \<not> filter_added then Inr None
      else bindr (jackdbus_mgr_new server_started ask pid_of) (\<lambda>m. Inr (Some m)))"

section \<open>Calls that wait for their answer\<close>

text \<open>What every handler of a return does with the pending call and its reply.\<close>

definition take_reply :: "nat \<Rightarrow> bus \<Rightarrow> (bus \<times> wire option) res" where
  "take_reply p b =
     bindr (dbus_pending_call_steal_reply p b) (\<lambda>(b1, msg).
     bindr (case msg of
         None \<Rightarrow> Inr (b1, None)
       | Some i \<Rightarrow>
           (case b_heap b1 i of
              None \<Rightarrow> Inl Dangling
            | Some (w, _) \<Rightarrow> bindr (dbus_message_unref i b1) (\<lambda>b2. Inr (b2, Some w)))) (\<lambda>(b2, w).
     bindr (dbus_pending_call_unref p b2) (\<lambda>b3. Inr (b3, w))))"

definition started_reply :: "wire option \<Rightarrow> bool \<Rightarrow> bool" where
  "started_reply msg data =
     (case msg of
        None \<Rightarrow> data
      | Some w \<Rightarrow> if \<not> fst (method_return_verify msg) then data
          else (case w_args w of DBool x # _ \<Rightarrow> x | _ \<Rightarrow> data))"

definition lashd_jackdbus_mgr_is_server_started_return_handler :: "nat \<Rightarrow> bool \<Rightarrow> bus \<Rightarrow> (bus \<times> bool) res" where
  "lashd_jackdbus_mgr_is_server_started_return_handler p data b =
     bindr (take_reply p b) (\<lambda>(b1, msg). Inr (b1, started_reply msg data))"

definition lashd_jackdbus_connect_return_handler :: return_handler where
  "lashd_jackdbus_connect_return_handler p b = bindr (take_reply p b) (\<lambda>(b1, msg). Inr b1)"

text \<open>The call blocks, so its answer is there when the value is looked at.\<close>

definition lashd_jackdbus_mgr_is_server_started :: "wire \<Rightarrow> bus \<Rightarrow> (bus \<times> bool) res" where
  "lashd_jackdbus_mgr_is_server_started ans b =
     bindr (method_call_new_void ans True
         (Some (\<lambda>p b1. bindr (lashd_jackdbus_mgr_is_server_started_return_handler p False b1) (\<lambda>(b2, _). Inr b2))) True b)
       (\<lambda>(b1, sent). Inr (b1, sent \<and> b_connected b \<and> started_reply (Some ans) False))"

definition lashd_jackdbus_mgr_connect_ports :: "wire \<Rightarrow> connect \<Rightarrow> bus \<Rightarrow> (bus \<times> bool) res" where
  "lashd_jackdbus_mgr_connect_ports ans cn b =
     (case cn of
        Connect (Some c1) (Some p1) (Some c2) (Some p2) \<Rightarrow>
          method_call_new_valist (Some [DString c1, DString p1, DString c2, DString p2]) ans True
            (Some lashd_jackdbus_connect_return_handler) False b
      | _ \<Rightarrow> Inl Null_deref)"

text \<open>Both handlers release what they get.\<close>

lemma take_reply_releases:
  "b_pending b p = Some (Some i) \<Longrightarrow> b_heap b i = Some (w, 1) \<Longrightarrow>
    \<exists>b'. take_reply p b = Inr (b', Some w) \<and> b_heap b' = (b_heap b)(i := None) \<and> b_pending b' = (b_pending b)(p := None)
      \<and> b_sent b' = b_sent b"
  by (simp add: take_reply_def dbus_pending_call_steal_reply_def dbus_message_unref_def dbus_pending_call_unref_def)

interpretation connect_handler: return_handling lashd_jackdbus_connect_return_handler
proof unfold_locales
  fix b :: bus and p i and w :: wire
  assume "b_pending b p = Some (Some i)" "b_heap b i = Some (w, 1)"
  from take_reply_releases [OF this]
  show "\<exists>b'. lashd_jackdbus_connect_return_handler p b = Inr b' \<and> b_heap b' = (b_heap b)(i := None)
      \<and> b_pending b' = (b_pending b)(p := None) \<and> b_sent b' = b_sent b"
    by (auto simp: lashd_jackdbus_connect_return_handler_def)
qed

interpretation started_handler: return_handling
  "\<lambda>p b1. bindr (lashd_jackdbus_mgr_is_server_started_return_handler p False b1) (\<lambda>(b2, _). Inr b2)"
proof unfold_locales
  fix b :: bus and p i and w :: wire
  assume "b_pending b p = Some (Some i)" "b_heap b i = Some (w, 1)"
  from take_reply_releases [OF this]
  show "\<exists>b'. bindr (lashd_jackdbus_mgr_is_server_started_return_handler p False b) (\<lambda>(b2, _). Inr b2) = Inr b'
      \<and> b_heap b' = (b_heap b)(i := None) \<and> b_pending b' = (b_pending b)(p := None) \<and> b_sent b' = b_sent b"
    by (auto simp: lashd_jackdbus_mgr_is_server_started_return_handler_def)
qed

text \<open>Asking whether JACK runs leaves nothing behind and believes only a boolean answer.\<close>

lemma is_server_started_released:
  assumes "bus_ok b"
  shows "\<exists>b' started. lashd_jackdbus_mgr_is_server_started ans b = Inr (b', started)
    \<and> b_heap b' = b_heap b \<and> b_pending b' = b_pending b
    \<and> (started \<longrightarrow> w_type ans \<noteq> Message_error \<and> (\<exists>vs. w_args ans = DBool True # vs))"
proof -
  obtain b' r where run: "method_call_new_void ans True
      (Some (\<lambda>p b1. bindr (lashd_jackdbus_mgr_is_server_started_return_handler p False b1) (\<lambda>(b2, _). Inr b2))) True b = Inr (b', r)"
    and held: "b_heap b' = b_heap b" "b_pending b' = b_pending b"
    using started_handler.void_released [OF assms, of ans True True] by auto
  have "started_reply (Some ans) False \<longrightarrow> w_type ans \<noteq> Message_error \<and> (\<exists>vs. w_args ans = DBool True # vs)"
    by (auto simp: started_reply_def method_return_verify_def split: list.splits dval.splits if_split_asm)
  then show ?thesis using run held by (simp add: lashd_jackdbus_mgr_is_server_started_def)
qed

section \<open>The rules and the filter agree\<close>

text \<open>The arguments jackdbus and the bus give their signals.\<close>

definition signal_types :: "string \<Rightarrow> string option" where
  "signal_types name =
     map_of [(''ClientAppeared'', ''tts''), (''ClientDisappeared'', ''tts''), (''PortAppeared'', ''ttsts''),
       (''PortsConnected'', ''ttstststs''), (''PortsDisconnected'', ''ttstststs''), (''NameOwnerChanged'', ''sss'')] name"

definition well_typed :: "raw_message \<Rightarrow> bool" where
  "well_typed m \<longleftrightarrow> (\<forall>name types. rm_member m = Some name \<longrightarrow> signal_types name = Some types \<longrightarrow>
     map dbus_type (rm_args m) = types)"

text \<open>What arguments of given types look like.\<close>

lemma dbus_type_cases:
  "dbus_type v = CHR ''t'' \<longleftrightarrow> (\<exists>x. v = DUint64 x)" "dbus_type v = CHR ''s'' \<longleftrightarrow> (\<exists>x. v = DString x)"
  by (cases v; simp)+

lemma typed_args:
  assumes "well_typed m" "rm_member m = Some name" "signal_types name = Some types"
  shows "map dbus_type (rm_args m) = types"
  using assms by (simp add: well_typed_def)

lemma shapes:
  "map dbus_type vs = ''tts'' \<Longrightarrow> \<exists>a k n. vs = [DUint64 a, DUint64 k, DString n]"
  "map dbus_type vs = ''ttsts'' \<Longrightarrow> \<exists>a k n b p. vs = [DUint64 a, DUint64 k, DString n, DUint64 b, DString p]"
  "map dbus_type vs = ''ttstststs'' \<Longrightarrow> \<exists>a k n b p l x c y.
     vs = [DUint64 a, DUint64 k, DString n, DUint64 b, DString p, DUint64 l, DString x, DUint64 c, DString y]"
  "map dbus_type vs = ''sss'' \<Longrightarrow> \<exists>a b c. vs = [DString a, DString b, DString c]"
  by (auto simp: map_eq_Cons_conv dbus_type_cases)

definition patchbay_members :: "string list" where
  "patchbay_members = [''ClientAppeared'', ''ClientDisappeared'', ''PortAppeared'', ''PortsConnected'', ''PortsDisconnected'']"

lemma patchbay_decoded:
  assumes "well_typed m"
  shows "(\<exists>s. lashd_jackdbus_handle_patchbay_signal m = Some s) \<longleftrightarrow> (\<exists>name \<in> set patchbay_members. rm_member m = Some name)"
proof (cases "\<exists>name \<in> set patchbay_members. rm_member m = Some name")
  case True
  then obtain name where name: "name \<in> set patchbay_members" "rm_member m = Some name" by blast
  have "name = ''ClientAppeared'' \<or> name = ''ClientDisappeared'' \<or> name = ''PortAppeared''
      \<or> name = ''PortsConnected'' \<or> name = ''PortsDisconnected''"
    using name(1) by (simp add: patchbay_members_def)
  then have "\<exists>s. lashd_jackdbus_handle_patchbay_signal m = Some s"
  proof (elim disjE)
    assume n1: "name = ''ClientAppeared''"
    then have "map dbus_type (rm_args m) = ''tts''" using typed_args [OF assms name(2)] by (simp add: signal_types_def)
    from shapes(1) [OF this] show ?thesis using n1 name by (auto simp: lashd_jackdbus_handle_patchbay_signal_def)
  next
    assume n2: "name = ''ClientDisappeared''"
    then have "map dbus_type (rm_args m) = ''tts''" using typed_args [OF assms name(2)] by (simp add: signal_types_def)
    from shapes(1) [OF this] show ?thesis using n2 name by (auto simp: lashd_jackdbus_handle_patchbay_signal_def)
  next
    assume n3: "name = ''PortAppeared''"
    then have "map dbus_type (rm_args m) = ''ttsts''" using typed_args [OF assms name(2)] by (simp add: signal_types_def)
    from shapes(2) [OF this] show ?thesis using n3 name by (auto simp: lashd_jackdbus_handle_patchbay_signal_def)
  next
    assume n4: "name = ''PortsConnected''"
    then have "map dbus_type (rm_args m) = ''ttstststs''" using typed_args [OF assms name(2)] by (simp add: signal_types_def)
    from shapes(3) [OF this] show ?thesis using n4 name by (auto simp: lashd_jackdbus_handle_patchbay_signal_def)
  next
    assume n5: "name = ''PortsDisconnected''"
    then have "map dbus_type (rm_args m) = ''ttstststs''" using typed_args [OF assms name(2)] by (simp add: signal_types_def)
    from shapes(3) [OF this] show ?thesis using n5 name by (auto simp: lashd_jackdbus_handle_patchbay_signal_def)
  qed
  then show ?thesis using True by blast
next
  case False
  then show ?thesis
    by (auto simp: lashd_jackdbus_handle_patchbay_signal_def patchbay_members_def split: option.split)
qed

lemma control_decoded:
  "(\<exists>s. lashd_jackdbus_handle_control_signal m = Some s) \<longleftrightarrow>
     (\<exists>name \<in> {''ServerStarted'', ''ServerStopped''}. rm_member m = Some name)"
  by (auto simp: lashd_jackdbus_handle_control_signal_def split: option.split)

lemma bus_signal_decoded:
  assumes "well_typed m"
  shows "(\<exists>s. lashd_jackdbus_handle_bus_signal m = Handled (Some s)) \<longleftrightarrow>
     rm_member m = Some ''NameOwnerChanged'' \<and> (\<exists>vs. rm_args m = DString JACKDBUS_SERVICE # vs)"
proof (cases "rm_member m = Some ''NameOwnerChanged''")
  case True
  then have "map dbus_type (rm_args m) = ''sss''" using typed_args [OF assms True] by (simp add: signal_types_def)
  from shapes(4) [OF this] show ?thesis using True by (auto simp: lashd_jackdbus_handle_bus_signal_def split: if_split_asm)
qed (simp add: lashd_jackdbus_handle_bus_signal_def)

lemma interfaces_distinct:
  "JACKDBUS_IFACE_PATCHBAY \<noteq> JACKDBUS_IFACE_CONTROL" "JACKDBUS_IFACE_PATCHBAY \<noteq> DBUS_INTERFACE_DBUS"
  "JACKDBUS_IFACE_CONTROL \<noteq> DBUS_INTERFACE_DBUS"
  by (simp_all add: JACKDBUS_IFACE_PATCHBAY_def JACKDBUS_IFACE_CONTROL_def DBUS_INTERFACE_DBUS_def)

lemma some_rule_matches:
  "(\<exists>r \<in> set match_rules. rule_matches r m) \<longleftrightarrow> rm_type m = Message_signal \<and>
     (rm_path m = Some JACKDBUS_OBJECT \<and> rm_interface m = Some JACKDBUS_IFACE_PATCHBAY
        \<and> (\<exists>name \<in> set patchbay_members. rm_member m = Some name)
      \<or> rm_path m = Some JACKDBUS_OBJECT \<and> rm_interface m = Some JACKDBUS_IFACE_CONTROL
        \<and> (\<exists>name \<in> {''ServerStarted'', ''ServerStopped''}. rm_member m = Some name)
      \<or> rm_interface m = Some DBUS_INTERFACE_DBUS
        \<and> rm_member m = Some ''NameOwnerChanged'' \<and> (\<exists>vs. rm_args m = DString JACKDBUS_SERVICE # vs))"
  by (auto simp: match_rules_def rule_matches_def jack_rule_def patchbay_members_def split: list.splits dval.splits)


definition port_signal :: raw_message where
  "port_signal = \<lparr>rm_type = Message_signal, rm_path = Some JACKDBUS_OBJECT, rm_interface = Some JACKDBUS_IFACE_PATCHBAY,
     rm_member = Some ''PortAppeared'',
     rm_args = [DUint64 9, DUint64 3, DString ''synth'', DUint64 1, DString ''out'']\<rparr>"


end
