(* ===== verification/Slist.thy ===== *)
theory Slist
  imports Prelude "HOL-Library.Multiset"
begin

text \<open>
  The singly linked lists of \<^verbatim>\<open>common/list.h\<close>, which the clients under \<^verbatim>\<open>clients/\<close> use: a heap of nodes
  with a data pointer and a next pointer. A loop that follows next pointers may not end, so every
  loop is a partial function whose value \<open>None\<close> means no return; touching an address that holds no
  node is the fault \<open>Dangling\<close>.
\<close>

section \<open>Nodes\<close>

record snode =
  sn_data :: nat
  sn_next :: "nat option"

text \<open>New nodes, and the variables on the stack, get addresses from \<open>sh_fresh\<close> on.\<close>

record sheap =
  sh_node :: "nat \<Rightarrow> snode option"
  sh_fresh :: nat

definition put_node :: "nat \<Rightarrow> snode \<Rightarrow> sheap \<Rightarrow> sheap" where
  "put_node a n h = h\<lparr>sh_node := (sh_node h)(a \<mapsto> n)\<rparr>"

definition free_node :: "nat \<Rightarrow> sheap \<Rightarrow> sheap" where
  "free_node a h = h\<lparr>sh_node := (sh_node h)(a := None)\<rparr>"

definition set_next :: "nat \<Rightarrow> nat option \<Rightarrow> sheap \<Rightarrow> sheap res" where
  "set_next a l h =
     (case sh_node h a of None \<Rightarrow> Inl Dangling | Some n \<Rightarrow> Inr (put_node a (n\<lparr>sn_next := l\<rparr>) h))"

definition set_data :: "nat \<Rightarrow> nat \<Rightarrow> sheap \<Rightarrow> sheap res" where
  "set_data a d h =
     (case sh_node h a of None \<Rightarrow> Inl Dangling | Some n \<Rightarrow> Inr (put_node a (n\<lparr>sn_data := d\<rparr>) h))"

definition get_node :: "nat \<Rightarrow> sheap \<Rightarrow> snode res" where
  "get_node a h = (case sh_node h a of None \<Rightarrow> Inl Dangling | Some n \<Rightarrow> Inr n)"

definition lash_list_alloc :: "sheap \<Rightarrow> sheap \<times> nat" where
  "lash_list_alloc h =
     (put_node (sh_fresh h) \<lparr>sn_data = 0, sn_next = None\<rparr> (h\<lparr>sh_fresh := Suc (sh_fresh h)\<rparr>), sh_fresh h)"

definition lash_list_prepend :: "nat option \<Rightarrow> nat \<Rightarrow> sheap \<Rightarrow> sheap \<times> nat option" where
  "lash_list_prepend l d h =
     (put_node (sh_fresh h) \<lparr>sn_data = d, sn_next = l\<rparr> (h\<lparr>sh_fresh := Suc (sh_fresh h)\<rparr>), Some (sh_fresh h))"

section \<open>Loops\<close>

text \<open>Going on after a step that may fault, in a loop that may not return.\<close>

abbreviation bindo :: "'a res option \<Rightarrow> ('a \<Rightarrow> 'b res option) \<Rightarrow> 'b res option" where
  "bindo m k \<equiv> Option.bind m (\<lambda>r. case r of Inl f \<Rightarrow> Some (Inl f) | Inr x \<Rightarrow> k x)"

partial_function (option) lash_list_last :: "nat option \<Rightarrow> sheap \<Rightarrow> nat option res option" where
  "lash_list_last l h =
     (case l of
        None \<Rightarrow> Some (Inr None)
      | Some a \<Rightarrow>
          (case sh_node h a of
             None \<Rightarrow> Some (Inl Dangling)
           | Some n \<Rightarrow> if sn_next n = None then Some (Inr (Some a)) else lash_list_last (sn_next n) h))"

text \<open>
  The loop of both functions that take a node out: \<open>hit\<close> says whether it is the node looked for,
  and the result is the new head and the node taken out.
\<close>

partial_function (option) unlink ::
  "(nat \<Rightarrow> snode \<Rightarrow> bool) \<Rightarrow> nat option \<Rightarrow> nat option \<Rightarrow> nat option \<Rightarrow> sheap \<Rightarrow>
     (sheap \<times> nat option \<times> nat option) res option" where
  "unlink hit l prev tmp h =
     (case tmp of
        None \<Rightarrow> Some (Inr (h, l, None))
      | Some a \<Rightarrow>
          (case sh_node h a of
             None \<Rightarrow> Some (Inl Dangling)
           | Some n \<Rightarrow>
               if hit a n then
                 bindo (case prev of None \<Rightarrow> Some (Inr h) | Some p \<Rightarrow> Some (set_next p (sn_next n) h)) (\<lambda>h1.
                 bindo (if l = Some a then Some (bindr (get_node a h1) (\<lambda>m. Inr (sn_next m))) else Some (Inr l)) (\<lambda>l1.
                 bindo (Some (set_next a None h1)) (\<lambda>h2. Some (Inr (h2, l1, Some a)))))
               else unlink hit l (Some a) (sn_next n) h))"

definition lash_list_remove_link :: "nat option \<Rightarrow> nat \<Rightarrow> sheap \<Rightarrow> (sheap \<times> nat option) res option" where
  "lash_list_remove_link l link h =
     bindo (unlink (\<lambda>a n. a = link) l None l h) (\<lambda>(h1, l1, _). Some (Inr (h1, l1)))"

partial_function (option) lash_list_free :: "nat option \<Rightarrow> sheap \<Rightarrow> sheap res option" where
  "lash_list_free l h =
     (case l of
        None \<Rightarrow> Some (Inr h)
      | Some a \<Rightarrow>
          (case sh_node h a of
             None \<Rightarrow> Some (Inl Dangling)
           | Some n \<Rightarrow> lash_list_free (sn_next n) (free_node a h)))"

definition lash_list_free_1 :: "nat option \<Rightarrow> sheap \<Rightarrow> sheap" where
  "lash_list_free_1 l h = (case l of None \<Rightarrow> h | Some a \<Rightarrow> free_node a h)"

definition lash_list_remove :: "nat option \<Rightarrow> nat \<Rightarrow> sheap \<Rightarrow> (sheap \<times> nat option) res option" where
  "lash_list_remove l d h =
     bindo (unlink (\<lambda>a n. sn_data n = d) l None l h) (\<lambda>(h1, l1, found).
       case found of
         None \<Rightarrow> Some (Inr (h1, l1))
       | Some a \<Rightarrow> bindo (lash_list_free (Some a) h1) (\<lambda>h2. Some (Inr (h2, l1))))"

partial_function (option) count_nodes :: "u32 \<Rightarrow> nat option \<Rightarrow> sheap \<Rightarrow> u32 res option" where
  "count_nodes k l h =
     (case l of
        None \<Rightarrow> Some (Inr k)
      | Some a \<Rightarrow>
          (case sh_node h a of
             None \<Rightarrow> Some (Inl Dangling)
           | Some n \<Rightarrow> count_nodes (k + 1) (sn_next n) h))"

definition lash_list_length :: "nat option \<Rightarrow> sheap \<Rightarrow> u32 res option" where
  "lash_list_length l h = count_nodes 0 l h"

partial_function (option) lash_list_find :: "nat option \<Rightarrow> nat \<Rightarrow> sheap \<Rightarrow> nat option res option" where
  "lash_list_find l d h =
     (case l of
        None \<Rightarrow> Some (Inr None)
      | Some a \<Rightarrow>
          (case sh_node h a of
             None \<Rightarrow> Some (Inl Dangling)
           | Some n \<Rightarrow> if sn_data n = d then Some (Inr l) else lash_list_find (sn_next n) d h))"

text \<open>Copying the rest of a list behind the node \<open>tail\<close> of the copy.\<close>

partial_function (option) copy_rest :: "nat \<Rightarrow> nat option \<Rightarrow> sheap \<Rightarrow> sheap res option" where
  "copy_rest tail l h =
     (case l of
        None \<Rightarrow> Some (Inr h)
      | Some a \<Rightarrow>
          (let (h1, new) = lash_list_alloc h in
           bindo (Some (set_next tail (Some new) h1)) (\<lambda>h2.
             case sh_node h2 a of
               None \<Rightarrow> Some (Inl Dangling)
             | Some n \<Rightarrow> bindo (Some (set_data new (sn_data n) h2)) (\<lambda>h3. copy_rest new (sn_next n) h3))))"

definition lash_list_copy :: "nat option \<Rightarrow> sheap \<Rightarrow> (sheap \<times> nat option) res option" where
  "lash_list_copy l h =
     (case l of
        None \<Rightarrow> Some (Inr (h, None))
      | Some a \<Rightarrow>
          (let (h1, new) = lash_list_alloc h in
           case sh_node h1 a of
             None \<Rightarrow> Some (Inl Dangling)
           | Some n \<Rightarrow>
               bindo (Some (set_data new (sn_data n) h1)) (\<lambda>h2.
               bindo (copy_rest new (sn_next n) h2) (\<lambda>h3. Some (Inr (h3, Some new))))))"

definition lash_list_append :: "nat option \<Rightarrow> nat \<Rightarrow> sheap \<Rightarrow> (sheap \<times> nat option) res option" where
  "lash_list_append l d h =
     (let (h1, new) = lash_list_alloc h in
      bindo (Some (set_data new d h1)) (\<lambda>h2.
        if l = None then Some (Inr (h2, Some new))
        else bindo (lash_list_last l h2) (\<lambda>last.
          case last of
            None \<Rightarrow> Some (Inl Null_deref)
          | Some b \<Rightarrow> bindo (Some (set_next b (Some new) h2)) (\<lambda>h3. Some (Inr (h3, l))))))"

definition lash_list_concat :: "nat option \<Rightarrow> nat option \<Rightarrow> sheap \<Rightarrow> (sheap \<times> nat option) res option" where
  "lash_list_concat l1 l2 h =
     (if l2 = None then Some (Inr (h, l1))
      else if l1 = None then Some (Inr (h, l2))
      else bindo (lash_list_last l1 h) (\<lambda>last.
        case last of
          None \<Rightarrow> Some (Inl Null_deref)
        | Some b \<Rightarrow> bindo (Some (set_next b l2 h)) (\<lambda>h1. Some (Inr (h1, l1)))))"

section \<open>Sorting\<close>

text \<open>The loop of the merge, behind the node \<open>l\<close>.\<close>

partial_function (option) merge_loop ::
  "(nat \<Rightarrow> nat \<Rightarrow> int) \<Rightarrow> nat \<Rightarrow> nat option \<Rightarrow> nat option \<Rightarrow> sheap \<Rightarrow> sheap res option" where
  "merge_loop cmp l l1 l2 h =
     (case l1 of
        None \<Rightarrow> Some (set_next l l2 h)
      | Some a \<Rightarrow>
          (case l2 of
             None \<Rightarrow> Some (set_next l l1 h)
           | Some b \<Rightarrow>
               bindo (Some (get_node a h)) (\<lambda>n. bindo (Some (get_node b h)) (\<lambda>m.
                 if cmp (sn_data n) (sn_data m) < 0
                 then bindo (Some (set_next l l1 h)) (\<lambda>h1. bindo (Some (get_node a h1)) (\<lambda>n1.
                   merge_loop cmp a (sn_next n1) l2 h1))
                 else bindo (Some (set_next l l2 h)) (\<lambda>h1. bindo (Some (get_node b h1)) (\<lambda>m1.
                   merge_loop cmp b l1 (sn_next m1) h1))))))"

text \<open>The first node of the merge hangs behind the variable \<open>list\<close> of the function.\<close>

definition lash_list_sort_merge ::
  "(nat \<Rightarrow> nat \<Rightarrow> int) \<Rightarrow> nat option \<Rightarrow> nat option \<Rightarrow> sheap \<Rightarrow> (sheap \<times> nat option) res option" where
  "lash_list_sort_merge cmp l1 l2 h =
     (let s = sh_fresh h in
      bindo (merge_loop cmp s l1 l2 (put_node s \<lparr>sn_data = 0, sn_next = None\<rparr> h)) (\<lambda>h1.
      bindo (Some (get_node s h1)) (\<lambda>n. Some (Inr (free_node s h1, sn_next n)))))"

text \<open>The loop that finds the end of the first half: \<open>l2\<close> goes two nodes for each of \<open>l1\<close>.\<close>

partial_function (option) find_middle :: "nat \<Rightarrow> nat \<Rightarrow> sheap \<Rightarrow> nat res option" where
  "find_middle l1 l2 h =
     bindo (Some (get_node l2 h)) (\<lambda>n.
       case sn_next n of
         None \<Rightarrow> Some (Inr l1)
       | Some b \<Rightarrow>
           bindo (Some (get_node b h)) (\<lambda>m.
             case sn_next m of
               None \<Rightarrow> Some (Inr l1)
             | Some c \<Rightarrow>
                 bindo (Some (get_node l1 h)) (\<lambda>k.
                   case sn_next k of None \<Rightarrow> Some (Inl Null_deref) | Some d \<Rightarrow> find_middle d c h)))"

partial_function (option) lash_list_sort ::
  "(nat \<Rightarrow> nat \<Rightarrow> int) \<Rightarrow> nat option \<Rightarrow> sheap \<Rightarrow> (sheap \<times> nat option) res option" where
  "lash_list_sort cmp l h =
     (case l of
        None \<Rightarrow> Some (Inr (h, None))
      | Some a \<Rightarrow>
          bindo (Some (get_node a h)) (\<lambda>n.
            case sn_next n of
              None \<Rightarrow> Some (Inr (h, l))
            | Some b \<Rightarrow>
                bindo (find_middle a b h) (\<lambda>mid.
                bindo (Some (get_node mid h)) (\<lambda>k.
                bindo (Some (set_next mid None h)) (\<lambda>h1.
                bindo (lash_list_sort cmp l h1) (\<lambda>(h2, s1).
                bindo (lash_list_sort cmp (sn_next k) h2) (\<lambda>(h3, s2).
                  lash_list_sort_merge cmp s1 s2 h3)))))))"

section \<open>Chains of nodes\<close>

text \<open>The list of addresses and data that a head pointer stands for.\<close>

fun chain :: "(nat \<Rightarrow> snode option) \<Rightarrow> nat option \<Rightarrow> (nat \<times> nat) list \<Rightarrow> bool" where
  "chain f l [] \<longleftrightarrow> l = None"
| "chain f l (x # xs) \<longleftrightarrow> l = Some (fst x)
     \<and> (\<exists>n. f (fst x) = Some n \<and> sn_data n = snd x \<and> chain f (sn_next n) xs)"

definition addrs :: "(nat \<times> nat) list \<Rightarrow> nat set" where
  "addrs xs = fst ` set xs"

lemma addrs_simps [simp]: "addrs [] = {}" "addrs (x # xs) = insert (fst x) (addrs xs)" "addrs (xs @ ys) = addrs xs \<union> addrs ys"
  by (auto simp: addrs_def)

lemma chain_other [simp]: "a \<notin> addrs xs \<Longrightarrow> chain (f(a := n)) l xs = chain f l xs"
  by (induction xs arbitrary: l) auto

lemma chain_cong: "(\<And>a. a \<in> addrs xs \<Longrightarrow> f a = g a) \<Longrightarrow> chain f l xs \<longleftrightarrow> chain g l xs"
  by (induction xs arbitrary: l) auto

lemma chain_None [simp]: "chain f None xs \<longleftrightarrow> xs = []"
  by (cases xs) auto

lemma chain_unique: "chain f l xs \<Longrightarrow> chain f l ys \<Longrightarrow> xs = ys"
proof (induction xs arbitrary: l ys)
  case (Cons x xs)
  then show ?case by (cases ys) (auto simp: prod_eq_iff)
qed simp

lemma chain_suffix: "chain f l (xs @ ys) \<Longrightarrow> \<exists>l'. chain f l' ys"
  by (induction xs arbitrary: l) auto

lemma chain_distinct: "chain f l xs \<Longrightarrow> distinct (map fst xs)"
proof (induction xs arbitrary: l)
  case (Cons x xs)
  obtain n where n: "f (fst x) = Some n" "chain f (sn_next n) xs" using Cons.prems by auto
  have "fst x \<notin> set (map fst xs)"
  proof
    assume "fst x \<in> set (map fst xs)"
    then obtain y us vs where "xs = us @ y # vs" "fst y = fst x" by (auto dest: split_list)
    then obtain l' where "chain f l' (y # vs)" using n(2) chain_suffix by blast
    then have "chain f (Some (fst x)) (y # vs)" using \<open>fst y = fst x\<close> by simp
    moreover have "chain f (Some (fst x)) (x # xs)" using Cons.prems by simp
    ultimately have "y # vs = x # xs" by (rule chain_unique)
    then show False using \<open>xs = us @ y # vs\<close> by simp
  qed
  then show ?case using Cons.IH [OF n(2)] by simp
qed simp

lemma chain_distinct_Cons: "chain f l (x # xs) \<Longrightarrow> fst x \<notin> addrs xs"
  using chain_distinct [of f l "x # xs"] by (auto simp: addrs_def)

lemma node_simps [simp]:
  "sh_node (put_node a n h) = (sh_node h)(a \<mapsto> n)" "sh_node (free_node a h) = (sh_node h)(a := None)"
  "sh_fresh (put_node a n h) = sh_fresh h" "sh_fresh (free_node a h) = sh_fresh h"
  by (simp_all add: put_node_def free_node_def)

lemma set_next_node [simp]: "sh_node h a = Some n \<Longrightarrow> set_next a l h = Inr (put_node a (n\<lparr>sn_next := l\<rparr>) h)"
  by (simp add: set_next_def)

lemma get_node_node [simp]: "sh_node h a = Some n \<Longrightarrow> get_node a h = Inr n"
  by (simp add: get_node_def)

section \<open>Merging and sorting chains\<close>

text \<open>What the merge computes on lists: among equals the second list goes first.\<close>

fun merge_lists :: "(nat \<Rightarrow> nat \<Rightarrow> int) \<Rightarrow> (nat \<times> nat) list \<Rightarrow> (nat \<times> nat) list \<Rightarrow> (nat \<times> nat) list" where
  "merge_lists cmp [] ys = ys"
| "merge_lists cmp (x # xs) [] = x # xs"
| "merge_lists cmp (x # xs) (y # ys) =
     (if cmp (snd x) (snd y) < 0 then x # merge_lists cmp xs (y # ys) else y # merge_lists cmp (x # xs) ys)"

lemma merge_lists_Nil [simp]: "merge_lists cmp xs [] = xs"
  by (cases xs) simp_all

lemma addrs_merge [simp]: "addrs (merge_lists cmp xs ys) = addrs xs \<union> addrs ys"
  by (induction cmp xs ys rule: merge_lists.induct) auto

text \<open>The merge hangs the merged list behind the node it starts with, and changes only the nodes of both lists.\<close>

definition merged :: "(nat \<Rightarrow> nat \<Rightarrow> int) \<Rightarrow> nat \<Rightarrow> (nat \<times> nat) list \<Rightarrow> (nat \<times> nat) list \<Rightarrow> sheap \<Rightarrow> sheap res option \<Rightarrow> bool" where
  "merged cmp l xs ys h r \<longleftrightarrow>
     (\<exists>h' n. r = Some (Inr h') \<and> sh_node h' l = Some n \<and> chain (sh_node h') (sn_next n) (merge_lists cmp xs ys)
        \<and> map_option sn_data (sh_node h l) = Some (sn_data n)
        \<and> (\<forall>a. a \<notin> insert l (addrs xs \<union> addrs ys) \<longrightarrow> sh_node h' a = sh_node h a) \<and> sh_fresh h' = sh_fresh h)"

text \<open>One round: the node \<open>a\<close> goes behind \<open>l\<close>, the rest is merged behind \<open>a\<close>.\<close>

lemma merged_step:
  assumes "merged cmp a us vs (put_node l (k\<lparr>sn_next := Some a\<rparr>) h) r"
    and "sh_node h l = Some k" "sh_node h a = Some n" "sn_data n = d" "l \<noteq> a" "l \<notin> addrs us \<union> addrs vs"
    and "merge_lists cmp xs ys = (a, d) # merge_lists cmp us vs" "insert a (addrs us \<union> addrs vs) = addrs xs \<union> addrs ys"
  shows "merged cmp l xs ys h r"
proof -
  obtain h' n' where r: "r = Some (Inr h')" and a: "sh_node h' a = Some n'" "sn_data n' = d"
    "chain (sh_node h') (sn_next n') (merge_lists cmp us vs)"
    and same: "\<And>b. b \<notin> insert a (addrs us \<union> addrs vs) \<Longrightarrow> sh_node h' b = sh_node (put_node l (k\<lparr>sn_next := Some a\<rparr>) h) b"
    and fresh: "sh_fresh h' = sh_fresh h"
    using assms(1,3,4,5) unfolding merged_def by auto
  have l: "sh_node h' l = Some (k\<lparr>sn_next := Some a\<rparr>)" using same [of l] assms(5,6) by simp
  have "chain (sh_node h') (Some a) (merge_lists cmp xs ys)" unfolding assms(7) using a by simp
  moreover have "sh_node h' b = sh_node h b" if "b \<notin> insert l (addrs xs \<union> addrs ys)" for b
    using same [of b] that assms(8) by auto
  ultimately show ?thesis using r l fresh assms(2) by (simp add: merged_def)
qed

lemma merge_loop_merges:
  assumes "chain (sh_node h) l1 xs" "chain (sh_node h) l2 ys" "addrs xs \<inter> addrs ys = {}"
    and "l \<notin> addrs xs \<union> addrs ys" "sh_node h l \<noteq> None"
  shows "merged cmp l xs ys h (merge_loop cmp l l1 l2 h)"
  using assms
proof (induction cmp xs ys arbitrary: l l1 l2 h rule: merge_lists.induct)
  case (1 cmp ys)
  then show ?case by (auto simp: merged_def merge_loop.simps)
next
  case (2 cmp x xs)
  then show ?case by (auto simp: merged_def merge_loop.simps)
next
  case (3 cmp x xs y ys)
  obtain n where n: "l1 = Some (fst x)" "sh_node h (fst x) = Some n" "sn_data n = snd x" "chain (sh_node h) (sn_next n) xs"
    using "3.prems"(1) by auto
  obtain m where m: "l2 = Some (fst y)" "sh_node h (fst y) = Some m" "sn_data m = snd y" "chain (sh_node h) (sn_next m) ys"
    using "3.prems"(2) by auto
  obtain k where k: "sh_node h l = Some k" using "3.prems"(5) by auto
  have out: "l \<noteq> fst x" "l \<noteq> fst y" "fst x \<noteq> fst y" "l \<notin> addrs xs" "l \<notin> addrs ys" using "3.prems"(3,4) by auto
  have dx: "fst x \<notin> addrs xs" "fst y \<notin> addrs ys" using chain_distinct_Cons "3.prems"(1,2) by blast+
  show ?case
  proof (cases "cmp (snd x) (snd y) < 0")
    case True
    let ?h = "put_node l (k\<lparr>sn_next := Some (fst x)\<rparr>) h"
    have run: "merge_loop cmp l l1 l2 h = merge_loop cmp (fst x) (sn_next n) l2 ?h"
      using n m k out True by (subst merge_loop.simps) simp
    have "chain (sh_node ?h) (sn_next n) xs" "chain (sh_node ?h) l2 (y # ys)"
      using "3.prems"(2,4) n(4) by (simp_all only: node_simps) (simp_all del: chain.simps)
    then have "merged cmp (fst x) xs (y # ys) ?h (merge_loop cmp (fst x) (sn_next n) l2 ?h)"
    proof (rule "3.IH"(1) [OF True])
      show "addrs xs \<inter> addrs (y # ys) = {}" "fst x \<notin> addrs xs \<union> addrs (y # ys)"
        using "3.prems"(3) dx out by auto
      show "sh_node ?h (fst x) \<noteq> None" using n out by simp
    qed
    then show ?thesis unfolding run
      by (rule merged_step [where d = "snd x" and n = n]) (use n k out True in auto)
  next
    case False
    let ?h = "put_node l (k\<lparr>sn_next := Some (fst y)\<rparr>) h"
    have run: "merge_loop cmp l l1 l2 h = merge_loop cmp (fst y) l1 (sn_next m) ?h"
      using n m k out False by (subst merge_loop.simps) simp
    have "chain (sh_node ?h) l1 (x # xs)" "chain (sh_node ?h) (sn_next m) ys"
      using "3.prems"(1,4) m(4) by (simp_all only: node_simps) (simp_all del: chain.simps)
    then have "merged cmp (fst y) (x # xs) ys ?h (merge_loop cmp (fst y) l1 (sn_next m) ?h)"
    proof (rule "3.IH"(2) [OF False])
      show "addrs (x # xs) \<inter> addrs ys = {}" "fst y \<notin> addrs (x # xs) \<union> addrs ys"
        using "3.prems"(3) dx out by auto
      show "sh_node ?h (fst y) \<noteq> None" using m out by simp
    qed
    then show ?thesis unfolding run
      by (rule merged_step [where d = "snd y" and n = m]) (use m k out False in auto)
  qed
qed

text \<open>Nothing lies at the addresses not given out yet.\<close>

definition sheap_ok :: "sheap \<Rightarrow> bool" where
  "sheap_ok h \<longleftrightarrow> (\<forall>a \<ge> sh_fresh h. sh_node h a = None)"

lemma chain_addrs: "chain f l xs \<Longrightarrow> a \<in> addrs xs \<Longrightarrow> f a \<noteq> None"
  by (induction xs arbitrary: l) auto

definition sorts_to :: "(nat \<times> nat) list \<Rightarrow> (nat \<times> nat) list \<Rightarrow> sheap \<Rightarrow> (sheap \<times> nat option) res option \<Rightarrow> bool" where
  "sorts_to xs ys h r \<longleftrightarrow>
     (\<exists>h' l. r = Some (Inr (h', l)) \<and> chain (sh_node h') l ys \<and> addrs ys = addrs xs
        \<and> (\<forall>a. a \<notin> addrs xs \<longrightarrow> sh_node h' a = sh_node h a) \<and> sh_fresh h' = sh_fresh h)"

lemma sort_merge_merges:
  assumes "sheap_ok h" "chain (sh_node h) l1 xs" "chain (sh_node h) l2 ys" "addrs xs \<inter> addrs ys = {}"
  shows "sorts_to (xs @ ys) (merge_lists cmp xs ys) h (lash_list_sort_merge cmp l1 l2 h)"
proof -
  let ?s = "sh_fresh h"
  let ?h = "put_node ?s \<lparr>sn_data = 0, sn_next = None\<rparr> h"
  have out: "?s \<notin> addrs xs \<union> addrs ys"
    using assms(1) chain_addrs [OF assms(2), of "sh_fresh h"] chain_addrs [OF assms(3), of "sh_fresh h"]
    by (auto simp: sheap_ok_def)
  have "chain (sh_node ?h) l1 xs" "chain (sh_node ?h) l2 ys"
    using assms(2,3) out by (simp_all only: node_simps) (simp_all del: chain.simps)
  then have "merged cmp ?s xs ys ?h (merge_loop cmp ?s l1 l2 ?h)"
    using out assms(4) by (intro merge_loop_merges) simp_all
  then obtain h' n where run: "merge_loop cmp ?s l1 l2 ?h = Some (Inr h')" and n: "sh_node h' ?s = Some n"
    "chain (sh_node h') (sn_next n) (merge_lists cmp xs ys)"
    and same: "\<And>a. a \<notin> insert ?s (addrs xs \<union> addrs ys) \<Longrightarrow> sh_node h' a = sh_node ?h a" "sh_fresh h' = sh_fresh h"
    unfolding merged_def by auto
  have "sh_node (free_node ?s h') a = sh_node h a" if "a \<notin> addrs xs \<union> addrs ys" for a
    using same(1) [of a] that assms(1) by (cases "a = ?s") (auto simp: sheap_ok_def)
  moreover have "chain (sh_node (free_node ?s h')) (sn_next n) (merge_lists cmp xs ys)"
    using n(2) out by (simp only: node_simps) (simp del: chain.simps)
  ultimately show ?thesis using run n same(2)
    by (simp add: sorts_to_def lash_list_sort_merge_def Let_def)
qed

text \<open>Cutting a chain behind one of its nodes.\<close>

lemma chain_cut:
  assumes "chain f l (us @ x # vs)"
  shows "\<exists>n. f (fst x) = Some n \<and> chain f (sn_next n) vs \<and> fst x \<notin> addrs vs
    \<and> chain (f(fst x \<mapsto> n\<lparr>sn_next := None\<rparr>)) l (us @ [x])"
  using assms
proof (induction us arbitrary: l)
  case Nil
  then show ?case using chain_distinct_Cons [of f l x vs] by auto
next
  case (Cons u us)
  then obtain n where n: "l = Some (fst u)" "f (fst u) = Some n" "sn_data n = snd u" "chain f (sn_next n) (us @ x # vs)"
    by auto
  have "fst u \<noteq> fst x" using chain_distinct_Cons [of f l u "us @ x # vs"] Cons.prems by auto
  then show ?case using Cons.IH [OF n(4)] n by auto
qed

lemma find_middle_node:
  "chain (sh_node h) (Some l1) zs \<Longrightarrow> chain (sh_node h) (Some l2) ws \<Longrightarrow> length ws \<le> length zs \<Longrightarrow>
     find_middle l1 l2 h = Some (Inr (fst (zs ! ((length ws - 1) div 2))))"
proof (induction "length ws" arbitrary: l1 l2 zs ws rule: less_induct)
  case less
  obtain w ws1 where ws: "ws = w # ws1" using less.prems(2) by (cases ws) auto
  obtain z zs1 where zs: "zs = z # zs1" using less.prems(1) by (cases zs) auto
  obtain n where n: "l2 = fst w" "sh_node h l2 = Some n" "chain (sh_node h) (sn_next n) ws1"
    using less.prems(2) ws by auto
  obtain k where k: "l1 = fst z" "sh_node h l1 = Some k" "chain (sh_node h) (sn_next k) zs1"
    using less.prems(1) zs by auto
  show ?case
  proof (cases ws1)
    case Nil
    then show ?thesis using ws zs n k by (subst find_middle.simps) simp
  next
    case (Cons v ws2)
    then obtain m where m: "sn_next n = Some (fst v)" "sh_node h (fst v) = Some m" "chain (sh_node h) (sn_next m) ws2"
      using n(3) by auto
    show ?thesis
    proof (cases ws2)
      case Nil
      then show ?thesis using ws Cons zs n k m by (subst find_middle.simps) simp
    next
      case (Cons u ws3)
      then have c: "sn_next m = Some (fst u)" using m(3) by simp
      obtain y zs2 where y: "zs1 = y # zs2" using less.prems(3) ws zs \<open>ws1 = v # ws2\<close> by (cases zs1) auto
      then have d: "sn_next k = Some (fst y)" using k(3) by simp
      have run: "find_middle l1 l2 h = find_middle (fst y) (fst u) h"
        using n m c k d by (subst find_middle.simps) simp
      have ih: "find_middle (fst y) (fst u) h = Some (Inr (fst (zs1 ! ((length ws2 - 1) div 2))))"
        using less.hyps [of ws2 "fst y" zs1 "fst u"] k(3) d m(3) c less.prems(3) ws zs \<open>ws1 = v # ws2\<close> by simp
      have "(length ws - 1) div 2 = Suc ((length ws2 - 1) div 2)"
        using ws \<open>ws1 = v # ws2\<close> Cons by simp
      then show ?thesis unfolding run ih by (simp add: zs)
    qed
  qed
qed

text \<open>The sort on lists.\<close>

fun sort_lists :: "(nat \<Rightarrow> nat \<Rightarrow> int) \<Rightarrow> (nat \<times> nat) list \<Rightarrow> (nat \<times> nat) list" where
  "sort_lists cmp xs =
     (if length xs \<le> 1 then xs
      else merge_lists cmp (sort_lists cmp (take (length xs div 2) xs)) (sort_lists cmp (drop (length xs div 2) xs)))"

declare sort_lists.simps [simp del]

lemma sorts_to_ok:
  assumes "sorts_to xs ys h r" "r = Some (Inr (h', l))" "sheap_ok h" "chain (sh_node h) k xs"
  shows "sheap_ok h'" "chain (sh_node h') l ys" "addrs ys = addrs xs"
    "\<And>m zs. chain (sh_node h) m zs \<Longrightarrow> addrs zs \<inter> addrs xs = {} \<Longrightarrow> chain (sh_node h') m zs"
proof -
  have same: "\<And>a. a \<notin> addrs xs \<Longrightarrow> sh_node h' a = sh_node h a" "sh_fresh h' = sh_fresh h"
    and res: "chain (sh_node h') l ys" "addrs ys = addrs xs"
    using assms(1,2) by (auto simp: sorts_to_def)
  show "chain (sh_node h') l ys" "addrs ys = addrs xs" by (fact res)+
  have "a \<notin> addrs xs" if "a \<ge> sh_fresh h" for a
    using chain_addrs [OF assms(4), of a] assms(3) that by (auto simp: sheap_ok_def)
  then show "sheap_ok h'" using same assms(3) by (simp add: sheap_ok_def)
  show "chain (sh_node h') m zs" if "chain (sh_node h) m zs" "addrs zs \<inter> addrs xs = {}" for m zs
    using that same(1) chain_cong [of zs "sh_node h'" "sh_node h" m] by auto
qed

lemma list_sort_sorts:
  "sheap_ok h \<Longrightarrow> chain (sh_node h) l xs \<Longrightarrow> sorts_to xs (sort_lists cmp xs) h (lash_list_sort cmp l h)"
proof (induction "length xs" arbitrary: xs l h rule: less_induct)
  case less
  show ?case
  proof (cases "length xs \<le> 1")
    case True
    then have "xs = [] \<or> (\<exists>x. xs = [x])" by (cases xs) auto
    then show ?thesis using less.prems(2)
      by (subst lash_list_sort.simps, subst sort_lists.simps) (auto simp: sorts_to_def)
  next
    case False
    then have "length xs div 2 \<noteq> 0" by simp
    then obtain j where j0: "length xs div 2 = Suc j" using not0_implies_Suc by blast
    have "length xs div 2 * 2 \<le> length xs" by simp
    then have j: "length xs div 2 = Suc j" "j < length xs" "Suc (Suc j) \<le> length xs" using j0 by simp_all
    let ?us = "take j xs" and ?x = "xs ! j" and ?vs = "drop (Suc j) xs"
    have split: "xs = ?us @ ?x # ?vs" using j(2) by (rule id_take_nth_drop)
    have front: "take (Suc j) xs = ?us @ [?x]" using j(2) by (rule take_Suc_conv_app_nth)
    obtain u y xs1 where xs: "xs = u # y # xs1" using j(3) by (cases xs; cases "tl xs") auto
    then obtain n where n: "l = Some (fst u)" "sh_node h (fst u) = Some n" "sn_next n = Some (fst y)"
      "chain (sh_node h) (Some (fst y)) (y # xs1)"
      using less.prems(2) by auto
    have "(length (y # xs1) - 1) div 2 = j" using j(1) xs by simp
    then have mid: "find_middle (fst u) (fst y) h = Some (Inr (fst ?x))"
      using find_middle_node [of h "fst u" xs "fst y" "y # xs1"] less.prems(2) n xs by simp
    have "chain (sh_node h) l (?us @ ?x # ?vs)" using less.prems(2) split by simp
    from chain_cut [OF this] obtain k where k: "sh_node h (fst ?x) = Some k" "chain (sh_node h) (sn_next k) ?vs"
      "fst ?x \<notin> addrs ?vs" "chain ((sh_node h)(fst ?x \<mapsto> k\<lparr>sn_next := None\<rparr>)) l (take (Suc j) xs)"
      unfolding front by blast
    let ?h1 = "put_node (fst ?x) (k\<lparr>sn_next := None\<rparr>) h"
    have h1: "sheap_ok ?h1" "chain (sh_node ?h1) l (take (Suc j) xs)" "chain (sh_node ?h1) (sn_next k) ?vs"
      using less.prems(1) k by (auto simp: sheap_ok_def)
    have parts: "addrs xs = addrs (take (Suc j) xs) \<union> addrs ?vs"
      by (metis addrs_simps(3) append_take_drop_id)
    have apart: "addrs (take (Suc j) xs) \<inter> addrs ?vs = {}"
    proof -
      have "distinct (map fst (take (Suc j) xs @ ?vs))" using chain_distinct [OF less.prems(2)] by simp
      then show ?thesis by (simp add: addrs_def del: append_take_drop_id)
    qed
    let ?sf = "sort_lists cmp (take (Suc j) xs)" and ?sv = "sort_lists cmp ?vs"
    have f: "sorts_to (take (Suc j) xs) ?sf ?h1 (lash_list_sort cmp l ?h1)"
      using h1 j(3) by (intro less.hyps) simp_all
    then obtain h2 s1 where r1: "lash_list_sort cmp l ?h1 = Some (Inr (h2, s1))" by (auto simp: sorts_to_def)
    note o1 = sorts_to_ok [OF f r1 h1(1,2)]
    have c2: "chain (sh_node h2) (sn_next k) ?vs" using o1(4) [OF h1(3)] apart by blast
    have v: "sorts_to ?vs ?sv h2 (lash_list_sort cmp (sn_next k) h2)"
      using o1(1) c2 j(2) by (intro less.hyps) simp_all
    then obtain h3 s2 where r2: "lash_list_sort cmp (sn_next k) h2 = Some (Inr (h3, s2))" by (auto simp: sorts_to_def)
    note o2 = sorts_to_ok [OF v r2 o1(1) c2]
    have c3: "chain (sh_node h3) s1 ?sf" using o2(4) [OF o1(2)] o1(3) apart by blast
    have m: "sorts_to (?sf @ ?sv) (merge_lists cmp ?sf ?sv) h3 (lash_list_sort_merge cmp s1 s2 h3)"
      using sort_merge_merges [OF o2(1) c3 o2(2)] o1(3) o2(3) apart by simp
    have run: "lash_list_sort cmp l h = lash_list_sort_merge cmp s1 s2 h3"
      using n k(1) mid r1 r2 by (subst lash_list_sort.simps) simp
    have "sort_lists cmp xs = merge_lists cmp ?sf ?sv" using False j(1) by (subst sort_lists.simps) simp
    moreover have "sh_node h3 a = sh_node h a" if "a \<notin> addrs xs" for a
    proof -
      have "fst ?x \<in> addrs xs" using j(2) by (simp add: addrs_def)
      then show ?thesis using f v r1 r2 that parts by (auto simp: sorts_to_def)
    qed
    moreover have "sh_fresh h3 = sh_fresh h" using f v r1 r2 by (auto simp: sorts_to_def)
    ultimately show ?thesis unfolding run using m o1(3) o2(3) parts by (auto simp: sorts_to_def)
  qed
qed

text \<open>The data pointers are compared by a weak order.\<close>

definition weak_order :: "(nat \<Rightarrow> nat \<Rightarrow> int) \<Rightarrow> bool" where
  "weak_order cmp \<longleftrightarrow> (\<forall>a b. cmp a b < 0 \<longrightarrow> \<not> cmp b a < 0)
     \<and> (\<forall>a b c. \<not> cmp a b < 0 \<longrightarrow> \<not> cmp b c < 0 \<longrightarrow> \<not> cmp a c < 0)"

definition ordered :: "(nat \<Rightarrow> nat \<Rightarrow> int) \<Rightarrow> (nat \<times> nat) list \<Rightarrow> bool" where
  "ordered cmp xs \<longleftrightarrow> sorted_wrt (\<lambda>x y. \<not> cmp (snd y) (snd x) < 0) xs"

lemma set_merge [simp]: "set (merge_lists cmp xs ys) = set xs \<union> set ys"
  by (induction cmp xs ys rule: merge_lists.induct) auto

lemma mset_merge [simp]: "mset (merge_lists cmp xs ys) = mset xs + mset ys"
  by (induction cmp xs ys rule: merge_lists.induct) auto

lemma ordered_merge: "weak_order cmp \<Longrightarrow> ordered cmp xs \<Longrightarrow> ordered cmp ys \<Longrightarrow> ordered cmp (merge_lists cmp xs ys)"
proof (induction cmp xs ys rule: merge_lists.induct)
  case (3 cmp x xs y ys)
  have trans: "\<not> cmp a b < 0 \<Longrightarrow> \<not> cmp b c < 0 \<Longrightarrow> \<not> cmp a c < 0" for a b c
    using "3.prems"(1) by (meson weak_order_def)
  show ?case
  proof (cases "cmp (snd x) (snd y) < 0")
    case True
    then have "\<not> cmp (snd y) (snd x) < 0" using "3.prems"(1) by (meson weak_order_def)
    then show ?thesis using True 3 trans by (auto simp: ordered_def)
  next
    case False
    then show ?thesis using 3 trans by (auto simp: ordered_def)
  qed
qed simp_all

lemma sort_lists_sorts: "mset (sort_lists cmp xs) = mset xs \<and> (weak_order cmp \<longrightarrow> ordered cmp (sort_lists cmp xs))"
proof (induction cmp xs rule: sort_lists.induct)
  case (1 cmp xs)
  show ?case
  proof (cases "length xs \<le> 1")
    case True
    then have "xs = [] \<or> (\<exists>x. xs = [x])" by (cases xs) auto
    then show ?thesis by (subst (1 2) sort_lists.simps) (auto simp: ordered_def)
  next
    case False
    let ?m = "length xs div 2"
    have "mset xs = mset (take ?m xs) + mset (drop ?m xs)" by (metis append_take_drop_id mset_append)
    moreover have "sort_lists cmp xs = merge_lists cmp (sort_lists cmp (take ?m xs)) (sort_lists cmp (drop ?m xs))"
      using False by (subst sort_lists.simps) simp
    ultimately show ?thesis using 1 [OF False] ordered_merge by simp
  qed
qed

text \<open>C21. Sorting a list returns: the nodes are relinked, none is lost or added, in an order that the comparison
  allows, and nothing else of the heap changes.\<close>

theorem list_sort_exact:
  assumes "sheap_ok h" "chain (sh_node h) l xs" "weak_order cmp"
  shows "\<exists>h' l' ys. lash_list_sort cmp l h = Some (Inr (h', l')) \<and> chain (sh_node h') l' ys
    \<and> mset ys = mset xs \<and> ordered cmp ys
    \<and> (\<forall>a. a \<notin> addrs xs \<longrightarrow> sh_node h' a = sh_node h a) \<and> sheap_ok h'"
proof -
  note s = list_sort_sorts [OF assms(1,2), of cmp]
  then obtain h' l' where r: "lash_list_sort cmp l h = Some (Inr (h', l'))" by (auto simp: sorts_to_def)
  show ?thesis
    using s r sorts_to_ok [OF s r assms(1,2)] sort_lists_sorts [of cmp xs] assms(3) by (auto simp: sorts_to_def)
qed

definition example_list :: sheap where
  "example_list = \<lparr>sh_node = [0 \<mapsto> \<lparr>sn_data = 30, sn_next = Some 2\<rparr>, 1 \<mapsto> \<lparr>sn_data = 20, sn_next = None\<rparr>,
     2 \<mapsto> \<lparr>sn_data = 10, sn_next = Some 1\<rparr>], sh_fresh = 3\<rparr>"

lemma example_list_ok: "sheap_ok example_list" "chain (sh_node example_list) (Some 0) [(0, 30), (2, 10), (1, 20)]"
  by (auto simp: sheap_ok_def example_list_def)

theorem list_sort_exact_witness:
  "\<exists>h' l'. lash_list_sort (\<lambda>a b. int a - int b) (Some 0) example_list = Some (Inr (h', l'))
    \<and> chain (sh_node h') l' [(2, 10), (1, 20), (0, 30)]"
proof -
  have "weak_order (\<lambda>a b. int a - int b)" by (auto simp: weak_order_def)
  from list_sort_exact [OF example_list_ok this] obtain h' l' ys
    where r: "lash_list_sort (\<lambda>a b. int a - int b) (Some 0) example_list = Some (Inr (h', l'))"
      "chain (sh_node h') l' ys" "mset ys = mset [(0, 30), (2, 10), (1, 20)]" "ordered (\<lambda>a b. int a - int b) ys" by blast
  have sorted: "sorted (map snd ys)" using r(4) by (simp add: ordered_def sorted_map not_less)
  have "mset (map snd ys) = mset (map snd [(0, 30), (2, 10), (1::nat, 20)])" using r(3) by (metis mset_map)
  then have data: "map snd ys = [10, 20, 30]"
    using sorted properties_for_sort [of "map snd ys" "map snd [(0, 30), (2, 10), (1::nat, 20::nat)]"] by simp
  have "set ys = {(0, 30), (2, 10), (1, 20)}" using r(3) by (metis (no_types) list.set(1,2) set_mset_mset insert_commute)
  then have mem: "p \<in> set ys \<Longrightarrow> p = (0, 30) \<or> p = (2, 10) \<or> p = (1, 20)" for p by simp
  from data obtain a b c where ys: "ys = [(a, 10), (b, 20), (c, 30)]" by (auto simp: map_eq_Cons_conv)
  have "a = 2" using mem [of "(a, 10)"] ys by simp
  moreover have "b = 1" using mem [of "(b, 20)"] ys by simp
  moreover have "c = 0" using mem [of "(c, 30)"] ys by simp
  ultimately have "ys = [(2, 10), (1, 20), (0, 30)]" using ys by simp
  then show ?thesis using r by blast
qed

section \<open>The other operations on chains\<close>

text \<open>A chain whose node \<open>u\<close> is given another rest.\<close>

lemma chain_relink:
  assumes "chain f l (us @ u # rest)" "f (fst u) = Some k" "chain f m zs" "fst u \<notin> addrs zs"
  shows "chain (f(fst u \<mapsto> k\<lparr>sn_next := m\<rparr>)) l (us @ u # zs)"
  using assms(1)
proof (induction us arbitrary: l)
  case Nil
  let ?g = "f(fst u \<mapsto> k\<lparr>sn_next := m\<rparr>)"
  have "chain ?g m zs" using assms(3,4) by simp
  moreover have "l = Some (fst u)" "sn_data k = snd u" using Nil assms(2) by auto
  moreover have "?g (fst u) = Some (k\<lparr>sn_next := m\<rparr>)" by simp
  ultimately show ?case by (simp del: fun_upd_apply)
next
  case (Cons v us)
  then obtain n where n: "l = Some (fst v)" "f (fst v) = Some n" "sn_data n = snd v" "chain f (sn_next n) (us @ u # rest)"
    by auto
  have "fst v \<noteq> fst u" using chain_distinct_Cons [of f l v "us @ u # rest"] Cons.prems by auto
  then show ?case using Cons.IH [OF n(4)] n by auto
qed

lemma chain_at: "chain f l (us @ u # rest) \<Longrightarrow> \<exists>k. f (fst u) = Some k \<and> chain f (sn_next k) rest"
  by (induction us arbitrary: l) auto

lemma last_chain: "chain (sh_node h) l xs \<Longrightarrow>
  lash_list_last l h = Some (Inr (if xs = [] then None else Some (fst (List.last xs))))"
proof (induction xs arbitrary: l)
  case Nil
  then show ?case by (subst lash_list_last.simps) simp
next
  case (Cons x xs)
  then obtain n where n: "l = Some (fst x)" "sh_node h (fst x) = Some n" "chain (sh_node h) (sn_next n) xs" by auto
  show ?case using n Cons.IH [OF n(3)] by (subst lash_list_last.simps) (cases xs; simp)
qed

lemma count_chain: "chain (sh_node h) l xs \<Longrightarrow> count_nodes k l h = Some (Inr (k + of_nat (length xs)))"
proof (induction xs arbitrary: l k)
  case Nil
  then show ?case by (subst count_nodes.simps) simp
next
  case (Cons x xs)
  then obtain n where n: "l = Some (fst x)" "sh_node h (fst x) = Some n" "chain (sh_node h) (sn_next n) xs" by auto
  show ?case using n Cons.IH [OF n(3), of "k + 1"] by (subst count_nodes.simps) (simp add: algebra_simps)
qed

lemma find_chain: "chain (sh_node h) l xs \<Longrightarrow>
  lash_list_find l d h = Some (Inr (map_option fst (find (\<lambda>x. snd x = d) xs)))"
proof (induction xs arbitrary: l)
  case Nil
  then show ?case by (subst lash_list_find.simps) simp
next
  case (Cons x xs)
  then obtain n where n: "l = Some (fst x)" "sh_node h (fst x) = Some n" "sn_data n = snd x" "chain (sh_node h) (sn_next n) xs"
    by auto
  show ?case using n Cons.IH [OF n(4)] by (subst lash_list_find.simps) simp
qed

lemma free_chain: "chain (sh_node h) l xs \<Longrightarrow>
  \<exists>h'. lash_list_free l h = Some (Inr h') \<and> sh_node h' = (\<lambda>a. if a \<in> addrs xs then None else sh_node h a)
    \<and> sh_fresh h' = sh_fresh h"
proof (induction xs arbitrary: l h)
  case Nil
  then show ?case by (subst lash_list_free.simps) simp
next
  case (Cons x xs)
  then obtain n where n: "l = Some (fst x)" "sh_node h (fst x) = Some n" "chain (sh_node h) (sn_next n) xs" by auto
  have "chain (sh_node (free_node (fst x) h)) (sn_next n) xs"
    using n(3) chain_distinct_Cons [OF Cons.prems] by simp
  from Cons.IH [OF this] obtain h' where h': "lash_list_free (sn_next n) (free_node (fst x) h) = Some (Inr h')"
    "sh_node h' = (\<lambda>a. if a \<in> addrs xs then None else sh_node (free_node (fst x) h) a)" "sh_fresh h' = sh_fresh h"
    by auto
  then show ?case using n by (subst lash_list_free.simps) (auto simp: fun_eq_iff)
qed

text \<open>Taking out the first node that satisfies \<open>P\<close>.\<close>

definition unlinked :: "(nat \<times> nat \<Rightarrow> bool) \<Rightarrow> nat option \<Rightarrow> (nat \<times> nat) list \<Rightarrow> sheap \<Rightarrow>
    (sheap \<times> nat option \<times> nat option) res option \<Rightarrow> bool" where
  "unlinked P l xs h r \<longleftrightarrow>
     (if \<forall>x \<in> set xs. \<not> P x then r = Some (Inr (h, l, None))
      else \<exists>us x vs h' l'. xs = us @ x # vs \<and> (\<forall>u \<in> set us. \<not> P u) \<and> P x \<and> r = Some (Inr (h', l', Some (fst x)))
        \<and> chain (sh_node h') l' (us @ vs) \<and> chain (sh_node h') (Some (fst x)) [x]
        \<and> (\<forall>a. a \<notin> addrs xs \<longrightarrow> sh_node h' a = sh_node h a) \<and> sh_fresh h' = sh_fresh h)"

lemma unlink_chain:
  assumes hit: "\<And>a n. hit a n = P (a, sn_data n)"
  shows "chain (sh_node h) l (ps @ xs) \<Longrightarrow> \<forall>p \<in> set ps. \<not> P p \<Longrightarrow> chain (sh_node h) tmp xs \<Longrightarrow>
    prev = (if ps = [] then None else Some (fst (List.last ps))) \<Longrightarrow>
    unlinked P l (ps @ xs) h (unlink hit l prev tmp h)"
proof (induction xs arbitrary: ps prev tmp)
  case Nil
  then show ?case by (subst unlink.simps) (simp add: unlinked_def)
next
  case (Cons y ys)
  obtain n where n: "tmp = Some (fst y)" "sh_node h (fst y) = Some n" "sn_data n = snd y" "chain (sh_node h) (sn_next n) ys"
    using Cons.prems(3) by auto
  have dist: "fst y \<notin> addrs ys" "fst y \<notin> addrs ps"
    using chain_distinct [OF Cons.prems(1)] by (auto simp: addrs_def)
  show ?case
  proof (cases "P y")
    case False
    then have "unlink hit l prev tmp h = unlink hit l (Some (fst y)) (sn_next n) h"
      using n hit [of "fst y" n] by (subst unlink.simps) simp
    then show ?thesis using Cons.IH [of "ps @ [y]" "sn_next n" "Some (fst y)"] Cons.prems False n(4) by simp
  next
    case True
    have y: "hit (fst y) n" using hit [of "fst y" n] n(3) True by simp
    show ?thesis
    proof (cases ps rule: rev_cases)
      case Nil
      then have "l = Some (fst y)" using Cons.prems(1) by simp
      then have "unlink hit l prev tmp h = Some (Inr (put_node (fst y) (n\<lparr>sn_next := None\<rparr>) h, sn_next n, Some (fst y)))"
        using n y Cons.prems(4) Nil by (subst unlink.simps) simp
      then show ?thesis using True Nil n dist
        by (simp add: unlinked_def, intro exI [of _ "[]"] exI [of _ "fst y"] exI [of _ "snd y"] exI [of _ ys]) simp
    next
      case (snoc qs p)
      obtain k where k: "sh_node h (fst p) = Some k" using chain_at [of "sh_node h" l qs p "y # ys"] Cons.prems(1) snoc by auto
      have apart: "fst p \<noteq> fst y" "fst p \<notin> addrs ys" "l \<noteq> Some (fst y)"
        using chain_distinct [OF Cons.prems(1)] dist Cons.prems(1) snoc by (cases qs; auto simp: addrs_def)+
      let ?h1 = "put_node (fst p) (k\<lparr>sn_next := sn_next n\<rparr>) h"
      let ?h2 = "put_node (fst y) (n\<lparr>sn_next := None\<rparr>) ?h1"
      have run: "unlink hit l prev tmp h = Some (Inr (?h2, l, Some (fst y)))"
        using n y k apart Cons.prems(4) snoc by (subst unlink.simps) simp
      have "chain (sh_node ?h1) l (qs @ p # ys)"
        using chain_relink [of "sh_node h" l qs p "y # ys" k "sn_next n" ys] Cons.prems(1) snoc k n(4) apart by simp
      then have c: "chain (sh_node ?h2) l (ps @ ys)" using dist snoc by simp
      have "chain (sh_node ?h2) (Some (fst y)) [y]" using n(3) by simp
      moreover have "sh_node ?h2 a = sh_node h a" if "a \<notin> addrs (ps @ y # ys)" for a using that snoc by auto
      ultimately show ?thesis unfolding run unlinked_def using True c Cons.prems(2)
        by (simp, intro exI [of _ ps] exI [of _ "fst y"] exI [of _ "snd y"] exI [of _ ys]) simp
    qed
  qed
qed

section \<open>What the operations do to the data\<close>

lemma fresh_out: "sheap_ok h \<Longrightarrow> chain (sh_node h) l xs \<Longrightarrow> sh_fresh h \<notin> addrs xs"
  using chain_addrs [of "sh_node h" l xs "sh_fresh h"] by (auto simp: sheap_ok_def)

lemma ok_put: "sheap_ok h \<Longrightarrow> a < sh_fresh h \<Longrightarrow> sheap_ok (put_node a n h)"
  by (simp add: sheap_ok_def)

lemma ok_node: "sheap_ok h \<Longrightarrow> sh_node h a = Some n \<Longrightarrow> a < sh_fresh h"
  unfolding sheap_ok_def by (metis linorder_not_le option.distinct(1))

definition alloc_heap :: "nat \<Rightarrow> nat option \<Rightarrow> sheap \<Rightarrow> sheap" where
  "alloc_heap d l h = put_node (sh_fresh h) \<lparr>sn_data = d, sn_next = l\<rparr> (h\<lparr>sh_fresh := Suc (sh_fresh h)\<rparr>)"

lemma alloc_heap_simps [simp]:
  "sh_node (alloc_heap d l h) = (sh_node h)(sh_fresh h \<mapsto> \<lparr>sn_data = d, sn_next = l\<rparr>)"
  "sh_fresh (alloc_heap d l h) = Suc (sh_fresh h)" "sheap_ok h \<Longrightarrow> sheap_ok (alloc_heap d l h)"
  by (simp_all add: alloc_heap_def sheap_ok_def)

lemma alloc_data: "lash_list_alloc h = (h1, new) \<Longrightarrow> set_data new d h1 = Inr (alloc_heap d None h) \<and> new = sh_fresh h"
  by (auto simp: lash_list_alloc_def set_data_def alloc_heap_def put_node_def)

lemma append_chain:
  assumes "sheap_ok h" "chain (sh_node h) l xs"
  shows "\<exists>h' l'. lash_list_append l d h = Some (Inr (h', l')) \<and> chain (sh_node h') l' (xs @ [(sh_fresh h, d)])
    \<and> sheap_ok h' \<and> sh_fresh h' = Suc (sh_fresh h)"
proof -
  let ?h = "alloc_heap d None h"
  obtain h1 where a: "lash_list_alloc h = (h1, sh_fresh h)" "set_data (sh_fresh h) d h1 = Inr ?h"
    using alloc_data by (metis prod.exhaust)
  have c: "chain (sh_node ?h) l xs" using assms fresh_out by simp
  show ?thesis
  proof (cases xs rule: rev_cases)
    case Nil
    then show ?thesis using a assms by (simp add: lash_list_append_def)
  next
    case (snoc us u)
    obtain k where k: "sh_node ?h (fst u) = Some k" using chain_at [of "sh_node ?h" l us u "[]"] c snoc by blast
    have new: "fst u \<noteq> sh_fresh h" using fresh_out [OF assms] snoc by auto
    let ?h2 = "put_node (fst u) (k\<lparr>sn_next := Some (sh_fresh h)\<rparr>) ?h"
    have "chain (sh_node ?h2) l (us @ u # [(sh_fresh h, d)])"
      unfolding node_simps using c snoc k new by (intro chain_relink) auto
    moreover have "sheap_ok ?h2" using ok_put ok_node [of ?h "fst u" k] k assms(1) by simp
    moreover obtain b where "l = Some b" using assms(2) snoc by (cases us) auto
    moreover have "set_next (fst u) (Some (sh_fresh h)) ?h = Inr ?h2" using k by (rule set_next_node)
    ultimately show ?thesis using a snoc last_chain [OF c]
      by (simp add: lash_list_append_def del: chain.simps fun_upd_apply alloc_heap_simps(1))
  qed
qed

lemma remove_chain:
  assumes "sheap_ok h" "chain (sh_node h) l xs"
  shows "\<exists>h' l' ys. lash_list_remove l d h = Some (Inr (h', l')) \<and> chain (sh_node h') l' ys
    \<and> map snd ys = remove1 d (map snd xs) \<and> set ys \<subseteq> set xs \<and> sheap_ok h'"
proof -
  have u: "unlinked (\<lambda>x. snd x = d) l ([] @ xs) h (unlink (\<lambda>a n. sn_data n = d) l None l h)"
    by (rule unlink_chain) (use assms(2) in auto)
  show ?thesis
  proof (cases "\<forall>x \<in> set xs. snd x \<noteq> d")
    case True
    then have "d \<notin> set (map snd xs)" by auto
    then have "remove1 d (map snd xs) = map snd xs" by (rule remove1_idem)
    then show ?thesis using u True assms
      by (simp add: unlinked_def lash_list_remove_def) (intro exI [of _ xs], simp)
  next
    case False
    then obtain us x vs h' l' where x: "xs = us @ x # vs" "\<forall>u \<in> set us. snd u \<noteq> d" "snd x = d"
      "unlink (\<lambda>a n. sn_data n = d) l None l h = Some (Inr (h', l', Some (fst x)))"
      "chain (sh_node h') l' (us @ vs)" "chain (sh_node h') (Some (fst x)) [x]"
      "\<forall>a. a \<notin> addrs xs \<longrightarrow> sh_node h' a = sh_node h a" "sh_fresh h' = sh_fresh h"
      using u by (auto simp: unlinked_def split: if_split_asm)
    obtain h2 where h2: "lash_list_free (Some (fst x)) h' = Some (Inr h2)"
      "sh_node h2 = (sh_node h')(fst x := None)" "sh_fresh h2 = sh_fresh h'"
      using free_chain [OF x(6)] by (auto simp: fun_eq_iff)
    have "fst x \<notin> addrs (us @ vs)" using chain_distinct [OF assms(2)] x(1) by (auto simp: addrs_def)
    then have "chain (sh_node h2) l' (us @ vs)" using x(5) h2(2) by simp
    moreover have "map snd (us @ vs) = remove1 d (map snd xs)"
      using x(1,2,3) by (simp add: remove1_append) (metis (no_types, lifting) imageE list.set_map)
    moreover have "sheap_ok h2"
    proof -
      have "a \<notin> addrs xs" if "a \<ge> sh_fresh h" for a
        using chain_addrs [OF assms(2), of a] assms(1) that by (auto simp: sheap_ok_def)
      then show ?thesis using assms(1) x(7,8) h2(2,3) by (auto simp: sheap_ok_def)
    qed
    ultimately show ?thesis using x(1,4) h2(1) by (auto simp: lash_list_remove_def)
  qed
qed

text \<open>Copying the rest: new nodes with the same data, and the copied nodes are left alone.\<close>

definition copied :: "nat \<Rightarrow> (nat \<times> nat) list \<Rightarrow> sheap \<Rightarrow> sheap res option \<Rightarrow> bool" where
  "copied tail xs h r \<longleftrightarrow>
     (\<exists>h' n ys. r = Some (Inr h') \<and> sh_node h' tail = Some n \<and> map_option sn_data (sh_node h tail) = Some (sn_data n)
        \<and> chain (sh_node h') (sn_next n) ys \<and> map snd ys = map snd xs
        \<and> (\<forall>a. a \<noteq> tail \<longrightarrow> a < sh_fresh h \<longrightarrow> sh_node h' a = sh_node h a) \<and> sheap_ok h')"

lemma copy_rest_chain:
  "sheap_ok h \<Longrightarrow> chain (sh_node h) l xs \<Longrightarrow> sh_node h tail = Some \<lparr>sn_data = d, sn_next = None\<rparr> \<Longrightarrow>
     tail \<notin> addrs xs \<Longrightarrow> copied tail xs h (copy_rest tail l h)"
proof (induction xs arbitrary: l h tail d)
  case Nil
  then show ?case by (subst copy_rest.simps) (simp add: copied_def)
next
  case (Cons x xs)
  let ?f = "sh_fresh h"
  let ?h1 = "put_node tail \<lparr>sn_data = d, sn_next = Some ?f\<rparr> (alloc_heap 0 None h)"
  let ?h2 = "put_node ?f \<lparr>sn_data = snd x, sn_next = None\<rparr> ?h1"
  obtain n where n: "l = Some (fst x)" "sh_node h (fst x) = Some n" "sn_data n = snd x" "chain (sh_node h) (sn_next n) xs"
    using Cons.prems(2) by auto
  have f: "?f \<notin> addrs (x # xs)" "tail < ?f" "tail \<noteq> fst x" "tail \<notin> addrs xs"
    using fresh_out [OF Cons.prems(1,2)] ok_node [OF Cons.prems(1,3)] Cons.prems(4) by auto
  have run: "copy_rest tail l h = copy_rest ?f (sn_next n) ?h2"
    using n f Cons.prems(3)
    by (subst copy_rest.simps) (simp add: lash_list_alloc_def alloc_heap_def set_next_def set_data_def)
  have "copied ?f xs ?h2 (copy_rest ?f (sn_next n) ?h2)"
  proof (rule Cons.IH)
    show "sheap_ok ?h2" using Cons.prems(1) f(2) by (intro ok_put) simp_all
    show "chain (sh_node ?h2) (sn_next n) xs" using n(4) f by simp
    show "sh_node ?h2 ?f = Some \<lparr>sn_data = snd x, sn_next = None\<rparr>" by simp
    show "?f \<notin> addrs xs" using f(1) by simp
  qed
  then obtain h' m ys where r: "copy_rest ?f (sn_next n) ?h2 = Some (Inr h')" "sh_node h' ?f = Some m" "sn_data m = snd x"
    "chain (sh_node h') (sn_next m) ys" "map snd ys = map snd xs" "sheap_ok h'"
    and same: "\<And>a. a \<noteq> ?f \<Longrightarrow> a < sh_fresh ?h2 \<Longrightarrow> sh_node h' a = sh_node ?h2 a"
    by (auto simp: copied_def)
  have "sh_node h' tail = Some \<lparr>sn_data = d, sn_next = Some ?f\<rparr>" using same [of tail] f(2) by simp
  moreover have "chain (sh_node h') (Some ?f) ((?f, snd x) # ys)" using r by simp
  moreover have "sh_node h' a = sh_node h a" if "a \<noteq> tail" "a < ?f" for a using same [of a] that by simp
  ultimately show ?case unfolding run copied_def using r Cons.prems(3)
    by (intro exI [of _ h'] exI [of _ "\<lparr>sn_data = d, sn_next = Some ?f\<rparr>"] exI [of _ "(?f, snd x) # ys"])
      (simp del: chain.simps)
qed

lemma copy_chain:
  assumes "sheap_ok h" "chain (sh_node h) l xs"
  shows "\<exists>h' l' ys. lash_list_copy l h = Some (Inr (h', l')) \<and> chain (sh_node h') l' ys \<and> map snd ys = map snd xs
    \<and> chain (sh_node h') l xs \<and> sheap_ok h'"
proof (cases xs)
  case Nil
  then show ?thesis using assms by (auto simp: lash_list_copy_def intro: exI [of _ "[]"])
next
  case (Cons x xs1)
  obtain n where n: "l = Some (fst x)" "sh_node h (fst x) = Some n" "sn_data n = snd x" "chain (sh_node h) (sn_next n) xs1"
    using assms(2) Cons by auto
  let ?f = "sh_fresh h" and ?h = "alloc_heap (snd x) None h"
  have f: "?f \<notin> addrs xs" using fresh_out [OF assms] .
  have "copied ?f xs1 ?h (copy_rest ?f (sn_next n) ?h)"
    using assms(1) n(4) f Cons by (intro copy_rest_chain [where d = "snd x"]) simp_all
  then obtain h' m ys where r: "copy_rest ?f (sn_next n) ?h = Some (Inr h')" "sh_node h' ?f = Some m" "sn_data m = snd x"
    "chain (sh_node h') (sn_next m) ys" "map snd ys = map snd xs1" "sheap_ok h'"
    and same: "\<And>a. a \<noteq> ?f \<Longrightarrow> a < sh_fresh ?h \<Longrightarrow> sh_node h' a = sh_node ?h a"
    by (auto simp: copied_def)
  have run: "lash_list_copy l h = Some (Inr (h', Some ?f))"
  proof -
    have "lash_list_alloc h = (alloc_heap 0 None h, ?f)" by (simp add: lash_list_alloc_def alloc_heap_def)
    moreover have "sh_node (alloc_heap 0 None h) (fst x) = Some n" using n(2) f Cons by auto
    moreover have "set_data ?f (snd x) (alloc_heap 0 None h) = Inr ?h"
      by (simp add: alloc_heap_def set_data_def put_node_def)
    ultimately show ?thesis using n(1,3) r(1) by (simp add: lash_list_copy_def)
  qed
  have "chain (sh_node h') l xs"
  proof (rule chain_cong [THEN iffD1, OF _ assms(2)])
    show "sh_node h a = sh_node h' a" if "a \<in> addrs xs" for a
    proof -
      have "sh_node h a \<noteq> None" using chain_addrs [OF assms(2) that] .
      then have "a < ?f" using ok_node [OF assms(1), of a] by auto
      then show ?thesis using same [of a] by simp
    qed
  qed
  moreover have "chain (sh_node h') (Some ?f) ((?f, snd x) # ys)" "map snd ((?f, snd x) # ys) = map snd xs"
    using r Cons by simp_all
  ultimately show ?thesis using run r(6) by blast
qed

section \<open>The lists as a data type\<close>

text \<open>The abstract value of a list: its data, in order.\<close>

definition holds :: "sheap \<Rightarrow> nat option \<Rightarrow> nat list \<Rightarrow> bool" where
  "holds h l ds \<longleftrightarrow> sheap_ok h \<and> (\<exists>xs. chain (sh_node h) l xs \<and> map snd xs = ds)"

lemma holdsI: "sheap_ok h \<Longrightarrow> chain (sh_node h) l xs \<Longrightarrow> map snd xs = ds \<Longrightarrow> holds h l ds"
  unfolding holds_def by blast

datatype list_edit = Append nat | Prepend nat | Remove nat | Copy_list

fun edit_list :: "list_edit \<Rightarrow> nat option \<Rightarrow> sheap \<Rightarrow> (sheap \<times> nat option) res option" where
  "edit_list (Append d) l h = lash_list_append l d h"
| "edit_list (Prepend d) l h = Some (Inr (lash_list_prepend l d h))"
| "edit_list (Remove d) l h = lash_list_remove l d h"
| "edit_list Copy_list l h = lash_list_copy l h"

fun edit_lists :: "list_edit list \<Rightarrow> nat option \<Rightarrow> sheap \<Rightarrow> (sheap \<times> nat option) res option" where
  "edit_lists [] l h = Some (Inr (h, l))"
| "edit_lists (e # es) l h = bindo (edit_list e l h) (\<lambda>(h1, l1). edit_lists es l1 h1)"

fun edit_data :: "list_edit \<Rightarrow> nat list \<Rightarrow> nat list" where
  "edit_data (Append d) ds = ds @ [d]"
| "edit_data (Prepend d) ds = d # ds"
| "edit_data (Remove d) ds = remove1 d ds"
| "edit_data Copy_list ds = ds"

lemma edit_list_refines:
  assumes "holds h l ds"
  shows "\<exists>h' l'. edit_list e l h = Some (Inr (h', l')) \<and> holds h' l' (edit_data e ds)"
proof -
  obtain xs where ok: "sheap_ok h" and xs: "chain (sh_node h) l xs" "map snd xs = ds"
    using assms by (auto simp: holds_def)
  show ?thesis
  proof (cases e)
    case (Append d)
    obtain h' l' where r: "lash_list_append l d h = Some (Inr (h', l'))"
      "chain (sh_node h') l' (xs @ [(sh_fresh h, d)])" "sheap_ok h'"
      using append_chain [OF ok xs(1)] by blast
    have "holds h' l' (ds @ [d])" by (rule holdsI [OF r(3,2)]) (simp add: xs(2))
    then show ?thesis using r(1) Append by simp
  next
    case (Prepend d)
    let ?h = "alloc_heap d l h"
    have "chain (sh_node ?h) (Some (sh_fresh h)) ((sh_fresh h, d) # xs)" using xs(1) fresh_out [OF ok xs(1)] by simp
    then have "holds ?h (Some (sh_fresh h)) (d # ds)"
      by (rule holdsI [OF alloc_heap_simps(3) [OF ok]]) (simp add: xs(2))
    then show ?thesis using Prepend by (simp add: lash_list_prepend_def alloc_heap_def)
  next
    case (Remove d)
    obtain h' l' ys where r: "lash_list_remove l d h = Some (Inr (h', l'))" "chain (sh_node h') l' ys"
      "map snd ys = remove1 d (map snd xs)" "sheap_ok h'"
      using remove_chain [OF ok xs(1), of d] by blast
    have "holds h' l' (remove1 d ds)" by (rule holdsI [OF r(4,2)]) (simp add: r(3) xs(2))
    then show ?thesis using r(1) Remove by simp
  next
    case Copy_list
    obtain h' l' ys where r: "lash_list_copy l h = Some (Inr (h', l'))" "chain (sh_node h') l' ys"
      "map snd ys = map snd xs" "sheap_ok h'"
      using copy_chain [OF ok xs(1)] by blast
    have "holds h' l' ds" by (rule holdsI [OF r(4,2)]) (simp add: r(3) xs(2))
    then show ?thesis using r(1) Copy_list by simp
  qed
qed

lemma edit_lists_refine:
  "holds h l ds \<Longrightarrow> \<exists>h' l'. edit_lists es l h = Some (Inr (h', l')) \<and> holds h' l' (fold edit_data es ds)"
proof (induction es arbitrary: h l ds)
  case (Cons e es)
  obtain h1 l1 where e: "edit_list e l h = Some (Inr (h1, l1))" "holds h1 l1 (edit_data e ds)"
    using edit_list_refines [OF Cons.prems, of e] by blast
  show ?case using Cons.IH [OF e(2)] e(1) by simp
qed simp

lemma holds_length: "holds h l ds \<Longrightarrow> lash_list_length l h = Some (Inr (of_nat (length ds)))"
  by (auto simp: holds_def lash_list_length_def dest: count_chain [where k = 0])

lemma holds_find:
  assumes "holds h l ds"
  shows "\<exists>a. lash_list_find l d h = Some (Inr a) \<and> (a \<noteq> None \<longleftrightarrow> d \<in> set ds)"
proof -
  obtain xs where "chain (sh_node h) l xs" "map snd xs = ds" using assms by (auto simp: holds_def)
  moreover have "find (\<lambda>x. snd x = d) xs = None \<longleftrightarrow> d \<notin> set (map snd xs)" by (auto simp: find_None_set)
  ultimately show ?thesis using find_chain [of h l xs d] by (cases "find (\<lambda>x. snd x = d) xs") simp_all
qed

text \<open>C16. Any sequence of appending, prepending, removing and copying returns without a fault, and does
  to the data of a list what the same sequence does to an abstract list; the length and the search
  agree with the abstract list.\<close>

theorem edits_refine_lists:
  assumes "holds h l ds"
  shows "\<exists>h' l'. edit_lists es l h = Some (Inr (h', l')) \<and> holds h' l' (fold edit_data es ds)
    \<and> lash_list_length l' h' = Some (Inr (of_nat (length (fold edit_data es ds))))
    \<and> (\<exists>a. lash_list_find l' d h' = Some (Inr a) \<and> (a \<noteq> None \<longleftrightarrow> d \<in> set (fold edit_data es ds)))"
proof -
  obtain h' l' where r: "edit_lists es l h = Some (Inr (h', l'))" "holds h' l' (fold edit_data es ds)"
    using edit_lists_refine [OF assms] by blast
  then show ?thesis using holds_length [OF r(2)] holds_find [OF r(2), of d] by metis
qed

lemma example_list_holds: "holds example_list (Some 0) [30, 10, 20]"
  by (rule holdsI [OF example_list_ok]) simp

theorem edits_refine_lists_witness:
  "\<exists>h' l'. edit_lists [Append 5, Copy_list, Remove 10] (Some 0) example_list = Some (Inr (h', l'))
    \<and> holds h' l' [30, 20, 5] \<and> lash_list_length l' h' = Some (Inr 3)"
proof -
  have "fold edit_data [Append 5, Copy_list, Remove 10] [30, 10, 20] = [30, 20, 5]" by simp
  with edits_refine_lists [OF example_list_holds, of "[Append 5, Copy_list, Remove 10]" 5]
  show ?thesis by (simp del: edit_lists.simps fold_simps edit_data.simps) metis
qed

end
