(* ===== verification/Shell.thy ===== *)
theory Shell
  imports LibQueue
begin

text \<open>
  The command line controller (\<^verbatim>\<open>clients/shell\<close>): the projects and clients it hears of through the
  library's control callback, the commands it reads, and the loop that prompts, dispatches and
  obeys. Projects and clients lie at addresses, because the shell keeps a second pointer to the
  selected project; the lists of addresses are lists (\<open>Slist\<close> shows that the code's lists are).
  What is printed, prompted and put into the history is a trace.
\<close>

section \<open>The state\<close>

record shell_client =
  sc_id :: uuid
  sc_name :: cstr
  sc_jack_client_name :: cstr
  sc_alsa_client_id :: u8

record shell_project =
  sp_name :: cstr
  sp_dir :: cstr
  sp_clients :: "addr list"
  sp_saving :: int

datatype shell_out = Printed string | Prompt string | History string

text \<open>\<open>ct_identity\<close> is the size of the static buffer for identities.\<close>

record lash_control =
  ct_lib :: lib
  ct_projects :: "addr list"
  ct_cur :: "addr option"
  ct_project :: "addr \<Rightarrow> shell_project option"
  ct_client :: "addr \<Rightarrow> shell_client option"
  ct_next :: addr
  ct_identity :: nat
  ct_out :: "shell_out list"

definition lash_control_init :: "lib \<Rightarrow> lash_control" where
  "lash_control_init client =
     \<lparr>ct_lib = client, ct_projects = [], ct_cur = None, ct_project = (\<lambda>_. None), ct_client = (\<lambda>_. None),
      ct_next = 0, ct_identity = 37, ct_out = []\<rparr>"

definition emit :: "shell_out \<Rightarrow> lash_control \<Rightarrow> lash_control" where
  "emit x s = s\<lparr>ct_out := ct_out s @ [x]\<rparr>"

abbreviation puts :: "string \<Rightarrow> lash_control \<Rightarrow> lash_control" where
  "puts t \<equiv> emit (Printed t)"

definition project_at :: "addr \<Rightarrow> lash_control \<Rightarrow> shell_project res" where
  "project_at a s = (case ct_project s a of None \<Rightarrow> Inl Dangling | Some p \<Rightarrow> Inr p)"

definition client_at :: "addr \<Rightarrow> lash_control \<Rightarrow> shell_client res" where
  "client_at a s = (case ct_client s a of None \<Rightarrow> Inl Dangling | Some c \<Rightarrow> Inr c)"

definition set_project :: "addr \<Rightarrow> (shell_project \<Rightarrow> shell_project) \<Rightarrow> lash_control \<Rightarrow> lash_control" where
  "set_project a f s = s\<lparr>ct_project := (ct_project s)(a := map_option f (ct_project s a))\<rparr>"

definition set_client :: "addr \<Rightarrow> (shell_client \<Rightarrow> shell_client) \<Rightarrow> lash_control \<Rightarrow> lash_control" where
  "set_client a f s = s\<lparr>ct_client := (ct_client s)(a := map_option f (ct_client s a))\<rparr>"

section \<open>Projects and clients\<close>

definition sh_client_new :: "uuid \<Rightarrow> lash_control \<Rightarrow> lash_control \<times> addr" where
  "sh_client_new u s =
     (s\<lparr>ct_client := (ct_client s)(ct_next s \<mapsto>
          \<lparr>sc_id = u, sc_name = None, sc_jack_client_name = None, sc_alsa_client_id = 0\<rparr>),
        ct_next := Suc (ct_next s)\<rparr>, ct_next s)"

definition sh_client_destroy :: "addr \<Rightarrow> lash_control \<Rightarrow> lash_control res" where
  "sh_client_destroy a s = bindr (client_at a s) (\<lambda>_. Inr (s\<lparr>ct_client := (ct_client s)(a := None)\<rparr>))"

text \<open>The text, and the buffer grown for it.\<close>

definition sh_client_get_identity :: "uuid_lib \<Rightarrow> addr \<Rightarrow> lash_control \<Rightarrow> (lash_control \<times> string) res" where
  "sh_client_get_identity U a s =
     bindr (client_at a s) (\<lambda>c.
       case sc_name c of
         Some name \<Rightarrow>
           (let name_size = length name + 1;
                s1 = (if name_size > ct_identity s then s\<lparr>ct_identity := name_size\<rparr> else s)
            in bindr (sprintf_into (ct_identity s1) name) (\<lambda>t. Inr (s1, t)))
       | None \<Rightarrow> bindr (sprintf_into (ct_identity s) (uuid_unparse U (sc_id c))) (\<lambda>t. Inr (s, t)))"

definition sh_project_new :: "string \<Rightarrow> lash_control \<Rightarrow> lash_control \<times> addr" where
  "sh_project_new name s =
     (s\<lparr>ct_project := (ct_project s)(ct_next s \<mapsto>
          \<lparr>sp_name = Some name, sp_dir = None, sp_clients = [], sp_saving = 0\<rparr>),
        ct_next := Suc (ct_next s)\<rparr>, ct_next s)"

fun destroy_clients :: "addr list \<Rightarrow> lash_control \<Rightarrow> lash_control res" where
  "destroy_clients [] s = Inr s"
| "destroy_clients (a # as) s = bindr (sh_client_destroy a s) (destroy_clients as)"

definition sh_project_destroy :: "addr \<Rightarrow> lash_control \<Rightarrow> lash_control res" where
  "sh_project_destroy a s =
     bindr (project_at a s) (\<lambda>p.
     bindr (destroy_clients (sp_clients p) s) (\<lambda>s1.
       Inr (s1\<lparr>ct_project := (ct_project s1)(a := None)\<rparr>)))"

fun destroy_projects :: "addr list \<Rightarrow> lash_control \<Rightarrow> lash_control res" where
  "destroy_projects [] s = Inr s"
| "destroy_projects (a # as) s = bindr (sh_project_destroy a s) (destroy_projects as)"

text \<open>The pointers of the structure stay as they were.\<close>

definition lash_control_free :: "lash_control \<Rightarrow> lash_control res" where
  "lash_control_free s = destroy_projects (ct_projects s) s"

section \<open>Finding\<close>

fun find_project_in :: "string \<Rightarrow> lash_control \<Rightarrow> addr list \<Rightarrow> addr option res" where
  "find_project_in name s [] = Inr None"
| "find_project_in name s (a # as) =
     bindr (project_at a s) (\<lambda>p.
       case sp_name p of
         None \<Rightarrow> Inl Null_deref
       | Some n \<Rightarrow> if n = name then Inr (Some a) else find_project_in name s as)"

definition find_project_by_name :: "string \<Rightarrow> lash_control \<Rightarrow> addr option res" where
  "find_project_by_name name s = find_project_in name s (ct_projects s)"

fun find_project_client_in :: "uuid \<Rightarrow> lash_control \<Rightarrow> addr list \<Rightarrow> addr option res" where
  "find_project_client_in u s [] = Inr None"
| "find_project_client_in u s (a # as) =
     bindr (client_at a s) (\<lambda>c. if sc_id c = u then Inr (Some a) else find_project_client_in u s as)"

definition find_project_client_by_id :: "addr \<Rightarrow> uuid \<Rightarrow> lash_control \<Rightarrow> addr option res" where
  "find_project_client_by_id a u s = bindr (project_at a s) (\<lambda>p. find_project_client_in u s (sp_clients p))"

fun find_client_in :: "uuid \<Rightarrow> lash_control \<Rightarrow> addr list \<Rightarrow> addr option res" where
  "find_client_in u s [] = Inr None"
| "find_client_in u s (a # as) =
     bindr (find_project_client_by_id a u s) (\<lambda>r. case r of None \<Rightarrow> find_client_in u s as | Some c \<Rightarrow> Inr (Some c))"

definition find_client_by_id :: "uuid \<Rightarrow> lash_control \<Rightarrow> addr option res" where
  "find_client_by_id u s = find_client_in u s (ct_projects s)"

section \<open>The control callback\<close>

definition quote :: "string \<Rightarrow> string" where
  "quote t = CHR 0x27 # t @ [CHR 0x27]"

text \<open>\<open>(int) str[0]\<close>: characters are signed.\<close>

definition first_char :: "string \<Rightarrow> int" where
  "first_char t = (case t of [] \<Rightarrow> 0 | c # _ \<Rightarrow> sint (of_char c :: u8))"

definition with_found :: "addr option res \<Rightarrow> (addr \<Rightarrow> lash_control res) \<Rightarrow> lash_control \<Rightarrow> lash_control res" where
  "with_found r f s = bindr r (\<lambda>x. case x of None \<Rightarrow> Inr s | Some a \<Rightarrow> f a)"

text \<open>The cases that look a client up by its identifier.\<close>

definition with_client :: "uuid \<Rightarrow> (addr \<Rightarrow> lash_control res) \<Rightarrow> lash_control \<Rightarrow> lash_control res" where
  "with_client u f s = (if uuid_is_null u then Inr s else with_found (find_client_by_id u s) f s)"

definition announce_client :: "uuid_lib \<Rightarrow> addr \<Rightarrow> string \<Rightarrow> lash_control \<Rightarrow> lash_control res" where
  "announce_client U a t s =
     bindr (sh_client_get_identity U a s) (\<lambda>(s1, i). Inr (puts (''* Client '' @ quote i @ t) s1))"

definition on_project_dir :: "string \<Rightarrow> string \<Rightarrow> lash_control \<Rightarrow> lash_control res" where
  "on_project_dir str1 str2 s =
     with_found (find_project_by_name str1 s) (\<lambda>a.
       Inr (set_project a (\<lambda>p. p\<lparr>sp_dir := Some str2\<rparr>)
         (puts (''* Project '' @ quote str1 @ '' changed to directory '' @ str2) s))) s"

definition on_project_name :: "string \<Rightarrow> string \<Rightarrow> lash_control \<Rightarrow> lash_control res" where
  "on_project_name str1 str2 s =
     with_found (find_project_by_name str1 s) (\<lambda>a.
       Inr (set_project a (\<lambda>p. p\<lparr>sp_name := Some str2\<rparr>)
         (puts (''* Project '' @ quote str1 @ '' changed name to '' @ quote str2) s))) s"

definition on_project_add :: "string \<Rightarrow> lash_control \<Rightarrow> lash_control res" where
  "on_project_add str1 s =
     (let (s1, new_project) = sh_project_new str1 (puts (''* New project '' @ quote str1) s);
          s2 = s1\<lparr>ct_projects := ct_projects s1 @ [new_project]\<rparr>
      in Inr (if (of_nat (length (ct_projects s2)) :: u32) = 1 then s2\<lparr>ct_cur := Some new_project\<rparr> else s2))"

definition on_project_remove :: "string \<Rightarrow> lash_control \<Rightarrow> lash_control res" where
  "on_project_remove str1 s =
     with_found (find_project_by_name str1 s) (\<lambda>a.
       let s1 = s\<lparr>ct_projects := remove1 a (ct_projects s)\<rparr>;
           s2 = (if ct_cur s1 = Some a then s1\<lparr>ct_cur := None\<rparr> else s1)
       in bindr (project_at a s2) (\<lambda>p.
          sh_project_destroy a (puts (''* Project '' @ quote (lash_strdup (sp_name p)) @ '' removed'') s2))) s"

definition on_client_add :: "uuid_lib \<Rightarrow> string \<Rightarrow> uuid \<Rightarrow> lash_control \<Rightarrow> lash_control res" where
  "on_client_add U str1 u s =
     with_found (find_project_by_name str1 s) (\<lambda>a.
       let (s1, client) = sh_client_new u s in
       bindr (sh_client_get_identity U client s1) (\<lambda>(s2, i).
       bindr (project_at a s2) (\<lambda>p.
         Inr (set_project a (\<lambda>p. p\<lparr>sp_clients := sp_clients p @ [client]\<rparr>)
           (puts (''* New client '' @ quote i @ '' in project '' @ quote (lash_strdup (sp_name p))) s2))))) s"

definition on_client_remove :: "uuid_lib \<Rightarrow> string \<Rightarrow> uuid \<Rightarrow> lash_control \<Rightarrow> lash_control res" where
  "on_client_remove U str1 u s =
     (if uuid_is_null u then Inr s
      else with_found (find_project_by_name str1 s) (\<lambda>a.
        with_found (find_project_client_by_id a u s) (\<lambda>c.
          bindr (project_at a s) (\<lambda>p.
          bindr (announce_client U c ('' removed from project '' @ quote (lash_strdup (sp_name p))) s) (\<lambda>s1.
            sh_client_destroy c (set_project a (\<lambda>p. p\<lparr>sp_clients := remove1 c (sp_clients p)\<rparr>) s1)))) s) s)"

definition on_client_name :: "uuid_lib \<Rightarrow> string \<Rightarrow> uuid \<Rightarrow> lash_control \<Rightarrow> lash_control res" where
  "on_client_name U str1 u s =
     with_client u (\<lambda>c.
       bindr (announce_client U c ('' changed its name to '' @ quote str1) s) (\<lambda>s1.
         Inr (set_client c (\<lambda>x. x\<lparr>sc_name := Some str1\<rparr>) s1))) s"

definition on_jack_client_name :: "uuid_lib \<Rightarrow> string \<Rightarrow> uuid \<Rightarrow> lash_control \<Rightarrow> lash_control res" where
  "on_jack_client_name U str1 u s =
     with_client u (\<lambda>c.
       bindr (announce_client U c ('' set its JACK client name to '' @ quote str1) s) (\<lambda>s1.
         Inr (set_client c (\<lambda>x. x\<lparr>sc_jack_client_name := Some str1\<rparr>) s1))) s"

definition on_alsa_client_id :: "uuid_lib \<Rightarrow> string \<Rightarrow> uuid \<Rightarrow> lash_control \<Rightarrow> lash_control res" where
  "on_alsa_client_id U str1 u s =
     with_client u (\<lambda>c.
       bindr (lash_str_get_alsa_client_id (Some str1)) (\<lambda>i.
       bindr (announce_client U c ('' set its ALSA client ID to '' @ quote (show_nat (unat i))) s) (\<lambda>s1.
         Inr (set_client c (\<lambda>x. x\<lparr>sc_alsa_client_id := i\<rparr>) s1)))) s"

definition on_percentage :: "string \<Rightarrow> lash_control \<Rightarrow> lash_control" where
  "on_percentage str1 s =
     puts (if first_char str1 = 0 then ''* Operation commencing''
           else if first_char str1 = 100 then ''* Operation complete''
           else ''* Operation '' @ show_d (word_of_int (first_char str1)) @ ''% complete'') s"

definition lash_control_cb ::
  "uuid_lib \<Rightarrow> event_type \<Rightarrow> string \<Rightarrow> string \<Rightarrow> uuid \<Rightarrow> lash_control \<Rightarrow> lash_control res" where
  "lash_control_cb U ty str1 str2 client_id s =
     (case ty of
        LASH_Project_Dir \<Rightarrow> on_project_dir str1 str2 s
      | LASH_Project_Name \<Rightarrow> on_project_name str1 str2 s
      | LASH_Project_Add \<Rightarrow> on_project_add str1 s
      | LASH_Project_Remove \<Rightarrow> on_project_remove str1 s
      | LASH_Client_Add \<Rightarrow> on_client_add U str1 client_id s
      | LASH_Client_Remove \<Rightarrow> on_client_remove U str1 client_id s
      | LASH_Client_Name \<Rightarrow> on_client_name U str1 client_id s
      | LASH_Jack_Client_Name \<Rightarrow> on_jack_client_name U str1 client_id s
      | LASH_Alsa_Client_ID \<Rightarrow> on_alsa_client_id U str1 client_id s
      | LASH_Percentage \<Rightarrow> Inr (on_percentage str1 s)
      | _ \<Rightarrow> Inr s)"

section \<open>The commands\<close>

definition help_lines :: "string list" where
  "help_lines =
     [''  list              List projects'',
      ''  project <name>    Select the project with name <name>'',
      ''  dir <dir>         Set the selected project'' @ CHR 0x27 # ''s directory to <dir>'',
      ''  name <name>       Set the selected project'' @ CHR 0x27 # ''s name to <name>'',
      ''  remove <client>   Remove <client> from the selected project'',
      ''  save              Save the selected project'',
      ''  restore <dir>     Restore a project from <dir>'',
      ''  close             Close the selected project'',
      ''  quit              Exit the program'',
      '''',
      ''  It is only necessary to type enough characters of a command to'',
      ''  disambiguate it from any other command'',
      '''']"

definition command_help :: "lash_control \<Rightarrow> lash_control" where
  "command_help s = fold puts ('''' # help_lines) s"

text \<open>\<open>printf\<close> writes a null pointer as \<open>(null)\<close>.\<close>

definition shown :: "cstr \<Rightarrow> string" where
  "shown t = (case t of None \<Rightarrow> ''(null)'' | Some x \<Rightarrow> x)"

definition client_alsa_str :: "shell_client \<Rightarrow> string res" where
  "client_alsa_str c =
     (if sc_alsa_client_id c = 0 then Inr []
      else sprintf_into 32 ('', ALSA client ID: '' @ show_nat (unat (sc_alsa_client_id c))))"

definition client_jack_str :: "shell_client \<Rightarrow> string res" where
  "client_jack_str c =
     (case sc_jack_client_name c of
        None \<Rightarrow> Inr []
      | Some n \<Rightarrow> sprintf_into 64 ('', JACK client name: '' @ n))"

fun list_clients :: "uuid_lib \<Rightarrow> addr list \<Rightarrow> lash_control \<Rightarrow> lash_control res" where
  "list_clients U [] s = Inr s"
| "list_clients U (a # as) s =
     bindr (client_at a s) (\<lambda>c.
     bindr (client_alsa_str c) (\<lambda>alsa.
     bindr (client_jack_str c) (\<lambda>jack.
     bindr (sh_client_get_identity U a s) (\<lambda>(s1, i).
       list_clients U as (puts (''    '' @ i @ jack @ alsa) s1)))))"

fun list_projects :: "uuid_lib \<Rightarrow> addr list \<Rightarrow> lash_control \<Rightarrow> lash_control res" where
  "list_projects U [] s = Inr s"
| "list_projects U (a # as) s =
     bindr (project_at a s) (\<lambda>p.
     bindr (list_clients U (sp_clients p)
         (puts (''  '' @ shown (sp_name p) @ '' in directory '' @ shown (sp_dir p) @ '', '' @
           (if sp_clients p \<noteq> [] then ''clients:'' else ''no clients'')) s))
       (list_projects U as))"

definition command_list :: "uuid_lib \<Rightarrow> lash_control \<Rightarrow> lash_control res" where
  "command_list U s =
     (if ct_projects s = [] then Inr (puts ''  No projects'' s) else list_projects U (ct_projects s) s)"

definition no_project :: "lash_control \<Rightarrow> lash_control" where
  "no_project = puts ''  No project selected''"

definition command_project :: "cstr \<Rightarrow> lash_control \<Rightarrow> lash_control res" where
  "command_project arg s =
     (if arg = None \<or> arg = Some []
      then (case ct_cur s of
          Some a \<Rightarrow> bindr (project_at a s) (\<lambda>p. Inr (puts (''  Selected project: '' @ shown (sp_name p)) s))
        | None \<Rightarrow> Inr (no_project s))
      else bindr (find_project_by_name (lash_strdup arg) s) (\<lambda>r.
        case r of
          Some a \<Rightarrow> Inr (s\<lparr>ct_cur := Some a\<rparr>)
        | None \<Rightarrow> Inr (puts (''  Unknown project '' @ quote (lash_strdup arg)) s)))"

definition call_lib :: "(lib \<Rightarrow> lib) \<Rightarrow> lash_control \<Rightarrow> lash_control" where
  "call_lib f s = s\<lparr>ct_lib := f (ct_lib s)\<rparr>"

text \<open>The commands on the selected project.\<close>

definition on_current :: "(shell_project \<Rightarrow> lash_control \<Rightarrow> 'a res) \<Rightarrow> (lash_control \<Rightarrow> 'a) \<Rightarrow> lash_control \<Rightarrow> 'a res" where
  "on_current f none s = (case ct_cur s of None \<Rightarrow> Inr (none s) | Some a \<Rightarrow> bindr (project_at a s) (\<lambda>p. f p s))"

text \<open>A slash at the end is cut off in the line that was read; the result says so.\<close>

definition command_dir :: "cstr \<Rightarrow> lash_control \<Rightarrow> (lash_control \<times> bool) res" where
  "command_dir arg s =
     on_current (\<lambda>p s.
       case arg of
         None \<Rightarrow> Inr (puts (''  '' @ shown (sp_dir p)) s, False)
       | Some d \<Rightarrow>
           if d = [] then Inl Out_of_bounds
           else (let cut = (List.last d = CHR ''/''); d1 = (if cut then butlast d else d)
                 in Inr (puts (''  Told server to change directory to '' @ d1)
                          (call_lib (lash_control_move_project (sp_name p) (Some d1)) s), cut)))
       (\<lambda>s. (no_project s, False)) s"

text \<open>The whole of the function is commented out.\<close>

definition command_remove :: "cstr \<Rightarrow> lash_control \<Rightarrow> lash_control" where
  "command_remove arg s = s"

definition command_restore :: "cstr \<Rightarrow> lash_control \<Rightarrow> lash_control" where
  "command_restore arg s =
     (case arg of
        None \<Rightarrow> puts ''  Command requires an argument'' s
      | Some d \<Rightarrow> puts (''  Told server to restore project in dir '' @ quote d)
          (call_lib (lash_control_load_project_path (Some d)) s))"

definition command_name :: "cstr \<Rightarrow> lash_control \<Rightarrow> lash_control res" where
  "command_name arg s =
     on_current (\<lambda>p s.
       case arg of
         None \<Rightarrow> Inr (puts ''  Command requires an argument'' s)
       | Some n \<Rightarrow> Inr (puts (''  Told server to set project name to '' @ quote n)
           (call_lib (lash_control_name_project (sp_name p) (Some n)) s)))
       no_project s"

definition command_save :: "lash_control \<Rightarrow> lash_control res" where
  "command_save s =
     on_current (\<lambda>p s. Inr (puts ''  Told server to save project'' (call_lib (lash_control_save_project (sp_name p)) s)))
       no_project s"

definition command_close :: "lash_control \<Rightarrow> lash_control res" where
  "command_close s =
     on_current (\<lambda>p s. Inr (puts ''  Told server to close project'' (call_lib (lash_control_close_project (sp_name p)) s)))
       no_project s"

text \<open>The first argument: what follows the first space and the white space after it.\<close>

definition command_arg :: "string \<Rightarrow> cstr" where
  "command_arg command =
     (let arg = dropWhile is_space (dropWhile (\<lambda>c. c \<noteq> CHR '' '') command)
      in if arg = [] then None else Some arg)"

text \<open>
  The result also says whether to quit and whether the last character of the line was cut off. The
  space of an unknown command is put back after printing.
\<close>

definition deal_with_command :: "uuid_lib \<Rightarrow> string \<Rightarrow> lash_control \<Rightarrow> (lash_control \<times> bool \<times> bool) res" where
  "deal_with_command U line s =
     (let command = dropWhile is_space line;
          arg = command_arg command;
          ret = (\<lambda>r. bindr r (\<lambda>s1. Inr (s1, False, False)))
      in if strncasecmp_eq 1 command ''help'' then ret (Inr (command_help s))
         else if strncasecmp_eq 1 command ''list'' then ret (command_list U s)
         else if strncasecmp_eq 1 command ''project'' then ret (command_project arg s)
         else if strncasecmp_eq 1 command ''dir'' then bindr (command_dir arg s) (\<lambda>(s1, cut). Inr (s1, False, cut))
         else if strncasecmp_eq 1 command ''name'' then ret (command_name arg s)
         else if strncasecmp_eq 3 command ''remove'' then ret (Inr (command_remove arg s))
         else if strncasecmp_eq 1 command ''save'' then ret (command_save s)
         else if strncasecmp_eq 3 command ''restore'' then ret (Inr (command_restore arg s))
         else if strncasecmp_eq 1 command ''close'' then ret (command_close s)
         else if strncasecmp_eq 1 command ''quit'' then Inr (s, True, False)
         else ret (Inr (puts (''unknown command '' @ quote (takeWhile (\<lambda>c. c \<noteq> CHR '' '') command)) s)))"

section \<open>The main loop\<close>

text \<open>The callback runs while the library dispatches; it does not touch the library.\<close>

fun run_callbacks :: "uuid_lib \<Rightarrow> lib_out list \<Rightarrow> lash_control \<Rightarrow> lash_control res" where
  "run_callbacks U [] s = Inr s"
| "run_callbacks U (x # xs) s =
     bindr (case x of Control_callback ty str1 str2 u \<Rightarrow> lash_control_cb U ty str1 str2 u s | _ \<Rightarrow> Inr s)
       (run_callbacks U xs)"

definition shell_dispatch :: "uuid_lib \<Rightarrow> string option \<Rightarrow> message list \<Rightarrow> lash_control \<Rightarrow> lash_control res" where
  "shell_dispatch U new_path ms s =
     bindr (lash_dispatch U new_path ms (ct_lib s)) (\<lambda>client.
       run_callbacks U (drop (length (lb_out (ct_lib s))) (lb_out client)) (s\<lparr>ct_lib := client\<rparr>))"

text \<open>The prompt and the size of its buffer.\<close>

definition make_prompt :: "nat \<Rightarrow> lash_control \<Rightarrow> (string \<times> nat) res" where
  "make_prompt prompt_size s =
     (case ct_cur s of
        Some a \<Rightarrow>
          bindr (project_at a s) (\<lambda>p.
            case sp_name p of
              None \<Rightarrow> Inl Null_deref
            | Some n \<Rightarrow>
                (let project_prompt_size = length n + 4;
                     size1 = (if project_prompt_size > prompt_size then project_prompt_size else prompt_size)
                 in bindr (sprintf_into size1 (n @ '' > '')) (\<lambda>t. Inr (t, size1))))
      | None \<Rightarrow> bindr (sprintf_into prompt_size ''(no project) > '') (\<lambda>t. Inr (t, prompt_size)))"

text \<open>
  Each round is given the line that \<open>readline\<close> returns, \<open>None\<close> at the end of the input, and the
  messages that have arrived by then. The result says whether the loop has ended.
\<close>

fun shell_loop :: "uuid_lib \<Rightarrow> string option \<Rightarrow> (string option \<times> message list) list \<Rightarrow> nat \<Rightarrow> lash_control \<Rightarrow>
    (lash_control \<times> bool) res" where
  "shell_loop U new_path [] prompt_size s = Inr (s, False)"
| "shell_loop U new_path ((line, ms) # rounds) prompt_size s =
     bindr (make_prompt prompt_size s) (\<lambda>(prompt, size1).
       case line of
         None \<Rightarrow> Inr (puts '''' (emit (Prompt prompt) s), True)
       | Some command \<Rightarrow>
           bindr (shell_dispatch U new_path ms (emit (Prompt prompt) s)) (\<lambda>s1.
             if command = [] then shell_loop U new_path rounds size1 s1
             else bindr (deal_with_command U command s1) (\<lambda>(s2, done, cut).
               let s3 = emit (History (if cut then butlast command else command)) s2
               in if done then Inr (s3, True) else shell_loop U new_path rounds size1 s3)))"

definition lash_control_main ::
  "uuid_lib \<Rightarrow> string option \<Rightarrow> string \<Rightarrow> (string option \<times> message list) list \<Rightarrow> lash_control \<Rightarrow> (lash_control \<times> bool) res" where
  "lash_control_main U new_path version rounds s =
     shell_loop U new_path rounds 32 (puts (''LASH Shell '' @ version) s)"

section \<open>What the shell shows, without pointers\<close>

record project_view =
  v_name :: cstr
  v_dir :: cstr
  v_clients :: "shell_client list"
  v_selected :: bool

abbreviation pr :: "lash_control \<Rightarrow> addr \<Rightarrow> shell_project" where "pr s a \<equiv> the (ct_project s a)"
abbreviation cl :: "lash_control \<Rightarrow> addr \<Rightarrow> shell_client" where "cl s a \<equiv> the (ct_client s a)"

definition view_project :: "lash_control \<Rightarrow> addr \<Rightarrow> project_view" where
  "view_project s a = \<lparr>v_name = sp_name (pr s a), v_dir = sp_dir (pr s a), v_clients = map (cl s) (sp_clients (pr s a)),
     v_selected = (ct_cur s = Some a)\<rparr>"

definition view :: "lash_control \<Rightarrow> project_view list" where
  "view s = map (view_project s) (ct_projects s)"

fun update_first :: "('a \<Rightarrow> bool) \<Rightarrow> ('a \<Rightarrow> 'a) \<Rightarrow> 'a list \<Rightarrow> 'a list" where
  "update_first P f [] = []"
| "update_first P f (x # xs) = (if P x then f x # xs else x # update_first P f xs)"

fun without_first :: "('a \<Rightarrow> bool) \<Rightarrow> 'a list \<Rightarrow> 'a list" where
  "without_first P [] = []"
| "without_first P (x # xs) = (if P x then xs else x # without_first P xs)"

definition named :: "string \<Rightarrow> project_view \<Rightarrow> bool" where
  "named n p \<longleftrightarrow> v_name p = Some n"

definition has_client :: "uuid \<Rightarrow> project_view \<Rightarrow> bool" where
  "has_client u p \<longleftrightarrow> (\<exists>c \<in> set (v_clients p). sc_id c = u)"

definition new_client :: "uuid \<Rightarrow> shell_client" where
  "new_client u = \<lparr>sc_id = u, sc_name = None, sc_jack_client_name = None, sc_alsa_client_id = 0\<rparr>"

definition new_project :: "string \<Rightarrow> bool \<Rightarrow> project_view" where
  "new_project n sel = \<lparr>v_name = Some n, v_dir = None, v_clients = [], v_selected = sel\<rparr>"

definition change_client :: "uuid \<Rightarrow> (shell_client \<Rightarrow> shell_client) \<Rightarrow> project_view list \<Rightarrow> project_view list" where
  "change_client u f ps =
     (if u = 0 then ps
      else update_first (has_client u) (\<lambda>p. p\<lparr>v_clients := update_first (\<lambda>c. sc_id c = u) f (v_clients p)\<rparr>) ps)"

text \<open>The callback on the abstract list.\<close>

fun view_cb :: "event_type \<Rightarrow> string \<Rightarrow> string \<Rightarrow> uuid \<Rightarrow> project_view list \<Rightarrow> project_view list" where
  "view_cb LASH_Project_Dir str1 str2 u ps = update_first (named str1) (\<lambda>p. p\<lparr>v_dir := Some str2\<rparr>) ps"
| "view_cb LASH_Project_Name str1 str2 u ps = update_first (named str1) (\<lambda>p. p\<lparr>v_name := Some str2\<rparr>) ps"
| "view_cb LASH_Project_Add str1 str2 u ps =
     (if (of_nat (length ps + 1) :: u32) = 1 then map (\<lambda>p. p\<lparr>v_selected := False\<rparr>) ps @ [new_project str1 True]
      else ps @ [new_project str1 False])"
| "view_cb LASH_Project_Remove str1 str2 u ps = without_first (named str1) ps"
| "view_cb LASH_Client_Add str1 str2 u ps =
     update_first (named str1) (\<lambda>p. p\<lparr>v_clients := v_clients p @ [new_client u]\<rparr>) ps"
| "view_cb LASH_Client_Remove str1 str2 u ps =
     (if u = 0 then ps
      else update_first (named str1) (\<lambda>p. p\<lparr>v_clients := without_first (\<lambda>c. sc_id c = u) (v_clients p)\<rparr>) ps)"
| "view_cb LASH_Client_Name str1 str2 u ps = change_client u (\<lambda>c. c\<lparr>sc_name := Some str1\<rparr>) ps"
| "view_cb LASH_Jack_Client_Name str1 str2 u ps = change_client u (\<lambda>c. c\<lparr>sc_jack_client_name := Some str1\<rparr>) ps"
| "view_cb LASH_Alsa_Client_ID str1 str2 u ps =
     change_client u (\<lambda>c. c\<lparr>sc_alsa_client_id := (case str1 of [] \<Rightarrow> 0 | x # _ \<Rightarrow> of_char x)\<rparr>) ps"
| "view_cb _ str1 str2 u ps = ps"

text \<open>A search over addresses and the update of what is seen there.\<close>

lemma update_first_None: "\<forall>x \<in> set xs. \<not> P x \<Longrightarrow> update_first P f xs = xs"
  by (induction xs) auto

lemma without_first_None: "\<forall>x \<in> set xs. \<not> P x \<Longrightarrow> without_first P xs = xs"
  by (induction xs) auto

lemma find_update:
  assumes "distinct as" "find P as = Some a" "\<And>x. x \<in> set as \<Longrightarrow> P x = Q (v x)" "v' a = f (v a)"
    "\<And>x. x \<in> set as \<Longrightarrow> x \<noteq> a \<Longrightarrow> v' x = v x"
  shows "map v' as = update_first Q f (map v as)"
  using assms
proof (induction as)
  case (Cons x as)
  show ?case
  proof (cases "P x")
    case True
    then have "a = x" using Cons.prems(2) by simp
    moreover have "map v' as = map v as" using Cons.prems(1,5) \<open>a = x\<close> by auto
    ultimately show ?thesis using True Cons.prems(3) [of x] Cons.prems(4) by simp
  next
    case False
    then have f: "find P as = Some a" using Cons.prems(2) by simp
    then have "a \<in> set as" using find_Some_set by fastforce
    then have "x \<noteq> a" using Cons.prems(1) by auto
    then show ?thesis using Cons False f by simp
  qed
qed simp

lemma find_remove:
  assumes "distinct as" "find P as = Some a" "\<And>x. x \<in> set as \<Longrightarrow> P x = Q (v x)"
    "\<And>x. x \<in> set as \<Longrightarrow> x \<noteq> a \<Longrightarrow> v' x = v x"
  shows "map v' (remove1 a as) = without_first Q (map v as)"
  using assms
proof (induction as)
  case (Cons x as)
  show ?case
  proof (cases "P x")
    case True
    then have "a = x" using Cons.prems(2) by simp
    moreover have "map v' as = map v as" using Cons.prems(1,4) \<open>a = x\<close> by auto
    ultimately show ?thesis using True Cons.prems(3) [of x] by simp
  next
    case False
    then have f: "find P as = Some a" using Cons.prems(2) by simp
    then have "a \<in> set as" using find_Some_set by fastforce
    then have "x \<noteq> a" using Cons.prems(1) by auto
    then show ?thesis using Cons False f by simp
  qed
qed simp

section \<open>The invariant\<close>

definition all_clients :: "lash_control \<Rightarrow> addr list" where
  "all_clients s = concat (map (\<lambda>a. sp_clients (pr s a)) (ct_projects s))"

text \<open>
  Every address in a list holds an object, every object is in exactly one place of one list, and
  the selected project is one of the projects.
\<close>

definition shell_ok :: "lash_control \<Rightarrow> bool" where
  "shell_ok s \<longleftrightarrow>
     distinct (ct_projects s) \<and> set (ct_projects s) = dom (ct_project s)
     \<and> distinct (all_clients s) \<and> set (all_clients s) = dom (ct_client s)
     \<and> set_option (ct_cur s) \<subseteq> set (ct_projects s) \<and> (\<forall>p \<in> ran (ct_project s). sp_name p \<noteq> None)
     \<and> dom (ct_project s) \<subseteq> {..<ct_next s} \<and> dom (ct_client s) \<subseteq> {..<ct_next s} \<and> 37 \<le> ct_identity s"

lemma shell_okD:
  assumes "shell_ok s"
  shows "distinct (ct_projects s)" "set (ct_projects s) = dom (ct_project s)" "distinct (all_clients s)"
    "set (all_clients s) = dom (ct_client s)" "set_option (ct_cur s) \<subseteq> set (ct_projects s)"
    "\<forall>p \<in> ran (ct_project s). sp_name p \<noteq> None" "dom (ct_project s) \<subseteq> {..<ct_next s}"
    "dom (ct_client s) \<subseteq> {..<ct_next s}" "37 \<le> ct_identity s"
  using assms unfolding shell_ok_def by blast+

lemma shell_okI:
  "distinct (ct_projects s) \<Longrightarrow> set (ct_projects s) = dom (ct_project s) \<Longrightarrow> distinct (all_clients s) \<Longrightarrow>
     set (all_clients s) = dom (ct_client s) \<Longrightarrow> set_option (ct_cur s) \<subseteq> set (ct_projects s) \<Longrightarrow>
     \<forall>p \<in> ran (ct_project s). sp_name p \<noteq> None \<Longrightarrow> dom (ct_project s) \<subseteq> {..<ct_next s} \<Longrightarrow>
     dom (ct_client s) \<subseteq> {..<ct_next s} \<Longrightarrow> 37 \<le> ct_identity s \<Longrightarrow> shell_ok s"
  unfolding shell_ok_def by blast

definition behaves :: "lash_control res \<Rightarrow> project_view list \<Rightarrow> bool" where
  "behaves r ps \<longleftrightarrow> (\<exists>s'. r = Inr s' \<and> shell_ok s' \<and> view s' = ps)"

lemma behavesI: "shell_ok s' \<Longrightarrow> view s' = ps \<Longrightarrow> behaves (Inr s') ps"
  by (auto simp: behaves_def)

lemma emit_fields [simp]:
  "ct_project (emit x s) = ct_project s" "ct_client (emit x s) = ct_client s" "ct_projects (emit x s) = ct_projects s"
  "ct_cur (emit x s) = ct_cur s" "ct_next (emit x s) = ct_next s" "ct_identity (emit x s) = ct_identity s"
  "ct_lib (emit x s) = ct_lib s"
  by (simp_all add: emit_def)

lemma view_cong:
  "ct_project s' = ct_project s \<Longrightarrow> ct_client s' = ct_client s \<Longrightarrow> ct_projects s' = ct_projects s \<Longrightarrow>
     ct_cur s' = ct_cur s \<Longrightarrow> view s' = view s"
  by (simp add: view_def view_project_def)

lemma ok_cong:
  "ct_project s' = ct_project s \<Longrightarrow> ct_client s' = ct_client s \<Longrightarrow> ct_projects s' = ct_projects s \<Longrightarrow>
     ct_cur s' = ct_cur s \<Longrightarrow> ct_next s' = ct_next s \<Longrightarrow> 37 \<le> ct_identity s' \<Longrightarrow> shell_ok s \<Longrightarrow> shell_ok s'"
  unfolding shell_ok_def all_clients_def by (elim conjE, intro conjI) (simp_all only:)

lemma emit_view [simp]: "view (emit x s) = view s"
  by (rule view_cong) simp_all

lemma emit_ok [simp]: "shell_ok (emit x s) = shell_ok s"
  by (simp add: shell_ok_def all_clients_def)

lemma identity_ok: "shell_ok s \<Longrightarrow> 37 \<le> k \<Longrightarrow> shell_ok (s\<lparr>ct_identity := k\<rparr>)" "view (s\<lparr>ct_identity := k\<rparr>) = view s"
  by (rule ok_cong, auto) (rule view_cong, auto)

lemma ok_project:
  assumes "shell_ok s" "a \<in> set (ct_projects s)"
  obtains p n where "ct_project s a = Some p" "sp_name p = Some n" "distinct (sp_clients p)"
    "set (sp_clients p) \<subseteq> dom (ct_client s)"
proof -
  obtain p where p: "ct_project s a = Some p" using assms by (auto simp: shell_ok_def)
  then have "sp_name p \<noteq> None" using assms(1) by (auto simp: shell_ok_def ran_def)
  moreover have "distinct (sp_clients p)" "set (sp_clients p) \<subseteq> set (all_clients s)"
  proof -
    obtain us vs where "ct_projects s = us @ a # vs" using assms(2) split_list by metis
    then show "distinct (sp_clients p)" "set (sp_clients p) \<subseteq> set (all_clients s)"
      using assms(1) p by (simp_all add: shell_ok_def all_clients_def) blast
  qed
  ultimately show thesis using that p assms(1) by (auto simp: shell_ok_def)
qed

lemma ok_client: "shell_ok s \<Longrightarrow> a \<in> set (ct_projects s) \<Longrightarrow> c \<in> set (sp_clients (pr s a)) \<Longrightarrow> \<exists>x. ct_client s c = Some x"
  by (metis domD ok_project option.sel subsetD)

lemma owned_once:
  assumes "shell_ok s" "a \<in> set (ct_projects s)" "b \<in> set (ct_projects s)" "a \<noteq> b" "c \<in> set (sp_clients (pr s a))"
  shows "c \<notin> set (sp_clients (pr s b))"
proof -
  obtain us vs where ps: "ct_projects s = us @ a # vs" using assms(2) split_list by metis
  then have "b \<in> set us \<union> set vs" using assms(3,4) by auto
  then show ?thesis using assms(1,5) ps by (auto simp: shell_ok_def all_clients_def)
qed

text \<open>The searches do not fault and are searches of the lists.\<close>

lemma find_project_found:
  assumes "shell_ok s"
  shows "find_project_by_name n s = Inr (find (\<lambda>a. sp_name (pr s a) = Some n) (ct_projects s))"
proof -
  have "find_project_in n s as = Inr (find (\<lambda>a. sp_name (pr s a) = Some n) as)" if "set as \<subseteq> set (ct_projects s)" for as
    using that
  proof (induction as)
    case (Cons a as)
    obtain p m where "ct_project s a = Some p" "sp_name p = Some m"
      using ok_project [OF assms, of a] Cons.prems by (metis list.set_intros(1) subsetD)
    then show ?case using Cons by (simp add: project_at_def)
  qed simp
  then show ?thesis by (simp add: find_project_by_name_def)
qed

lemma find_project_client_found:
  assumes "shell_ok s" "a \<in> set (ct_projects s)"
  shows "find_project_client_by_id a u s = Inr (find (\<lambda>c. sc_id (cl s c) = u) (sp_clients (pr s a)))"
proof -
  obtain p where p: "ct_project s a = Some p" "set (sp_clients p) \<subseteq> dom (ct_client s)"
    using ok_project [OF assms] by metis
  have "find_project_client_in u s cs = Inr (find (\<lambda>c. sc_id (cl s c) = u) cs)" if "set cs \<subseteq> dom (ct_client s)" for cs
    using that by (induction cs) (auto simp: client_at_def)
  then show ?thesis using p by (simp add: find_project_client_by_id_def project_at_def)
qed

definition owner :: "uuid \<Rightarrow> lash_control \<Rightarrow> addr option" where
  "owner u s = find (\<lambda>a. \<exists>c \<in> set (sp_clients (pr s a)). sc_id (cl s c) = u) (ct_projects s)"

lemma find_client_found:
  assumes "shell_ok s"
  shows "find_client_by_id u s = Inr (case owner u s of None \<Rightarrow> None
    | Some a \<Rightarrow> find (\<lambda>c. sc_id (cl s c) = u) (sp_clients (pr s a)))"
proof -
  have "find_client_in u s as = Inr (case find (\<lambda>a. \<exists>c \<in> set (sp_clients (pr s a)). sc_id (cl s c) = u) as of None \<Rightarrow> None
      | Some a \<Rightarrow> find (\<lambda>c. sc_id (cl s c) = u) (sp_clients (pr s a)))" if "set as \<subseteq> set (ct_projects s)" for as
    using that
  proof (induction as)
    case (Cons a as)
    have f: "find_project_client_by_id a u s = Inr (find (\<lambda>c. sc_id (cl s c) = u) (sp_clients (pr s a)))"
      using find_project_client_found [OF assms] Cons.prems by simp
    show ?case
    proof (cases "find (\<lambda>c. sc_id (cl s c) = u) (sp_clients (pr s a))")
      case None
      then have "\<not> (\<exists>c \<in> set (sp_clients (pr s a)). sc_id (cl s c) = u)" by (simp add: find_None_set)
      then show ?thesis using f None Cons by simp
    next
      case (Some c)
      then have "c \<in> set (sp_clients (pr s a)) \<and> sc_id (cl s c) = u" by (rule find_Some_set)
      then have "\<exists>c \<in> set (sp_clients (pr s a)). sc_id (cl s c) = u" by blast
      then show ?thesis using f Some by simp
    qed
  qed simp
  then show ?thesis by (simp add: find_client_by_id_def owner_def)
qed

lemma owner_Some:
  assumes "shell_ok s" "owner u s = Some a"
  obtains c where "a \<in> set (ct_projects s)" "find (\<lambda>c. sc_id (cl s c) = u) (sp_clients (pr s a)) = Some c"
    "c \<in> set (sp_clients (pr s a))" "c \<in> dom (ct_client s)"
proof -
  have a: "a \<in> set (ct_projects s)" "\<exists>c \<in> set (sp_clients (pr s a)). sc_id (cl s c) = u"
    using find_Some_set [OF assms(2) [unfolded owner_def]] by auto
  then obtain c where c: "find (\<lambda>c. sc_id (cl s c) = u) (sp_clients (pr s a)) = Some c"
    by (cases "find (\<lambda>c. sc_id (cl s c) = u) (sp_clients (pr s a))") (auto simp: find_None_set)
  then have "c \<in> set (sp_clients (pr s a))" using find_Some_set by fastforce
  then show thesis using that a(1) c ok_client [OF assms(1) a(1)] by blast
qed

section \<open>Identities\<close>

lemma identity_fits:
  assumes "uuid_lib_ok U" "37 \<le> ct_identity s" "a \<in> dom (ct_client s)"
  shows "\<exists>k t. sh_client_get_identity U a s = Inr (s\<lparr>ct_identity := k\<rparr>, t) \<and> 37 \<le> k"
proof -
  obtain c where c: "ct_client s a = Some c" using assms(3) by blast
  show ?thesis
  proof (cases "sc_name c")
    case None
    have "s\<lparr>ct_identity := ct_identity s\<rparr> = s" by simp
    then show ?thesis using c None assms(2) uuid_lib_okD(2) [OF assms(1)]
      by (intro exI [of _ "ct_identity s"] exI [of _ "uuid_unparse U (sc_id c)"])
        (simp add: sh_client_get_identity_def client_at_def)
  next
    case (Some n)
    let ?k = "max (ct_identity s) (length n + 1)"
    have "(if length n + 1 > ct_identity s then s\<lparr>ct_identity := length n + 1\<rparr> else s) = s\<lparr>ct_identity := ?k\<rparr>"
      by (simp add: max_def)
    then show ?thesis using c Some assms(2)
      by (intro exI [of _ ?k] exI [of _ n]) (simp add: sh_client_get_identity_def client_at_def Let_def)
  qed
qed

lemma announce_fits:
  assumes "uuid_lib_ok U" "37 \<le> ct_identity s" "a \<in> dom (ct_client s)"
  shows "\<exists>k x. announce_client U a t s = Inr (puts x (s\<lparr>ct_identity := k\<rparr>)) \<and> 37 \<le> k"
proof -
  obtain k i where "sh_client_get_identity U a s = Inr (s\<lparr>ct_identity := k\<rparr>, i)" "37 \<le> k"
    using identity_fits [OF assms] by blast
  then show ?thesis by (intro exI [of _ k] exI [of _ "''* Client '' @ quote i @ t"]) (simp add: announce_client_def)
qed

section \<open>Updates in place\<close>

lemma set_project_simps [simp]:
  "ct_projects (set_project a f s) = ct_projects s" "ct_cur (set_project a f s) = ct_cur s"
  "ct_client (set_project a f s) = ct_client s" "ct_next (set_project a f s) = ct_next s"
  "ct_identity (set_project a f s) = ct_identity s" "dom (ct_project (set_project a f s)) = dom (ct_project s)"
  "a \<in> dom (ct_project s) \<Longrightarrow> pr (set_project a f s) b = (if b = a then f (pr s a) else pr s b)"
  by (auto simp: set_project_def dom_def)

lemma set_client_simps [simp]:
  "ct_projects (set_client a f s) = ct_projects s" "ct_cur (set_client a f s) = ct_cur s"
  "ct_project (set_client a f s) = ct_project s" "ct_next (set_client a f s) = ct_next s"
  "ct_identity (set_client a f s) = ct_identity s" "dom (ct_client (set_client a f s)) = dom (ct_client s)"
  "a \<in> dom (ct_client s) \<Longrightarrow> cl (set_client a f s) b = (if b = a then f (cl s a) else cl s b)"
  by (auto simp: set_client_def dom_def)

lemma set_project_ok:
  assumes "shell_ok s" "a \<in> set (ct_projects s)" "\<And>p. sp_clients (f p) = sp_clients p"
    "\<And>p. sp_name p \<noteq> None \<Longrightarrow> sp_name (f p) \<noteq> None"
  shows "shell_ok (set_project a f s)"
proof -
  have a: "a \<in> dom (ct_project s)" using assms(1,2) by (simp add: shell_ok_def)
  have "all_clients (set_project a f s) = all_clients s"
    using a assms(3) by (auto simp: all_clients_def intro!: arg_cong [of _ _ concat])
  moreover have "\<forall>p \<in> ran (ct_project (set_project a f s)). sp_name p \<noteq> None"
  proof
    fix p assume "p \<in> ran (ct_project (set_project a f s))"
    then have "p \<in> ran (ct_project s) \<or> (\<exists>q \<in> ran (ct_project s). p = f q)"
      by (auto simp: set_project_def ran_def split: if_split_asm)
    then show "sp_name p \<noteq> None" using assms(1,4) by (auto simp: shell_ok_def)
  qed
  ultimately show ?thesis using shell_okD [OF assms(1)] by (intro shell_okI) (simp_all only: set_project_simps)
qed

lemma set_project_view:
  assumes "shell_ok s" "find P (ct_projects s) = Some a" "\<And>x. x \<in> set (ct_projects s) \<Longrightarrow> P x = Q (view_project s x)"
    "view_project (set_project a f s) a = g (view_project s a)"
  shows "view (set_project a f s) = update_first Q g (view s)"
proof -
  have "a \<in> set (ct_projects s)" using find_Some_set [OF assms(2)] by simp
  then have "a \<in> dom (ct_project s)" using assms(1) by (simp add: shell_ok_def)
  then show ?thesis unfolding view_def set_project_simps
    using assms by (intro find_update [where P = P]) (auto simp: shell_ok_def view_project_def)
qed

lemma set_client_ok:
  assumes "shell_ok s"
  shows "shell_ok (set_client c f s)"
proof -
  have "all_clients (set_client c f s) = all_clients s" by (simp add: all_clients_def)
  then show ?thesis using shell_okD [OF assms] by (intro shell_okI) (simp_all only: set_client_simps)
qed

lemma set_client_view:
  assumes "shell_ok s" "owner u s = Some a" "find (\<lambda>c. sc_id (cl s c) = u) (sp_clients (pr s a)) = Some c"
  shows "view (set_client c f s) =
    update_first (has_client u) (\<lambda>p. p\<lparr>v_clients := update_first (\<lambda>c. sc_id c = u) f (v_clients p)\<rparr>) (view s)"
proof -
  have a: "a \<in> set (ct_projects s)" using find_Some_set [OF assms(2) [unfolded owner_def]] by simp
  have c: "c \<in> set (sp_clients (pr s a))" using find_Some_set [OF assms(3)] by simp
  then have dom: "c \<in> dom (ct_client s)" using ok_client [OF assms(1) a] by blast
  have dist: "distinct (sp_clients (pr s a))" using ok_project [OF assms(1) a] by (metis option.sel)
  have "map (cl (set_client c f s)) (sp_clients (pr s a)) =
      update_first (\<lambda>c. sc_id c = u) f (map (cl s) (sp_clients (pr s a)))"
    by (rule find_update [OF dist assms(3)]) (use dom in auto)
  moreover have "view_project (set_client c f s) x = view_project s x" if "x \<in> set (ct_projects s)" "x \<noteq> a" for x
    using owned_once [OF assms(1) a that(1) _ c] that(2) dom by (auto simp: view_project_def)
  ultimately show ?thesis unfolding view_def set_client_simps using assms(1,2)
    by (intro find_update [where a = a, OF _ assms(2) [unfolded owner_def]])
      (auto simp: shell_ok_def view_project_def has_client_def)
qed

section \<open>Every callback\<close>

lemma with_project:
  assumes "shell_ok s"
    "\<And>a. find (\<lambda>a. sp_name (pr s a) = Some n) (ct_projects s) = Some a \<Longrightarrow> a \<in> set (ct_projects s) \<Longrightarrow>
       behaves (f a) (g (view s))"
    "\<forall>p \<in> set (view s). \<not> named n p \<Longrightarrow> g (view s) = view s"
  shows "behaves (with_found (find_project_by_name n s) f s) (g (view s))"
proof (cases "find (\<lambda>a. sp_name (pr s a) = Some n) (ct_projects s)")
  case None
  then have "\<forall>p \<in> set (view s). \<not> named n p" by (auto simp: find_None_set view_def view_project_def named_def)
  then show ?thesis using assms(1,3) None by (auto simp: with_found_def find_project_found intro: behavesI)
next
  case (Some a)
  then have "a \<in> set (ct_projects s)" using find_Some_set by fastforce
  then show ?thesis using assms(1,2) Some by (simp add: with_found_def find_project_found)
qed

lemma project_dir_behaves: "shell_ok s \<Longrightarrow> behaves (on_project_dir str1 str2 s) (view_cb LASH_Project_Dir str1 str2 u (view s))"
  unfolding on_project_dir_def view_cb.simps
proof (rule with_project, assumption)
  fix a assume s: "shell_ok s" and a: "find (\<lambda>a. sp_name (pr s a) = Some str1) (ct_projects s) = Some a" "a \<in> set (ct_projects s)"
  let ?s = "puts (''* Project '' @ quote str1 @ '' changed to directory '' @ str2) s"
  let ?s' = "set_project a (\<lambda>p. p\<lparr>sp_dir := Some str2\<rparr>) ?s"
  have dom: "a \<in> dom (ct_project s)" using shell_okD(2) [OF s] a(2) by simp
  have "view ?s' = update_first (named str1) (\<lambda>p. p\<lparr>v_dir := Some str2\<rparr>) (view ?s)"
    using s a dom by (intro set_project_view [where P = "\<lambda>a. sp_name (pr s a) = Some str1"])
      (auto simp: view_project_def named_def)
  moreover have "shell_ok ?s'" using s a(2) by (intro set_project_ok) simp_all
  ultimately show "behaves (Inr ?s') (update_first (named str1) (\<lambda>p. p\<lparr>v_dir := Some str2\<rparr>) (view s))"
    by (intro behavesI) simp_all
qed (rule update_first_None)

lemma project_name_behaves: "shell_ok s \<Longrightarrow> behaves (on_project_name str1 str2 s) (view_cb LASH_Project_Name str1 str2 u (view s))"
  unfolding on_project_name_def view_cb.simps
proof (rule with_project, assumption)
  fix a assume s: "shell_ok s" and a: "find (\<lambda>a. sp_name (pr s a) = Some str1) (ct_projects s) = Some a" "a \<in> set (ct_projects s)"
  let ?s = "puts (''* Project '' @ quote str1 @ '' changed name to '' @ quote str2) s"
  let ?s' = "set_project a (\<lambda>p. p\<lparr>sp_name := Some str2\<rparr>) ?s"
  have dom: "a \<in> dom (ct_project s)" using shell_okD(2) [OF s] a(2) by simp
  have "view ?s' = update_first (named str1) (\<lambda>p. p\<lparr>v_name := Some str2\<rparr>) (view ?s)"
    using s a dom by (intro set_project_view [where P = "\<lambda>a. sp_name (pr s a) = Some str1"])
      (auto simp: view_project_def named_def)
  moreover have "shell_ok ?s'" using s a(2) by (intro set_project_ok) simp_all
  ultimately show "behaves (Inr ?s') (update_first (named str1) (\<lambda>p. p\<lparr>v_name := Some str2\<rparr>) (view s))"
    by (intro behavesI) simp_all
qed (rule update_first_None)

lemma project_add_behaves:
  assumes "shell_ok s"
  shows "behaves (on_project_add str1 s) (view_cb LASH_Project_Add str1 str2 u (view s))"
proof -
  note ok = shell_okD [OF assms]
  let ?a = "ct_next s"
  have new: "?a \<notin> set (ct_projects s)" "?a \<notin> dom (ct_project s)" "?a \<notin> dom (ct_client s)" using ok(2,7,8) by auto
  have cur: "ct_cur s \<noteq> Some ?a" using ok(5) new by auto
  obtain s2 where s2_def: "s2 = s\<lparr>ct_out := ct_out s @ [Printed (''* New project '' @ quote str1)],
    ct_project := (ct_project s)(?a \<mapsto> \<lparr>sp_name = Some str1, sp_dir = None, sp_clients = [], sp_saving = 0\<rparr>),
    ct_next := Suc ?a, ct_projects := ct_projects s @ [?a]\<rparr>" by blast
  have old: "pr s2 x = pr s x" if "x \<in> set (ct_projects s)" for x using that new by (auto simp: s2_def)
  have clients: "all_clients s2 = all_clients s"
    using old by (auto simp: all_clients_def s2_def intro!: arg_cong [of _ _ concat])
  have ran: "\<forall>p \<in> ran (ct_project s2). sp_name p \<noteq> None" using ok(6) new by (auto simp: s2_def ran_def)
  have s2: "shell_ok s2" using ok clients ran new by (intro shell_okI) (auto simp: s2_def)
  have v: "view_project (s2\<lparr>ct_cur := c\<rparr>) x = view_project (s\<lparr>ct_cur := c\<rparr>) x" if "x \<in> set (ct_projects s)" for x c
    using old [OF that] by (auto simp: view_project_def s2_def)
  have len: "length (ct_projects s2) = length (view s) + 1" by (simp add: s2_def view_def)
  show ?thesis
  proof (cases "(of_nat (length (ct_projects s2)) :: u32) = 1")
    case True
    have "on_project_add str1 s = Inr (s2\<lparr>ct_cur := Some ?a\<rparr>)"
      using True by (simp add: on_project_add_def sh_project_new_def emit_def s2_def Let_def)
    moreover have "shell_ok (s2\<lparr>ct_cur := Some ?a\<rparr>)"
      using shell_okD [OF s2] by (intro shell_okI) (auto simp: all_clients_def s2_def)
    moreover have "view (s2\<lparr>ct_cur := Some ?a\<rparr>) = map (\<lambda>p. p\<lparr>v_selected := False\<rparr>) (view s) @ [new_project str1 True]"
    proof -
      have "view_project (s2\<lparr>ct_cur := Some ?a\<rparr>) x = (view_project s x)\<lparr>v_selected := False\<rparr>" if "x \<in> set (ct_projects s)" for x
        using v [OF that] that new by (auto simp: view_project_def)
      then show ?thesis by (simp add: view_def s2_def) (simp add: view_project_def new_project_def)
    qed
    ultimately show ?thesis using True len by (simp add: behaves_def)
  next
    case False
    have "on_project_add str1 s = Inr s2"
      using False by (simp add: on_project_add_def sh_project_new_def emit_def s2_def Let_def)
    moreover have "view s2 = view s @ [new_project str1 False]"
    proof -
      have "s2\<lparr>ct_cur := ct_cur s\<rparr> = s2" "s\<lparr>ct_cur := ct_cur s\<rparr> = s" by (simp_all add: s2_def)
      then have "view_project s2 x = view_project s x" if "x \<in> set (ct_projects s)" for x
        using v [OF that, of "ct_cur s"] by simp
      moreover have "view_project s2 ?a = new_project str1 False"
        using cur by (simp add: view_project_def new_project_def s2_def)
      ultimately show ?thesis by (simp add: view_def) (simp add: s2_def)
    qed
    ultimately show ?thesis using False len s2 by (simp add: behaves_def)
  qed
qed

lemma destroy_clients_all:
  "distinct cs \<Longrightarrow> set cs \<subseteq> dom (ct_client s) \<Longrightarrow>
     destroy_clients cs s = Inr (s\<lparr>ct_client := (\<lambda>x. if x \<in> set cs then None else ct_client s x)\<rparr>)"
proof (induction cs arbitrary: s)
  case (Cons c cs)
  obtain x where x: "ct_client s c = Some x" using Cons.prems(2) by auto
  let ?s = "s\<lparr>ct_client := (ct_client s)(c := None)\<rparr>"
  have "set cs \<subseteq> dom (ct_client ?s)" using Cons.prems by auto
  then have "destroy_clients cs ?s = Inr (?s\<lparr>ct_client := (\<lambda>x. if x \<in> set cs then None else ct_client ?s x)\<rparr>)"
    by (rule Cons.IH [rotated]) (use Cons.prems(1) in simp)
  moreover have "(\<lambda>x. if x \<in> set cs then None else ct_client ?s x) = (\<lambda>x. if x \<in> set (c # cs) then None else ct_client s x)"
    by auto
  ultimately show ?case using x by (simp add: sh_client_destroy_def client_at_def)
qed simp

lemma project_destroy_all:
  assumes "ct_project s a = Some p" "distinct (sp_clients p)" "set (sp_clients p) \<subseteq> dom (ct_client s)"
  shows "sh_project_destroy a s = Inr (s\<lparr>ct_client := (\<lambda>x. if x \<in> set (sp_clients p) then None else ct_client s x),
    ct_project := (ct_project s)(a := None)\<rparr>)"
  using assms destroy_clients_all [OF assms(2,3)] by (simp add: sh_project_destroy_def project_at_def)

lemma project_remove_behaves:
  "shell_ok s \<Longrightarrow> behaves (on_project_remove str1 s) (view_cb LASH_Project_Remove str1 str2 u (view s))"
  unfolding on_project_remove_def view_cb.simps
proof (rule with_project, assumption)
  fix a assume s: "shell_ok s" and a: "find (\<lambda>a. sp_name (pr s a) = Some str1) (ct_projects s) = Some a" "a \<in> set (ct_projects s)"
  note ok = shell_okD [OF s]
  obtain p n where p: "ct_project s a = Some p" "sp_name p = Some n" "distinct (sp_clients p)"
    "set (sp_clients p) \<subseteq> dom (ct_client s)"
    using ok_project [OF s a(2)] .
  obtain cur where cur_def: "cur = (if ct_cur s = Some a then None else ct_cur s)" by blast
  obtain s1 where s1_def: "s1 = s\<lparr>ct_projects := remove1 a (ct_projects s)\<rparr>" by blast
  obtain s2 where s2_def: "s2 = puts (''* Project '' @ quote n @ '' removed'') (if ct_cur s1 = Some a then s1\<lparr>ct_cur := None\<rparr> else s1)" by blast
  have s2: "ct_projects s2 = remove1 a (ct_projects s)" "ct_cur s2 = cur" "ct_client s2 = ct_client s"
    "ct_project s2 = ct_project s" "ct_next s2 = ct_next s" "ct_identity s2 = ct_identity s"
    by (simp_all add: s2_def s1_def cur_def)
  obtain s3 where s3_def: "s3 = s2\<lparr>ct_client := (\<lambda>x. if x \<in> set (sp_clients p) then None else ct_client s x),
    ct_project := (ct_project s)(a := None)\<rparr>" by blast
  have "sh_project_destroy a s2 = Inr s3"
    unfolding s3_def using project_destroy_all [of s2 a p] p s2 by (simp cong: if_cong)
  then have run: "(let s1 = s\<lparr>ct_projects := remove1 a (ct_projects s)\<rparr>;
          s2 = if ct_cur s1 = Some a then s1\<lparr>ct_cur := None\<rparr> else s1
      in bindr (project_at a s2)
          (\<lambda>p. sh_project_destroy a (puts (''* Project '' @ quote (lash_strdup (sp_name p)) @ '' removed'') s2))) = Inr s3"
  proof -
    have "project_at a (if ct_cur s1 = Some a then s1\<lparr>ct_cur := None\<rparr> else s1) = Inr p"
      using p(1) by (simp add: project_at_def s1_def)
    moreover have "lash_strdup (sp_name p) = n" using p(2) by (simp add: lash_strdup_def)
    ultimately show ?thesis
      using \<open>sh_project_destroy a s2 = Inr s3\<close> unfolding Let_def s1_def [symmetric] by (simp add: s2_def)
  qed
  obtain us vs where ps: "ct_projects s = us @ a # vs" "a \<notin> set us" "a \<notin> set vs"
    using ok(1) a(2) by (metis distinct_append distinct.simps(2) not_distinct_conv_prefix split_list disjoint_iff list.set_intros(1))
  have rest: "remove1 a (ct_projects s) = us @ vs" using ps by (simp add: remove1_append)
  have own: "map (\<lambda>x. sp_clients (pr s3 x)) xs = map (\<lambda>x. sp_clients (pr s x)) xs" if "a \<notin> set xs" for xs
    using that by (auto simp: s3_def)
  have all: "all_clients s3 = concat (map (\<lambda>x. sp_clients (pr s x)) us) @ concat (map (\<lambda>x. sp_clients (pr s x)) vs)"
  proof -
    have "ct_projects s3 = us @ vs" using rest by (simp add: s3_def s2)
    then show ?thesis unfolding all_clients_def using own [OF ps(2)] own [OF ps(3)] by (simp only: map_append concat_append)
  qed
  have all0: "all_clients s = concat (map (\<lambda>x. sp_clients (pr s x)) us) @ sp_clients p @ concat (map (\<lambda>x. sp_clients (pr s x)) vs)"
    using ps p(1) by (simp add: all_clients_def)
  have "shell_ok s3"
  proof (rule shell_okI)
    show "distinct (ct_projects s3)" using ok(1) by (simp add: s3_def s2)
    show "set (ct_projects s3) = dom (ct_project s3)" using ok(1,2) by (auto simp: s3_def s2)
    show "distinct (all_clients s3)" using ok(3) unfolding all all0 by auto
    show "set (all_clients s3) = dom (ct_client s3)"
    proof -
      have "set (all_clients s3) = set (all_clients s) - set (sp_clients p)" using ok(3) unfolding all all0 by auto
      then show ?thesis using ok(4) by (auto simp: s3_def dom_def)
    qed
    show "set_option (ct_cur s3) \<subseteq> set (ct_projects s3)" using ok(1,5) by (auto simp: s3_def s2 cur_def)
    show "\<forall>p \<in> ran (ct_project s3). sp_name p \<noteq> None" using ok(6) by (auto simp: s3_def ran_def)
    show "dom (ct_project s3) \<subseteq> {..<ct_next s3}" using ok(7) by (auto simp: s3_def s2)
    show "dom (ct_client s3) \<subseteq> {..<ct_next s3}" using ok(8) by (fastforce simp: s3_def s2 split: if_split_asm)
    show "37 \<le> ct_identity s3" using ok(9) by (simp add: s3_def s2)
  qed
  moreover have "view s3 = without_first (named str1) (view s)"
  proof -
    have "view_project s3 x = view_project s x" if "x \<in> set (ct_projects s)" "x \<noteq> a" for x
    proof -
      have "cl s3 c = cl s c" if "c \<in> set (sp_clients (pr s x))" for c
        using owned_once [OF s \<open>x \<in> set (ct_projects s)\<close> a(2) \<open>x \<noteq> a\<close> that] p(1) by (simp add: s3_def)
      then show ?thesis using that(2) by (auto simp: view_project_def s3_def s2 cur_def)
    qed
    then have "map (view_project s3) (remove1 a (ct_projects s)) = without_first (named str1) (view s)"
      unfolding view_def using ok(1) a(1) by (intro find_remove) (auto simp: view_project_def named_def)
    then show ?thesis by (simp add: view_def s3_def s2)
  qed
  ultimately show "behaves (let s1 = s\<lparr>ct_projects := remove1 a (ct_projects s)\<rparr>;
          s2 = if ct_cur s1 = Some a then s1\<lparr>ct_cur := None\<rparr> else s1
      in bindr (project_at a s2)
          (\<lambda>p. sh_project_destroy a (puts (''* Project '' @ quote (lash_strdup (sp_name p)) @ '' removed'') s2)))
     (without_first (named str1) (view s))"
    unfolding run by (rule behavesI)
qed (rule without_first_None)

lemma client_add_behaves:
  assumes U: "uuid_lib_ok U"
  shows "shell_ok s \<Longrightarrow> behaves (on_client_add U str1 u s) (view_cb LASH_Client_Add str1 str2 u (view s))"
  unfolding on_client_add_def view_cb.simps
proof (rule with_project, assumption)
  fix a assume s: "shell_ok s" and a: "find (\<lambda>a. sp_name (pr s a) = Some str1) (ct_projects s) = Some a" "a \<in> set (ct_projects s)"
  note ok = shell_okD [OF s]
  let ?c = "ct_next s"
  obtain p n where p: "ct_project s a = Some p" "sp_name p = Some n" using ok_project [OF s a(2)] by metis
  have new: "?c \<notin> dom (ct_client s)" using ok(8) by auto
  obtain s1 where s1_def: "s1 = s\<lparr>ct_client := (ct_client s)(?c \<mapsto> new_client u), ct_next := Suc ?c\<rparr>" by blast
  have s1: "sh_client_new u s = (s1, ?c)" by (simp add: sh_client_new_def s1_def new_client_def)
  obtain k i where i: "sh_client_get_identity U ?c s1 = Inr (s1\<lparr>ct_identity := k\<rparr>, i)" "37 \<le> k"
    using identity_fits [OF U, of s1 ?c] ok(9) by (auto simp: s1_def)
  obtain s2 where s2_def: "s2 = puts (''* New client '' @ quote i @ '' in project '' @ quote n) (s1\<lparr>ct_identity := k\<rparr>)" by blast
  obtain s3 where s3_def: "s3 = set_project a (\<lambda>p. p\<lparr>sp_clients := sp_clients p @ [?c]\<rparr>) s2" by blast
  have run: "(let (s1, client) = sh_client_new u s in
       bindr (sh_client_get_identity U client s1) (\<lambda>(s2, i).
       bindr (project_at a s2) (\<lambda>p.
         Inr (set_project a (\<lambda>p. p\<lparr>sp_clients := sp_clients p @ [client]\<rparr>)
           (puts (''* New client '' @ quote i @ '' in project '' @ quote (lash_strdup (sp_name p))) s2))))) = Inr s3"
    using s1 i p by (simp add: project_at_def lash_strdup_def s3_def s2_def s1_def)
  have s3: "ct_projects s3 = ct_projects s" "ct_cur s3 = ct_cur s" "ct_client s3 = (ct_client s)(?c \<mapsto> new_client u)"
    "ct_next s3 = Suc ?c" "ct_identity s3 = k" "ct_project s3 = (ct_project s)(a \<mapsto> p\<lparr>sp_clients := sp_clients p @ [?c]\<rparr>)"
    using p(1) by (simp_all add: s3_def s2_def s1_def) (simp add: set_project_def)
  obtain us vs where ps: "ct_projects s = us @ a # vs" "a \<notin> set us" "a \<notin> set vs"
    using ok(1) a(2) by (metis distinct_append distinct.simps(2) split_list disjoint_iff list.set_intros(1))
  have own: "map (\<lambda>x. sp_clients (pr s3 x)) xs = map (\<lambda>x. sp_clients (pr s x)) xs" if "a \<notin> set xs" for xs
    using that by (auto simp: s3)
  have all: "all_clients s3 = concat (map (\<lambda>x. sp_clients (pr s x)) us) @ (sp_clients p @ [?c])
      @ concat (map (\<lambda>x. sp_clients (pr s x)) vs)"
  proof -
    have "sp_clients (pr s3 a) = sp_clients p @ [?c]" by (simp add: s3)
    then show ?thesis unfolding all_clients_def s3(1) ps(1) using own [OF ps(2)] own [OF ps(3)]
      by (simp only: map_append concat_append list.map concat.simps)
  qed
  have all0: "all_clients s = concat (map (\<lambda>x. sp_clients (pr s x)) us) @ sp_clients p @ concat (map (\<lambda>x. sp_clients (pr s x)) vs)"
    using ps p(1) by (simp add: all_clients_def)
  have "?c \<notin> set (all_clients s)" using ok(4) new by simp
  have "shell_ok s3"
  proof (rule shell_okI)
    show "distinct (all_clients s3)" using ok(3) \<open>?c \<notin> set (all_clients s)\<close> unfolding all all0 by auto
    show "set (all_clients s3) = dom (ct_client s3)"
    proof -
      have "set (all_clients s3) = insert ?c (set (all_clients s))" unfolding all all0 by auto
      then show ?thesis using ok(4) by (simp add: s3)
    qed
    show "\<forall>p \<in> ran (ct_project s3). sp_name p \<noteq> None" using ok(6) p by (auto simp: s3 ran_def)
  qed (use ok i(2) p(1) in \<open>auto simp: s3\<close>)
  moreover have "view s3 = update_first (named str1) (\<lambda>p. p\<lparr>v_clients := v_clients p @ [new_client u]\<rparr>) (view s)"
  proof -
    have c: "cl s3 c = cl s c" if "x \<in> set (ct_projects s)" "c \<in> set (sp_clients (pr s x))" for x c
      using ok_client [OF s that] new by (auto simp: s3)
    show ?thesis unfolding view_def s3(1)
    proof (rule find_update [OF ok(1) a(1)])
      show "view_project s3 a = (view_project s a)\<lparr>v_clients := v_clients (view_project s a) @ [new_client u]\<rparr>"
        using c [OF a(2)] p(1) by (auto simp: view_project_def s3)
      show "view_project s3 x = view_project s x" if "x \<in> set (ct_projects s)" "x \<noteq> a" for x
        using c [OF that(1)] that(2) by (auto simp: view_project_def s3)
    qed (simp add: view_project_def named_def)
  qed
  ultimately show "behaves (let (s1, client) = sh_client_new u s in
       bindr (sh_client_get_identity U client s1) (\<lambda>(s2, i).
       bindr (project_at a s2) (\<lambda>p.
         Inr (set_project a (\<lambda>p. p\<lparr>sp_clients := sp_clients p @ [client]\<rparr>)
           (puts (''* New client '' @ quote i @ '' in project '' @ quote (lash_strdup (sp_name p))) s2)))))
     (update_first (named str1) (\<lambda>p. p\<lparr>v_clients := v_clients p @ [new_client u]\<rparr>) (view s))"
    unfolding run by (rule behavesI)
qed (rule update_first_None)

lemma client_remove_behaves:
  assumes U: "uuid_lib_ok U" and s: "shell_ok s"
  shows "behaves (on_client_remove U str1 u s) (view_cb LASH_Client_Remove str1 str2 u (view s))"
proof (cases "u = 0")
  case True
  then show ?thesis using s by (simp add: on_client_remove_def uuid_is_null_def behavesI)
next
  case False
  let ?hit = "\<lambda>c. sc_id c = u"
  let ?g = "update_first (named str1) (\<lambda>p. p\<lparr>v_clients := without_first ?hit (v_clients p)\<rparr>)"
  let ?f = "\<lambda>a. with_found (find_project_client_by_id a u s) (\<lambda>c.
          bindr (project_at a s) (\<lambda>p.
          bindr (announce_client U c ('' removed from project '' @ quote (lash_strdup (sp_name p))) s) (\<lambda>s1.
            sh_client_destroy c (set_project a (\<lambda>p. p\<lparr>sp_clients := remove1 c (sp_clients p)\<rparr>) s1)))) s"
  note ok = shell_okD [OF s]
  have "behaves (with_found (find_project_by_name str1 s) ?f s) (?g (view s))"
  proof (rule with_project [OF s])
    fix a assume a: "find (\<lambda>a. sp_name (pr s a) = Some str1) (ct_projects s) = Some a" "a \<in> set (ct_projects s)"
    obtain p n where p: "ct_project s a = Some p" "sp_name p = Some n" "distinct (sp_clients p)"
      "set (sp_clients p) \<subseteq> dom (ct_client s)"
      using ok_project [OF s a(2)] .
    note found = find_project_client_found [OF s a(2), of u]
    show "behaves (?f a) (?g (view s))"
    proof (cases "find (\<lambda>c. sc_id (cl s c) = u) (sp_clients p)")
      case None
      have "?g (view s) = map (view_project s) (ct_projects s)" unfolding view_def
      proof (rule find_update [OF ok(1) a(1), symmetric])
        have "without_first ?hit (map (cl s) (sp_clients p)) = map (cl s) (sp_clients p)"
          using None by (intro without_first_None) (simp add: find_None_set)
        then show "view_project s a = (view_project s a)\<lparr>v_clients := without_first ?hit (v_clients (view_project s a))\<rparr>"
          using p(1) by (simp add: view_project_def)
      qed (simp_all add: view_project_def named_def)
      then have "?g (view s) = view s" by (simp add: view_def)
      then show ?thesis using found None p(1) s by (simp add: with_found_def behavesI)
    next
      case (Some c)
      have c: "c \<in> set (sp_clients p)" "c \<in> dom (ct_client s)" using find_Some_set [OF Some] p(4) by auto
      obtain k x where x: "announce_client U c ('' removed from project '' @ quote n) s = Inr (puts x (s\<lparr>ct_identity := k\<rparr>))" "37 \<le> k"
        using announce_fits [OF U ok(9) c(2)] by blast
      let ?s1 = "puts x (s\<lparr>ct_identity := k\<rparr>)"
      obtain s3 where s3_def: "s3 = (set_project a (\<lambda>p. p\<lparr>sp_clients := remove1 c (sp_clients p)\<rparr>) ?s1)\<lparr>ct_client := (ct_client s)(c := None)\<rparr>" by blast
      have run: "?f a = Inr s3"
        using found Some p(1,2) x(1) c(2)
        by (auto simp: with_found_def project_at_def lash_strdup_def sh_client_destroy_def client_at_def s3_def)
      have s3: "ct_projects s3 = ct_projects s" "ct_cur s3 = ct_cur s" "ct_client s3 = (ct_client s)(c := None)"
        "ct_next s3 = ct_next s" "ct_identity s3 = k" "ct_project s3 = (ct_project s)(a \<mapsto> p\<lparr>sp_clients := remove1 c (sp_clients p)\<rparr>)"
        using p(1) by (simp_all add: s3_def) (simp add: set_project_def)
      obtain us vs where ps: "ct_projects s = us @ a # vs" "a \<notin> set us" "a \<notin> set vs"
        using ok(1) a(2) by (metis distinct_append distinct.simps(2) split_list disjoint_iff list.set_intros(1))
      have own: "map (\<lambda>x. sp_clients (pr s3 x)) xs = map (\<lambda>x. sp_clients (pr s x)) xs" if "a \<notin> set xs" for xs
        using that by (auto simp: s3)
      have all: "all_clients s3 = concat (map (\<lambda>x. sp_clients (pr s x)) us) @ remove1 c (sp_clients p)
          @ concat (map (\<lambda>x. sp_clients (pr s x)) vs)"
      proof -
        have "sp_clients (pr s3 a) = remove1 c (sp_clients p)" by (simp add: s3)
        then show ?thesis unfolding all_clients_def s3(1) ps(1) using own [OF ps(2)] own [OF ps(3)]
          by (simp only: map_append concat_append list.map concat.simps)
      qed
      have all0: "all_clients s = concat (map (\<lambda>x. sp_clients (pr s x)) us) @ sp_clients p @ concat (map (\<lambda>x. sp_clients (pr s x)) vs)"
        using ps p(1) by (simp add: all_clients_def)
      have "shell_ok s3"
      proof (rule shell_okI)
        have "set (remove1 c (sp_clients p)) = set (sp_clients p) - {c}" using p(3) by (rule set_remove1_eq)
        then show "distinct (all_clients s3)" using ok(3) p(3) unfolding all all0 by auto
        show "set (all_clients s3) = dom (ct_client s3)"
        proof -
          have "set (all_clients s3) = set (all_clients s) - {c}"
            using ok(3) p(3) c(1) unfolding all all0 by auto
          then show ?thesis using ok(4) by (simp add: s3)
        qed
        show "\<forall>p \<in> ran (ct_project s3). sp_name p \<noteq> None" using ok(6) p by (auto simp: s3 ran_def)
        show "set (ct_projects s3) = dom (ct_project s3)" using ok(2) p(1) by (auto simp: s3)
        show "dom (ct_project s3) \<subseteq> {..<ct_next s3}" using ok(7) p(1) by (auto simp: s3)
        show "dom (ct_client s3) \<subseteq> {..<ct_next s3}" using ok(8) by (auto simp: s3)
      qed (use ok x(2) in \<open>simp_all only: s3\<close>)
      moreover have "view s3 = ?g (view s)" unfolding view_def s3(1)
      proof (rule find_update [OF ok(1) a(1)])
        have "map (cl s3) (remove1 c (sp_clients p)) = without_first ?hit (map (cl s) (sp_clients p))"
          by (rule find_remove [OF p(3) Some]) (auto simp: s3)
        then show "view_project s3 a = (view_project s a)\<lparr>v_clients := without_first ?hit (v_clients (view_project s a))\<rparr>"
          using p(1) by (simp add: view_project_def s3)
        show "view_project s3 x = view_project s x" if x: "x \<in> set (ct_projects s)" "x \<noteq> a" for x
        proof -
          have "c \<notin> set (sp_clients (pr s x))" using owned_once [OF s a(2) x(1) _, of c] x(2) c(1) p(1) by auto
          then have "map (cl s3) (sp_clients (pr s x)) = map (cl s) (sp_clients (pr s x))" by (auto simp: s3)
          then show ?thesis using x(2) by (simp add: view_project_def s3)
        qed
      qed (simp add: view_project_def named_def)
      ultimately show ?thesis unfolding run by (rule behavesI)
    qed
  qed (rule update_first_None)
  then show ?thesis using False by (simp add: on_client_remove_def uuid_is_null_def)
qed

lemma with_client_behaves:
  assumes s: "shell_ok s"
    and f: "\<And>c. c \<in> dom (ct_client s) \<Longrightarrow> \<exists>k x. f c = Inr (set_client c g (puts x (s\<lparr>ct_identity := k\<rparr>))) \<and> 37 \<le> k"
  shows "behaves (with_client u f s) (change_client u g (view s))"
proof (cases "u = 0")
  case True
  then show ?thesis using s by (simp add: with_client_def uuid_is_null_def change_client_def behavesI)
next
  case False
  show ?thesis
  proof (cases "owner u s")
    case None
    then have "\<forall>p \<in> set (view s). \<not> has_client u p"
      by (auto simp: owner_def find_None_set view_def view_project_def has_client_def)
    then show ?thesis using s None False
      by (simp add: with_client_def uuid_is_null_def change_client_def with_found_def find_client_found update_first_None behavesI)
  next
    case (Some a)
    obtain c where c: "find (\<lambda>c. sc_id (cl s c) = u) (sp_clients (pr s a)) = Some c" "c \<in> dom (ct_client s)"
      using owner_Some [OF s Some] by metis
    obtain k x where r: "f c = Inr (set_client c g (puts x (s\<lparr>ct_identity := k\<rparr>)))" "37 \<le> k" using f [OF c(2)] by blast
    let ?s = "puts x (s\<lparr>ct_identity := k\<rparr>)"
    have ok: "shell_ok ?s" "view ?s = view s" using identity_ok(1) [OF s r(2)] identity_ok(2) by simp_all
    have "owner u ?s = Some a" "find (\<lambda>c. sc_id (cl ?s c) = u) (sp_clients (pr ?s a)) = Some c"
      using Some c(1) by (simp_all add: owner_def)
    from set_client_view [OF ok(1) this, of g] set_client_ok [OF ok(1), of c g]
    have "behaves (f c) (change_client u g (view s))"
      unfolding r(1) change_client_def using ok(2) False by (intro behavesI) simp_all
    then show ?thesis using False s Some c(1) by (simp add: with_client_def uuid_is_null_def with_found_def find_client_found)
  qed
qed

lemma announced:
  assumes "uuid_lib_ok U" "shell_ok s" "c \<in> dom (ct_client s)"
  shows "\<exists>k x. bindr (announce_client U c t s) (\<lambda>s1. Inr (set_client c g s1)) =
    Inr (set_client c g (puts x (s\<lparr>ct_identity := k\<rparr>))) \<and> 37 \<le> k"
  using announce_fits [OF assms(1) shell_okD(9) [OF assms(2)] assms(3), of t] by force

lemma callback_behaves:
  assumes U: "uuid_lib_ok U" and s: "shell_ok s"
  shows "behaves (lash_control_cb U ty str1 str2 u s) (view_cb ty str1 str2 u (view s))"
proof (cases ty)
  case LASH_Alsa_Client_ID
  have "lash_str_get_alsa_client_id (Some str1) = Inr (case str1 of [] \<Rightarrow> 0 | x # _ \<Rightarrow> of_char x)"
    by (simp add: lash_str_get_alsa_client_id_def split: list.split)
  then show ?thesis unfolding LASH_Alsa_Client_ID
    by (simp add: lash_control_cb_def on_alsa_client_id_def) (intro with_client_behaves [OF s] announced [OF U s])
next
  case LASH_Client_Name
  then show ?thesis
    by (simp add: lash_control_cb_def on_client_name_def) (intro with_client_behaves [OF s] announced [OF U s])
next
  case LASH_Jack_Client_Name
  then show ?thesis
    by (simp add: lash_control_cb_def on_jack_client_name_def) (intro with_client_behaves [OF s] announced [OF U s])
next
  case LASH_Project_Dir
  then show ?thesis using project_dir_behaves [OF s] by (simp add: lash_control_cb_def)
next
  case LASH_Project_Name
  then show ?thesis using project_name_behaves [OF s] by (simp add: lash_control_cb_def)
next
  case LASH_Project_Add
  then show ?thesis unfolding lash_control_cb_def using project_add_behaves [OF s, of str1 str2 u] by (simp del: view_cb.simps)
next
  case LASH_Project_Remove
  then show ?thesis using project_remove_behaves [OF s] by (simp add: lash_control_cb_def)
next
  case LASH_Client_Add
  then show ?thesis using client_add_behaves [OF U s] by (simp add: lash_control_cb_def)
next
  case LASH_Client_Remove
  then show ?thesis unfolding lash_control_cb_def using client_remove_behaves [OF U s, of str1 u str2] by (simp del: view_cb.simps)
next
  case LASH_Percentage
  then show ?thesis using s by (simp add: lash_control_cb_def on_percentage_def behavesI)
qed (use s in \<open>simp_all add: lash_control_cb_def behavesI\<close>)

text \<open>A run of callbacks.\<close>

record cb_call =
  cb_type :: event_type
  cb_str1 :: string
  cb_str2 :: string
  cb_id :: uuid

fun run_calls :: "uuid_lib \<Rightarrow> cb_call list \<Rightarrow> lash_control \<Rightarrow> lash_control res" where
  "run_calls U [] s = Inr s"
| "run_calls U (x # xs) s = bindr (lash_control_cb U (cb_type x) (cb_str1 x) (cb_str2 x) (cb_id x) s) (run_calls U xs)"

definition view_calls :: "cb_call list \<Rightarrow> project_view list \<Rightarrow> project_view list" where
  "view_calls = fold (\<lambda>x. view_cb (cb_type x) (cb_str1 x) (cb_str2 x) (cb_id x))"

lemma calls_behave:
  "uuid_lib_ok U \<Longrightarrow> shell_ok s \<Longrightarrow> behaves (run_calls U xs s) (view_calls xs (view s))"
proof (induction xs arbitrary: s)
  case (Cons x xs)
  obtain s1 where s1: "lash_control_cb U (cb_type x) (cb_str1 x) (cb_str2 x) (cb_id x) s = Inr s1" "shell_ok s1"
    "view s1 = view_cb (cb_type x) (cb_str1 x) (cb_str2 x) (cb_id x) (view s)"
    using callback_behaves [OF Cons.prems] unfolding behaves_def by metis
  then show ?case using Cons.IH [OF Cons.prems(1) s1(2)] by (simp add: view_calls_def)
qed (simp add: view_calls_def behavesI)

lemma init_ok: "shell_ok (lash_control_init l)" "view (lash_control_init l) = []"
  by (simp_all add: lash_control_init_def shell_ok_def all_clients_def view_def)

lemma free_ok: "shell_ok s \<Longrightarrow> \<exists>s'. lash_control_free s = Inr s' \<and> ct_project s' = (\<lambda>_. None) \<and> ct_client s' = (\<lambda>_. None)"
proof -
  have d: "\<exists>s'. destroy_projects as s = Inr s' \<and> ct_project s' = (\<lambda>_. None) \<and> ct_client s' = (\<lambda>_. None)"
    if "distinct as" "set as = dom (ct_project s)" "distinct (concat (map (\<lambda>a. sp_clients (pr s a)) as))"
      "set (concat (map (\<lambda>a. sp_clients (pr s a)) as)) = dom (ct_client s)" for as s
    using that
  proof (induction as arbitrary: s)
    case Nil
    then have "dom (ct_project s) = {}" "dom (ct_client s) = {}" by simp_all
    then show ?case by simp
  next
    case (Cons a as)
    obtain p where p: "ct_project s a = Some p" using Cons.prems(2) by auto
    let ?s = "s\<lparr>ct_client := (\<lambda>x. if x \<in> set (sp_clients p) then None else ct_client s x), ct_project := (ct_project s)(a := None)\<rparr>"
    have "distinct (sp_clients p)" "set (sp_clients p) \<subseteq> dom (ct_client s)" using Cons.prems(3,4) p by auto
    then have r: "sh_project_destroy a s = Inr ?s" using project_destroy_all p by blast
    have own: "map (\<lambda>a. sp_clients (pr ?s a)) as = map (\<lambda>a. sp_clients (pr s a)) as" using Cons.prems(1) by auto
    have "\<exists>s'. destroy_projects as ?s = Inr s' \<and> ct_project s' = (\<lambda>_. None) \<and> ct_client s' = (\<lambda>_. None)"
    proof (rule Cons.IH)
      show "distinct as" "distinct (concat (map (\<lambda>a. sp_clients (pr ?s a)) as))" using Cons.prems(1,3) unfolding own by simp_all
      show "set as = dom (ct_project ?s)" using Cons.prems(1,2) by auto
      show "set (concat (map (\<lambda>a. sp_clients (pr ?s a)) as)) = dom (ct_client ?s)"
      proof -
        have "set (concat (map (\<lambda>a. sp_clients (pr s a)) as)) = dom (ct_client s) - set (sp_clients p)"
          using Cons.prems(3,4) p by (auto simp del: set_concat)
        then show ?thesis unfolding own by (auto simp: dom_def)
      qed
    qed
    then show ?case using r by simp
  qed
  assume "shell_ok s"
  note ok = shell_okD [OF this]
  show ?thesis unfolding lash_control_free_def by (rule d) (use ok in \<open>simp_all add: all_clients_def\<close>)
qed

text \<open>C17. Whatever the daemon sends, from the start on: no callback faults, the projects the shell shows are what the
  callbacks make of an abstract list of projects (the first project of a name, the first client of an
  identifier), every object is in one place of one list, and freeing gives all of them back.\<close>

theorem shell_follows_daemon:
  assumes "uuid_lib_ok U"
  shows "\<exists>s' s''. run_calls U calls (lash_control_init client) = Inr s' \<and> shell_ok s' \<and> view s' = view_calls calls []
    \<and> lash_control_free s' = Inr s'' \<and> ct_project s'' = (\<lambda>_. None) \<and> ct_client s'' = (\<lambda>_. None)"
proof -
  obtain s' where s': "run_calls U calls (lash_control_init client) = Inr s'" "shell_ok s'" "view s' = view_calls calls []"
    using calls_behave [OF assms init_ok(1), of calls client] init_ok(2) unfolding behaves_def by metis
  then show ?thesis using free_ok [OF s'(2)] by blast
qed

definition example_calls :: "cb_call list" where
  "example_calls =
     [\<lparr>cb_type = LASH_Project_Add, cb_str1 = ''song'', cb_str2 = '''', cb_id = 0\<rparr>,
      \<lparr>cb_type = LASH_Client_Add, cb_str1 = ''song'', cb_str2 = ''song'', cb_id = 7\<rparr>,
      \<lparr>cb_type = LASH_Jack_Client_Name, cb_str1 = replicate 44 CHR ''x'', cb_str2 = '''', cb_id = 7\<rparr>]"

lemma example_view: "view_calls example_calls [] =
  [\<lparr>v_name = Some ''song'', v_dir = None, v_clients = [(new_client 7)\<lparr>sc_jack_client_name := Some (replicate 44 CHR ''x'')\<rparr>],
    v_selected = True\<rparr>]"
  by (simp add: view_calls_def example_calls_def new_project_def named_def change_client_def has_client_def new_client_def)

theorem shell_follows_daemon_witness:
  "\<exists>s'. run_calls example_uuids example_calls (lash_control_init (lib_new lash_client_new)) = Inr s' \<and> shell_ok s'
    \<and> map v_name (view s') = [Some ''song''] \<and> map v_selected (view s') = [True]"
proof -
  obtain s' where "run_calls example_uuids example_calls (lash_control_init (lib_new lash_client_new)) = Inr s'" "shell_ok s'"
    "view s' = view_calls example_calls []"
    using shell_follows_daemon [OF example_uuids_ok, of example_calls "lib_new lash_client_new"] by blast
  then show ?thesis by (simp add: example_view)
qed

end
