(* ===== verification/ShellRun.thy ===== *)
theory ShellRun
  imports Shell
begin

text \<open>
  The shell at work: its commands, its loop and the whole program keep the invariant of \<open>Shell\<close>; which command a
  typed word stands for; the name that overflows the buffer of \<open>list\<close>.
\<close>

section \<open>Commands\<close>

text \<open>What a command may change besides the selection and the library: the trace and the buffer.\<close>

definition quiet :: "lash_control \<Rightarrow> lash_control \<Rightarrow> bool" where
  "quiet s s' \<longleftrightarrow> (\<exists>k t. s' = s\<lparr>ct_identity := k, ct_out := t\<rparr> \<and> 37 \<le> k)"

lemma quietD:
  assumes "quiet s s'"
  shows "ct_project s' = ct_project s" "ct_client s' = ct_client s" "ct_projects s' = ct_projects s" "ct_cur s' = ct_cur s"
    "ct_lib s' = ct_lib s" "ct_next s' = ct_next s" "37 \<le> ct_identity s'"
  using assms by (auto simp: quiet_def)

lemma quiet_emit: "37 \<le> ct_identity s \<Longrightarrow> quiet s (emit x s)"
  unfolding quiet_def by (intro exI [of _ "ct_identity s"] exI [of _ "ct_out s @ [x]"]) (simp add: emit_def)

lemma quiet_identity: "37 \<le> k \<Longrightarrow> quiet s (puts x (s\<lparr>ct_identity := k\<rparr>))"
  unfolding quiet_def by (intro exI [of _ k] exI [of _ "ct_out s @ [Printed x]"]) (simp add: emit_def)

lemma quiet_trans:
  assumes "quiet s s1" "quiet s1 s2"
  shows "quiet s s2"
proof -
  obtain k t where 1: "s1 = s\<lparr>ct_identity := k, ct_out := t\<rparr>" using assms(1) by (auto simp: quiet_def)
  obtain k' t' where 2: "s2 = s1\<lparr>ct_identity := k', ct_out := t'\<rparr>" "37 \<le> k'" using assms(2) by (auto simp: quiet_def)
  have "s2 = s\<lparr>ct_identity := k', ct_out := t'\<rparr>" by (simp add: 1 2)
  then show ?thesis using 2(2) by (auto simp: quiet_def)
qed

lemma quiet_ok: "quiet s s' \<Longrightarrow> shell_ok s \<Longrightarrow> shell_ok s'"
  using quietD [of s s'] by (intro ok_cong [of s' s]) simp_all

text \<open>A JACK client name that does not fit in the buffer of \<open>command_list\<close>.\<close>

definition long_name :: "shell_client \<Rightarrow> bool" where
  "long_name c \<longleftrightarrow> (case sc_jack_client_name c of None \<Rightarrow> False | Some n \<Rightarrow> 44 \<le> length n)"

lemma jack_str_fits: "client_jack_str c = Inl Out_of_bounds \<longleftrightarrow> long_name c"
  "\<not> long_name c \<Longrightarrow> \<exists>t. client_jack_str c = Inr t"
  by (auto simp: client_jack_str_def long_name_def sprintf_into_def split: option.splits)

lemma alsa_str_fits: "\<exists>t. client_alsa_str c = Inr t"
proof -
  have "unat (sc_alsa_client_id c) < 2 ^ LENGTH(8)" by (rule unsigned_less)
  then have "length (show_nat (unat (sc_alsa_client_id c))) \<le> 3" by (intro length_show_nat_le) simp_all
  then show ?thesis by (simp add: client_alsa_str_def sprintf_into_def)
qed

definition lists :: "lash_control res \<Rightarrow> bool \<Rightarrow> lash_control \<Rightarrow> bool" where
  "lists r long s \<longleftrightarrow> (if long then r = Inl Out_of_bounds else \<exists>s'. r = Inr s' \<and> quiet s s')"

lemma list_clients_lists:
  assumes "uuid_lib_ok U"
  shows "37 \<le> ct_identity s \<Longrightarrow> set as \<subseteq> dom (ct_client s) \<Longrightarrow>
    lists (list_clients U as s) (\<exists>a \<in> set as. long_name (cl s a)) s"
proof (induction as arbitrary: s)
  case Nil
  then show ?case by (auto simp: lists_def quiet_def intro!: exI [of _ "ct_identity s"] exI [of _ "ct_out s"])
next
  case (Cons a as)
  obtain c where c: "ct_client s a = Some c" using Cons.prems(2) by auto
  obtain alsa where alsa: "client_alsa_str c = Inr alsa" using alsa_str_fits by blast
  show ?case
  proof (cases "long_name c")
    case True
    then have "client_jack_str c = Inl Out_of_bounds" by (simp add: jack_str_fits)
    then show ?thesis using c alsa True by (simp add: lists_def client_at_def)
  next
    case False
    then obtain jack where jack: "client_jack_str c = Inr jack" using jack_str_fits(2) by blast
    obtain k i where i: "sh_client_get_identity U a s = Inr (s\<lparr>ct_identity := k\<rparr>, i)" "37 \<le> k"
      using identity_fits [OF assms Cons.prems(1), of a] c by auto
    obtain s1 where s1_def: "s1 = puts (''    '' @ i @ jack @ alsa) (s\<lparr>ct_identity := k\<rparr>)" by blast
    have q: "quiet s s1" unfolding s1_def by (rule quiet_identity [OF i(2)])
    have "list_clients U (a # as) s = list_clients U as s1"
      using c alsa jack i(1) by (simp add: client_at_def s1_def)
    moreover have "lists (list_clients U as s1) (\<exists>a \<in> set as. long_name (cl s1 a)) s1"
      using Cons.prems(2) quietD(2,7) [OF q] by (intro Cons.IH) simp_all
    ultimately show ?thesis using False c quietD(2) [OF q] quiet_trans [OF q] by (auto simp: lists_def split: if_split_asm)
  qed
qed

lemma list_projects_lists:
  assumes "uuid_lib_ok U"
  shows "shell_ok s \<Longrightarrow> set as \<subseteq> set (ct_projects s) \<Longrightarrow>
    lists (list_projects U as s) (\<exists>a \<in> set as. \<exists>c \<in> set (sp_clients (pr s a)). long_name (cl s c)) s"
proof (induction as arbitrary: s)
  case Nil
  then show ?case using shell_okD(9) [of s]
    by (auto simp: lists_def quiet_def intro!: exI [of _ "ct_identity s"] exI [of _ "ct_out s"])
next
  case (Cons a as)
  obtain p where p: "ct_project s a = Some p" "set (sp_clients p) \<subseteq> dom (ct_client s)"
    using ok_project [OF Cons.prems(1), of a] Cons.prems(2) by (metis list.set_intros(1) subsetD)
  obtain s0 where s0_def: "s0 = puts (''  '' @ shown (sp_name p) @ '' in directory '' @ shown (sp_dir p) @ '', '' @
           (if sp_clients p \<noteq> [] then ''clients:'' else ''no clients'')) s" by blast
  have q0: "quiet s s0" unfolding s0_def by (rule quiet_emit [OF shell_okD(9) [OF Cons.prems(1)]])
  have run: "list_projects U (a # as) s = bindr (list_clients U (sp_clients p) s0) (list_projects U as)"
    using p(1) by (simp add: project_at_def s0_def)
  have l: "lists (list_clients U (sp_clients p) s0) (\<exists>c \<in> set (sp_clients p). long_name (cl s c)) s0"
    using list_clients_lists [OF assms, of s0 "sp_clients p"] quietD(2,7) [OF q0] p(2) by simp
  show ?case
  proof (cases "\<exists>c \<in> set (sp_clients p). long_name (cl s c)")
    case True
    then show ?thesis using l run p(1) by (auto simp: lists_def)
  next
    case False
    then obtain s1 where s1: "list_clients U (sp_clients p) s0 = Inr s1" "quiet s0 s1" using l by (auto simp: lists_def)
    have q: "quiet s s1" by (rule quiet_trans [OF q0 s1(2)])
    have "lists (list_projects U as s1) (\<exists>a \<in> set as. \<exists>c \<in> set (sp_clients (pr s1 a)). long_name (cl s1 c)) s1"
      using Cons.prems quiet_ok [OF q] quietD(3) [OF q] by (intro Cons.IH) simp_all
    then show ?thesis using run s1(1) p(1) False quietD(1,2) [OF q] quiet_trans [OF q]
      by (auto simp: lists_def split: if_split_asm)
  qed
qed

definition has_long_name :: "lash_control \<Rightarrow> bool" where
  "has_long_name s \<longleftrightarrow> (\<exists>c \<in> ran (ct_client s). long_name c)"

lemma command_list_lists:
  assumes "uuid_lib_ok U" "shell_ok s"
  shows "lists (command_list U s) (has_long_name s) s"
proof -
  note ok = shell_okD [OF assms(2)]
  have "has_long_name s \<longleftrightarrow> (\<exists>c \<in> dom (ct_client s). long_name (cl s c))"
    by (auto simp: has_long_name_def ran_def dom_def)
  also have "\<dots> \<longleftrightarrow> (\<exists>a \<in> set (ct_projects s). \<exists>c \<in> set (sp_clients (pr s a)). long_name (cl s c))"
    unfolding ok(4) [symmetric] by (auto simp: all_clients_def)
  finally have long: "has_long_name s \<longleftrightarrow> \<dots>" .
  show ?thesis
  proof (cases "ct_projects s = []")
    case True
    then show ?thesis using long ok(9) by (simp add: command_list_def lists_def quiet_emit)
  next
    case False
    then show ?thesis unfolding long using list_projects_lists [OF assms, of "ct_projects s"] by (simp add: command_list_def)
  qed
qed

text \<open>The commands keep the invariants of the shell and of the library below it.\<close>

definition fine :: "addr set \<Rightarrow> lash_control \<Rightarrow> bool" where
  "fine outs s \<longleftrightarrow> shell_ok s \<and> queue_ok outs (ct_lib s)"

lemma fine_emit [simp]: "fine outs (emit x s) = fine outs s"
  by (simp add: fine_def)

lemma fine_quiet: "quiet s s' \<Longrightarrow> fine outs s \<Longrightarrow> fine outs s'"
  using quiet_ok quietD(5) by (simp add: fine_def)

lemma request_queue [simp]: "queue_ok outs (request c as l) = queue_ok outs l"
  by (simp add: request_def split: option.split)

lemma fine_call:
  assumes "\<And>l. queue_ok outs (f l) = queue_ok outs l"
  shows "fine outs (call_lib f s) = fine outs s"
proof -
  have "shell_ok (call_lib f s) = shell_ok s" by (simp add: call_lib_def shell_ok_def all_clients_def)
  then show ?thesis using assms by (simp add: fine_def call_lib_def)
qed

lemma fine_calls [simp]:
  "fine outs (call_lib (lash_control_move_project n d) s) = fine outs s"
  "fine outs (call_lib (lash_control_load_project_path d) s) = fine outs s"
  "fine outs (call_lib (lash_control_name_project n d) s) = fine outs s"
  "fine outs (call_lib (lash_control_save_project n) s) = fine outs s"
  "fine outs (call_lib (lash_control_close_project n) s) = fine outs s"
  by (rule fine_call, simp add: lash_control_move_project_def lash_control_load_project_path_def
      lash_control_name_project_def lash_control_save_project_def lash_control_close_project_def)+

lemma fine_fold [simp]: "fine outs (fold puts ts s) = fine outs s"
  by (induction ts arbitrary: s) simp_all

definition keeps :: "addr set \<Rightarrow> lash_control res \<Rightarrow> bool" where
  "keeps outs r \<longleftrightarrow> (\<exists>s'. r = Inr s' \<and> fine outs s')"

lemma current_found:
  assumes "fine outs s"
  shows "ct_cur s = None \<or> (\<exists>a p. ct_cur s = Some a \<and> project_at a s = Inr p)"
proof (cases "ct_cur s")
  case (Some a)
  then have "a \<in> dom (ct_project s)" using assms shell_okD(2,5) [of s] by (auto simp: fine_def)
  then show ?thesis using Some by (auto simp: project_at_def)
qed simp

lemma fine_select:
  assumes "fine outs s" "a \<in> set (ct_projects s)"
  shows "fine outs (s\<lparr>ct_cur := Some a\<rparr>)"
proof -
  have s: "shell_ok s" using assms(1) by (simp add: fine_def)
  have "all_clients (s\<lparr>ct_cur := Some a\<rparr>) = all_clients s" by (simp add: all_clients_def)
  then have "shell_ok (s\<lparr>ct_cur := Some a\<rparr>)"
    using shell_okD [OF s] assms(2) by (intro shell_okI) simp_all
  then show ?thesis using assms(1) by (simp add: fine_def)
qed

lemma project_keeps:
  assumes "fine outs s"
  shows "keeps outs (command_project arg s)"
proof (cases "arg = None \<or> arg = Some []")
  case True
  then show ?thesis using assms current_found [OF assms] by (auto simp: keeps_def command_project_def no_project_def)
next
  case False
  note found = find_project_found [of s "lash_strdup arg"]
  show ?thesis
  proof (cases "find (\<lambda>a. sp_name (pr s a) = Some (lash_strdup arg)) (ct_projects s)")
    case None
    then show ?thesis using False assms found by (auto simp: keeps_def command_project_def fine_def)
  next
    case (Some a)
    then have "a \<in> set (ct_projects s)" using find_Some_set by fastforce
    then have "fine outs (s\<lparr>ct_cur := Some a\<rparr>)" by (rule fine_select [OF assms])
    then show ?thesis using False Some assms found by (auto simp: keeps_def command_project_def fine_def)
  qed
qed

lemma current_keeps:
  assumes "fine outs s" "fine outs (none s)" "\<And>p. keeps outs (f p s)"
  shows "keeps outs (on_current f none s)"
  using current_found [OF assms(1)] assms(2,3) by (auto simp: on_current_def keeps_def)

lemma small_commands_keep:
  assumes "fine outs s"
  shows "keeps outs (command_name arg s)" "keeps outs (command_save s)" "keeps outs (command_close s)"
    "keeps outs (Inr (command_help s))" "keeps outs (Inr (command_restore arg s))" "keeps outs (Inr (command_remove arg s))"
proof -
  show "keeps outs (command_name arg s)" unfolding command_name_def
    by (rule current_keeps [OF assms]) (use assms in \<open>simp_all add: keeps_def no_project_def split: option.split\<close>)
  show "keeps outs (command_save s)" unfolding command_save_def
    by (rule current_keeps [OF assms]) (use assms in \<open>simp_all add: keeps_def no_project_def\<close>)
  show "keeps outs (command_close s)" unfolding command_close_def
    by (rule current_keeps [OF assms]) (use assms in \<open>simp_all add: keeps_def no_project_def\<close>)
  show "keeps outs (Inr (command_help s))" "keeps outs (Inr (command_restore arg s))" "keeps outs (Inr (command_remove arg s))"
    using assms by (simp_all add: keeps_def command_help_def command_restore_def command_remove_def del: fold_simps split: option.split)
qed

lemma dir_keeps:
  assumes "fine outs s" "arg \<noteq> Some []"
  shows "\<exists>s' cut. command_dir arg s = Inr (s', cut) \<and> fine outs s'"
  using current_found [OF assms(1)] assms
  by (auto simp: command_dir_def on_current_def no_project_def Let_def split: option.split)

lemma command_arg_filled: "command_arg t \<noteq> Some []"
  by (simp add: command_arg_def Let_def)

definition obeys :: "addr set \<Rightarrow> (lash_control \<times> bool \<times> bool) res \<Rightarrow> bool" where
  "obeys outs r \<longleftrightarrow> (\<exists>s' d cut. r = Inr (s', d, cut) \<and> fine outs s')"

lemma obeys_if: "(b \<Longrightarrow> obeys outs x) \<Longrightarrow> (\<not> b \<Longrightarrow> obeys outs y) \<Longrightarrow> obeys outs (if b then x else y)"
  by simp

lemma obeys_ret: "keeps outs r \<Longrightarrow> obeys outs (bindr r (\<lambda>s1. Inr (s1, False, False)))"
  by (auto simp: keeps_def obeys_def)

lemma line_obeyed:
  assumes "uuid_lib_ok U" "shell_ok s" "queue_ok outs (ct_lib s)"
  shows "if strncasecmp_eq 1 (dropWhile is_space line) ''list'' \<and> has_long_name s
    then deal_with_command U line s = Inl Out_of_bounds
    else (\<exists>s' done cut. deal_with_command U line s = Inr (s', done, cut) \<and> shell_ok s' \<and> queue_ok outs (ct_lib s'))"
proof -
  let ?c = "dropWhile is_space line"
  have s: "fine outs s" using assms(2,3) by (simp add: fine_def)
  have l: "lists (command_list U s) (has_long_name s) s" by (rule command_list_lists [OF assms(1,2)])
  show ?thesis
  proof (cases "strncasecmp_eq 1 ?c ''list''")
    case True
    then have "\<not> strncasecmp_eq 1 ?c ''help''" by (auto simp: strncasecmp_eq_def to_lower_def)
    then have "deal_with_command U line s = bindr (command_list U s) (\<lambda>s1. Inr (s1, False, False))"
      using True by (simp add: deal_with_command_def Let_def)
    then show ?thesis using l True s fine_quiet [of s _ outs] by (auto simp: lists_def fine_def split: if_split_asm)
  next
    case False
    have dir: "obeys outs (bindr (command_dir (command_arg ?c) s) (\<lambda>(s1, cut). Inr (s1, False, cut)))"
      using dir_keeps [OF s command_arg_filled, of ?c] by (auto simp: obeys_def)
    have "obeys outs (Inr (s, True, False))" using s unfolding obeys_def by blast
    moreover have "keeps outs (Inr (puts t s))" for t using s by (simp add: keeps_def)
    ultimately have "obeys outs (deal_with_command U line s)"
      unfolding deal_with_command_def Let_def if_not_P [OF False]
      by (intro obeys_if obeys_ret dir small_commands_keep [OF s] project_keeps [OF s])
    then show ?thesis using False by (simp add: fine_def obeys_def)
  qed
qed

section \<open>The loop\<close>

lemma destroy_clients_lib: "destroy_clients cs s = Inr s' \<Longrightarrow> ct_lib s' = ct_lib s"
  by (induction cs arbitrary: s) (auto simp: bindr_Inr_iff sh_client_destroy_def)

lemma identity_lib: "sh_client_get_identity U a s = Inr (s', t) \<Longrightarrow> ct_lib s' = ct_lib s"
proof -
  assume r: "sh_client_get_identity U a s = Inr (s', t)"
  then obtain c where c: "client_at a s = Inr c" by (auto simp: sh_client_get_identity_def bindr_Inr_iff)
  then show ?thesis using r
    by (cases "sc_name c") (auto simp: sh_client_get_identity_def bindr_Inr_iff Let_def)
qed

lemma announce_lib: "announce_client U a t s = Inr s' \<Longrightarrow> ct_lib s' = ct_lib s"
  by (auto simp: announce_client_def bindr_Inr_iff dest: identity_lib)

lemma set_lib [simp]: "ct_lib (set_project a f s) = ct_lib s" "ct_lib (set_client a g s) = ct_lib s"
  by (simp_all add: set_project_def set_client_def)

lemma with_found_lib:
  assumes "\<And>a. f a = Inr s' \<Longrightarrow> ct_lib s' = ct_lib s" "with_found r f s = Inr s'"
  shows "ct_lib s' = ct_lib s"
  using assms by (auto simp: with_found_def bindr_Inr_iff split: option.split_asm)

lemma with_client_lib:
  assumes "\<And>a. f a = Inr s' \<Longrightarrow> ct_lib s' = ct_lib s" "with_client u f s = Inr s'"
  shows "ct_lib s' = ct_lib s"
proof (cases "uuid_is_null u")
  case False
  show ?thesis by (rule with_found_lib [OF assms(1)]) (use assms(2) False in \<open>simp_all add: with_client_def\<close>)
qed (use assms(2) in \<open>simp add: with_client_def\<close>)

lemma callback_lib: "lash_control_cb U ty str1 str2 u s = Inr s' \<Longrightarrow> ct_lib s' = ct_lib s"
proof -
  have dir: "on_project_dir str1 str2 s = Inr s' \<Longrightarrow> ct_lib s' = ct_lib s"
    unfolding on_project_dir_def by (erule with_found_lib [rotated]) auto
  have name: "on_project_name str1 str2 s = Inr s' \<Longrightarrow> ct_lib s' = ct_lib s"
    unfolding on_project_name_def by (erule with_found_lib [rotated]) auto
  have add: "on_project_add str1 s = Inr s' \<Longrightarrow> ct_lib s' = ct_lib s"
    by (auto simp: on_project_add_def sh_project_new_def Let_def split: if_split_asm)
  have remove: "on_project_remove str1 s = Inr s' \<Longrightarrow> ct_lib s' = ct_lib s"
    unfolding on_project_remove_def
    by (erule with_found_lib [rotated])
      (auto simp: Let_def bindr_Inr_iff sh_project_destroy_def dest!: destroy_clients_lib split: if_split_asm)
  have client: "on_client_add U str1 u s = Inr s' \<Longrightarrow> ct_lib s' = ct_lib s"
    unfolding on_client_add_def
    by (erule with_found_lib [rotated]) (auto simp: sh_client_new_def bindr_Inr_iff dest!: identity_lib)
  have gone: "ct_lib s' = ct_lib s" if r: "on_client_remove U str1 u s = Inr s'"
  proof (cases "uuid_is_null u")
    case False
    show ?thesis using r False unfolding on_client_remove_def if_not_P [OF False]
      by - (erule with_found_lib [rotated], erule with_found_lib [rotated],
          auto simp: bindr_Inr_iff sh_client_destroy_def dest!: announce_lib)
  qed (use r in \<open>simp add: on_client_remove_def\<close>)
  have c: "on_client_name U str1 u s = Inr s' \<Longrightarrow> ct_lib s' = ct_lib s"
      "on_jack_client_name U str1 u s = Inr s' \<Longrightarrow> ct_lib s' = ct_lib s"
      "on_alsa_client_id U str1 u s = Inr s' \<Longrightarrow> ct_lib s' = ct_lib s"
    unfolding on_client_name_def on_jack_client_name_def on_alsa_client_id_def
    by (erule with_client_lib [rotated], auto simp: bindr_Inr_iff dest!: announce_lib)+
  show "lash_control_cb U ty str1 str2 u s = Inr s' \<Longrightarrow> ct_lib s' = ct_lib s"
    using dir name add remove client gone c by (cases ty) (auto simp: lash_control_cb_def on_percentage_def)
qed

lemma callbacks_keep: "uuid_lib_ok U \<Longrightarrow> fine outs s \<Longrightarrow> keeps outs (run_callbacks U xs s)"
proof (induction xs arbitrary: s)
  case Nil
  then show ?case by (simp add: keeps_def)
next
  case (Cons x xs)
  show ?case
  proof (cases "\<exists>ty a b u. x = Control_callback ty a b u")
    case True
    then obtain ty a b u where x: "x = Control_callback ty a b u" by blast
    obtain s1 where s1: "lash_control_cb U ty a b u s = Inr s1" "shell_ok s1"
      using callback_behaves [OF Cons.prems(1), of s ty a b u] Cons.prems(2) by (auto simp: behaves_def fine_def)
    then have "fine outs s1" using callback_lib [OF s1(1)] Cons.prems(2) by (simp add: fine_def)
    then show ?thesis using Cons.IH [OF Cons.prems(1)] s1(1) x by simp
  next
    case False
    then have "(case x of Control_callback ty a b u \<Rightarrow> lash_control_cb U ty a b u s | _ \<Rightarrow> Inr s) = Inr s"
      by (cases x) auto
    then show ?thesis using Cons by simp
  qed
qed

lemma shell_dispatch_keeps:
  assumes "uuid_lib_ok U" "fine outs s" "\<forall>m \<in> set ms. good_message m"
  shows "keeps outs (shell_dispatch U p ms s)"
proof -
  obtain l where l: "lash_dispatch U p ms (ct_lib s) = Inr l" "queue_ok outs l"
    using dispatch_safe assms(2,3) by (metis fine_def)
  have "shell_ok (s\<lparr>ct_lib := l\<rparr>)"
  proof (rule ok_cong [where s = s])
    show "shell_ok s" using assms(2) by (simp add: fine_def)
    then show "37 \<le> ct_identity (s\<lparr>ct_lib := l\<rparr>)" using shell_okD(9) by simp
  qed simp_all
  then have "fine outs (s\<lparr>ct_lib := l\<rparr>)" using l(2) by (simp add: fine_def)
  then show ?thesis using callbacks_keep [OF assms(1)] l(1) by (simp add: shell_dispatch_def)
qed

lemma prompt_fits:
  assumes "shell_ok s" "16 \<le> n"
  shows "\<exists>t n1. make_prompt n s = Inr (t, n1) \<and> n \<le> n1 \<and> length t < n1"
proof (cases "ct_cur s")
  case (Some a)
  then have "a \<in> set (ct_projects s)" using shell_okD(5) [OF assms(1)] by simp
  then obtain p m where p: "ct_project s a = Some p" "sp_name p = Some m" using ok_project [OF assms(1)] by metis
  then show ?thesis using Some assms(2) by (simp add: make_prompt_def project_at_def Let_def)
qed (use assms(2) in \<open>simp add: make_prompt_def\<close>)

definition lists_line :: "string option \<Rightarrow> bool" where
  "lists_line line \<longleftrightarrow> (case line of None \<Rightarrow> False | Some t \<Rightarrow> strncasecmp_eq 1 (dropWhile is_space t) ''list'')"

definition loop_result :: "addr set \<Rightarrow> bool \<Rightarrow> (lash_control \<times> bool) res \<Rightarrow> bool" where
  "loop_result outs listed r \<longleftrightarrow> (\<exists>s' ended. r = Inr (s', ended) \<and> fine outs s') \<or> (r = Inl Out_of_bounds \<and> listed)"

lemma loop_result_mono: "loop_result outs x r \<Longrightarrow> (x \<longrightarrow> y) \<Longrightarrow> loop_result outs y r"
  by (auto simp: loop_result_def)

lemma loop_result_Inr: "fine outs s \<Longrightarrow> loop_result outs x (Inr (s, e))"
  by (auto simp: loop_result_def)

lemma loop_safe:
  assumes "uuid_lib_ok U"
  shows "fine outs s \<Longrightarrow> 16 \<le> n \<Longrightarrow> \<forall>(line, ms) \<in> set rounds. \<forall>m \<in> set ms. good_message m \<Longrightarrow>
    loop_result outs (\<exists>(line, ms) \<in> set rounds. lists_line line) (shell_loop U p rounds n s)"
proof (induction rounds arbitrary: n s)
  case Nil
  then show ?case by (simp add: loop_result_Inr)
next
  case (Cons r rounds)
  obtain line ms where r: "r = (line, ms)" by (cases r)
  obtain t n1 where prompt: "make_prompt n s = Inr (t, n1)" "n \<le> n1"
    using prompt_fits [of s n] Cons.prems(1,2) by (auto simp: fine_def)
  let ?s0 = "emit (Prompt t) s"
  show ?case
  proof (cases line)
    case None
    then show ?thesis using r prompt Cons.prems(1) by (simp add: loop_result_Inr)
  next
    case (Some command)
    have "keeps outs (shell_dispatch U p ms ?s0)" using Cons.prems(1,3) r by (intro shell_dispatch_keeps [OF assms]) simp_all
    then obtain s1 where s1: "shell_dispatch U p ms ?s0 = Inr s1" "fine outs s1" by (auto simp: keeps_def)
    have ih: "loop_result outs (\<exists>(line, ms) \<in> set rounds. lists_line line) (shell_loop U p rounds n1 s')"
      if "fine outs s'" for s'
      using Cons.IH [OF that, of n1] Cons.prems(2,3) prompt(2) by simp
    let ?later = "\<exists>(line, ms) \<in> set (r # rounds). lists_line line"
    have later: "(\<exists>(line, ms) \<in> set rounds. lists_line line) \<longrightarrow> ?later" by simp
    show ?thesis
    proof (cases "command = []")
      case True
      then show ?thesis using r prompt(1) s1 Some loop_result_mono [OF ih [OF s1(2)] later] by simp
    next
      case False
      have ok: "shell_ok s1" "queue_ok outs (ct_lib s1)" using s1(2) by (simp_all add: fine_def)
      have run: "shell_loop U p (r # rounds) n s = bindr (deal_with_command U command s1) (\<lambda>(s2, done, cut).
          let s3 = emit (History (if cut then butlast command else command)) s2
          in if done then Inr (s3, True) else shell_loop U p rounds n1 s3)"
        using r prompt(1) s1(1) Some False by simp
      consider "strncasecmp_eq 1 (dropWhile is_space command) ''list''" "deal_with_command U command s1 = Inl Out_of_bounds"
        | s2 d cut where "deal_with_command U command s1 = Inr (s2, d, cut)" "fine outs s2"
        using line_obeyed [OF assms ok, of command] by (auto simp: fine_def split: if_split_asm)
      then show ?thesis
      proof cases
        case 1
        then show ?thesis unfolding run using Some r by (auto simp: loop_result_def lists_line_def)
      next
        case 2
        have "fine outs (emit (History h) s2)" for h using 2(2) by simp
        then show ?thesis unfolding run using 2(1) loop_result_mono [OF ih later]
          by (cases d) (simp_all add: Let_def loop_result_Inr)
      qed
    qed
  qed
qed

section \<open>The program\<close>

text \<open>\<open>main\<close> after its options: \<open>None\<close> when the library cannot be opened and the program exits.\<close>

definition shell_main :: "uuid_lib \<Rightarrow> open_env \<Rightarrow> string option \<Rightarrow> string \<Rightarrow> (string option \<times> message list) list \<Rightarrow>
    (lash_control \<times> bool) option res" where
  "shell_main U Q new_path version rounds =
     (case lash_client_open_controller Q of
        None \<Rightarrow> Inr None
      | Some c \<Rightarrow>
          (case lash_set_control_callback True (Some (lib_new c)) of
             (Some client, True) \<Rightarrow>
               bindr (lash_control_main U new_path version rounds (lash_control_init client)) (\<lambda>r. Inr (Some r))
           | _ \<Rightarrow> Inr None))"

lemma shell_main_opened:
  assumes "oe_bus_ok Q" "oe_match_ok Q" "oe_filter_ok Q"
  obtains client where "queue_ok {} client" "lc_is_controller (lb_client client) = 1" "cb_control (lb_client client)"
    "shell_main U Q p version rounds = bindr (lash_control_main U p version rounds (lash_control_init client)) (\<lambda>r. Inr (Some r))"
proof -
  let ?c = "lash_client_new\<lparr>lc_dbus_service := True, lc_is_controller := 1\<rparr>"
  let ?l = "upd (\<lambda>c. c\<lparr>cb_control := True\<rparr>) (lib_new ?c)"
  have "queue_ok {} ?l" by (simp add: queue_ok_def lib_new_def upd_def Let_def)
  then show thesis using assms
    by (intro that [of ?l]) (simp_all add: shell_main_def lash_client_open_controller_def lash_set_control_callback_def upd_def lib_new_def)
qed

text \<open>C19. The whole program: from the start on, whatever lines are read and whatever the daemon sends, the prompt
  fits its buffer, no freed project or client is touched, the invariants of the shell and of the library
  hold when the loop returns, and the one fault there can be is the overflow in a listing.\<close>

theorem shell_runs_safely:
  assumes "uuid_lib_ok U" "\<forall>(line, ms) \<in> set rounds. \<forall>m \<in> set ms. good_message m"
    "oe_bus_ok Q" "oe_match_ok Q" "oe_filter_ok Q"
  shows "(\<exists>s' ended. shell_main U Q new_path version rounds = Inr (Some (s', ended))
      \<and> shell_ok s' \<and> queue_ok {} (ct_lib s'))
    \<or> (shell_main U Q new_path version rounds = Inl Out_of_bounds \<and> (\<exists>(line, ms) \<in> set rounds. lists_line line))"
proof -
  obtain client where client: "queue_ok {} client"
    "shell_main U Q new_path version rounds
      = bindr (lash_control_main U new_path version rounds (lash_control_init client)) (\<lambda>r. Inr (Some r))"
    using shell_main_opened [OF assms(3-5)] by metis
  have "fine {} (puts (''LASH Shell '' @ version) (lash_control_init client))"
    using init_ok client(1) by (simp add: fine_def lash_control_init_def)
  from loop_safe [OF assms(1) this _ assms(2), of 32 new_path]
  show ?thesis unfolding client(2) lash_control_main_def loop_result_def fine_def by auto
qed

definition good_bus :: open_env where
  "good_bus = \<lparr>oe_cwd = None, oe_getenv = (\<lambda>_. None), oe_bus_ok = True, oe_has_owner = True, oe_match_ok = True, oe_filter_ok = True\<rparr>"

theorem shell_runs_safely_witness:
  "\<exists>s' ended. shell_main example_uuids good_bus None ''0.6'' [(Some ''help'', []), (None, [])] = Inr (Some (s', ended))
    \<and> shell_ok s' \<and> queue_ok {} (ct_lib s')"
proof -
  have "\<not> lists_line (Some ''help'')" "\<not> lists_line None"
    by (simp_all add: lists_line_def strncasecmp_eq_def to_lower_def is_space_def)
  then show ?thesis
    using shell_runs_safely [OF example_uuids_ok, of "[(Some ''help'', []), (None, [])]" good_bus None "''0.6''"]
    by (simp add: good_bus_def)
qed

section \<open>Which command a word stands for\<close>

definition command_words :: "string list" where
  "command_words = [''help'', ''list'', ''project'', ''dir'', ''name'', ''remove'', ''save'', ''restore'', ''close'', ''quit'']"

text \<open>What the help promises of a command.\<close>

definition run_word :: "uuid_lib \<Rightarrow> string \<Rightarrow> cstr \<Rightarrow> lash_control \<Rightarrow> (lash_control \<times> bool \<times> bool) res" where
  "run_word U k arg s =
     (let ret = (\<lambda>r. bindr r (\<lambda>s1. Inr (s1, False, False)))
      in if k = ''help'' then ret (Inr (command_help s)) else if k = ''list'' then ret (command_list U s)
         else if k = ''project'' then ret (command_project arg s)
         else if k = ''dir'' then bindr (command_dir arg s) (\<lambda>(s1, cut). Inr (s1, False, cut))
         else if k = ''name'' then ret (command_name arg s) else if k = ''remove'' then ret (Inr (command_remove arg s))
         else if k = ''save'' then ret (command_save s) else if k = ''restore'' then ret (Inr (command_restore arg s))
         else if k = ''close'' then ret (command_close s) else Inr (s, True, False))"

text \<open>The commands a word is the beginning of, in any case of letters.\<close>

definition meant :: "string \<Rightarrow> string list" where
  "meant w = filter (\<lambda>k. take (length w) k = map to_lower w) command_words"

lemma strncasecmp_1 [simp]: "strncasecmp_eq (Suc 0) (a # t) (x # xs) \<longleftrightarrow> to_lower a = to_lower x"
  by (simp add: strncasecmp_eq_def)

lemma strncasecmp_3:
  "strncasecmp_eq 3 (a # t) (x # y # z # xs) \<longleftrightarrow>
     to_lower a = to_lower x \<and> map to_lower (take 2 t) = [to_lower y, to_lower z]"
  by (simp add: strncasecmp_eq_def eval_nat_numeral)

lemma to_lower_letters [simp]:
  "to_lower CHR ''h'' = CHR ''h''" "to_lower CHR ''l'' = CHR ''l''" "to_lower CHR ''p'' = CHR ''p''"
  "to_lower CHR ''d'' = CHR ''d''" "to_lower CHR ''n'' = CHR ''n''" "to_lower CHR ''r'' = CHR ''r''"
  "to_lower CHR ''s'' = CHR ''s''" "to_lower CHR ''c'' = CHR ''c''" "to_lower CHR ''q'' = CHR ''q''"
  "to_lower CHR ''e'' = CHR ''e''" "to_lower CHR ''m'' = CHR ''m''"
  by (simp_all add: to_lower_def)

lemma letter_no_space: "to_lower a \<in> set ''hlpdnrscq'' \<Longrightarrow> \<not> is_space a"
  by (auto simp: is_space_def to_lower_def)

lemma meant_hd:
  assumes "meant (a # w) = [k]"
  shows "k \<in> set command_words" "take (Suc (length w)) k = to_lower a # map to_lower w"
proof -
  have "k \<in> set (meant (a # w))" using assms by simp
  then show "k \<in> set command_words" "take (Suc (length w)) k = to_lower a # map to_lower w" by (auto simp: meant_def)
qed

text \<open>Neither \<open>r\<close> nor \<open>re\<close> means one command.\<close>

lemma meant_long:
  assumes "meant (a # w) = [k]" "k = ''remove'' \<or> k = ''restore''"
  shows "\<exists>b c u. w = b # c # u"
proof (rule ccontr)
  assume "\<nexists>b c u. w = b # c # u"
  then consider "w = []" | b where "w = [b]" by (cases w; cases "tl w") auto
  then show False
    using assms meant_hd(2) [OF assms(1)] by cases (auto simp: meant_def command_words_def split: if_split_asm)
qed

lemma word_runs:
  assumes "meant (a # w) = [k]"
  shows "deal_with_command U (a # w @ rest) s = run_word U k (command_arg (a # w @ rest)) s"
proof -
  note k = meant_hd [OF assms]
  have low: "to_lower a = hd k" using k(2) by (cases k) auto
  have "hd k \<in> set ''hlpdnrscq''" using k(1) by (auto simp: command_words_def)
  then have "\<not> is_space a" using low letter_no_space by metis
  then have drop: "dropWhile is_space (a # w @ rest) = a # w @ rest" by simp
  show ?thesis
  proof (cases "k = ''remove'' \<or> k = ''restore''")
    case True
    then obtain b c u where w: "w = b # c # u" using meant_long [OF assms] by blast
    have a: "to_lower a = CHR ''r''" using low True by auto
    have bc: "to_lower b = CHR ''e''" "to_lower c = (if k = ''remove'' then CHR ''m'' else CHR ''s'')"
      using k(2) True w by (auto simp: eval_nat_numeral)
    have three: "strncasecmp_eq 3 (a # w @ rest) ''remove'' \<longleftrightarrow> k = ''remove''"
        "strncasecmp_eq 3 (a # w @ rest) ''restore'' \<longleftrightarrow> k \<noteq> ''remove''"
      using a bc w by (auto simp: strncasecmp_3)
    have one: "\<not> strncasecmp_eq 1 (a # w @ rest) ''help''" "\<not> strncasecmp_eq 1 (a # w @ rest) ''list''"
      "\<not> strncasecmp_eq 1 (a # w @ rest) ''project''" "\<not> strncasecmp_eq 1 (a # w @ rest) ''dir''"
      "\<not> strncasecmp_eq 1 (a # w @ rest) ''name''" "\<not> strncasecmp_eq 1 (a # w @ rest) ''save''"
      using a by simp_all
    have run: "deal_with_command U (a # w @ rest) s = (let arg = command_arg (a # w @ rest) in
        if k = ''remove'' then Inr (command_remove arg s, False, False) else Inr (command_restore arg s, False, False))"
      unfolding deal_with_command_def drop by (simp only: Let_def one three if_False bindr.simps simp_thms)
        (simp split: if_split)
    show ?thesis
    proof (cases "k = ''remove''")
      case True
      show ?thesis unfolding run True by (simp add: run_word_def)
    next
      case False
      then have "k = ''restore''" using \<open>k = ''remove'' \<or> k = ''restore''\<close> by simp
      then show ?thesis unfolding run by (simp add: run_word_def)
    qed
  next
    case False
    have "k = ''help'' \<or> k = ''list'' \<or> k = ''project'' \<or> k = ''dir'' \<or> k = ''name'' \<or> k = ''remove'' \<or> k = ''save''
        \<or> k = ''restore'' \<or> k = ''close'' \<or> k = ''quit''"
      using k(1) unfolding command_words_def list.set insert_iff empty_iff simp_thms .
    then have cases: "k = ''help'' \<or> k = ''list'' \<or> k = ''project'' \<or> k = ''dir'' \<or> k = ''name'' \<or> k = ''save''
        \<or> k = ''close'' \<or> k = ''quit''"
      using False by argo
    have r: "\<not> strncasecmp_eq 3 (a # w @ rest) ''remove''" "\<not> strncasecmp_eq 3 (a # w @ rest) ''restore''"
      using cases low by (elim disjE; simp add: strncasecmp_3)+
    show ?thesis unfolding deal_with_command_def drop
      using cases by (elim disjE) (use low in \<open>simp_all add: r run_word_def Let_def\<close>)
  qed
qed



section \<open>A name that does not fit\<close>

text \<open>
  After one project, one client and a JACK client name of 44 characters, which JACK allows, the
  command \<open>list\<close> writes past its buffer.
\<close>

theorem list_overflows:
  "\<exists>s'. run_calls example_uuids example_calls (lash_control_init (lib_new lash_client_new)) = Inr s' \<and> shell_ok s'
    \<and> deal_with_command example_uuids ''list'' s' = Inl Out_of_bounds"
proof -
  obtain s' where s': "run_calls example_uuids example_calls (lash_control_init (lib_new lash_client_new)) = Inr s'" "shell_ok s'"
    "view s' = view_calls example_calls []"
    using calls_behave [OF example_uuids_ok init_ok(1), of example_calls "lib_new lash_client_new"] init_ok(2)
    unfolding behaves_def by metis
  obtain a where a: "ct_projects s' = [a]"
    "map (cl s') (sp_clients (pr s' a)) = [(new_client 7)\<lparr>sc_jack_client_name := Some (replicate 44 CHR ''x'')\<rparr>]"
    using s'(3) by (auto simp: example_view view_def view_project_def)
  then obtain c where c: "sp_clients (pr s' a) = [c]" "long_name (cl s' c)" by (auto simp: long_name_def)
  then obtain x where "ct_client s' c = Some x" using ok_client [OF s'(2), of a c] a(1) by auto
  then have "has_long_name s'" using c(2) by (auto simp: has_long_name_def ran_def)
  then have "command_list example_uuids s' = Inl Out_of_bounds"
    using command_list_lists [OF example_uuids_ok s'(2)] by (simp add: lists_def)
  then have "deal_with_command example_uuids ''list'' s' = Inl Out_of_bounds"
    by (simp add: deal_with_command_def is_space_def)
  then show ?thesis using s' by blast
qed

end
