(* ===== verification/Startup.thy ===== *)
theory Startup
  imports Daemon
begin

text \<open>
  Starting the daemon: its options, signals and end (\<^verbatim>\<open>lashd/main.c\<close>), its log file (\<^verbatim>\<open>log.c\<close>), its process
  title (\<^verbatim>\<open>proctitle.c\<close>), and the two functions of \<^verbatim>\<open>procfs.c\<close> that look another process up. The
  calls into the operating system are given their results; the buffers are kept at their sizes.
\<close>

section \<open>The log file\<close>

text \<open>The new file system and whether the directory is there.\<close>

definition ensure_dir_exist :: "string \<Rightarrow> fs \<Rightarrow> fs \<times> bool" where
  "ensure_dir_exist dirname d =
     (case posix_stat d dirname of
        Inl e \<Rightarrow>
          if e = ENOENT then (case posix_mkdir d dirname of Inl _ \<Rightarrow> (d, False) | Inr d1 \<Rightarrow> (d1, True))
          else (d, False)
      | Inr n \<Rightarrow> (d, n = Dir))"

text \<open>\<open>fopen\<close> for appending opens a file or makes an empty one.\<close>

definition posix_open_append :: "fs \<Rightarrow> string \<Rightarrow> errno + fs" where
  "posix_open_append d p =
     (case node_at d p of
        Some Dir \<Rightarrow> Inl EISDIR
      | Some (File _) \<Rightarrow> if denied d p then Inl EACCES else Inr d
      | None \<Rightarrow> posix_write_file d p '''')"

text \<open>The file system and the path of the log file that is open, if any.\<close>

definition lash_log_init :: "(string \<Rightarrow> cstr) \<Rightarrow> fs \<Rightarrow> fs \<times> string option" where
  "lash_log_init getenv d =
     (case getenv ''HOME'' of
        None \<Rightarrow> (d, None)
      | Some home_dir \<Rightarrow>
          (let xdg_log_home = lash_catdup (Some home_dir) (Some ''/.log'');
               lash_log_dir = lash_catdup (Some xdg_log_home) (Some ''/lash'');
               (d1, ok1) = ensure_dir_exist xdg_log_home d
           in if \<not> ok1 then (d1, None)
              else (let (d2, ok2) = ensure_dir_exist lash_log_dir d1
                    in if \<not> ok2 then (d2, None)
                       else (let log_filename = lash_log_dir @ ''/lash.log''
                             in case posix_open_append d2 log_filename of
                                  Inl _ \<Rightarrow> (d2, None)
                                | Inr d3 \<Rightarrow> (d3, Some log_filename)))))"

datatype stream = Log_file string | Standard_output | Standard_error

definition LASH_LOG_LEVEL_DEBUG :: u32 where "LASH_LOG_LEVEL_DEBUG = 0"
definition LASH_LOG_LEVEL_INFO :: u32 where "LASH_LOG_LEVEL_INFO = 1"
definition LASH_LOG_LEVEL_WARN :: u32 where "LASH_LOG_LEVEL_WARN = 2"
definition LASH_LOG_LEVEL_ERROR :: u32 where "LASH_LOG_LEVEL_ERROR = 3"
definition LASH_LOG_LEVEL_ERROR_PLAIN :: u32 where "LASH_LOG_LEVEL_ERROR_PLAIN = 4"

text \<open>Where a message goes, and what is written there; \<open>ctime\<close> is cut to 24 characters.\<close>

definition lash_log :: "string option \<Rightarrow> u32 \<Rightarrow> string \<Rightarrow> string \<Rightarrow> stream \<times> string" where
  "lash_log logfile level timestamp message =
     ((case logfile of
         Some f \<Rightarrow> Log_file f
       | None \<Rightarrow> if level = LASH_LOG_LEVEL_DEBUG \<or> level = LASH_LOG_LEVEL_INFO then Standard_output else Standard_error),
      take 24 timestamp @ '': '' @ message)"

section \<open>Another process\<close>

text \<open>
  The static buffer has 4096 bytes and is used for the path and for the answer. The results of the
  calls of \<open>read\<close> are given until one reads nothing; a buffer without a terminator is read past its end.
\<close>

definition BUFFER :: nat where "BUFFER = 4096"

abbreviation zero :: char where "zero \<equiv> CHR 0x00"

definition put_at :: "nat \<Rightarrow> string \<Rightarrow> string \<Rightarrow> string res" where
  "put_at off t buf = (if off + length t \<le> length buf then Inr (take off buf @ t @ drop (off + length t) buf) else Inl Out_of_bounds)"

definition c_string :: "string \<Rightarrow> string res" where
  "c_string buf = (if zero \<in> set buf then Inr (takeWhile (\<lambda>c. c \<noteq> zero) buf) else Inl Out_of_bounds)"

definition proc_path :: "u64 \<Rightarrow> string \<Rightarrow> string" where
  "proc_path x filename = ''/proc/'' @ show_nat (unat x) @ ''/'' @ filename"

text \<open>\<open>None\<close> is a read that fails. The result is the buffer and whether the end was reached.\<close>

fun read_loop :: "string option list \<Rightarrow> nat \<Rightarrow> string \<Rightarrow> (string \<times> bool) res" where
  "read_loop [] off buf = Inr (buf, True)"
| "read_loop (None # rs) off buf = Inr (buf, False)"
| "read_loop (Some bytes # rs) off buf =
     (let got = take (BUFFER - off) bytes
      in if got = [] then Inr (buf, True)
         else bindr (put_at off got buf) (read_loop rs (off + length got)))"

text \<open>\<open>file\<close> is \<open>None\<close> when the file cannot be opened. The buffer is part of the result.\<close>

definition procfs_get_process_file :: "string option list option \<Rightarrow> u64 \<Rightarrow> string \<Rightarrow> string \<Rightarrow> (string \<times> cstr) res" where
  "procfs_get_process_file file x filename g_buffer =
     bindr (put_at 0 (proc_path x filename @ [zero]) g_buffer) (\<lambda>b1.
       case file of
         None \<Rightarrow> Inr (b1, None)
       | Some reads \<Rightarrow>
           bindr (read_loop reads 0 b1) (\<lambda>(b2, at_end).
             if at_end then bindr (c_string b2) (\<lambda>t. Inr (b2, Some t)) else Inr (b2, None)))"

text \<open>\<open>link\<close> is the answer of \<open>readlink\<close>, \<open>None\<close> when it fails; the result -1 is then used as an index.\<close>

definition procfs_get_process_link :: "cstr option \<Rightarrow> u64 \<Rightarrow> string \<Rightarrow> string \<Rightarrow> (string \<times> cstr) res" where
  "procfs_get_process_link file x filename g_buffer =
     bindr (put_at 0 (proc_path x filename @ [zero]) g_buffer) (\<lambda>b1.
       case file of
         None \<Rightarrow> Inr (b1, None)
       | Some None \<Rightarrow> Inl Out_of_bounds
       | Some (Some target) \<Rightarrow>
           (let got = take BUFFER target
            in bindr (put_at 0 got b1) (\<lambda>b2.
                 if got = [] then Inl Abort
                 else bindr (put_at (length got) [zero] b2) (\<lambda>b3. bindr (c_string b3) (\<lambda>t. Inr (b3, Some t))))))"

definition procfs_get_process_cmdline :: "string option list option \<Rightarrow> u64 \<Rightarrow> string \<Rightarrow> (string \<times> cstr) res" where
  "procfs_get_process_cmdline file x = procfs_get_process_file file x ''cmdline''"

definition procfs_get_process_cwd :: "cstr option \<Rightarrow> u64 \<Rightarrow> string \<Rightarrow> (string \<times> cstr) res" where
  "procfs_get_process_cwd file x = procfs_get_process_link file x ''cwd''"

section \<open>The process title\<close>

text \<open>The arguments lie one behind the other, each with its terminator; the title may use all but the last terminator.\<close>

definition argument_memory :: "string list \<Rightarrow> string" where
  "argument_memory argv = concat (map (\<lambda>a. a @ [zero]) argv)"

text \<open>The size of the area for the title.\<close>

definition lash_init_setproctitle :: "string list \<Rightarrow> nat res" where
  "lash_init_setproctitle argv =
     (if argv = [] then Inl Out_of_bounds else Inr (length (argument_memory argv) - 1))"

text \<open>Clearing the area, and \<open>vsnprintf\<close> with its size.\<close>

definition lash_setproctitile :: "nat \<Rightarrow> string \<Rightarrow> string \<Rightarrow> string res" where
  "lash_setproctitile n title mem =
     bindr (put_at 0 (replicate n zero) mem) (\<lambda>m.
       if n = 0 then Inr m else put_at 0 (take (n - 1) title @ [zero]) m)"

section \<open>The program\<close>

datatype option_arg = Opt_help | Opt_default_dir string | Opt_unknown

datatype main_end = Exit_success | Exit_failure

text \<open>What \<open>getopt_long\<close> returns, in order: an exit, or the directory given last.\<close>

fun main_options :: "option_arg list \<Rightarrow> cstr \<Rightarrow> main_end + cstr" where
  "main_options [] dir = Inr dir"
| "main_options (Opt_help # os) dir = Inl Exit_success"
| "main_options (Opt_default_dir d # os) dir = main_options os (Some d)"
| "main_options (Opt_unknown # os) dir = Inl Exit_failure"

datatype disposition = Sig_default | Sig_ignore | Sig_handler

text \<open>A signal that was ignored when the daemon was started stays ignored.\<close>

definition install_handler :: "string \<Rightarrow> (string \<Rightarrow> disposition) \<Rightarrow> string \<Rightarrow> disposition" where
  "install_handler sig sigs =
     (let sigh = sigs sig; sigs1 = sigs(sig := Sig_handler) in if sigh = Sig_ignore then sigs1(sig := Sig_ignore) else sigs1)"

definition install_handlers :: "(string \<Rightarrow> disposition) \<Rightarrow> string \<Rightarrow> disposition" where
  "install_handlers sigs =
     (install_handler ''SIGHUP'' (install_handler ''SIGINT'' (install_handler ''SIGTERM'' sigs)))(''SIGPIPE'' := Sig_ignore)"

definition term_handler :: "world \<Rightarrow> world" where
  "term_handler w = w\<lparr>quitting := True\<rparr>"

text \<open>What arrives in the rounds of the main loop, and the signals caught before a round.\<close>

record main_round =
  mr_signal :: bool
  mr_env :: env
  mr_event :: bus_event
  mr_out1 :: "pid \<Rightarrow> string list \<times> string list"
  mr_out2 :: "pid \<Rightarrow> string list \<times> string list"

text \<open>\<open>server_main\<close>, as far as rounds are given; the result says whether the daemon was told to quit.\<close>

fun server_main :: "world handler object_path \<Rightarrow> main_round list \<Rightarrow> world \<Rightarrow> (world \<times> bool) res" where
  "server_main path [] w = Inr (w, quitting w)"
| "server_main path (r # rs) w =
     (let w1 = (if mr_signal r then term_handler w else w)
      in if quitting w1 then Inr (w1, True)
         else bindr (main_iteration (mr_env r) path (mr_event r) (mr_out1 r) (mr_out2 r) w1) (server_main path rs))"

definition DEFAULT_PROJECT_DIR :: string where
  "DEFAULT_PROJECT_DIR = ''audio-projects''"

text \<open>
  The whole of \<open>main\<close>: \<open>None\<close> while the daemon runs. When the server cannot be started the exit is
  a success all the same.
\<close>

definition lashd_main ::
  "option_arg list \<Rightarrow> (string \<Rightarrow> cstr) \<Rightarrow> env \<Rightarrow> fs \<Rightarrow> bool \<Rightarrow> jackdbus_mgr option \<Rightarrow> (nat \<Rightarrow> uuid) \<Rightarrow> (nat \<Rightarrow> pid option) \<Rightarrow>
   (addr \<Rightarrow> u32) \<Rightarrow> main_round list \<Rightarrow> main_end option res" where
  "lashd_main options getenv E d service jack us fo mtimes rounds =
     (case main_options options None of
        Inl e \<Rightarrow> Inr (Some e)
      | Inr dir \<Rightarrow>
          (let default_dir = (case dir of None \<Rightarrow> DEFAULT_PROJECT_DIR | Some x \<Rightarrow> x)
           in case server_start getenv E default_dir d service jack us fo of
                None \<Rightarrow> Inr (Some Exit_success)
              | Some (appdb, w) \<Rightarrow>
                  bindr (lashd_object E appdb mtimes) (\<lambda>p.
                    case p of
                      None \<Rightarrow> Inr (Some Exit_success)
                    | Some path \<Rightarrow>
                        bindr (server_main path rounds w) (\<lambda>(w1, done).
                          if done then bindr (server_stop w1) (\<lambda>_. Inr (Some Exit_success)) else Inr None))))"

section \<open>What the log holds on to\<close>

lemma ensure_dir_True:
  assumes "ensure_dir_exist p d = (d', True)"
  shows "node_at d' p = Some Dir" "q \<noteq> p \<Longrightarrow> node_at d' q = node_at d q" "denied d' = denied d"
    "node_at d p \<noteq> None \<Longrightarrow> d' = d"
  using assms
  by (auto simp: ensure_dir_exist_def posix_stat_def posix_mkdir_def node_at_def map_add_def Let_def
      split: option.splits sum.splits if_splits node.splits)

lemma ensure_dir_there: "node_at d p = Some Dir \<Longrightarrow> ensure_dir_exist p d = (d, True)"
  by (simp add: ensure_dir_exist_def posix_stat_def)

lemma ensure_dir_False: "ensure_dir_exist p d = (d', False) \<Longrightarrow> d' = d"
  by (auto simp: ensure_dir_exist_def split: sum.splits if_splits)

lemma open_append:
  assumes "posix_open_append d p = Inr d'"
  shows "\<exists>c. node_at d' p = Some (File c)" "q \<noteq> p \<Longrightarrow> node_at d' q = node_at d q" "posix_open_append d' p = Inr d'"
proof -
  have d: "(\<exists>c. node_at d p = Some (File c) \<and> d' = d \<and> \<not> denied d p) \<or>
      (node_at d p = None \<and> d' = d\<lparr>nodes := nodes d @ [(p, File '''')]\<rparr> \<and> \<not> denied d p)"
    using assms by (auto simp: posix_open_append_def posix_write_file_def split: option.splits node.splits if_splits)
  then show "\<exists>c. node_at d' p = Some (File c)" "q \<noteq> p \<Longrightarrow> node_at d' q = node_at d q"
    by (auto simp: node_at_def map_add_def split: option.split)
  show "posix_open_append d' p = Inr d'"
    using d by (auto simp: posix_open_append_def node_at_def map_add_def)
qed

text \<open>When the log file is open, it is the file of the user's log directory, which exists with the directory
  above it; no other path was touched, and starting again changes nothing.\<close>

theorem log_file_opened:
  assumes "lash_log_init getenv d = (d', Some f)" "getenv ''HOME'' = Some h"
  shows "f = h @ ''/.log/lash/lash.log'' \<and> node_at d' (h @ ''/.log'') = Some Dir \<and> node_at d' (h @ ''/.log/lash'') = Some Dir
    \<and> (\<exists>c. node_at d' f = Some (File c))
    \<and> (\<forall>q. q \<notin> {h @ ''/.log'', h @ ''/.log/lash'', f} \<longrightarrow> node_at d' q = node_at d q)
    \<and> lash_log_init getenv d' = (d', Some f)"
proof -
  let ?a = "h @ ''/.log''" and ?b = "h @ ''/.log/lash''" and ?f = "h @ ''/.log/lash/lash.log''"
  obtain d1 d2 where s: "ensure_dir_exist ?a d = (d1, True)" "ensure_dir_exist ?b d1 = (d2, True)"
      "posix_open_append d2 ?f = Inr d'" "f = ?f"
    using assms by (auto simp: lash_log_init_def lash_catdup_def Let_def split: prod.split_asm if_split_asm sum.split_asm)
  note a = ensure_dir_True [OF s(1)] and b = ensure_dir_True [OF s(2)] and c = open_append [OF s(3)]
  have dir: "node_at d' ?a = Some Dir" "node_at d' ?b = Some Dir" using a(1) b(1) b(2) [of ?a] c(2) [of ?a] c(2) [of ?b] by simp_all
  moreover have "node_at d' q = node_at d q" if "q \<notin> {?a, ?b, f}" for q
    using that a(2) [of q] b(2) [of q] c(2) [of q] s(4) by simp
  moreover have "lash_log_init getenv d' = (d', Some f)"
    using ensure_dir_there [OF dir(1)] ensure_dir_there [OF dir(2)] c(3) assms(2) s(4)
    by (simp add: lash_log_init_def lash_catdup_def Let_def)
  ultimately show ?thesis using c(1) s(4) by blast
qed

theorem log_file_opened_witness:
  "\<exists>d'. lash_log_init (\<lambda>_. Some ''/h'') \<lparr>nodes = [(''/h'', Dir)], denied = (\<lambda>_. False)\<rparr> = (d', Some ''/h/.log/lash/lash.log'')
    \<and> node_at d' ''/h/.log/lash'' = Some Dir \<and> lash_log_init (\<lambda>_. Some ''/h'') d' = (d', Some ''/h/.log/lash/lash.log'')"
proof -
  let ?d = "\<lparr>nodes = [(''/h'', Dir), (''/h/.log'', Dir), (''/h/.log/lash'', Dir), (''/h/.log/lash/lash.log'', File '''')],
    denied = (\<lambda>_. False)\<rparr>"
  have "lash_log_init (\<lambda>_. Some ''/h'') \<lparr>nodes = [(''/h'', Dir)], denied = (\<lambda>_. False)\<rparr> = (?d, Some ''/h/.log/lash/lash.log'')"
    by (simp add: lash_log_init_def lash_catdup_def ensure_dir_exist_def posix_stat_def posix_mkdir_def posix_open_append_def
        posix_write_file_def node_at_def before_last_def Let_def)
  from log_file_opened [OF this refl] this show ?thesis by auto
qed

section \<open>What is read of another process\<close>

lemma put_at_length: "put_at off t buf = Inr b \<Longrightarrow> length b = length buf"
  by (auto simp: put_at_def split: if_split_asm)

lemma proc_path_length:
  assumes "length filename \<le> 100"
  shows "length (proc_path x filename) < BUFFER - 1"
proof -
  have "unat x < 2 ^ LENGTH(64)" by (rule unsigned_less)
  then have "unat x < 10 ^ 20" by simp
  then have "length (show_nat (unat x)) \<le> 20" by (intro length_show_nat_le) simp_all
  then show ?thesis using assms by (simp add: proc_path_def BUFFER_def)
qed

lemma proc_path_fits:
  assumes "length buf = BUFFER" "length filename \<le> 100"
  shows "put_at 0 (proc_path x filename @ [zero]) buf
    = Inr (proc_path x filename @ zero # drop (length (proc_path x filename) + 1) buf)"
  using assms proc_path_length [of filename x] by (simp add: put_at_def)

lemma c_string_at: "zero \<notin> set t \<Longrightarrow> c_string (t @ zero # rest) = Inr t"
proof -
  assume "zero \<notin> set t"
  then have "takeWhile (\<lambda>c. c \<noteq> zero) (t @ zero # rest) = t" by (induction t) auto
  then show ?thesis by (simp add: c_string_def)
qed

text \<open>What the buffer holds once the path is in it.\<close>

definition with_path :: "u64 \<Rightarrow> string \<Rightarrow> string \<Rightarrow> string" where
  "with_path x filename buf = proc_path x filename @ zero # drop (length (proc_path x filename) + 1) buf"

lemma with_path_length: "length buf = BUFFER \<Longrightarrow> length filename \<le> 100 \<Longrightarrow> length (with_path x filename buf) = BUFFER"
  using proc_path_length [of filename x] by (simp add: with_path_def)

lemma read_one:
  "length buf = BUFFER \<Longrightarrow> data \<noteq> [] \<Longrightarrow> length data \<le> BUFFER \<Longrightarrow>
     read_loop [Some data] 0 buf = Inr (data @ drop (length data) buf, True)"
  by (simp add: put_at_def Let_def)

text \<open>A command line whose first argument ends within the buffer.\<close>

lemma cmdline_first_argument:
  assumes "length buf = BUFFER" "zero \<in> set data" "length data \<le> BUFFER"
  shows "\<exists>b. procfs_get_process_cmdline (Some [Some data]) x buf = Inr (b, Some (takeWhile (\<lambda>c. c \<noteq> zero) data))"
proof -
  let ?b = "with_path x ''cmdline'' buf"
  have "data \<noteq> []" using assms(2) by auto
  then have r: "read_loop [Some data] 0 ?b = Inr (data @ drop (length data) ?b, True)"
    using assms(1,3) by (intro read_one with_path_length) simp_all
  have "takeWhile (\<lambda>c. c \<noteq> zero) (data @ drop (length data) ?b) = takeWhile (\<lambda>c. c \<noteq> zero) data"
    using assms(2) by (auto intro: takeWhile_append1)
  then have "c_string (data @ drop (length data) ?b) = Inr (takeWhile (\<lambda>c. c \<noteq> zero) data)"
    using assms(2) by (simp add: c_string_def)
  then show ?thesis using r proc_path_fits [OF assms(1), of "''cmdline''" x]
    by (simp add: procfs_get_process_cmdline_def procfs_get_process_file_def with_path_def del: read_loop.simps)
qed

text \<open>A process without a command line: the answer is the path that was opened.\<close>

lemma cmdline_of_nothing:
  assumes "length buf = BUFFER"
  shows "\<exists>b. procfs_get_process_cmdline (Some []) x buf = Inr (b, Some (proc_path x ''cmdline''))"
proof -
  have "zero \<notin> set (proc_path x ''cmdline'')"
    using show_nat_digits [of "unat x"] by (auto simp: proc_path_def is_digit_def)
  then show ?thesis using proc_path_fits [OF assms, of "''cmdline''" x] c_string_at
    by (simp add: procfs_get_process_cmdline_def procfs_get_process_file_def)
qed

text \<open>A first argument as long as the buffer is read past the end of the buffer.\<close>

lemma cmdline_too_long:
  assumes "length buf = BUFFER" "zero \<notin> set data" "length data = BUFFER"
  shows "procfs_get_process_cmdline (Some [Some data]) x buf = Inl Out_of_bounds"
proof -
  let ?b = "with_path x ''cmdline'' buf"
  have "data \<noteq> []" using assms(3) by (auto simp: BUFFER_def)
  then have "read_loop [Some data] 0 ?b = Inr (data @ drop (length data) ?b, True)"
    using assms(1,3) by (intro read_one with_path_length) simp_all
  moreover have "drop (length data) ?b = []" using with_path_length [of buf "''cmdline''" x] assms(1,3) by simp
  ultimately show ?thesis using assms(2) proc_path_fits [OF assms(1), of "''cmdline''" x]
    by (simp add: procfs_get_process_cmdline_def procfs_get_process_file_def with_path_def c_string_def del: read_loop.simps)
qed

text \<open>A link is read back whole, when \<open>readlink\<close> succeeds and leaves room for the terminator; otherwise the terminator
  is written outside of the buffer.\<close>

lemma cwd_exact:
  assumes "length buf = BUFFER" "target \<noteq> []" "zero \<notin> set target" "length target < BUFFER"
  shows "\<exists>b. procfs_get_process_cwd (Some (Some target)) x buf = Inr (b, Some target)"
proof -
  let ?b = "with_path x ''cwd'' buf"
  have len: "length ?b = BUFFER" using assms(1) by (intro with_path_length) simp_all
  then have p: "put_at 0 target ?b = Inr (target @ drop (length target) ?b)" using assms(4) by (simp add: put_at_def)
  have q: "put_at (length target) [zero] (target @ drop (length target) ?b)
      = Inr (target @ zero # drop (Suc (length target)) ?b)"
    using assms(4) len by (simp add: put_at_def)
  show ?thesis using assms(2-4) p q proc_path_fits [OF assms(1), of "''cwd''" x, folded with_path_def] c_string_at
    by (simp add: procfs_get_process_cwd_def procfs_get_process_link_def Let_def)
qed

lemma cwd_outside:
  assumes "length buf = BUFFER"
  shows "procfs_get_process_cwd (Some None) x buf = Inl Out_of_bounds"
    "BUFFER \<le> length target \<Longrightarrow> procfs_get_process_cwd (Some (Some target)) x buf = Inl Out_of_bounds"
proof -
  note p = proc_path_fits [OF assms, of "''cwd''" x, folded with_path_def]
  show "procfs_get_process_cwd (Some None) x buf = Inl Out_of_bounds"
    using p by (simp add: procfs_get_process_cwd_def procfs_get_process_link_def)
  assume "BUFFER \<le> length target"
  moreover have "length (with_path x ''cwd'' buf) = BUFFER" using assms by (intro with_path_length) simp_all
  ultimately show "procfs_get_process_cwd (Some (Some target)) x buf = Inl Out_of_bounds"
    using p by (auto simp: procfs_get_process_cwd_def procfs_get_process_link_def put_at_def Let_def BUFFER_def)
qed

section \<open>The title stays in its area\<close>

lemma title_fits:
  assumes "lash_init_setproctitle argv = Inr n"
  shows "\<exists>m. lash_setproctitile n title (argument_memory argv) = Inr m \<and> length m = length (argument_memory argv)
    \<and> drop n m = drop n (argument_memory argv)"
proof -
  have n: "n = length (argument_memory argv) - 1" using assms by (simp add: lash_init_setproctitle_def split: if_split_asm)
  let ?mem = "argument_memory argv"
  have "n \<le> length ?mem" using n by simp
  then have 1: "put_at 0 (replicate n zero) ?mem = Inr (replicate n zero @ drop n ?mem)" by (simp add: put_at_def)
  show ?thesis
  proof (cases "n = 0")
    case False
    obtain a where a: "a = take (n - 1) title @ [zero]" by blast
    obtain b where b: "b = a @ drop (length a) (replicate n zero)" by blast
    have len: "length a \<le> n" "length b = n" using False by (simp_all add: a b)
    have "put_at 0 a (replicate n zero @ drop n ?mem) = Inr (b @ drop n ?mem)"
      using len(1) \<open>n \<le> length ?mem\<close> by (simp add: put_at_def b)
    then have "lash_setproctitile n title ?mem = Inr (b @ drop n ?mem)"
      using 1 False by (simp add: lash_setproctitile_def a)
    moreover have "length (b @ drop n ?mem) = length ?mem" "drop n (b @ drop n ?mem) = drop n ?mem"
      using len(2) \<open>n \<le> length ?mem\<close> by simp_all
    ultimately show ?thesis by blast
  qed (use 1 in \<open>simp add: lash_setproctitile_def\<close>)
qed

section \<open>Signals\<close>

lemma ignored_stays_ignored:
  "sig \<in> {''SIGTERM'', ''SIGINT'', ''SIGHUP''} \<Longrightarrow>
     install_handlers sigs sig = (if sigs sig = Sig_ignore then Sig_ignore else Sig_handler)"
  by (auto simp: install_handlers_def install_handler_def Let_def)

lemma told_to_quit: "mr_signal r \<Longrightarrow> server_main path (r # rs) w = Inr (w\<lparr>quitting := True\<rparr>, True)"
  by (simp add: term_handler_def)

end
