(* ===== verification/Synth.thy ===== *)
theory Synth
  imports LibQueue
begin

text \<open>
  The example synthesizer as a client of the library (\<^verbatim>\<open>clients/synth/lash.c\<close>): it saves its nine parameters as a
  data set and restores them from one. A double is its eight bytes, an \<open>int\<close> a word of 32 bits.
  Its sound, sequencer and windows are left out.
\<close>

record synth =
  modulation :: string
  attack :: string
  decay :: string
  sustain :: string
  release :: string
  gain :: string
  harmonic :: u32
  subharmonic :: u32
  transpose :: u32

section \<open>Saving and restoring\<close>

definition save_config :: "(lash_config option \<Rightarrow> lash_config option res) \<Rightarrow> string \<Rightarrow> lib \<Rightarrow> lib res" where
  "save_config set_value key s =
     bindr (set_value (Some (lash_config_new_with_key (Some key)))) (\<lambda>c.
       case c of None \<Rightarrow> Inl Null_deref | Some config \<Rightarrow> Inr (lash_send_config config s))"

definition save_data :: "synth \<Rightarrow> lib \<Rightarrow> lib res" where
  "save_data p s =
     bindr (save_config (lash_config_set_value_double (modulation p)) ''modulation'' s) (\<lambda>s.
     bindr (save_config (lash_config_set_value_double (attack p)) ''attack'' s) (\<lambda>s.
     bindr (save_config (lash_config_set_value_double (decay p)) ''decay'' s) (\<lambda>s.
     bindr (save_config (lash_config_set_value_double (sustain p)) ''sustain'' s) (\<lambda>s.
     bindr (save_config (lash_config_set_value_double (release p)) ''release'' s) (\<lambda>s.
     bindr (save_config (lash_config_set_value_double (gain p)) ''gain'' s) (\<lambda>s.
     bindr (save_config (lash_config_set_value_int (harmonic p)) ''harmonic'' s) (\<lambda>s.
     bindr (save_config (lash_config_set_value_int (subharmonic p)) ''subharmonic'' s) (\<lambda>s.
       save_config (lash_config_set_value_int (transpose p)) ''transpose'' s))))))))"

definition restore_data :: "lash_config \<Rightarrow> synth \<Rightarrow> synth res" where
  "restore_data config p =
     (let double = lash_config_get_value_double (Some config); int = lash_config_get_value_int (Some config) in
      case lash_config_get_key (Some config) of
        None \<Rightarrow> Inl Null_deref
      | Some key \<Rightarrow>
          if key = ''modulation'' then bindr double (\<lambda>v. Inr (p\<lparr>modulation := v\<rparr>))
          else if key = ''attack'' then bindr double (\<lambda>v. Inr (p\<lparr>attack := v\<rparr>))
          else if key = ''decay'' then bindr double (\<lambda>v. Inr (p\<lparr>decay := v\<rparr>))
          else if key = ''sustain'' then bindr double (\<lambda>v. Inr (p\<lparr>sustain := v\<rparr>))
          else if key = ''release'' then bindr double (\<lambda>v. Inr (p\<lparr>release := v\<rparr>))
          else if key = ''gain'' then bindr double (\<lambda>v. Inr (p\<lparr>gain := v\<rparr>))
          else if key = ''harmonic'' then bindr int (\<lambda>v. Inr (p\<lparr>harmonic := v\<rparr>))
          else if key = ''subharmonic'' then bindr int (\<lambda>v. Inr (p\<lparr>subharmonic := v\<rparr>))
          else if key = ''transpose'' then bindr int (\<lambda>v. Inr (p\<lparr>transpose := v\<rparr>))
          else Inr p)"

section \<open>The event loop\<close>

text \<open>
  Both loops ask the library until it has nothing; each call dispatches one of the messages given, or
  none when there are no more. \<open>None\<close> is no return; the result holds \<open>quit\<close> and, for a lost
  server, that the loop was left.
\<close>

definition next_message :: "message list \<Rightarrow> message option \<times> message list" where
  "next_message ms = (case ms of [] \<Rightarrow> (None, []) | m # rest \<Rightarrow> (Some m, rest))"

abbreviation bindl :: "'a res \<Rightarrow> ('a \<Rightarrow> 'b res option) \<Rightarrow> 'b res option" where
  "bindl r k \<equiv> (case r of Inl f \<Rightarrow> Some (Inl f) | Inr x \<Rightarrow> k x)"

text \<open>What becomes of one event: the library, whether to quit, whether the server is lost.\<close>

definition handle_event :: "addr \<Rightarrow> synth \<Rightarrow> lib \<Rightarrow> (lib \<times> bool \<times> bool) res" where
  "handle_event a p s =
     bindr (live_event a s) (\<lambda>e.
       case ev_type e of
         LASH_Quit \<Rightarrow> bindr (lash_event_destroy a s) (\<lambda>s1. Inr (s1, True, False))
       | LASH_Restore_Data_Set \<Rightarrow> bindr (lash_send_event a s) (\<lambda>s1. Inr (s1, False, False))
       | LASH_Save_Data_Set \<Rightarrow> bindr (save_data p s) (\<lambda>s1. bindr (lash_send_event a s1) (\<lambda>s2. Inr (s2, False, False)))
       | LASH_Server_Lost \<Rightarrow> Inr (s, False, True)
       | _ \<Rightarrow> bindr (lash_event_destroy a s) (\<lambda>s1. Inr (s1, False, False)))"

partial_function (option) event_loop ::
  "uuid_lib \<Rightarrow> string option \<Rightarrow> message list \<Rightarrow> synth \<Rightarrow> bool \<Rightarrow> lib \<Rightarrow> (lib \<times> message list \<times> bool \<times> bool) res option" where
  "event_loop U path ms p quit s =
     (let (m, rest) = next_message ms in
      bindl (lash_get_event U path m s) (\<lambda>(s1, event).
        case event of
          None \<Rightarrow> Some (Inr (s1, rest, quit, False))
        | Some a \<Rightarrow>
            bindl (handle_event a p s1) (\<lambda>(s2, q, lost).
              if lost then Some (Inr (s2, rest, quit, True)) else event_loop U path rest p (quit \<or> q) s2)))"

partial_function (option) config_loop ::
  "uuid_lib \<Rightarrow> string option \<Rightarrow> message list \<Rightarrow> synth \<Rightarrow> lib \<Rightarrow> (lib \<times> message list \<times> synth) res option" where
  "config_loop U path ms p s =
     (let (m, rest) = next_message ms in
      bindl (lash_get_config U path m s) (\<lambda>(s1, config).
        case config of
          None \<Rightarrow> Some (Inr (s1, rest, p))
        | Some c \<Rightarrow> bindl (restore_data c p) (\<lambda>p1. config_loop U path rest p1 s1)))"

text \<open>One call: the state, the messages left, and the number returned.\<close>

definition lash_main ::
  "uuid_lib \<Rightarrow> string option \<Rightarrow> message list \<Rightarrow> synth \<Rightarrow> bool \<Rightarrow> lib \<Rightarrow> (lib \<times> message list \<times> synth \<times> bool \<times> nat) res option" where
  "lash_main U path ms p quit s =
     Option.bind (event_loop U path ms p quit s) (\<lambda>r. bindl r (\<lambda>(s1, rest, q, lost).
       if lost then Some (Inr (s1, rest, p, q, 1))
       else Option.bind (config_loop U path rest p s1) (\<lambda>r. bindl r (\<lambda>(s2, rest2, p1).
         Some (Inr (s2, rest2, p1, q, 0))))))"

section \<open>What is saved comes back\<close>

text \<open>The nine parameters as configurations.\<close>

definition raw :: "string \<Rightarrow> string \<Rightarrow> string \<times> char \<times> string" where
  "raw key v = (key, CHR ''-'', v)"

definition params :: "synth \<Rightarrow> (string \<times> char \<times> string) list" where
  "params p =
     [raw ''modulation'' (modulation p), raw ''attack'' (attack p), raw ''decay'' (decay p), raw ''sustain'' (sustain p),
      raw ''release'' (release p), raw ''gain'' (gain p), raw ''harmonic'' (u32_bytes (harmonic p)),
      raw ''subharmonic'' (u32_bytes (subharmonic p)), raw ''transpose'' (u32_bytes (transpose p))]"

definition config_of :: "string \<times> char \<times> string \<Rightarrow> lash_config" where
  "config_of c = (case c of (key, ty, v) \<Rightarrow>
     \<lparr>c_key = Some key, c_value = Some v, c_value_size = word_of_nat (length v), c_value_type = CHR ''-''\<rparr>)"

text \<open>A value of 4 or 8 bytes.\<close>

definition small_raw :: "string \<times> char \<times> string \<Rightarrow> bool" where
  "small_raw c \<longleftrightarrow> (case c of (key, ty, v) \<Rightarrow> key \<noteq> [] \<and> ty = CHR ''-'' \<and> (length v = 4 \<or> length v = 8))"

definition doubles_ok :: "synth \<Rightarrow> bool" where
  "doubles_ok p \<longleftrightarrow> length (modulation p) = 8 \<and> length (attack p) = 8 \<and> length (decay p) = 8 \<and> length (sustain p) = 8
     \<and> length (release p) = 8 \<and> length (gain p) = 8"

lemma params_small: "doubles_ok p \<Longrightarrow> \<forall>c \<in> set (params p). small_raw c"
  by (auto simp: params_def raw_def small_raw_def doubles_ok_def)

lemma small_good: "small_raw c \<Longrightarrow> good_config c"
  by (auto simp: small_raw_def good_config_def)

lemma set_config:
  "length v = 8 \<Longrightarrow> lash_config_set_value_double v (Some (lash_config_new_with_key (Some key))) = Inr (Some (config_of (raw key v)))"
  "lash_config_set_value_int w (Some (lash_config_new_with_key (Some key))) = Inr (Some (config_of (raw key (u32_bytes w))))"
  by (simp_all add: lash_config_set_value_double_def lash_config_set_value_int_def lash_config_set_value_def copy_bytes_def
      config_of_def raw_def lash_config_new_with_key_def lash_config_new_def lash_strdup_def)

text \<open>Sending one configuration appends its entry.\<close>

definition add_unsent :: "dval list \<Rightarrow> lib \<Rightarrow> lib" where
  "add_unsent es = upd (\<lambda>c. c\<lparr>lc_unsent_configs := (fst (lc_unsent_configs c), snd (lc_unsent_configs c) @ es)\<rparr>)"

lemma send_small:
  assumes "small_raw c"
  shows "lash_send_config (config_of c) s = add_unsent [config_entry c] s"
proof -
  obtain key ty v where c: "c = (key, ty, v)" by (cases c)
  obtain t es where u: "lc_unsent_configs (lb_client s) = (t, es)" by fastforce
  have v: "ty = CHR ''-''" "length v = 4 \<or> length v = 8" using assms c by (simp_all add: small_raw_def)
  have "sint (ucast (word_of_nat (length v) :: u64) :: u32) = int (length v)" using v(2) by auto
  moreover have "lash_config_write_raw \<lparr>h_entries = es, h_is_read = False\<rparr> (Some key) (Some v) (int (length v))
      = (\<lparr>h_entries = es @ [config_entry c], h_is_read = False\<rparr>, True)"
    using write_good [of key ty v "\<lparr>h_entries = es, h_is_read = False\<rparr>"] small_good [OF assms] c v(1) by simp
  ultimately show ?thesis using u by (simp add: lash_send_config_def c config_of_def add_unsent_def upd_def)
qed

lemma add_unsent_add [simp]: "add_unsent es (add_unsent ds s) = add_unsent (ds @ es) s"
  by (simp add: add_unsent_def upd_def)

lemma save_double:
  "length v = 8 \<Longrightarrow> key \<noteq> [] \<Longrightarrow>
     save_config (lash_config_set_value_double v) key s = Inr (add_unsent [config_entry (raw key v)] s)"
  by (simp add: save_config_def set_config send_small small_raw_def raw_def)

lemma save_int:
  "key \<noteq> [] \<Longrightarrow> save_config (lash_config_set_value_int w) key s = Inr (add_unsent [config_entry (raw key (u32_bytes w))] s)"
  by (simp add: save_config_def set_config send_small small_raw_def raw_def)

lemma save_data_entries: "doubles_ok p \<Longrightarrow> save_data p s = Inr (add_unsent (map config_entry (params p)) s)"
  by (simp add: save_data_def save_double save_int doubles_ok_def params_def)

text \<open>Every entry of a data set arrives as a configuration of the queue.\<close>

lemma queue_small:
  "\<forall>c \<in> set cs. small_raw c \<Longrightarrow> queue_configs \<lparr>h_entries = map config_entry cs, h_is_read = True\<rparr> s
     = Inr (fold (\<lambda>c. lash_client_add_config (config_of c)) cs s, No_reply)"
proof (induction cs arbitrary: s)
  case Nil
  then show ?case by (subst queue_configs.simps) (simp add: lash_config_read_def)
next
  case (Cons c cs)
  obtain key ty v where c: "c = (key, ty, v)" by (cases c)
  have v: "key \<noteq> []" "ty = CHR ''-''" "length v = 4 \<or> length v = 8" using Cons.prems c by (simp_all add: small_raw_def)
  have "v \<noteq> []" using v(3) by auto
  have read: "lash_config_read \<lparr>h_entries = map config_entry (c # cs), h_is_read = True\<rparr>
      = (\<lparr>h_entries = map config_entry cs, h_is_read = True\<rparr>, int (length v), Some (key, ty, v))"
    using v by (simp add: c config_entry_def lash_config_read_def method_iter_get_dict_entry_def bytes_of_chars Let_def)
  have "lash_config_set_value (Some v) (word_of_int (int (length v))) (Some (lash_config_new_with_key (Some key)))
      = Inr (Some (config_of c))"
    using v by (auto simp: lash_config_set_value_def copy_bytes_def config_of_def c lash_config_new_with_key_def
        lash_config_new_def lash_strdup_def)
  then have "queue_configs \<lparr>h_entries = map config_entry (c # cs), h_is_read = True\<rparr> s
      = queue_configs \<lparr>h_entries = map config_entry cs, h_is_read = True\<rparr> (lash_client_add_config (config_of c) s)"
    using v(2) \<open>v \<noteq> []\<close> by (subst queue_configs.simps) (simp add: read del: list.map)
  then show ?case using Cons by simp
qed

lemma fold_add_config:
  "lb_events (fold (\<lambda>c. lash_client_add_config (config_of c)) cs s) = lb_events s"
  "lb_next (fold (\<lambda>c. lash_client_add_config (config_of c)) cs s) = lb_next s"
  "lb_pending (fold (\<lambda>c. lash_client_add_config (config_of c)) cs s) = lb_pending s"
  "lc_configs_in (lb_client (fold (\<lambda>c. lash_client_add_config (config_of c)) cs s)) = lc_configs_in (lb_client s) @ map config_of cs"
  "lc_events_in (lb_client (fold (\<lambda>c. lash_client_add_config (config_of c)) cs s)) = lc_events_in (lb_client s)"
  "lc_server_connected (lb_client (fold (\<lambda>c. lash_client_add_config (config_of c)) cs s)) = lc_server_connected (lb_client s)"
  by (induction cs arbitrary: s) (simp_all add: lash_client_add_config_def upd_def)

fun restore_all :: "lash_config list \<Rightarrow> synth \<Rightarrow> synth res" where
  "restore_all [] p = Inr p"
| "restore_all (c # cs) p = bindr (restore_data c p) (restore_all cs)"

lemma no_more_configs: "lc_configs_in (lb_client s) = [] \<Longrightarrow> config_loop U path [] p s = Some (Inr (s, [], p))"
  by (subst config_loop.simps) (simp add: next_message_def lash_get_config_def lash_dispatch_once_def)

lemma config_loop_restores:
  "lc_configs_in (lb_client s) = cs \<Longrightarrow> restore_all cs p = Inr p1 \<Longrightarrow>
     \<exists>s1. config_loop U path [] p s = Some (Inr (s1, [], p1))"
proof (induction cs arbitrary: s p)
  case Nil
  then show ?case using no_more_configs [of s U path p] by simp
next
  case (Cons c cs)
  let ?s = "upd (\<lambda>x. x\<lparr>lc_configs_in := cs, lc_num_configs_in := lc_num_configs_in x - 1\<rparr>) s"
  obtain p0 where p0: "restore_data c p = Inr p0" "restore_all cs p0 = Inr p1"
    using Cons.prems(2) by (auto simp: bindr_Inr_iff)
  have "config_loop U path [] p s = config_loop U path [] p0 ?s"
    using Cons.prems(1) p0(1)
    by (subst config_loop.simps) (simp add: next_message_def lash_get_config_def lash_dispatch_once_def)
  then show ?case using Cons.IH [of ?s p0] p0(2) by (simp add: upd_def)
qed

lemma params_restore: "doubles_ok p \<Longrightarrow> restore_all (map config_of (params p)) p0 = Inr p"
  by (simp add: params_def config_of_def raw_def restore_data_def lash_config_get_key_def lash_config_get_value_double_def
      lash_config_get_value_int_def lash_config_get_value_def copy_bytes_def doubles_ok_def bytes_u32_inverse Let_def)

text \<open>The loop over events with one task event in the queue: it is handled, and the loop ends.\<close>

lemma no_more_events:
  "lc_events_in (lb_client s) = [] \<Longrightarrow> lb_pending s = None \<Longrightarrow>
     event_loop U path [] p q s = Some (Inr (s, [], q, False))"
  by (subst event_loop.simps)
    (simp add: next_message_def lash_get_event_def lash_handle_pending_event_def lash_dispatch_once_def take_event_def)

lemma one_task_event:
  assumes "lc_server_connected (lb_client s)" "lc_events_in (lb_client s) = [a]" "lb_pending s = None"
    "lb_events s a = Some e" "is_task_type (ev_type e)"
    and run: "handle_event a p ((upd (\<lambda>c. c\<lparr>lc_events_in := [], lc_num_events_in := lc_num_events_in c - 1\<rparr>) s)\<lparr>lb_pending := Some a\<rparr>)
      = Inr (s2, False, False)"
    and left: "lc_events_in (lb_client s2) = []" "lb_pending s2 = None"
  shows "event_loop U path [] p q s = Some (Inr (s2, [], q, False))"
proof -
  let ?s1 = "(upd (\<lambda>c. c\<lparr>lc_events_in := [], lc_num_events_in := lc_num_events_in c - 1\<rparr>) s)\<lparr>lb_pending := Some a\<rparr>"
  have "lash_get_event U path None s = Inr (?s1, Some a)"
    using assms(1-5) by (simp add: lash_get_event_def lash_handle_pending_event_def lash_dispatch_once_def take_event_def
        live_event_def upd_def Let_def)
  then show ?thesis using run no_more_events [OF left, of U path p q]
    by (subst event_loop.simps) (simp add: next_message_def)
qed

definition saved_entries :: "synth \<Rightarrow> dval list" where
  "saved_entries p = map config_entry (params p)"

lemma save_runs:
  assumes p: "doubles_ok p" and c: "lc_server_connected c" "cb_save_data_set c = None" "t \<noteq> 0"
  shows "\<exists>s1. lash_main U path [] p q (lash_new_save_data_set_task t (lib_new c)) = Some (Inr (s1, [], p, q, 0))
    \<and> lb_out s1 = [Server_call ''CommitDataSet'' [DUint64 t, DArray ''{sv}'' (saved_entries p)]]"
proof -
  let ?e = "lash_event_new\<lparr>ev_type := LASH_Save_Data_Set, ev_ctor := Some Ctor_save_data_set\<rparr>"
  let ?s = "lash_new_save_data_set_task t (lib_new c)"
  let ?s1 = "(upd (\<lambda>c. c\<lparr>lc_events_in := [], lc_num_events_in := lc_num_events_in c - 1\<rparr>) ?s)\<lparr>lb_pending := Some 0\<rparr>"
  have s: "lc_server_connected (lb_client ?s)" "lc_events_in (lb_client ?s) = [0]" "lb_pending ?s = None"
      "lb_events ?s 0 = Some ?e" "is_task_type (ev_type ?e)" "lb_out ?s = []" "lc_configs_in (lb_client ?s) = []"
      "lc_unsent_configs (lb_client ?s) = (t, [])" "lc_pending_task (lb_client ?s) = t"
    using c by (simp_all add: lash_new_save_data_set_task_def lib_new_def start_task_def upd_def lash_client_add_event_def
        lash_event_new_with_type_def is_task_type_def Let_def)
  let ?t1 = "add_unsent (saved_entries p) ?s1"
  have save: "save_data p ?s1 = Inr ?t1" using save_data_entries [OF p] by (simp add: saved_entries_def)
  let ?t2 = "end_task (out (Server_call ''CommitDataSet'' [DUint64 t, DArray ''{sv}'' (saved_entries p)]) (?t1\<lparr>lb_pending := None\<rparr>))"
  let ?t3 = "?t2\<lparr>lb_events := (lb_events ?t2)(0 := None)\<rparr>"
  have send: "lash_send_event 0 ?t1 = Inr ?t3"
    using s c by (simp add: lash_send_event_def clear_pending_def live_event_def lash_event_destroy_def run_ctor_def
        lash_save_data_set_def end_task_def out_def upd_def add_unsent_def)
  have "handle_event 0 p ?s1 = Inr (?t3, False, False)"
    using s(4) save send by (simp add: handle_event_def live_event_def upd_def)
  then have "event_loop U path [] p q ?s = Some (Inr (?t3, [], q, False))"
    by (rule one_task_event [OF s(1-5)]) (simp_all add: end_task_def out_def upd_def add_unsent_def)
  moreover have "lc_configs_in (lb_client ?t3) = []" using s(7) by (simp add: end_task_def out_def upd_def add_unsent_def)
  then have "config_loop U path [] p ?t3 = Some (Inr (?t3, [], p))" by (rule no_more_configs)
  moreover have "lb_out ?t3 = [Server_call ''CommitDataSet'' [DUint64 t, DArray ''{sv}'' (saved_entries p)]]"
    using s(6) by (simp add: end_task_def out_def upd_def add_unsent_def)
  ultimately show ?thesis by (simp add: lash_main_def)
qed

lemma load_runs:
  assumes p: "doubles_ok p" and c: "lc_server_connected c" "cb_load_data_set c = None" "lc_pending_task c = 0"
    and m: "msg_args m = [DUint64 t, DArray sig (saved_entries p)]"
  shows "\<exists>s2 s3. lash_dbus_load_data_set m (lib_new c) = Inr (s2, No_reply)
    \<and> lash_main U path [] p0 q s2 = Some (Inr (s3, [], p, q, 0))"
proof -
  let ?e = "lash_event_new\<lparr>ev_type := LASH_Restore_Data_Set, ev_ctor := Some Ctor_task_done\<rparr>"
  let ?l = "lash_client_add_event (lash_event_new_with_type LASH_Restore_Data_Set) (start_task t (lib_new c))"
  let ?s2 = "fold (\<lambda>c. lash_client_add_config (config_of c)) (params p) ?l"
  have load: "lash_dbus_load_data_set m (lib_new c) = Inr (?s2, No_reply)"
    using c m queue_small [OF params_small [OF p], of ?l]
    by (simp add: lash_dbus_load_data_set_def get_task_id_def lib_new_def start_task_def upd_def saved_entries_def Let_def)
  have l: "lc_server_connected (lb_client ?l)" "lc_events_in (lb_client ?l) = [0]" "lb_pending ?l = None"
      "lb_events ?l 0 = Some ?e" "is_task_type (ev_type ?e)" "lc_configs_in (lb_client ?l) = []"
    using c by (simp_all add: lib_new_def start_task_def upd_def lash_client_add_event_def
        lash_event_new_with_type_def is_task_type_def)
  note s2 = l [folded fold_add_config(1-3,5,6) [of "params p" ?l]]
  let ?s3 = "(upd (\<lambda>c. c\<lparr>lc_events_in := [], lc_num_events_in := lc_num_events_in c - 1\<rparr>) ?s2)\<lparr>lb_pending := Some 0\<rparr>"
  let ?t2 = "lash_task_done (?s3\<lparr>lb_pending := None\<rparr>)"
  let ?t3 = "?t2\<lparr>lb_events := (lb_events ?t2)(0 := None)\<rparr>"
  have ev: "lb_events ?s2 0 = Some ?e" "lc_server_connected (lb_client ?s2)" using l by (simp_all add: fold_add_config)
  have send: "lash_send_event 0 ?s3 = Inr ?t3"
    using ev by (simp add: lash_send_event_def clear_pending_def live_event_def lash_event_destroy_def run_ctor_def
        lash_task_done_def end_task_def out_def upd_def)
  have "handle_event 0 p0 ?s3 = Inr (?t3, False, False)"
    using ev(1) send by (simp add: handle_event_def live_event_def upd_def)
  then have loop: "event_loop U path [] p0 q ?s2 = Some (Inr (?t3, [], q, False))"
    by (rule one_task_event [where e = ?e, rotated 5])
      (use l in \<open>simp_all add: fold_add_config lash_task_done_def end_task_def out_def upd_def\<close>)
  have "lc_configs_in (lb_client ?t3) = map config_of (params p)"
    using l(6) by (simp add: fold_add_config lash_task_done_def end_task_def out_def upd_def)
  from config_loop_restores [OF this params_restore [OF p], of U path p0]
  obtain s4 where "config_loop U path [] p0 ?t3 = Some (Inr (s4, [], p))" by blast
  then have "lash_main U path [] p0 q ?s2 = Some (Inr (s4, [], p, q, 0))" using loop by (simp add: lash_main_def)
  then show ?thesis using load by blast
qed

text \<open>C18. The synthesizer's state survives: told to save, one round of its loop answers with a data set; when that data
  set is given to another run of the program, one round of its loop ends with the nine parameters of the
  first, whatever they were before.\<close>

theorem synth_state_survives:
  assumes "doubles_ok p" "t \<noteq> 0" "lc_server_connected c" "cb_save_data_set c = None"
    "lc_server_connected d" "cb_load_data_set d = None" "lc_pending_task d = 0"
  shows "\<exists>s1 es. lash_main U path [] p q (lash_new_save_data_set_task t (lib_new c)) = Some (Inr (s1, [], p, q, 0))
    \<and> lb_out s1 = [Server_call ''CommitDataSet'' [DUint64 t, DArray ''{sv}'' es]]
    \<and> (\<exists>s2 s3. lash_dbus_load_data_set \<lparr>msg_type = Message_method_call, msg_interface = Some ''org.nongnu.LASH.Client'',
          msg_member = Some ''LoadDataSet'', msg_sender = sender, msg_args = [DUint64 t', DArray ''{sv}'' es]\<rparr> (lib_new d)
          = Inr (s2, No_reply)
        \<and> lash_main U path [] p0 q' s2 = Some (Inr (s3, [], p, q', 0)))"
proof -
  obtain s1 where s1: "lash_main U path [] p q (lash_new_save_data_set_task t (lib_new c)) = Some (Inr (s1, [], p, q, 0))"
    "lb_out s1 = [Server_call ''CommitDataSet'' [DUint64 t, DArray ''{sv}'' (saved_entries p)]]"
    using save_runs [OF assms(1,3,4,2)] by blast
  let ?m = "\<lparr>msg_type = Message_method_call, msg_interface = Some ''org.nongnu.LASH.Client'',
      msg_member = Some ''LoadDataSet'', msg_sender = sender, msg_args = [DUint64 t', DArray ''{sv}'' (saved_entries p)]\<rparr>"
  have "msg_args ?m = [DUint64 t', DArray ''{sv}'' (saved_entries p)]" by simp
  from load_runs [OF assms(1,5-7) this] s1 show ?thesis by blast
qed

definition example_synth :: synth where
  "example_synth =
     \<lparr>modulation = replicate 8 CHR ''a'', attack = replicate 8 CHR ''b'', decay = replicate 8 CHR ''c'',
      sustain = replicate 8 CHR ''d'', release = replicate 8 CHR ''e'', gain = replicate 8 CHR ''f'',
      harmonic = 1, subharmonic = 3, transpose = 12\<rparr>"

theorem synth_state_survives_witness:
  "\<exists>s1 es. lash_main example_uuids None [] example_synth False
      (lash_new_save_data_set_task 7 (lib_new (lash_client_new\<lparr>lc_server_connected := True\<rparr>)))
    = Some (Inr (s1, [], example_synth, False, 0))
    \<and> lb_out s1 = [Server_call ''CommitDataSet'' [DUint64 7, DArray ''{sv}'' es]]"
proof -
  let ?c = "lash_client_new\<lparr>lc_server_connected := True\<rparr>"
  have "doubles_ok example_synth" by (simp add: doubles_ok_def example_synth_def)
  from synth_state_survives [OF this, of 7 ?c ?c example_uuids None False None 8 "example_synth\<lparr>transpose := 0\<rparr>" False]
  show ?thesis by (simp add: lash_client_new_def) blast
qed

end
